(* ===== verification/Prelude.thy ===== *)
theory Prelude
  imports Complex_Main "HOL-Library.Sublist"
begin

text \<open>
  Shared vocabulary of the development: how JavaScript values are represented, the string
  operations of the language that the portal uses, generic facts on lists, and the interface
  (a locale) of every "first one wins" merge of the code.

  Representation choices.
  \<^item> A string is a HOL \<^typ>\<open>string\<close>: a list of code units below 256. On these units
    \<open>trim\<close>, \<open>toLowerCase\<close> and the class \<open>\s\<close> of regular expressions are the exact
    JavaScript ones (white space: tab to carriage return, space, no-break space; letters:
    ASCII and Latin-1). Of the source's own literals outside this range, the bullet, the
    ellipsis and the dash are written with the units Windows-1252 gives them (0x95, 0x85,
    0x97), one unit each as in JavaScript; a Chinese sentence is a constructor of a datatype.
  \<^item> An optional field or an \<open>undefined\<close>/\<open>null\<close> answer is an \<^typ>\<open>'a option\<close>.
  \<^item> A thrown error or an error response is the left part of a sum.
\<close>

section \<open>Collections of facts\<close>

named_theorems js_string \<open>unfolding the JavaScript string operations\<close>
named_theorems card_simps \<open>frame facts of the conversation model\<close>

section \<open>Optional values\<close>

text \<open>\<open>a ?? b\<close>, and \<open>a || b\<close> on an optional string (the empty string is falsy).\<close>

definition nullish :: "'a option \<Rightarrow> 'a \<Rightarrow> 'a" where
  "nullish x d = (case x of None \<Rightarrow> d | Some v \<Rightarrow> v)"

definition truthy :: "string option \<Rightarrow> bool" where
  "truthy x = (case x of None \<Rightarrow> False | Some s \<Rightarrow> s \<noteq> [])"

definition or_str :: "string option \<Rightarrow> string \<Rightarrow> string" where
  "or_str x d = (if truthy x then the x else d)"

definition or_undef :: "string option \<Rightarrow> string option" where
  "or_undef x = (if truthy x then x else None)"

lemma nullish_simps [simp]: "nullish None d = d" "nullish (Some v) d = v"
  by (simp_all add: nullish_def)

lemma truthy_simps [simp]: "\<not> truthy None" "truthy (Some s) \<longleftrightarrow> s \<noteq> []"
  by (simp_all add: truthy_def)

lemma truthyE: "truthy x \<Longrightarrow> (\<And>s. x = Some s \<Longrightarrow> s \<noteq> [] \<Longrightarrow> thesis) \<Longrightarrow> thesis"
  by (cases x) auto

lemma or_str_simps [simp]:
  "or_str None d = d" "or_str (Some []) d = d" "s \<noteq> [] \<Longrightarrow> or_str (Some s) d = s"
  by (simp_all add: or_str_def)

lemma or_undef_simps [simp]:
  "or_undef None = None" "or_undef (Some []) = None" "s \<noteq> [] \<Longrightarrow> or_undef (Some s) = Some s"
  by (simp_all add: or_undef_def)

section \<open>Lists\<close>

text \<open>\<open>Array.prototype.findIndex\<close>; the code's \<open>-1\<close> is \<^const>\<open>None\<close>.\<close>

fun find_index :: "('a \<Rightarrow> bool) \<Rightarrow> 'a list \<Rightarrow> nat option" where
  "find_index P [] = None"
| "find_index P (x # xs) = (if P x then Some 0 else map_option Suc (find_index P xs))"

lemma find_index_None: "find_index P xs = None \<longleftrightarrow> (\<forall>x\<in>set xs. \<not> P x)"
  by (induction xs) auto

lemma find_index_SomeD:
  assumes "find_index P xs = Some i"
  shows "i < length xs" and "P (xs ! i)" and "\<And>j. j < i \<Longrightarrow> \<not> P (xs ! j)"
proof -
  have "i < length xs \<and> P (xs ! i) \<and> (\<forall>j<i. \<not> P (xs ! j))"
    using assms
  proof (induction xs arbitrary: i)
    case Nil
    then show ?case by simp
  next
    case (Cons x xs)
    show ?case
    proof (cases "P x")
      case True
      with Cons.prems show ?thesis by simp
    next
      case False
      with Cons.prems obtain k where k: "find_index P xs = Some k" "i = Suc k" by auto
      with Cons.IH have "k < length xs \<and> P (xs ! k) \<and> (\<forall>j<k. \<not> P (xs ! j))" by simp
      with False k show ?thesis by (auto simp: nth_Cons split: nat.split)
    qed
  qed
  then show "i < length xs" and "P (xs ! i)" and "\<And>j. j < i \<Longrightarrow> \<not> P (xs ! j)" by auto
qed

lemma find_index_append:
  "find_index P (xs @ ys) =
     (case find_index P xs of Some i \<Rightarrow> Some i
      | None \<Rightarrow> map_option ((+) (length xs)) (find_index P ys))"
proof (induction xs)
  case Nil
  then show ?case by (cases "find_index P ys") auto
next
  case (Cons x xs)
  then show ?case by (cases "find_index P ys") (auto split: option.splits)
qed

text \<open>\<open>Array.prototype.find\<close> is \<^const>\<open>List.find\<close>; the i-th element when there is one.\<close>

definition nth_opt :: "'a list \<Rightarrow> nat \<Rightarrow> 'a option" where
  "nth_opt xs i = (if i < length xs then Some (xs ! i) else None)"

definition last_opt :: "'a list \<Rightarrow> 'a option" where
  "last_opt xs = (if xs = [] then None else Some (last xs))"

lemma last_opt_simps [simp]: "last_opt [] = None" "last_opt (xs @ [x]) = Some x"
  by (simp_all add: last_opt_def)

lemma last_opt_SomeD: "last_opt xs = Some x \<Longrightarrow> xs \<noteq> [] \<and> x = last xs"
  by (auto simp: last_opt_def split: if_splits)

lemma take_butlast_update: "xs \<noteq> [] \<Longrightarrow> xs[length xs - 1 := x] = butlast xs @ [x]"
  by (cases xs rule: rev_cases) auto

lemma map_update_same:
  "i < length xs \<Longrightarrow> f y = f (xs ! i) \<Longrightarrow> map f (xs[i := y]) = map f xs"
  by (simp add: map_update list_update_same_conv)

lemma subseq_distinct: "subseq xs ys \<Longrightarrow> distinct ys \<Longrightarrow> distinct xs"
  by (auto simp: subseq_conv_nths intro: distinct_nthsI)

lemma subseq_set: "subseq xs ys \<Longrightarrow> set xs \<subseteq> set ys"
  by (metis notin_set_nthsI subseq_conv_nths subsetI)

lemma subseq_mapI: "subseq xs ys \<Longrightarrow> subseq (map f xs) (map f ys)"
  by (rule subseq_map)

lemma list_all2_map_eq:
  "list_all2 P xs ys \<Longrightarrow> (\<And>x y. P x y \<Longrightarrow> f x = g y) \<Longrightarrow> map f xs = map g ys"
  by (induction rule: list_all2_induct) auto

lemma find_SomeD: "find P xs = Some x \<Longrightarrow> x \<in> set xs \<and> P x"
  by (induction xs) (auto split: if_splits)

lemma prefix_hd: "prefix xs ys \<Longrightarrow> xs \<noteq> [] \<Longrightarrow> hd ys = hd xs"
  by (auto simp: prefix_def)

lemma prefix_not_Nil: "prefix xs ys \<Longrightarrow> xs \<noteq> [] \<Longrightarrow> ys \<noteq> []"
  by auto

lemma dropWhile_shrinks [termination_simp]: "length (dropWhile P xs) < Suc (length xs)"
  by (simp add: length_dropWhile_le less_Suc_eq_le)

section \<open>Characters\<close>

definition js_space :: "char \<Rightarrow> bool" where
  "js_space c \<longleftrightarrow> c = CHR 0x09 \<or> c = CHR 0x0A \<or> c = CHR 0x0B \<or> c = CHR 0x0C \<or> c = CHR 0x0D
     \<or> c = CHR '' '' \<or> c = CHR 0xA0"

definition between :: "char \<Rightarrow> char \<Rightarrow> char \<Rightarrow> bool" where
  "between lo hi c \<longleftrightarrow> (of_char lo :: nat) \<le> of_char c \<and> (of_char c :: nat) \<le> of_char hi"

definition lower_alpha :: "char \<Rightarrow> bool" where
  "lower_alpha c = between CHR ''a'' CHR ''z'' c"

definition upper_alpha :: "char \<Rightarrow> bool" where
  "upper_alpha c = between CHR ''A'' CHR ''Z'' c"

definition digit :: "char \<Rightarrow> bool" where
  "digit c = between CHR ''0'' CHR ''9'' c"

text \<open>\<open>[a-z0-9]\<close>, and \<open>[-a-z0-9]\<close>.\<close>

definition lower_alnum :: "char \<Rightarrow> bool" where
  "lower_alnum c \<longleftrightarrow> lower_alpha c \<or> digit c"

definition label_char :: "char \<Rightarrow> bool" where
  "label_char c \<longleftrightarrow> lower_alnum c \<or> c = CHR ''-''"

definition lower_char :: "char \<Rightarrow> char" where
  "lower_char c = (let n = (of_char c :: nat) in
     if (65 \<le> n \<and> n \<le> 90) \<or> (192 \<le> n \<and> n \<le> 222 \<and> n \<noteq> 215) then char_of (n + 32) else c)"

lemma of_char_lower_char:
  "(of_char (lower_char c) :: nat) =
     (let n = of_char c in
      if (65 \<le> n \<and> n \<le> 90) \<or> (192 \<le> n \<and> n \<le> 222 \<and> n \<noteq> 215) then n + 32 else n)"
  by (auto simp: lower_char_def Let_def)

lemma lower_char_idem [simp]: "lower_char (lower_char c) = lower_char c"
proof -
  have "(of_char (lower_char (lower_char c)) :: nat) = of_char (lower_char c)"
    by (simp add: of_char_lower_char Let_def split: if_splits)
  then show ?thesis by simp
qed

lemma lower_alnum_lower_char [simp]: "lower_alnum c \<Longrightarrow> lower_char c = c"
  by (auto simp: lower_alnum_def lower_alpha_def digit_def between_def lower_char_def Let_def)

lemma lower_char_not_upper: "\<not> upper_alpha (lower_char c)"
  by (auto simp: upper_alpha_def between_def of_char_lower_char Let_def split: if_splits)

lemma dash_not_alnum [simp]: "\<not> lower_alnum CHR ''-''"
  by (simp add: lower_alnum_def lower_alpha_def digit_def between_def)

lemma lower_alnum_not_dash: "lower_alnum c \<Longrightarrow> c \<noteq> CHR ''-''"
  by auto

lemma lower_alnum_not_space: "lower_alnum c \<Longrightarrow> \<not> js_space c"
  by (auto simp: js_space_def lower_alnum_def lower_alpha_def digit_def between_def)

lemma label_char_not_space: "label_char c \<Longrightarrow> \<not> js_space c"
  by (auto simp: label_char_def lower_alnum_not_space) (simp add: js_space_def)

section \<open>Strings\<close>

definition toLowerCase :: "string \<Rightarrow> string" where
  "toLowerCase s = map lower_char s"

definition trimStart :: "string \<Rightarrow> string" where
  "trimStart s = dropWhile js_space s"

definition trimEnd :: "string \<Rightarrow> string" where
  "trimEnd s = rev (dropWhile js_space (rev s))"

definition trim :: "string \<Rightarrow> string" where
  "trim s = trimEnd (trimStart s)"

abbreviation startsWith :: "string \<Rightarrow> string \<Rightarrow> bool" where
  "startsWith s p \<equiv> prefix p s"

abbreviation endsWith :: "string \<Rightarrow> string \<Rightarrow> bool" where
  "endsWith s p \<equiv> suffix p s"

text \<open>\<open>s.includes(t)\<close>.\<close>

definition str_includes :: "string \<Rightarrow> string \<Rightarrow> bool" where
  "str_includes s t = sublist t s"

text \<open>\<open>s.slice(0, -t.length)\<close> where \<open>s\<close> ends with \<open>t\<close>.\<close>

definition drop_end :: "nat \<Rightarrow> string \<Rightarrow> string" where
  "drop_end n s = take (length s - n) s"

text \<open>\<open>s.replace(/c+$/, "")\<close>, and \<open>s.replace(/^c+|c+$/g, "")\<close>.\<close>

definition strip_trailing :: "char \<Rightarrow> string \<Rightarrow> string" where
  "strip_trailing c s = rev (dropWhile ((=) c) (rev s))"

definition strip_ends :: "char \<Rightarrow> string \<Rightarrow> string" where
  "strip_ends c s = strip_trailing c (dropWhile ((=) c) s)"

text \<open>\<open>s.replace(/[^ok]+/g, r)\<close>: every maximal run of characters outside the class becomes
  one \<open>r\<close>.\<close>

fun collapse_runs :: "(char \<Rightarrow> bool) \<Rightarrow> char \<Rightarrow> string \<Rightarrow> string" where
  "collapse_runs ok r [] = []"
| "collapse_runs ok r (c # cs) =
     (if ok c then c # collapse_runs ok r cs
      else r # collapse_runs ok r (dropWhile (\<lambda>x. \<not> ok x) cs))"

text \<open>\<open>s.split(c)\<close> for one character, \<open>parts.join(sep)\<close>, and \<open>s.split(/\s+/)\<close>.\<close>

fun split_char :: "char \<Rightarrow> string \<Rightarrow> string list" where
  "split_char c [] = [[]]"
| "split_char c (x # xs) =
     (if x = c then [] # split_char c xs
      else case split_char c xs of [] \<Rightarrow> [[x]] | p # ps \<Rightarrow> (x # p) # ps)"

fun join :: "string \<Rightarrow> string list \<Rightarrow> string" where
  "join sep [] = []"
| "join sep [s] = s"
| "join sep (s # t # ts) = s @ sep @ join sep (t # ts)"

function split_ws :: "string \<Rightarrow> string list" where
  "split_ws s =
     (let w = takeWhile (\<lambda>c. \<not> js_space c) s; r = dropWhile (\<lambda>c. \<not> js_space c) s
      in if r = [] then [w] else w # split_ws (dropWhile js_space r))"
  by pat_completeness auto
termination
proof (relation "measure length", goal_cases)
  case 1
  show ?case by simp
next
  case (2 s w r)
  then have "r \<noteq> []" and r: "r = dropWhile (\<lambda>c. \<not> js_space c) s" by auto
  then have "js_space (hd r)" by (metis hd_dropWhile)
  with \<open>r \<noteq> []\<close> have "length (dropWhile js_space r) < length r"
    by (cases r) (auto intro: le_imp_less_Suc length_dropWhile_le)
  also have "length r \<le> length s" by (simp add: r length_dropWhile_le)
  finally show ?case by simp
qed

declare split_ws.simps [simp del]

text \<open>Decimal digits of a natural number, \<open>String(n)\<close>, and \<open>Number(s)\<close> on a digit string.\<close>

definition digit_char :: "nat \<Rightarrow> char" where
  "digit_char d = char_of (48 + d)"

fun nat_to_string :: "nat \<Rightarrow> string" where
  "nat_to_string n =
     (if n < 10 then [digit_char n] else nat_to_string (n div 10) @ [digit_char (n mod 10)])"

declare nat_to_string.simps [simp del]

definition digit_value :: "char \<Rightarrow> nat" where
  "digit_value c = of_char c - 48"

definition string_to_nat :: "string \<Rightarrow> nat" where
  "string_to_nat s = foldl (\<lambda>n c. 10 * n + digit_value c) 0 s"

section \<open>Facts on the string operations\<close>

lemma split_char_not_Nil [simp]: "split_char c s \<noteq> []"
  by (induction s) (auto split: list.split)

lemma join_Cons: "join sep (s # ts) = (if ts = [] then s else s @ sep @ join sep ts)"
  by (cases ts) auto

lemma join_split_char: "join [c] (split_char c s) = s"
  by (induction s) (auto simp: join_Cons split: list.split)

lemma split_char_parts: "p \<in> set (split_char c s) \<Longrightarrow> c \<notin> set p"
  by (induction s arbitrary: p) (fastforce split: list.splits if_splits)+

lemma split_char_no_sep: "c \<notin> set s \<Longrightarrow> split_char c s = [s]"
  by (induction s) auto

lemma split_char_append: "c \<notin> set s \<Longrightarrow> split_char c (s @ c # t) = s # split_char c t"
  by (induction s) auto

lemma split_char_join:
  "ps \<noteq> [] \<Longrightarrow> (\<forall>p\<in>set ps. c \<notin> set p) \<Longrightarrow> split_char c (join [c] ps) = ps"
proof (induction "[c]" ps rule: join.induct)
  case (3 s t ts)
  then show ?case by (simp add: split_char_append)
qed (auto simp: split_char_no_sep)

lemma set_toLowerCase: "set (toLowerCase s) = lower_char ` set s"
  by (simp add: toLowerCase_def)

lemma toLowerCase_idem [simp]: "toLowerCase (toLowerCase s) = toLowerCase s"
  by (simp add: toLowerCase_def)

lemma toLowerCase_alnum: "(\<forall>c\<in>set s. lower_char c = c) \<Longrightarrow> toLowerCase s = s"
  by (simp add: toLowerCase_def map_idI)

lemma length_toLowerCase [simp]: "length (toLowerCase s) = length s"
  by (simp add: toLowerCase_def)

lemma strip_trailing_Nil [simp]: "strip_trailing c [] = []"
  by (simp add: strip_trailing_def)

lemma strip_trailing_snoc [simp]:
  "strip_trailing c (s @ [x]) = (if x = c then strip_trailing c s else s @ [x])"
  by (simp add: strip_trailing_def)

lemma prefix_strip_trailing: "prefix (strip_trailing c s) s"
  by (induction s rule: rev_induct) (auto intro: prefix_order.trans)

lemma last_strip_trailing: "strip_trailing c s \<noteq> [] \<Longrightarrow> last (strip_trailing c s) \<noteq> c"
  by (induction s rule: rev_induct) (auto split: if_splits)

lemma set_strip_trailing: "set (strip_trailing c s) \<subseteq> set s"
  by (meson prefix_strip_trailing set_mono_prefix)

lemma strip_trailing_last: "s = [] \<or> last s \<noteq> c \<Longrightarrow> strip_trailing c s = s"
  by (cases s rule: rev_cases) auto

lemma length_strip_trailing: "length (strip_trailing c s) \<le> length s"
  by (simp add: prefix_length_le prefix_strip_trailing)

lemma strip_ends_hd_last:
  assumes "strip_ends c s \<noteq> []"
  shows "hd (strip_ends c s) \<noteq> c" and "last (strip_ends c s) \<noteq> c"
proof -
  let ?d = "dropWhile ((=) c) s"
  have pre: "prefix (strip_trailing c ?d) ?d" by (rule prefix_strip_trailing)
  from assms have ne: "strip_trailing c ?d \<noteq> []" by (simp add: strip_ends_def)
  with pre have "?d \<noteq> []" by (rule prefix_not_Nil)
  then have "hd ?d \<noteq> c" by (metis hd_dropWhile)
  with prefix_hd [OF pre ne] show "hd (strip_ends c s) \<noteq> c"
    by (simp add: strip_ends_def)
  from assms show "last (strip_ends c s) \<noteq> c"
    by (simp add: strip_ends_def last_strip_trailing)
qed

lemma set_strip_ends: "set (strip_ends c s) \<subseteq> set s"
  using set_strip_trailing set_dropWhileD unfolding strip_ends_def by fastforce

lemma length_strip_ends: "length (strip_ends c s) \<le> length s"
  by (metis length_dropWhile_le length_strip_trailing order_trans strip_ends_def)

lemma strip_ends_id: "s = [] \<or> hd s \<noteq> c \<and> last s \<noteq> c \<Longrightarrow> strip_ends c s = s"
  by (cases s) (auto simp: strip_ends_def strip_trailing_last)

lemma set_collapse_runs: "c \<in> set (collapse_runs ok r s) \<Longrightarrow> ok c \<or> c = r"
  by (induction ok r s rule: collapse_runs.induct) (auto split: if_splits)

lemma collapse_runs_id: "(\<forall>c\<in>set s. ok c) \<Longrightarrow> collapse_runs ok r s = s"
  by (induction s) auto

lemma length_collapse_runs: "length (collapse_runs ok r s) \<le> length s"
proof (induction ok r s rule: collapse_runs.induct)
  case (2 ok r c cs)
  then show ?case
    using length_dropWhile_le [of "\<lambda>x. \<not> ok x" cs] by (auto intro: le_trans)
qed simp

lemma trim_Nil [simp]: "trim [] = []"
  by (simp add: trim_def trimStart_def trimEnd_def)

lemma trimEnd_id: "s = [] \<or> \<not> js_space (last s) \<Longrightarrow> trimEnd s = s"
  by (cases s rule: rev_cases) (auto simp: trimEnd_def)

lemma trim_id: "s = [] \<or> \<not> js_space (hd s) \<and> \<not> js_space (last s) \<Longrightarrow> trim s = s"
  by (cases s) (auto simp: trim_def trimStart_def trimEnd_id)

lemma trimEnd_last: "trimEnd s \<noteq> [] \<Longrightarrow> \<not> js_space (last (trimEnd s))"
  by (metis hd_dropWhile last_rev rev_is_Nil_conv trimEnd_def)

lemma prefix_trimEnd: "prefix (trimEnd s) s"
  by (metis rev_rev_ident suffix_dropWhile suffix_to_prefix trimEnd_def)

lemma trim_ends:
  assumes "trim s \<noteq> []"
  shows "\<not> js_space (hd (trim s))" and "\<not> js_space (last (trim s))"
proof -
  have pre: "prefix (trimEnd (trimStart s)) (trimStart s)" by (rule prefix_trimEnd)
  from assms have ne: "trimEnd (trimStart s) \<noteq> []" by (simp add: trim_def)
  with pre have "trimStart s \<noteq> []" by (rule prefix_not_Nil)
  then have "\<not> js_space (hd (trimStart s))" unfolding trimStart_def by (metis hd_dropWhile)
  with prefix_hd [OF pre ne] show "\<not> js_space (hd (trim s))" by (simp add: trim_def)
  from assms show "\<not> js_space (last (trim s))" by (simp add: trim_def trimEnd_last)
qed

lemma trim_idem [simp]: "trim (trim s) = trim s"
  using trim_ends by (cases "trim s = []") (auto intro: trim_id)

lemma set_trim: "set (trim s) \<subseteq> set s"
  unfolding trim_def trimStart_def
  by (meson prefix_trimEnd set_dropWhileD set_mono_prefix subset_iff)

lemma trim_no_space: "(\<forall>c\<in>set s. \<not> js_space c) \<Longrightarrow> trim s = s"
  by (cases "s = []") (auto intro: trim_id)

lemma digit_digit_char: "d < 10 \<Longrightarrow> digit (digit_char d)"
  by (simp add: digit_def between_def digit_char_def)

lemma digit_value_digit_char: "d < 10 \<Longrightarrow> digit_value (digit_char d) = d"
  by (simp add: digit_value_def digit_char_def)

lemma string_to_nat_snoc: "string_to_nat (s @ [c]) = 10 * string_to_nat s + digit_value c"
  by (simp add: string_to_nat_def)

lemma string_to_nat_nat_to_string: "string_to_nat (nat_to_string n) = n"
proof (induction n rule: nat_to_string.induct)
  case (1 n)
  show ?case
  proof (cases "n < 10")
    case True
    then show ?thesis
      by (subst nat_to_string.simps) (simp add: string_to_nat_def digit_value_digit_char)
  next
    case False
    with 1 show ?thesis
      by (subst nat_to_string.simps) (simp add: string_to_nat_snoc digit_value_digit_char)
  qed
qed

lemma nat_to_string_inject: "nat_to_string m = nat_to_string n \<longleftrightarrow> m = n"
  by (metis string_to_nat_nat_to_string)

lemma nat_to_string_digits: "c \<in> set (nat_to_string n) \<Longrightarrow> digit c"
proof (induction n rule: nat_to_string.induct)
  case (1 n)
  then show ?case
    by (subst (asm) nat_to_string.simps) (auto simp: digit_digit_char split: if_splits)
qed

lemma nat_to_string_not_Nil [simp]: "nat_to_string n \<noteq> []"
  by (subst nat_to_string.simps) simp

section \<open>Merges in which the first entry of a key wins\<close>

text \<open>
  The code builds several lists with a \<open>seen\<close> set: allowlist rules, model ids, the union of
  the gateways' catalogues. \<open>first_by\<close> is the reference definition of all of them; the locale
  \<open>first_wins\<close> is what their callers rely on. The code's own loops are modelled as they are
  written, in their components, and interpret the locale there.
\<close>

fun first_by :: "('a \<Rightarrow> 'k) \<Rightarrow> ('a \<Rightarrow> bool) \<Rightarrow> 'k set \<Rightarrow> 'a list \<Rightarrow> 'a list" where
  "first_by key keep seen [] = []"
| "first_by key keep seen (x # xs) =
     (if \<not> keep x \<or> key x \<in> seen then first_by key keep seen xs
      else x # first_by key keep (insert (key x) seen) xs)"

lemma first_by_subseq: "subseq (first_by key keep seen xs) (filter keep xs)"
  by (induction xs arbitrary: seen) (auto intro: subseq_Cons')

lemma first_by_keys:
  "key ` set (first_by key keep seen xs) = key ` set (filter keep xs) - seen"
  by (induction xs arbitrary: seen) auto

lemma first_by_distinct: "distinct (map key (first_by key keep seen xs))"
proof (induction xs arbitrary: seen)
  case (Cons x xs)
  have "key x \<notin> key ` set (first_by key keep (insert (key x) seen) xs)"
    by (simp add: first_by_keys)
  with Cons.IH show ?case by simp
qed simp

lemma first_by_find:
  "x \<in> set (first_by key keep seen xs) \<Longrightarrow>
     find (\<lambda>y. keep y \<and> key y = key x) xs = Some x"
proof (induction xs arbitrary: seen)
  case (Cons y ys)
  have seen: "z \<in> set (first_by key keep (insert (key y) seen) ys) \<Longrightarrow> key z \<noteq> key y" for z
    using first_by_keys [of key keep "insert (key y) seen" ys] by blast
  have seen': "z \<in> set (first_by key keep seen ys) \<Longrightarrow> key z \<notin> seen" for z
    using first_by_keys [of key keep seen ys] by blast
  show ?case
  proof (cases "keep y \<and> key y \<notin> seen")
    case True
    with Cons.prems consider "x = y" | "x \<in> set (first_by key keep (insert (key y) seen) ys)"
      by auto
    then show ?thesis
    proof cases
      case 1
      with True show ?thesis by simp
    next
      case 2
      with seen [OF 2] Cons.IH [OF 2] show ?thesis by (auto simp: eq_commute)
    qed
  next
    case False
    with Cons.prems have x: "x \<in> set (first_by key keep seen ys)" by (auto split: if_splits)
    with False seen' [OF x] Cons.IH [OF x] show ?thesis by auto
  qed
qed simp

locale first_wins =
  fixes merge :: "'r list \<Rightarrow> 'a list"
    and view :: "'r \<Rightarrow> 'a"
    and key :: "'a \<Rightarrow> 'k"
    and keep :: "'a \<Rightarrow> bool"
  assumes merge_subseq: "subseq (merge xs) (filter keep (map view xs))"
    and merge_distinct: "distinct (map key (merge xs))"
    and merge_keys: "key ` set (merge xs) = key ` set (filter keep (map view xs))"
    and merge_find: "x \<in> set (merge xs) \<Longrightarrow> find (\<lambda>y. keep y \<and> key y = key x) (map view xs) = Some x"
begin

lemma merge_sound: "x \<in> set (merge xs) \<Longrightarrow> x \<in> view ` set xs \<and> keep x"
  using subseq_set [OF merge_subseq [of xs]] by auto

lemma merge_complete:
  assumes "x \<in> set xs" and "keep (view x)"
  shows "\<exists>y\<in>set (merge xs). key y = key (view x)"
proof -
  from assms have "key (view x) \<in> key ` set (merge xs)" unfolding merge_keys by auto
  then show ?thesis by auto
qed

lemma merge_inj: "x \<in> set (merge xs) \<Longrightarrow> y \<in> set (merge xs) \<Longrightarrow> key x = key y \<Longrightarrow> x = y"
  using merge_distinct [of xs] by (auto simp: distinct_map dest: inj_onD)

lemma merge_length: "length (merge xs) = card (key ` set (filter keep (map view xs)))"
proof -
  have "length (merge xs) = card (set (map key (merge xs)))"
    using distinct_card [OF merge_distinct [of xs]] by simp
  with merge_keys [of xs] show ?thesis by simp
qed

end

text \<open>A merge whose entries are read by an idempotent view (none, or trimming) can be repeated.\<close>

locale first_wins_idem = first_wins merge view key keep
  for merge :: "'a list \<Rightarrow> 'a list"
    and view :: "'a \<Rightarrow> 'a"
    and key :: "'a \<Rightarrow> 'k"
    and keep :: "'a \<Rightarrow> bool" +
  assumes view_idem: "view (view x) = view x"
begin

lemma merge_id:
  assumes keep: "\<forall>x\<in>set xs. keep x \<and> view x = x" and dist: "distinct (map key xs)"
  shows "merge xs = xs"
proof (rule subseq_same_length)
  from keep have v: "map view xs = xs" and f: "filter keep xs = xs" by (simp_all add: map_idI)
  with merge_subseq [of xs] show "subseq (merge xs) xs" by simp
  have "length (merge xs) = card (set (map key xs))" by (simp add: merge_length v f)
  also have "\<dots> = length xs" using distinct_card [OF dist] by simp
  finally show "length (merge xs) = length xs" .
qed

lemma merge_idem: "merge (merge xs) = merge xs"
proof (rule merge_id)
  show "\<forall>x\<in>set (merge xs). keep x \<and> view x = x" using merge_sound view_idem by fastforce
qed (rule merge_distinct)

end

text \<open>A merge that computes \<open>first_by\<close> satisfies the interface.\<close>

lemma first_wins_first_by:
  "(\<And>xs. f xs = first_by key keep {} (map view xs)) \<Longrightarrow> first_wins f view key keep"
  by unfold_locales
    (auto simp: first_by_subseq first_by_distinct first_by_keys first_by_find simp del: set_map set_filter)

end
