(* ===== verification/Regex.thy ===== *)
theory Regex
  imports Prelude
begin

text \<open>
  Regular expressions of the source. The code uses JavaScript regular expressions only through
  \<open>test\<close>, and none has a back reference or a look-around, so a test is membership in a regular
  language: of the whole string when the pattern is anchored on both sides, of some substring
  otherwise. An expression is translated symbol for symbol into \<open>rx\<close>; \<open>rx_match\<close> is an
  executable matcher (by derivatives) and \<open>rx_match_lang\<close> its correctness with respect to the
  language of the expression. The lemmas of the components characterise the languages.
\<close>

section \<open>Expressions and their languages\<close>

datatype rx =
    Nothing
  | Eps
  | Cls "char \<Rightarrow> bool"
  | Seq rx rx
  | Alt rx rx
  | Star rx

inductive_set star_lang :: "string set \<Rightarrow> string set" for A where
  star_Nil: "[] \<in> star_lang A"
| star_app: "u \<in> A \<Longrightarrow> v \<in> star_lang A \<Longrightarrow> u @ v \<in> star_lang A"

fun lang :: "rx \<Rightarrow> string set" where
  "lang Nothing = {}"
| "lang Eps = {[]}"
| "lang (Cls P) = {[c] |c. P c}"
| "lang (Seq r s) = {u @ v |u v. u \<in> lang r \<and> v \<in> lang s}"
| "lang (Alt r s) = lang r \<union> lang s"
| "lang (Star r) = star_lang (lang r)"

text \<open>Abbreviations for the notation of the source: a character, a literal, \<open>r?\<close>, \<open>r+\<close>,
  \<open>r{m,}\<close>, \<open>r{0,n}\<close>, alternatives.\<close>

definition Chr :: "char \<Rightarrow> rx" where
  "Chr c = Cls (\<lambda>x. x = c)"

definition Any :: rx where
  "Any = Cls (\<lambda>x. True)"

fun Lit :: "string \<Rightarrow> rx" where
  "Lit [] = Eps"
| "Lit (c # cs) = Seq (Chr c) (Lit cs)"

definition Opt :: "rx \<Rightarrow> rx" where
  "Opt r = Alt r Eps"

definition Plus :: "rx \<Rightarrow> rx" where
  "Plus r = Seq r (Star r)"

fun AtLeast :: "nat \<Rightarrow> rx \<Rightarrow> rx" where
  "AtLeast 0 r = Star r"
| "AtLeast (Suc n) r = Seq r (AtLeast n r)"

fun UpTo :: "nat \<Rightarrow> rx \<Rightarrow> rx" where
  "UpTo 0 r = Eps"
| "UpTo (Suc n) r = Opt (Seq r (UpTo n r))"

fun Alts :: "rx list \<Rightarrow> rx" where
  "Alts [] = Nothing"
| "Alts [r] = r"
| "Alts (r # s # rs) = Alt r (Alts (s # rs))"

section \<open>The matcher\<close>

fun nullable :: "rx \<Rightarrow> bool" where
  "nullable Nothing = False"
| "nullable Eps = True"
| "nullable (Cls P) = False"
| "nullable (Seq r s) = (nullable r \<and> nullable s)"
| "nullable (Alt r s) = (nullable r \<or> nullable s)"
| "nullable (Star r) = True"

text \<open>Smart constructors keep the derivatives small.\<close>

fun mk_seq :: "rx \<Rightarrow> rx \<Rightarrow> rx" where
  "mk_seq Nothing s = Nothing"
| "mk_seq Eps s = s"
| "mk_seq r s = Seq r s"

fun mk_alt :: "rx \<Rightarrow> rx \<Rightarrow> rx" where
  "mk_alt Nothing s = s"
| "mk_alt r Nothing = r"
| "mk_alt r s = Alt r s"

fun deriv :: "char \<Rightarrow> rx \<Rightarrow> rx" where
  "deriv c Nothing = Nothing"
| "deriv c Eps = Nothing"
| "deriv c (Cls P) = (if P c then Eps else Nothing)"
| "deriv c (Seq r s) =
     (if nullable r then mk_alt (mk_seq (deriv c r) s) (deriv c s) else mk_seq (deriv c r) s)"
| "deriv c (Alt r s) = mk_alt (deriv c r) (deriv c s)"
| "deriv c (Star r) = mk_seq (deriv c r) (Star r)"

text \<open>\<open>/^r$/.test(s)\<close>.\<close>

fun rx_match :: "rx \<Rightarrow> string \<Rightarrow> bool" where
  "rx_match r [] = nullable r"
| "rx_match r (c # cs) = rx_match (deriv c r) cs"

text \<open>\<open>/r/.test(s)\<close>: some substring matches.\<close>

fun rx_prefix :: "rx \<Rightarrow> string \<Rightarrow> bool" where
  "rx_prefix r [] = nullable r"
| "rx_prefix r (c # cs) = (nullable r \<or> rx_prefix (deriv c r) cs)"

fun rx_search :: "rx \<Rightarrow> string \<Rightarrow> bool" where
  "rx_search r [] = rx_prefix r []"
| "rx_search r (c # cs) = (rx_prefix r (c # cs) \<or> rx_search r cs)"

section \<open>Correctness of the matcher\<close>

lemma nullable_lang: "nullable r \<longleftrightarrow> [] \<in> lang r"
  by (induction r) (auto intro: star_lang.star_Nil)

lemma lang_mk_seq [simp]: "lang (mk_seq r s) = lang (Seq r s)"
  by (cases r) auto

lemma lang_mk_alt [simp]: "lang (mk_alt r s) = lang (Alt r s)"
  by (cases r; cases s) auto

lemma star_Cons:
  "c # w \<in> star_lang A \<longleftrightarrow> (\<exists>u v. w = u @ v \<and> c # u \<in> A \<and> v \<in> star_lang A)"
proof
  assume "c # w \<in> star_lang A"
  then show "\<exists>u v. w = u @ v \<and> c # u \<in> A \<and> v \<in> star_lang A"
    by (induction "c # w" arbitrary: w) (auto simp: append_eq_Cons_conv Cons_eq_append_conv)
next
  assume "\<exists>u v. w = u @ v \<and> c # u \<in> A \<and> v \<in> star_lang A"
  then obtain u v where "w = u @ v" "c # u \<in> A" "v \<in> star_lang A" by blast
  then show "c # w \<in> star_lang A" using star_app [of "c # u" A v] by simp
qed

lemma lang_deriv: "lang (deriv c r) = {w. c # w \<in> lang r}"
proof (induction r)
  case (Seq r s)
  then show ?case
    by (auto simp: nullable_lang Cons_eq_append_conv)
next
  case (Star r)
  then show ?case by (auto simp: star_Cons)
qed auto

theorem rx_match_lang: "rx_match r s \<longleftrightarrow> s \<in> lang r"
  by (induction s arbitrary: r) (auto simp: nullable_lang lang_deriv)

lemma rx_prefix_lang: "rx_prefix r s \<longleftrightarrow> (\<exists>p q. s = p @ q \<and> p \<in> lang r)"
proof (induction s arbitrary: r)
  case (Cons c cs)
  then show ?case
    by (auto simp: nullable_lang lang_deriv Cons_eq_append_conv)
qed (auto simp: nullable_lang)

theorem rx_search_lang: "rx_search r s \<longleftrightarrow> (\<exists>u p v. s = u @ p @ v \<and> p \<in> lang r)"
proof (induction s)
  case Nil
  then show ?case by (auto simp: nullable_lang)
next
  case (Cons c cs)
  have "(\<exists>u p v. c # cs = u @ p @ v \<and> p \<in> lang r) \<longleftrightarrow>
      (\<exists>p v. c # cs = p @ v \<and> p \<in> lang r) \<or> (\<exists>u p v. cs = u @ p @ v \<and> p \<in> lang r)"
    by (auto simp: Cons_eq_append_conv) metis+
  with Cons.IH show ?case by (simp del: rx_prefix.simps add: rx_prefix_lang)
qed

section \<open>Languages of the derived forms\<close>

lemma lang_Chr [simp]: "lang (Chr c) = {[c]}"
  by (simp add: Chr_def)

lemma lang_Lit [simp]: "lang (Lit s) = {s}"
  by (induction s) auto

lemma lang_Opt [simp]: "lang (Opt r) = insert [] (lang r)"
  by (auto simp: Opt_def)

lemma star_Cls: "star_lang {[c] |c. P c} = {w. \<forall>c\<in>set w. P c}"
proof (intro set_eqI iffI)
  fix w
  assume "w \<in> star_lang {[c] |c. P c}"
  then show "w \<in> {w. \<forall>c\<in>set w. P c}" by (induction rule: star_lang.induct) auto
next
  fix w
  assume "w \<in> {w. \<forall>c\<in>set w. P c}"
  then show "w \<in> star_lang {[c] |c. P c}"
  proof (induction w)
    case (Cons c w)
    then have "[c] @ w \<in> star_lang {[c] |c. P c}" by (intro star_app) auto
    then show ?case by simp
  qed (simp add: star_Nil)
qed

lemma lang_Star_Cls [simp]: "lang (Star (Cls P)) = {w. \<forall>c\<in>set w. P c}"
  by (simp add: star_Cls)

lemma lang_Cls_Seq: "lang (Seq (Cls P) r) = {c # v |c v. P c \<and> v \<in> lang r}"
proof -
  have "lang (Seq (Cls P) r) = {[c] @ v |c v. P c \<and> v \<in> lang r}"
    by (simp del: append.simps) blast
  then show ?thesis by simp
qed

lemma lang_Seq_Cls: "lang (Seq r (Cls P)) = {v @ [c] |c v. P c \<and> v \<in> lang r}"
  by (simp del: append.simps) blast

lemma lang_Plus_Cls [simp]: "lang (Plus (Cls P)) = {w. w \<noteq> [] \<and> (\<forall>c\<in>set w. P c)}"
  unfolding Plus_def lang_Cls_Seq lang_Star_Cls
  by (auto simp: neq_Nil_conv)

lemma lang_AtLeast_Cls [simp]:
  "lang (AtLeast n (Cls P)) = {w. n \<le> length w \<and> (\<forall>c\<in>set w. P c)}"
proof (induction n)
  case (Suc n)
  have "lang (AtLeast (Suc n) (Cls P)) = {c # v |c v. P c \<and> v \<in> lang (AtLeast n (Cls P))}"
    by (simp only: AtLeast.simps lang_Cls_Seq)
  also have "\<dots> = {w. Suc n \<le> length w \<and> (\<forall>c\<in>set w. P c)}"
    by (auto simp: Suc.IH Suc_le_length_iff)
  finally show ?case .
qed (simp add: star_Cls)

lemma lang_UpTo_Cls [simp]:
  "lang (UpTo n (Cls P)) = {w. length w \<le> n \<and> (\<forall>c\<in>set w. P c)}"
proof (induction n)
  case (Suc n)
  have "lang (UpTo (Suc n) (Cls P)) =
      insert [] {c # v |c v. P c \<and> v \<in> lang (UpTo n (Cls P))}"
    by (simp only: UpTo.simps lang_Opt lang_Cls_Seq)
  also have "\<dots> = {w. length w \<le> Suc n \<and> (\<forall>c\<in>set w. P c)}"
  proof (intro set_eqI)
    fix w
    show "w \<in> insert [] {c # v |c v. P c \<and> v \<in> lang (UpTo n (Cls P))} \<longleftrightarrow>
        w \<in> {w. length w \<le> Suc n \<and> (\<forall>c\<in>set w. P c)}"
      by (cases w) (auto simp: Suc.IH)
  qed
  finally show ?case .
qed auto

lemma lang_Alts: "lang (Alts rs) = (\<Union>r\<in>set rs. lang r)"
  by (induction rs rule: Alts.induct) auto

text \<open>The shape \<open>[first]([mid]*[end])?\<close> of every name pattern of the source: a non-empty
  string over the middle class whose first and last characters are in their own classes.\<close>

definition label_rx :: "(char \<Rightarrow> bool) \<Rightarrow> (char \<Rightarrow> bool) \<Rightarrow> (char \<Rightarrow> bool) \<Rightarrow> rx" where
  "label_rx F M E = Seq (Cls F) (Opt (Seq (Star (Cls M)) (Cls E)))"

lemma label_rx_lang:
  "s \<in> lang (label_rx F M E) \<longleftrightarrow>
     s \<noteq> [] \<and> F (hd s) \<and> (length s = 1 \<or> E (last s) \<and> (\<forall>c\<in>set (butlast (tl s)). M c))"
proof (cases s)
  case (Cons c cs)
  then show ?thesis
    by (cases cs rule: rev_cases)
      (auto simp del: lang.simps(4,6) simp: label_rx_def lang_Cls_Seq lang_Seq_Cls)
qed (auto simp: label_rx_def)

lemma label_rx_match:
  assumes "\<And>c. F c \<Longrightarrow> M c" and "\<And>c. E c \<Longrightarrow> M c" and "\<And>c. F c \<Longrightarrow> E c"
  shows "rx_match (label_rx F M E) s \<longleftrightarrow>
     s \<noteq> [] \<and> F (hd s) \<and> E (last s) \<and> (\<forall>c\<in>set s. M c)"
proof (cases s)
  case (Cons c cs)
  with assms show ?thesis
    by (cases cs rule: rev_cases) (auto simp: rx_match_lang label_rx_lang)
qed (auto simp: rx_match_lang label_rx_lang)

end
