(* ===== verification/Json.thy ===== *)
theory Json
  imports Regex
begin

text \<open>
  Tool arguments of an agent conversation (\<open>lib/cubepilot/agentThread.ts\<close>, "tool-argument
  display"): JSON values, the redaction of secret keys, the one-line display of a call's
  arguments and the summary of a collapsed tool card. \<open>JSON.parse\<close> is an argument of the
  definitions that call it. The lemmas show that no value under a secret key survives at any
  depth, and that the summary is one bounded line.
\<close>

section \<open>JSON values\<close>

text \<open>A number is kept as its canonical text. An object is the list of its entries in the order
  \<open>Object.entries\<close> gives them; the key \<open>__proto__\<close>, which an assignment does not turn into an
  entry, is outside the model.\<close>

datatype json =
    JNull
  | JBool bool
  | JNum string
  | JStr string
  | JArr "json list"
  | JObj "(string \<times> json) list"

section \<open>\<open>JSON.stringify\<close>\<close>

definition hex_digit :: "nat \<Rightarrow> char" where
  "hex_digit d = (if d < 10 then char_of (48 + d) else char_of (87 + d))"

definition escape_char :: "char \<Rightarrow> string" where
  "escape_char c =
     (if c = CHR 0x22 then [CHR 0x5C, CHR 0x22]
      else if c = CHR 0x5C then [CHR 0x5C, CHR 0x5C]
      else if c = CHR 0x08 then [CHR 0x5C, CHR ''b'']
      else if c = CHR 0x09 then [CHR 0x5C, CHR ''t'']
      else if c = CHR 0x0A then [CHR 0x5C, CHR ''n'']
      else if c = CHR 0x0C then [CHR 0x5C, CHR ''f'']
      else if c = CHR 0x0D then [CHR 0x5C, CHR ''r'']
      else if (of_char c :: nat) < 32
        then [CHR 0x5C, CHR ''u'', CHR ''0'', CHR ''0'',
              hex_digit (of_char c div 16), hex_digit (of_char c mod 16)]
      else [c])"

definition quote_string :: "string \<Rightarrow> string" where
  "quote_string s = CHR 0x22 # concat (map escape_char s) @ [CHR 0x22]"

fun stringify :: "json \<Rightarrow> string" where
  "stringify JNull = ''null''"
| "stringify (JBool b) = (if b then ''true'' else ''false'')"
| "stringify (JNum n) = n"
| "stringify (JStr s) = quote_string s"
| "stringify (JArr vs) = ''['' @ join '','' (map stringify vs) @ '']''"
| "stringify (JObj es) =
     ''{'' @ join '','' (map (\<lambda>(k, v). quote_string k @ '':'' @ stringify v) es) @ ''}''"

section \<open>Redaction\<close>

definition SECRET_KEY :: rx where
  "SECRET_KEY = Alts [
     Seq (Lit ''pass'') (Opt (Alts [Lit ''word'', Lit ''wd''])),
     Lit ''token'',
     Lit ''secret'',
     Seq (Lit ''api'') (Seq (Opt (Cls (\<lambda>c. c \<in> set ''-_''))) (Lit ''key'')),
     Seq (Lit ''access'') (Seq (Opt (Cls (\<lambda>c. c \<in> set ''-_''))) (Lit ''key'')),
     Lit ''authorization'',
     Lit ''credential'',
     Seq (Lit ''private'') (Seq (Opt (Cls (\<lambda>c. c \<in> set ''-_''))) (Lit ''key''))]"

text \<open>\<open>SECRET_KEY.test(k)\<close>; the flag \<open>i\<close> folds the case of the key.\<close>

definition secret_key :: "string \<Rightarrow> bool" where
  "secret_key k = rx_search SECRET_KEY (toLowerCase k)"

definition REDACTED :: string where
  "REDACTED = replicate 6 (CHR 0x95)"

fun redact :: "json \<Rightarrow> json" where
  "redact (JArr vs) = JArr (map redact vs)"
| "redact (JObj es) =
     JObj (map (\<lambda>(k, v). (k, if secret_key k then JStr REDACTED else redact v)) es)"
| "redact v = v"

section \<open>The display line\<close>

fun display_value :: "json \<Rightarrow> string" where
  "display_value (JStr s) = s"
| "display_value v = stringify v"

definition field :: "(string \<times> json) list \<Rightarrow> string \<Rightarrow> json option" where
  "field es k = (case map_of es k of None \<Rightarrow> None | Some JNull \<Rightarrow> None | Some v \<Rightarrow> Some v)"

text \<open>\<open>rec.command ?? rec.cmd\<close>, when it is a string.\<close>

definition command_of :: "(string \<times> json) list \<Rightarrow> string option" where
  "command_of es =
     (case field es ''command'' of
        Some (JStr s) \<Rightarrow> Some s
      | Some _ \<Rightarrow> None
      | None \<Rightarrow> (case field es ''cmd'' of Some (JStr s) \<Rightarrow> Some s | _ \<Rightarrow> None))"

definition format_value :: "json \<Rightarrow> string option" where
  "format_value value =
     (case redact value of
        JObj es \<Rightarrow>
          (case command_of es of
             Some c \<Rightarrow> Some c
           | None \<Rightarrow>
               (if es = [] then None
                else Some (join ''  '' (map (\<lambda>(k, v). k @ '': '' @ display_value v) es))))
      | JStr s \<Rightarrow> Some s
      | v \<Rightarrow> Some (stringify v))"

definition fmtToolArgs :: "(string \<Rightarrow> json option) \<Rightarrow> json option \<Rightarrow> string option" where
  "fmtToolArgs parse args =
     (case args of
        None \<Rightarrow> None
      | Some JNull \<Rightarrow> None
      | Some (JStr raw) \<Rightarrow>
          (case parse raw of None \<Rightarrow> Some raw | Some v \<Rightarrow> format_value v)
      | Some v \<Rightarrow> format_value v)"

section \<open>The summary of a collapsed card\<close>

definition TOOL_SUMMARY_CHARS :: nat where
  "TOOL_SUMMARY_CHARS = 160"

definition toolSummary :: "string option \<Rightarrow> string" where
  "toolSummary args =
     (case args of
        None \<Rightarrow> []
      | Some a \<Rightarrow>
          (case find (\<lambda>l. l \<noteq> []) (map trim (split_char (CHR 0x0A) a)) of
             None \<Rightarrow> []
           | Some line \<Rightarrow>
               (if TOOL_SUMMARY_CHARS < length line
                then trimEnd (take TOOL_SUMMARY_CHARS line) @ [CHR 0x85]
                else line)))"

section \<open>Redaction leaves no secret\<close>

text \<open>Every entry with a secret key, at any depth, holds the mask.\<close>

fun clean :: "json \<Rightarrow> bool" where
  "clean (JArr vs) = (\<forall>v\<in>set vs. clean v)"
| "clean (JObj es) =
     (\<forall>(k, v)\<in>set es. if secret_key k then v = JStr REDACTED else clean v)"
| "clean v = True"

text \<open>The value at a path of keys and positions.\<close>

datatype step = Key string | At nat

fun at_path :: "json \<Rightarrow> step list \<Rightarrow> json option" where
  "at_path v [] = Some v"
| "at_path (JArr vs) (At i # p) = (if i < length vs then at_path (vs ! i) p else None)"
| "at_path (JObj es) (Key k # p) =
     (case map_of es k of None \<Rightarrow> None | Some v \<Rightarrow> at_path v p)"
| "at_path v (s # p) = None"

lemma clean_redact: "clean (redact v)"
  by (induction v rule: redact.induct) auto

lemma redact_clean_id: "clean v \<Longrightarrow> redact v = v"
  by (induction v rule: redact.induct) (auto simp: map_idI split: prod.splits if_splits)

lemma clean_at_path:
  "clean v \<Longrightarrow> at_path v p = Some w \<Longrightarrow> Key k \<in> set p \<Longrightarrow> secret_key k \<Longrightarrow> w = JStr REDACTED"
proof (induction v p rule: at_path.induct)
  case (3 es k' p)
  from "3.prems" obtain v where v: "map_of es k' = Some v" "at_path v p = Some w"
    by (auto split: option.splits)
  from map_of_SomeD [OF v(1)] "3.prems"(1)
  have cl: "if secret_key k' then v = JStr REDACTED else clean v" by fastforce
  show ?case
  proof (cases "secret_key k'")
    case True
    with cl v(2) show ?thesis by (cases p) auto
  next
    case False
    with "3.prems" have "Key k \<in> set p" by auto
    with 3 v cl False show ?thesis by auto
  qed
qed (auto split: if_splits)

text \<open>
  C20: however deep it is nested, no value under a key that names a secret survives redaction:
  a path through such a key in a redacted value can only lead to the mask.
\<close>

theorem redact_no_secret:
  assumes "at_path (redact v) p = Some w" and "Key k \<in> set p" and "secret_key k"
  shows "w = JStr REDACTED"
  using clean_at_path [OF clean_redact assms] .

theorem redact_no_secret_witness:
  "secret_key ''Authorization'' \<and>
   at_path (redact (JObj [(''headers'', JObj [(''Authorization'', JStr ''Bearer x'')])]))
     [Key ''headers'', Key ''Authorization''] = Some (JStr REDACTED)"
proof -
  let ?v = "JObj [(''headers'', JObj [(''Authorization'', JStr ''Bearer x'')])]"
  let ?p = "[Key ''headers'', Key ''Authorization'']"
  have k: "secret_key ''Authorization''" by code_simp
  have "at_path (redact ?v) ?p \<noteq> None" by code_simp
  then obtain w where w: "at_path (redact ?v) ?p = Some w" by blast
  from redact_no_secret [OF w _ k] have "w = JStr REDACTED" by simp
  with w k show ?thesis by simp
qed

section \<open>The display does not depend on a secret\<close>

text \<open>Two values that agree everywhere except under keys that name a secret.\<close>

inductive same_public :: "json \<Rightarrow> json \<Rightarrow> bool" where
  same_refl: "same_public v v"
| same_arr: "list_all2 same_public vs ws \<Longrightarrow> same_public (JArr vs) (JArr ws)"
| same_obj: "list_all2 (\<lambda>e f. fst e = fst f \<and>
      (secret_key (fst e) \<or> same_public (snd e) (snd f))) es fs \<Longrightarrow>
    same_public (JObj es) (JObj fs)"

lemma same_public_redact: "same_public v w \<Longrightarrow> redact v = redact w"
proof (induction rule: same_public.induct)
  case (same_arr vs ws)
  then have "map redact vs = map redact ws" by (rule list_all2_map_eq) simp
  then show ?case by simp
next
  case (same_obj es fs)
  then show ?case
    by (simp, elim list_all2_map_eq) (auto split: prod.splits)
qed simp

lemma same_public_cases:
  assumes "same_public v w"
  obtains "v = w" | vs ws where "v = JArr vs" "w = JArr ws" | es fs where "v = JObj es" "w = JObj fs"
  using assms by (auto elim: same_public.cases)

text \<open>
  what a tool card shows of a call does not depend on any secret in its arguments: two
  argument values that differ only under secret keys, at any depth, display the same line.
\<close>

theorem fmtToolArgs_secret_independent:
  assumes "same_public v w"
  shows "fmtToolArgs parse (Some v) = fmtToolArgs parse (Some w)"
proof -
  have r: "redact v = redact w" using assms by (rule same_public_redact)
  from assms show ?thesis
  proof (cases rule: same_public_cases)
    case 1
    then show ?thesis by simp
  next
    case 2
    with r show ?thesis by (simp add: fmtToolArgs_def format_value_def)
  next
    case 3
    with r show ?thesis by (simp add: fmtToolArgs_def format_value_def)
  qed
qed

theorem fmtToolArgs_secret_independent_witness:
  "fmtToolArgs (\<lambda>_. None) (Some (JObj [(''user'', JStr ''u''), (''apiKey'', JStr ''k1'')])) =
   fmtToolArgs (\<lambda>_. None) (Some (JObj [(''user'', JStr ''u''), (''apiKey'', JNum ''2'')]))"
proof (rule fmtToolArgs_secret_independent)
  have "secret_key ''apiKey''" by code_simp
  then show "same_public (JObj [(''user'', JStr ''u''), (''apiKey'', JStr ''k1'')])
      (JObj [(''user'', JStr ''u''), (''apiKey'', JNum ''2'')])"
    by (intro same_obj) (simp add: same_refl)
qed

text \<open>
  the summary of a collapsed tool card is one line of at most 161 characters, and it is
  empty only for a call without arguments or with blank ones.
\<close>

theorem toolSummary_one_line:
  "length (toolSummary args) \<le> Suc TOOL_SUMMARY_CHARS \<and> CHR 0x0A \<notin> set (toolSummary args) \<and>
   (toolSummary args = [] \<longleftrightarrow>
      (\<forall>a. args = Some a \<longrightarrow> (\<forall>l\<in>set (split_char (CHR 0x0A) a). trim l = [])))"
proof (cases args)
  case None
  then show ?thesis by (simp add: toolSummary_def)
next
  case (Some a)
  let ?ls = "map trim (split_char (CHR 0x0A) a)"
  show ?thesis
  proof (cases "find (\<lambda>l. l \<noteq> []) ?ls")
    case None
    with Some have e: "toolSummary args = []" by (simp add: toolSummary_def)
    from None have "\<forall>l\<in>set (split_char (CHR 0x0A) a). trim l = []"
      by (auto simp: find_None_iff)
    with Some e show ?thesis by simp
  next
    case F: (Some line)
    then have ne: "line \<noteq> []" and "line \<in> set ?ls" using find_SomeD [OF F] by auto
    then obtain l where l: "l \<in> set (split_char (CHR 0x0A) a)" "line = trim l" by auto
    then have nl: "CHR 0x0A \<notin> set line" using set_trim split_char_parts by fastforce
    let ?cut = "trimEnd (take TOOL_SUMMARY_CHARS line)"
    have "set ?cut \<subseteq> set line"
      by (meson prefix_trimEnd set_mono_prefix set_take_subset subset_trans)
    with nl have cut_nl: "CHR 0x0A \<notin> set ?cut" by blast
    have cut_len: "length ?cut \<le> TOOL_SUMMARY_CHARS"
      using prefix_length_le [OF prefix_trimEnd, of "take TOOL_SUMMARY_CHARS line"] by simp
    have sum: "toolSummary args =
        (if TOOL_SUMMARY_CHARS < length line then ?cut @ [CHR 0x85] else line)"
      using Some F by (simp add: toolSummary_def)
    then have "toolSummary args \<noteq> [] \<and> CHR 0x0A \<notin> set (toolSummary args) \<and>
        length (toolSummary args) \<le> Suc TOOL_SUMMARY_CHARS"
      using ne cut_nl nl cut_len by simp
    moreover have "\<not> (\<forall>l\<in>set (split_char (CHR 0x0A) a). trim l = [])" using l ne by blast
    ultimately show ?thesis using Some by simp
  qed
qed

theorem toolSummary_one_line_witness:
  "toolSummary (Some (CHR 0x0A # ''  kubectl get pods  '')) = ''kubectl get pods''
   \<and> length (toolSummary (Some (replicate 200 (CHR ''x'')))) \<le> Suc TOOL_SUMMARY_CHARS"
proof (rule conjI)
  show "toolSummary (Some (CHR 0x0A # ''  kubectl get pods  '')) = ''kubectl get pods''"
    by code_simp
  show "length (toolSummary (Some (replicate 200 (CHR ''x'')))) \<le> Suc TOOL_SUMMARY_CHARS"
    using toolSummary_one_line [of "Some (replicate 200 (CHR ''x''))"] by (rule conjunct1)
qed

end
