(* ===== verification/Agent_Thread.thy ===== *)
theory Agent_Thread
  imports Json
begin

text \<open>
  The CubePilot conversation (\<open>lib/cubepilot/agentThread.ts\<close>): the messages of a thread, the
  fold of one streamed event onto a turn, the pairing of tool results, the cards that wait on a
  human, the refresh of a thread from the runtime's transcript, and the status line. Times are
  whole milliseconds. The lemmas give the behaviour of every operation; the invariants over
  whole streams are in \<open>Agent_Turn\<close>, the refresh of a thread in \<open>Agent_Cards\<close>.
\<close>

section \<open>Messages\<close>

datatype agent_phase = Thinking | Tools | Streaming | Done

datatype agent_block =
    TextB (b_text: string) (b_superseded: "string list option") (b_blockId: "string option")
  | ToolB (b_callId: "string option") (b_name: string) (b_args: "string option")
      (b_output: "string option") (b_done: bool)

datatype approval_state = Pending | Deciding | Approved | Rejected | Stopped

record agent_approval =
  a_callId :: string
  a_name :: "string option"
  a_command :: "string option"
  a_level :: "string option"
  a_message :: "string option"
  a_state :: approval_state
  a_error :: "string option"
  a_afterBlock :: "int option"
  a_createdAtMs :: "int option"
  a_expiresAtMs :: "int option"

datatype question_state = QPending | Submitting | Answered | Cancelled | Expired

record question_item =
  questionId :: string
  header :: "string option"
  question :: string
  option_labels :: "string list option"
  multiSelect :: "bool option"
  isOther :: "bool option"

record agent_question =
  q_callId :: string
  q_items :: "question_item list"
  q_state :: question_state
  q_afterBlock :: "int option"
  q_deadline :: "int option"
  q_answers :: "(string \<times> string list) list option"
  q_error :: "string option"

record agent_msg =
  m_id :: nat
  blocks :: "agent_block list"
  approvals :: "agent_approval list"
  questions :: "agent_question list"
  phase :: agent_phase
  phaseAt :: int
  m_error :: "string option"
  stopped :: "bool option"
  transportLost :: "string option"

definition newAgentMsg :: "nat \<Rightarrow> int \<Rightarrow> agent_msg" where
  "newAgentMsg i now =
     \<lparr>m_id = i, blocks = [], approvals = [], questions = [], phase = Thinking, phaseAt = now,
      m_error = None, stopped = None, transportLost = None\<rparr>"

text \<open>A thread holds agent turns and messages of other roles (user prompts, model bubbles).\<close>

datatype 'u thread_item = Agent agent_msg | Other 'u

record user_msg =
  u_id :: nat
  u_text :: string

type_synonym thread_msg = "user_msg thread_item"

section \<open>Events\<close>

text \<open>The events of one turn's stream (\<open>AgentSseEvent\<close> of \<open>types.ts\<close>). The session id and the
  name of a tool result, which the fold does not read, are left out; \<open>UnknownEvent\<close> is an event
  this build does not know.\<close>

record approval_wire =
  w_approvalId :: string
  w_name :: "string option"
  w_command :: "string option"
  w_level :: "string option"
  w_message :: "string option"
  w_afterBlock :: "int option"
  w_createdAtMs :: "int option"
  w_expiresAtMs :: "int option"

datatype agent_event =
    MessageStart
  | AgentThinking
  | MessageDelta string
  | TextReplace string
  | Narration string string
  | ToolCall string "string option" "json option"
  | ToolResult "string option" "string option"
  | MessageDone "string option" "bool option"
  | ApprovalPending approval_wire
  | ApprovalResolved string "bool option"
  | QuestionPending string "question_item list option" "int option"
  | QuestionResolved string "string option"
  | UnknownEvent

section \<open>Greeting\<close>

datatype greeting_line =
    GreetingNoInstance
  | Greeting nat string
  | ApprovalNone
  | ApprovalAllowlist

text \<open>\<open>greetingTexts\<close>: the keys of the dictionary with their parameters.\<close>

definition greetingTexts :: "bool \<Rightarrow> string \<Rightarrow> nat \<Rightarrow> string \<Rightarrow> greeting_line list" where
  "greetingTexts present model skills policy =
     (if \<not> present then [GreetingNoInstance]
      else Greeting skills model #
        (if policy = ''None'' then [ApprovalNone]
         else if policy = ''Allowlist'' then [ApprovalAllowlist] else []))"

section \<open>Cards\<close>

definition newApproval :: "approval_wire \<Rightarrow> agent_approval" where
  "newApproval w =
     \<lparr>a_callId = w_approvalId w, a_name = w_name w, a_command = w_command w, a_level = w_level w,
      a_message = w_message w, a_state = Pending, a_error = None, a_afterBlock = w_afterBlock w,
      a_createdAtMs = w_createdAtMs w, a_expiresAtMs = w_expiresAtMs w\<rparr>"

definition addApproval :: "agent_msg \<Rightarrow> agent_approval \<Rightarrow> agent_msg" where
  "addApproval msg c =
     (if \<exists>a\<in>set (approvals msg). a_callId a = a_callId c then msg
      else msg\<lparr>approvals := approvals msg @ [c]\<rparr>)"

definition newQuestion ::
    "string \<Rightarrow> question_item list \<Rightarrow> int option \<Rightarrow> int \<Rightarrow> int option \<Rightarrow> agent_question" where
  "newQuestion callId items timeoutSeconds now afterBlock =
     \<lparr>q_callId = callId, q_items = items, q_state = QPending, q_afterBlock = afterBlock,
      q_deadline = (case timeoutSeconds of
          None \<Rightarrow> None | Some t \<Rightarrow> if t = 0 then None else Some (now + t * 1000)),
      q_answers = None, q_error = None\<rparr>"

definition resolveOutcome :: "string option \<Rightarrow> question_state" where
  "resolveOutcome message =
     (if message = Some ''cancelled'' then Cancelled
      else if message = Some ''expired'' then Expired else Answered)"

section \<open>Text\<close>

definition setPhase :: "agent_msg \<Rightarrow> agent_phase \<Rightarrow> int \<Rightarrow> agent_msg" where
  "setPhase msg p now = (if phase msg = p then msg else msg\<lparr>phase := p, phaseAt := now\<rparr>)"

definition is_narration :: "string \<Rightarrow> agent_block \<Rightarrow> bool" where
  "is_narration blockId b =
     (case b of TextB t old bid \<Rightarrow> bid = Some blockId | _ \<Rightarrow> False)"

fun with_text :: "string \<Rightarrow> agent_block \<Rightarrow> agent_block" where
  "with_text t (TextB _ old bid) = TextB t old bid"
| "with_text t b = b"

definition narrate :: "agent_msg \<Rightarrow> string \<Rightarrow> string \<Rightarrow> agent_msg" where
  "narrate msg blockId text =
     (case find_index (is_narration blockId) (blocks msg) of
        Some k \<Rightarrow>
          (if b_text (blocks msg ! k) = text then msg
           else msg\<lparr>blocks := (blocks msg)[k := with_text text (blocks msg ! k)]\<rparr>)
      | None \<Rightarrow> msg\<lparr>blocks := blocks msg @ [TextB text None (Some blockId)]\<rparr>)"

definition answerBlock :: "agent_block list \<Rightarrow> nat option" where
  "answerBlock bs =
     (case last_opt bs of
        Some (TextB t old None) \<Rightarrow> Some (length bs - 1)
      | _ \<Rightarrow> None)"

definition appendText :: "agent_msg \<Rightarrow> string \<Rightarrow> agent_msg" where
  "appendText msg delta =
     (case answerBlock (blocks msg) of
        Some k \<Rightarrow>
          msg\<lparr>blocks := (blocks msg)[k := with_text (b_text (blocks msg ! k) @ delta) (blocks msg ! k)]\<rparr>
      | None \<Rightarrow> msg\<lparr>blocks := blocks msg @ [TextB delta None None]\<rparr>)"

definition superseded_by :: "string \<Rightarrow> agent_block \<Rightarrow> string list option" where
  "superseded_by nxt lst =
     (if b_text lst \<noteq> [] \<and> b_text lst \<noteq> nxt
      then Some (nullish (b_superseded lst) [] @ [b_text lst])
      else b_superseded lst)"

definition replaceText :: "agent_msg \<Rightarrow> string \<Rightarrow> agent_msg" where
  "replaceText msg nxt =
     (case answerBlock (blocks msg) of
        None \<Rightarrow> msg\<lparr>blocks := blocks msg @ [TextB nxt None None]\<rparr>
      | Some k \<Rightarrow>
          (let old = superseded_by nxt (blocks msg ! k)
           in msg\<lparr>blocks := (blocks msg)[k :=
                TextB nxt (if old = None \<or> old = Some [] then None else old) None]\<rparr>))"

section \<open>Tool results\<close>

definition is_tool :: "agent_block \<Rightarrow> bool" where
  "is_tool b = (case b of ToolB _ _ _ _ _ \<Rightarrow> True | _ \<Rightarrow> False)"

definition or_else :: "'a option \<Rightarrow> 'a option \<Rightarrow> 'a option" where
  "or_else x y = (case x of None \<Rightarrow> y | Some v \<Rightarrow> Some v)"

text \<open>The block a result is attached to: by call id (an unfinished call first), then the oldest
  unfinished call, then the oldest call with no output. An empty call id is no id.\<close>

definition tool_target :: "agent_block list \<Rightarrow> string option \<Rightarrow> nat option" where
  "tool_target bs callId =
     or_else
       (if truthy callId
        then or_else
          (find_index (\<lambda>b. is_tool b \<and> b_callId b = callId \<and> \<not> b_done b) bs)
          (find_index (\<lambda>b. is_tool b \<and> b_callId b = callId) bs)
        else None)
       (or_else
          (find_index (\<lambda>b. is_tool b \<and> \<not> b_done b) bs)
          (find_index (\<lambda>b. is_tool b \<and> b_output b = None) bs))"

fun finish_tool :: "string \<Rightarrow> agent_block \<Rightarrow> agent_block" where
  "finish_tool out (ToolB cid n args prev d) =
     ToolB cid n args (Some (if truthy prev then the prev @ CHR 0x0A # out else out)) True"
| "finish_tool out b = b"

definition attachToolResult :: "agent_block list \<Rightarrow> string option \<Rightarrow> string \<Rightarrow> agent_block list" where
  "attachToolResult bs callId out =
     (case tool_target bs callId of
        None \<Rightarrow> bs
      | Some t \<Rightarrow> bs[t := finish_tool out (bs ! t)])"

section \<open>The fold of one event\<close>

definition settle_approval :: "agent_approval \<Rightarrow> agent_approval" where
  "settle_approval a =
     (if a_state a = Pending \<or> a_state a = Deciding then a\<lparr>a_state := Stopped\<rparr> else a)"

definition settle_question :: "agent_question \<Rightarrow> agent_question" where
  "settle_question q =
     (if q_state q = QPending \<or> q_state q = Submitting then q\<lparr>q_state := Cancelled\<rparr> else q)"

definition approved_state :: "bool option \<Rightarrow> approval_state" where
  "approved_state approved =
     (case approved of None \<Rightarrow> Stopped | Some b \<Rightarrow> if b then Approved else Rejected)"

definition after_block :: "agent_msg \<Rightarrow> int" where
  "after_block msg = int (length (blocks msg)) - 1"

definition applyAgentEvent ::
    "(string \<Rightarrow> json option) \<Rightarrow> agent_msg \<Rightarrow> agent_event \<Rightarrow> int \<Rightarrow> agent_msg" where
  "applyAgentEvent parse msg evt now =
     (case evt of
        MessageStart \<Rightarrow> setPhase msg Thinking now
      | AgentThinking \<Rightarrow> setPhase msg Thinking now
      | MessageDelta delta \<Rightarrow> appendText (setPhase msg Streaming now) delta
      | TextReplace delta \<Rightarrow> replaceText (setPhase msg Streaming now) delta
      | Narration blockId text \<Rightarrow> narrate msg blockId text
      | ToolCall name callId args \<Rightarrow>
          setPhase (msg\<lparr>blocks := blocks msg @ [ToolB callId name (fmtToolArgs parse args) None False]\<rparr>)
            Tools now
      | ToolResult callId out \<Rightarrow>
          setPhase (msg\<lparr>blocks := attachToolResult (blocks msg) callId (nullish out [])\<rparr>) Tools now
      | ApprovalPending w \<Rightarrow>
          setPhase (addApproval msg (newApproval (w\<lparr>w_afterBlock := Some (after_block msg)\<rparr>))) Tools now
      | ApprovalResolved callId approved \<Rightarrow>
          msg\<lparr>approvals := map (\<lambda>a. if a_callId a = callId
                 then a\<lparr>a_state := approved_state approved\<rparr> else a) (approvals msg)\<rparr>
      | QuestionPending callId items timeout \<Rightarrow>
          setPhase (msg\<lparr>questions := questions msg @
              [newQuestion callId (nullish items []) timeout now (Some (after_block msg))]\<rparr>) Tools now
      | QuestionResolved callId message \<Rightarrow>
          msg\<lparr>questions := map (\<lambda>q. if q_callId q = callId
                 then q\<lparr>q_state := resolveOutcome message\<rparr> else q) (questions msg)\<rparr>
      | MessageDone err stop \<Rightarrow>
          msg\<lparr>phase := Done,
              m_error := (if stop = Some True then None else or_undef err),
              stopped := Some (stop = Some True),
              approvals := map settle_approval (approvals msg),
              questions := map settle_question (questions msg)\<rparr>
      | UnknownEvent \<Rightarrow> msg)"

section \<open>Selectors\<close>

definition open_approval :: "agent_approval \<Rightarrow> bool" where
  "open_approval a \<longleftrightarrow> a_state a = Pending \<or> a_state a = Deciding"

definition open_question :: "agent_question \<Rightarrow> bool" where
  "open_question q \<longleftrightarrow> q_state q = QPending \<or> q_state q = Submitting"

definition openApprovals :: "agent_msg \<Rightarrow> agent_approval list" where
  "openApprovals msg = filter open_approval (approvals msg)"

definition openQuestions :: "agent_msg \<Rightarrow> agent_question list" where
  "openQuestions msg = filter open_question (questions msg)"

section \<open>Countdowns\<close>

text \<open>\<open>Math.max(0, Math.round(ms / 1000))\<close>; \<open>Math.round\<close> rounds a half up.\<close>

definition round_seconds :: "int \<Rightarrow> int" where
  "round_seconds ms = max 0 ((ms + 500) div 1000)"

definition remainingSeconds :: "agent_question \<Rightarrow> int \<Rightarrow> int option" where
  "remainingSeconds q now = map_option (\<lambda>d. round_seconds (d - now)) (q_deadline q)"

definition isExpiring :: "agent_question \<Rightarrow> int \<Rightarrow> bool" where
  "isExpiring q now = (open_question q \<and> remainingSeconds q now = Some 0)"

definition approvalSecondsLeft :: "agent_approval \<Rightarrow> int \<Rightarrow> int option" where
  "approvalSecondsLeft a now = map_option (\<lambda>d. round_seconds (d - now)) (a_expiresAtMs a)"

definition approvalExpiring :: "agent_approval \<Rightarrow> int \<Rightarrow> bool" where
  "approvalExpiring a now = (open_approval a \<and> approvalSecondsLeft a now = Some 0)"

section \<open>Answers of a decided question\<close>

definition seed_item ::
    "question_item \<Rightarrow> string list option \<Rightarrow> (string list \<times> string option) option" where
  "seed_item item given =
     (case given of
        None \<Rightarrow> None
      | Some as \<Rightarrow>
          (if as = [] then None
           else let labels = nullish (option_labels item) []
                in Some (filter (\<lambda>a. a \<in> set labels) as, find (\<lambda>a. a \<notin> set labels) as)))"

text \<open>The loop assigns into two records keyed by the question id, so a later item of the same id
  overwrites an earlier one: the records are maps.\<close>

fun seed_loop ::
    "question_item list \<Rightarrow> (string \<rightharpoonup> string list) \<Rightarrow> (string \<rightharpoonup> string list) \<Rightarrow>
     (string \<rightharpoonup> string) \<Rightarrow> (string \<rightharpoonup> string list) \<times> (string \<rightharpoonup> string)" where
  "seed_loop [] answers picked other = (picked, other)"
| "seed_loop (it # its) answers picked other =
     (case seed_item it (answers (questionId it)) of
        None \<Rightarrow> seed_loop its answers picked other
      | Some (chosen, typed) \<Rightarrow>
          seed_loop its answers
            (if chosen \<noteq> [] then picked(questionId it \<mapsto> chosen) else picked)
            (if truthy typed then other(questionId it \<mapsto> the typed) else other))"

definition seedAnswers ::
    "agent_question \<Rightarrow> (string \<rightharpoonup> string list) \<times> (string \<rightharpoonup> string)" where
  "seedAnswers q =
     seed_loop (q_items q) (case q_answers q of None \<Rightarrow> Map.empty | Some as \<Rightarrow> map_of as)
       Map.empty Map.empty"

section \<open>Status line\<close>

datatype status_tone = ToneRun | ToneDone | ToneStopped | ToneLost | ToneError | ToneWait

datatype status_key =
    StatusLost | StatusStopped | StatusFailed | StatusDone
  | StatusTools nat int | StatusCollating int | StatusStreaming int | StatusThinking int

definition turnStatus :: "agent_msg \<Rightarrow> int \<Rightarrow> status_tone \<times> status_key" where
  "turnStatus msg now =
     (if truthy (transportLost msg) then (ToneLost, StatusLost)
      else if phase msg = Done then
        (if stopped msg = Some True then (ToneStopped, StatusStopped)
         else if truthy (m_error msg) then (ToneError, StatusFailed)
         else (ToneDone, StatusDone))
      else
        let secs = round_seconds (now - phaseAt msg) in
        (case phase msg of
           Tools \<Rightarrow>
             (let running = length (filter (\<lambda>b. is_tool b \<and> \<not> b_done b) (blocks msg))
              in if 0 < running then (ToneRun, StatusTools running secs)
                 else (ToneRun, StatusCollating secs))
         | Streaming \<Rightarrow> (ToneRun, StatusStreaming secs)
         | _ \<Rightarrow> (ToneRun, StatusThinking secs)))"

section \<open>Restored threads and the instance\<close>

definition adoptsRestoredThread :: "'a list \<Rightarrow> bool \<Rightarrow> bool" where
  "adoptsRestoredThread restored handedOver = (restored \<noteq> [] \<and> \<not> handedOver)"

datatype phase_text = PhaseReady | PhaseCreating | PhaseFailed | PhaseVerbatim string

definition phaseText :: "string option \<Rightarrow> phase_text" where
  "phaseText p =
     (if p = Some ''Ready'' then PhaseReady
      else if p = Some ''Creating'' then PhaseCreating
      else if p = Some ''Failed'' then PhaseFailed
      else PhaseVerbatim (nullish p []))"

text \<open>\<open>parse_date\<close> is \<open>new Date(s).getTime()\<close>, \<^const>\<open>None\<close> for a date that does not parse.\<close>

definition waitingSeconds :: "(string \<Rightarrow> int option) \<Rightarrow> string option \<Rightarrow> int \<Rightarrow> int option" where
  "waitingSeconds parse_date startedAt now =
     (if \<not> truthy startedAt then None
      else map_option (\<lambda>t0. max 0 ((now - t0) div 1000)) (parse_date (the startedAt)))"

datatype waiting = WaitApproval | WaitQuestion

fun agent_msgs :: "'u thread_item list \<Rightarrow> agent_msg list" where
  "agent_msgs [] = []"
| "agent_msgs (Agent m # xs) = m # agent_msgs xs"
| "agent_msgs (Other u # xs) = agent_msgs xs"

definition waitingOnUser :: "'u thread_item list \<Rightarrow> waiting option" where
  "waitingOnUser msgs =
     (if \<exists>m\<in>set (agent_msgs msgs). openQuestions m \<noteq> [] then Some WaitQuestion
      else if \<exists>m\<in>set (agent_msgs msgs). openApprovals m \<noteq> [] then Some WaitApproval
      else None)"

end
