(* ===== verification/Agent_Turn.thy ===== *)
theory Agent_Turn
  imports Agent_Thread
begin

text \<open>
  One turn of the conversation under its stream of events: frame facts of the operations of
  \<open>Agent_Thread\<close>, the well-formedness invariant of a turn and that every event keeps it, and
  the behaviour of the individual folds (text, narration, tool results, cards, the terminal).
\<close>

section \<open>Frame facts\<close>

lemma setPhase_frame [card_simps, simp]:
  "blocks (setPhase m p now) = blocks m"
  "approvals (setPhase m p now) = approvals m"
  "questions (setPhase m p now) = questions m"
  "phase (setPhase m p now) = p"
  "m_id (setPhase m p now) = m_id m"
  "m_error (setPhase m p now) = m_error m"
  "stopped (setPhase m p now) = stopped m"
  "transportLost (setPhase m p now) = transportLost m"
  by (simp_all add: setPhase_def)

lemma addApproval_frame [card_simps, simp]:
  "blocks (addApproval m c) = blocks m"
  "questions (addApproval m c) = questions m"
  "phase (addApproval m c) = phase m"
  by (simp_all add: addApproval_def)

lemma text_frame [card_simps, simp]:
  "approvals (appendText m t) = approvals m" "approvals (replaceText m t) = approvals m"
  "approvals (narrate m i t) = approvals m"
  "questions (appendText m t) = questions m" "questions (replaceText m t) = questions m"
  "questions (narrate m i t) = questions m"
  "phase (appendText m t) = phase m" "phase (replaceText m t) = phase m"
  "phase (narrate m i t) = phase m"
  by (simp_all add: appendText_def replaceText_def narrate_def Let_def split: option.split)

lemma newApproval_simps [simp]:
  "a_callId (newApproval w) = w_approvalId w" "a_state (newApproval w) = Pending"
  "a_afterBlock (newApproval w) = w_afterBlock w"
  by (simp_all add: newApproval_def)

lemma newQuestion_simps [simp]:
  "q_callId (newQuestion c its t now ab) = c" "q_state (newQuestion c its t now ab) = QPending"
  "q_afterBlock (newQuestion c its t now ab) = ab"
  by (simp_all add: newQuestion_def)

lemma settle_approval_simps [simp]:
  "a_callId (settle_approval a) = a_callId a" "a_afterBlock (settle_approval a) = a_afterBlock a"
  "\<not> open_approval (settle_approval a)"
  by (auto simp: settle_approval_def open_approval_def)

lemma settle_question_simps [simp]:
  "q_callId (settle_question q) = q_callId q" "q_afterBlock (settle_question q) = q_afterBlock q"
  "\<not> open_question (settle_question q)"
  by (auto simp: settle_question_def open_question_def)

lemma approved_state_closed [simp]:
  "approved_state b \<noteq> Pending" "approved_state b \<noteq> Deciding"
  by (simp_all add: approved_state_def split: option.split)

lemma resolveOutcome_closed [simp]:
  "resolveOutcome t \<noteq> QPending" "resolveOutcome t \<noteq> Submitting"
  by (simp_all add: resolveOutcome_def)

lemma or_else_Some: "or_else x y = Some v \<longleftrightarrow> x = Some v \<or> x = None \<and> y = Some v"
  by (auto simp: or_else_def split: option.split)

lemma or_else_None: "or_else x y = None \<longleftrightarrow> x = None \<and> y = None"
  by (auto simp: or_else_def split: option.split)

lemma is_tool_iff: "is_tool b \<longleftrightarrow> (\<exists>cid n args out d. b = ToolB cid n args out d)"
  by (cases b) (auto simp: is_tool_def)

lemma is_narration_iff: "is_narration i b \<longleftrightarrow> (\<exists>t old. b = TextB t old (Some i))"
  by (cases b) (auto simp: is_narration_def)

lemma answerBlock_SomeD:
  assumes "answerBlock bs = Some k"
  obtains t old where "bs \<noteq> []" "k = length bs - 1" "bs ! k = TextB t old None"
proof -
  from assms obtain b where b: "last_opt bs = Some b" by (auto simp: answerBlock_def split: option.splits)
  with assms obtain t old where "b = TextB t old None" "k = length bs - 1"
    by (auto simp: answerBlock_def split: agent_block.splits option.splits)
  with last_opt_SomeD [OF b] have "bs \<noteq> []" "bs ! k = TextB t old None"
    by (auto simp: last_conv_nth)
  with \<open>k = length bs - 1\<close> show thesis using that by blast
qed

lemma answerBlock_snoc [simp]:
  "answerBlock (bs @ [TextB t old None]) = Some (length bs)"
  "answerBlock (bs @ [TextB t old (Some i)]) = None"
  "answerBlock (bs @ [ToolB c n a out d]) = None"
  by (simp_all add: answerBlock_def)

lemma tool_target_SomeD:
  assumes "tool_target bs callId = Some k"
  shows "k < length bs" and "is_tool (bs ! k)"
  using assms by (auto simp: tool_target_def or_else_Some dest: find_index_SomeD split: if_splits)

section \<open>The invariant of a turn\<close>

definition text_id :: "agent_block \<Rightarrow> string option" where
  "text_id b = (case b of TextB _ _ i \<Rightarrow> i | _ \<Rightarrow> None)"

definition narration_ids :: "agent_block list \<Rightarrow> string list" where
  "narration_ids bs = map the (filter (\<lambda>i. i \<noteq> None) (map text_id bs))"

text \<open>A tool call is done exactly when it has an output; displaced text is never an empty list.\<close>

fun block_ok :: "agent_block \<Rightarrow> bool" where
  "block_ok (TextB t old i) = (old \<noteq> Some [])"
| "block_ok (ToolB c n a out d) = (d \<longleftrightarrow> out \<noteq> None)"

definition blocks_ok :: "agent_block list \<Rightarrow> bool" where
  "blocks_ok bs \<longleftrightarrow> distinct (narration_ids bs) \<and> (\<forall>b\<in>set bs. block_ok b)"

definition position_ok :: "agent_block list \<Rightarrow> int option \<Rightarrow> bool" where
  "position_ok bs p = (case p of None \<Rightarrow> True | Some k \<Rightarrow> -1 \<le> k \<and> k < int (length bs))"

text \<open>The cards of a turn: one card per approval, every card at a position of the turn.\<close>

definition cards_ok :: "agent_msg \<Rightarrow> bool" where
  "cards_ok m \<longleftrightarrow> distinct (map a_callId (approvals m)) \<and>
     (\<forall>a\<in>set (approvals m). position_ok (blocks m) (a_afterBlock a)) \<and>
     (\<forall>q\<in>set (questions m). position_ok (blocks m) (q_afterBlock q))"

definition settled :: "agent_msg \<Rightarrow> bool" where
  "settled m \<longleftrightarrow> openApprovals m = [] \<and> openQuestions m = []"

definition turn_ok :: "agent_msg \<Rightarrow> bool" where
  "turn_ok m \<longleftrightarrow> blocks_ok (blocks m) \<and> cards_ok m \<and> (phase m = Done \<longrightarrow> settled m)"

subsection \<open>Blocks\<close>

lemma narration_ids_simps [simp]:
  "narration_ids [] = []"
  "narration_ids (bs @ [TextB t old None]) = narration_ids bs"
  "narration_ids (bs @ [TextB t old (Some i)]) = narration_ids bs @ [i]"
  "narration_ids (bs @ [ToolB c n a out d]) = narration_ids bs"
  by (simp_all add: narration_ids_def text_id_def)

lemma set_narration_ids: "i \<in> set (narration_ids bs) \<longleftrightarrow> (\<exists>b\<in>set bs. is_narration i b)"
proof
  assume "i \<in> set (narration_ids bs)"
  then obtain b where "b \<in> set bs" "text_id b = Some i" by (auto simp: narration_ids_def)
  then show "\<exists>b\<in>set bs. is_narration i b"
    by (intro bexI [of _ b]) (auto simp: text_id_def is_narration_def split: agent_block.splits)
next
  assume "\<exists>b\<in>set bs. is_narration i b"
  then obtain b where b: "b \<in> set bs" "text_id b = Some i"
    by (auto simp: is_narration_iff text_id_def)
  then have "Some i \<in> set (filter (\<lambda>i. i \<noteq> None) (map text_id bs))" by force
  then show "i \<in> set (narration_ids bs)"
    unfolding narration_ids_def by (metis imageI list.set_map option.sel)
qed

lemma narration_ids_update:
  "k < length bs \<Longrightarrow> text_id b = text_id (bs ! k) \<Longrightarrow> narration_ids (bs[k := b]) = narration_ids bs"
  by (simp add: narration_ids_def map_update_same)

lemma blocks_ok_update:
  "blocks_ok bs \<Longrightarrow> k < length bs \<Longrightarrow> text_id b = text_id (bs ! k) \<Longrightarrow> block_ok b \<Longrightarrow>
     blocks_ok (bs[k := b])"
  by (auto simp: blocks_ok_def narration_ids_update dest: set_update_subset_insert [THEN subsetD])

lemma blocks_ok_appendText: "blocks_ok (blocks m) \<Longrightarrow> blocks_ok (blocks (appendText m t))"
proof (cases "answerBlock (blocks m)")
  case None
  assume "blocks_ok (blocks m)"
  with None show ?thesis by (auto simp: appendText_def blocks_ok_def)
next
  case (Some k)
  assume ok: "blocks_ok (blocks m)"
  from Some obtain u old where u: "blocks m \<noteq> []" "k = length (blocks m) - 1"
    "blocks m ! k = TextB u old None" by (rule answerBlock_SomeD)
  then have "k < length (blocks m)" by (simp add: Suc_le_eq)
  moreover from this ok u have "old \<noteq> Some []"
    by (metis block_ok.simps(1) blocks_ok_def nth_mem)
  ultimately show ?thesis
    using ok Some u by (auto simp: appendText_def text_id_def intro!: blocks_ok_update)
qed

lemma blocks_ok_replaceText: "blocks_ok (blocks m) \<Longrightarrow> blocks_ok (blocks (replaceText m t))"
proof (cases "answerBlock (blocks m)")
  case None
  assume "blocks_ok (blocks m)"
  with None show ?thesis by (auto simp: replaceText_def blocks_ok_def)
next
  case (Some k)
  assume ok: "blocks_ok (blocks m)"
  from Some obtain u old where u: "blocks m \<noteq> []" "k = length (blocks m) - 1"
    "blocks m ! k = TextB u old None" by (rule answerBlock_SomeD)
  then have "k < length (blocks m)" by (simp add: Suc_le_eq)
  with ok Some u show ?thesis
    by (auto simp: replaceText_def Let_def text_id_def intro!: blocks_ok_update)
qed

lemma blocks_ok_narrate: "blocks_ok (blocks m) \<Longrightarrow> blocks_ok (blocks (narrate m i t))"
proof (cases "find_index (is_narration i) (blocks m)")
  case None
  assume "blocks_ok (blocks m)"
  moreover from None have "i \<notin> set (narration_ids (blocks m))"
    by (simp add: find_index_None set_narration_ids)
  moreover from None have "blocks (narrate m i t) = blocks m @ [TextB t None (Some i)]"
    by (simp add: narrate_def)
  ultimately show ?thesis by (auto simp: blocks_ok_def)
next
  case (Some k)
  assume ok: "blocks_ok (blocks m)"
  from find_index_SomeD [OF Some] obtain u old where k: "k < length (blocks m)"
    "blocks m ! k = TextB u old (Some i)" by (auto simp: is_narration_iff)
  from ok k have "old \<noteq> Some []" by (metis block_ok.simps(1) blocks_ok_def nth_mem)
  with ok Some k show ?thesis by (auto simp: narrate_def text_id_def intro!: blocks_ok_update)
qed

lemma blocks_ok_attach: "blocks_ok bs \<Longrightarrow> blocks_ok (attachToolResult bs c out)"
proof (cases "tool_target bs c")
  case None
  assume "blocks_ok bs"
  with None show ?thesis by (simp add: attachToolResult_def)
next
  case (Some k)
  assume "blocks_ok bs"
  moreover from tool_target_SomeD [OF Some] obtain cid n args prev d where
    "k < length bs" "bs ! k = ToolB cid n args prev d" by (auto simp: is_tool_iff)
  ultimately show ?thesis
    using Some by (auto simp: attachToolResult_def text_id_def intro!: blocks_ok_update)
qed

lemma blocks_ok_event:
  "blocks_ok (blocks m) \<Longrightarrow> blocks_ok (blocks (applyAgentEvent parse m evt now))"
  by (cases evt)
    (auto simp: applyAgentEvent_def blocks_ok_appendText blocks_ok_replaceText blocks_ok_narrate
      blocks_ok_attach, auto simp: blocks_ok_def)

subsection \<open>Cards\<close>

text \<open>Blocks are only ever appended or replaced in place.\<close>

lemma length_blocks_mono: "length (blocks m) \<le> length (blocks (applyAgentEvent parse m evt now))"
  by (cases evt)
    (auto simp: applyAgentEvent_def appendText_def replaceText_def narrate_def Let_def
      attachToolResult_def split: option.split)

lemma position_ok_mono: "position_ok bs p \<Longrightarrow> length bs \<le> length cs \<Longrightarrow> position_ok cs p"
  by (auto simp: position_ok_def split: option.splits)

lemma position_ok_after [simp]: "position_ok (blocks m) (Some (after_block m))"
  by (simp add: position_ok_def after_block_def)

lemma cards_ok_addApproval:
  "cards_ok m \<Longrightarrow> position_ok (blocks m) (a_afterBlock c) \<Longrightarrow> cards_ok (addApproval m c)"
  by (auto simp: cards_ok_def addApproval_def)

lemma cards_ok_same_blocks:
  assumes "cards_ok m" and "map a_callId (approvals n) = map a_callId (approvals m)"
    and "map a_afterBlock (approvals n) = map a_afterBlock (approvals m)"
    and "map q_afterBlock (questions n) = map q_afterBlock (questions m)"
    and "length (blocks m) \<le> length (blocks n)"
  shows "cards_ok n"
proof -
  have "\<forall>p\<in>set (map a_afterBlock (approvals m)). position_ok (blocks n) p"
    and "\<forall>p\<in>set (map q_afterBlock (questions m)). position_ok (blocks n) p"
    using assms(1,5) by (auto simp: cards_ok_def intro: position_ok_mono)
  then have "\<forall>p\<in>set (map a_afterBlock (approvals n)). position_ok (blocks n) p"
    and "\<forall>p\<in>set (map q_afterBlock (questions n)). position_ok (blocks n) p"
    by (simp_all only: assms(3,4))
  with assms(1,2) show ?thesis by (simp add: cards_ok_def)
qed

lemma cards_ok_event: "cards_ok m \<Longrightarrow> cards_ok (applyAgentEvent parse m evt now)"
proof (cases evt)
  case (ApprovalPending w)
  assume "cards_ok m"
  then have "cards_ok (addApproval m (newApproval (w\<lparr>w_afterBlock := Some (after_block m)\<rparr>)))"
    by (rule cards_ok_addApproval) simp
  with ApprovalPending show ?thesis by (simp add: applyAgentEvent_def cards_ok_def)
next
  case (QuestionPending c its t)
  assume "cards_ok m"
  with QuestionPending show ?thesis by (auto simp: applyAgentEvent_def cards_ok_def)
next
  case (ApprovalResolved c b)
  assume "cards_ok m"
  then show ?thesis
    by (rule cards_ok_same_blocks) (auto simp: applyAgentEvent_def ApprovalResolved)
next
  case (QuestionResolved c b)
  assume "cards_ok m"
  then show ?thesis
    by (rule cards_ok_same_blocks) (auto simp: applyAgentEvent_def QuestionResolved)
next
  case (MessageDone e s)
  assume "cards_ok m"
  then show ?thesis
    by (rule cards_ok_same_blocks) (auto simp: applyAgentEvent_def MessageDone)
qed (erule cards_ok_same_blocks; use length_blocks_mono [of m parse evt now] in
      \<open>simp add: applyAgentEvent_def\<close>)+

lemma settled_iff:
  "settled m \<longleftrightarrow> (\<forall>a\<in>set (approvals m). \<not> open_approval a) \<and>
     (\<forall>q\<in>set (questions m). \<not> open_question q)"
  by (simp add: settled_def openApprovals_def openQuestions_def filter_empty_conv)

lemma resolved_closed [simp]:
  "\<not> open_approval (a\<lparr>a_state := approved_state b\<rparr>)"
  "\<not> open_question (q\<lparr>q_state := resolveOutcome t\<rparr>)"
  by (simp_all add: open_approval_def open_question_def)

lemma settled_event:
  "(phase m = Done \<longrightarrow> settled m) \<Longrightarrow> phase (applyAgentEvent parse m evt now) = Done \<Longrightarrow>
     settled (applyAgentEvent parse m evt now)"
  by (cases evt) (auto simp: applyAgentEvent_def settled_iff)

lemma turn_ok_event: "turn_ok m \<Longrightarrow> turn_ok (applyAgentEvent parse m evt now)"
  by (simp add: turn_ok_def blocks_ok_event cards_ok_event settled_event)

section \<open>Streams\<close>

text \<open>The turns a stream can produce: a fresh turn, and any event folded at any time.\<close>

inductive stream :: "(string \<Rightarrow> json option) \<Rightarrow> agent_msg \<Rightarrow> bool" for parse where
  stream_start: "stream parse (newAgentMsg i now)"
| stream_event: "stream parse m \<Longrightarrow> stream parse (applyAgentEvent parse m evt now)"

lemma turn_ok_new: "turn_ok (newAgentMsg i now)"
  by (simp add: turn_ok_def newAgentMsg_def blocks_ok_def cards_ok_def)

lemma stream_turn_ok: "stream parse m \<Longrightarrow> turn_ok m"
  by (induction rule: stream.induct) (auto intro: turn_ok_new turn_ok_event)

text \<open>
  C1: in every turn a stream can produce, an approval has one card however often it was
  announced, every card sits at a position of the turn, a tool call is marked done exactly when
  it has an output, a narration step has one block, and a finished turn leaves no card open.
\<close>

theorem stream_invariant:
  assumes "stream parse m"
  shows "distinct (map a_callId (approvals m)) \<and>
    (\<forall>a\<in>set (approvals m). position_ok (blocks m) (a_afterBlock a)) \<and>
    (\<forall>q\<in>set (questions m). position_ok (blocks m) (q_afterBlock q)) \<and>
    (\<forall>c n a out d. ToolB c n a out d \<in> set (blocks m) \<longrightarrow> (d \<longleftrightarrow> out \<noteq> None)) \<and>
    distinct (narration_ids (blocks m)) \<and>
    (phase m = Done \<longrightarrow> openApprovals m = [] \<and> openQuestions m = [])"
  using stream_turn_ok [OF assms]
  by (auto simp: turn_ok_def blocks_ok_def cards_ok_def settled_def)

definition sample_wire :: approval_wire where
  "sample_wire = \<lparr>w_approvalId = ''ap-1'', w_name = Some ''exec'', w_command = Some ''kubectl apply'',
     w_level = None, w_message = None, w_afterBlock = None, w_createdAtMs = Some 1, w_expiresAtMs = Some 1801\<rparr>"

theorem stream_invariant_witness:
  "let m = applyAgentEvent (\<lambda>_. None)
      (applyAgentEvent (\<lambda>_. None) (newAgentMsg 0 0) (ToolCall ''exec'' (Some ''c1'') None) 1)
      (ApprovalPending sample_wire) 2
   in distinct (map a_callId (approvals m)) \<and> length (openApprovals m) = 1 \<and>
      map a_afterBlock (approvals m) = [Some 0]"
proof -
  let ?m1 = "applyAgentEvent (\<lambda>_. None) (newAgentMsg 0 0) (ToolCall ''exec'' (Some ''c1'') None) 1"
  let ?m = "applyAgentEvent (\<lambda>_. None) ?m1 (ApprovalPending sample_wire) 2"
  have "stream (\<lambda>_. None) ?m" by (intro stream_event stream_start)
  then have "distinct (map a_callId (approvals ?m))" using stream_invariant by blast
  moreover have "length (openApprovals ?m) = 1 \<and> map a_afterBlock (approvals ?m) = [Some 0]"
    by code_simp
  ultimately show ?thesis by (simp add: Let_def)
qed

section \<open>Decisions\<close>

definition run :: "(string \<Rightarrow> json option) \<Rightarrow> agent_msg \<Rightarrow> (agent_event \<times> int) list \<Rightarrow> agent_msg" where
  "run parse m evs = foldl (\<lambda>x (evt, now). applyAgentEvent parse x evt now) m evs"

lemma run_simps [simp]:
  "run parse m [] = m"
  "run parse m (e # evs) = run parse (applyAgentEvent parse m (fst e) (snd e)) evs"
  by (auto simp: run_def split: prod.splits)

lemma run_snoc: "run parse m (evs @ [e]) = applyAgentEvent parse (run parse m evs) (fst e) (snd e)"
  by (simp add: run_def split: prod.splits)

text \<open>The state a card is in is either the one it had, a stop, the decision of this event, or
  (for a new card) pending.\<close>

lemma event_approvals:
  assumes "a \<in> set (approvals (applyAgentEvent parse m evt now))"
  shows "a_state a \<in> {Pending, Stopped} \<or>
     (\<exists>b\<in>set (approvals m). a_callId b = a_callId a \<and> a_state b = a_state a) \<or>
     (\<exists>d. evt = ApprovalResolved (a_callId a) (Some d) \<and> a_state a = (if d then Approved else Rejected))"
proof (cases evt)
  case (ApprovalResolved c d)
  with assms obtain b where b: "b \<in> set (approvals m)"
    "a = (if a_callId b = c then b\<lparr>a_state := approved_state d\<rparr> else b)"
    by (auto simp: applyAgentEvent_def)
  then show ?thesis using ApprovalResolved by (cases d) (auto simp: approved_state_def split: if_splits)
next
  case (MessageDone e s)
  with assms obtain b where "b \<in> set (approvals m)" "a = settle_approval b"
    by (auto simp: applyAgentEvent_def)
  then show ?thesis by (auto simp: settle_approval_def split: if_splits)
next
  case (ApprovalPending w)
  with assms show ?thesis by (auto simp: applyAgentEvent_def addApproval_def split: if_splits)
qed (use assms in \<open>auto simp: applyAgentEvent_def\<close>)

lemma run_decided:
  "a \<in> set (approvals (run parse (newAgentMsg i t0) evs)) \<Longrightarrow> a_state a \<in> {Approved, Rejected} \<Longrightarrow>
     \<exists>now. (ApprovalResolved (a_callId a) (Some (a_state a = Approved)), now) \<in> set evs"
proof (induction evs arbitrary: a rule: rev_induct)
  case Nil
  then show ?case by (simp add: newAgentMsg_def)
next
  case (snoc e evs)
  obtain evt now where e: "e = (evt, now)" by (cases e)
  with snoc.prems have "a \<in> set (approvals (applyAgentEvent parse (run parse (newAgentMsg i t0) evs) evt now))"
    by (simp add: run_snoc)
  from event_approvals [OF this] snoc.prems(2) consider
    b where "b \<in> set (approvals (run parse (newAgentMsg i t0) evs))" "a_callId b = a_callId a"
      "a_state b = a_state a"
  | d where "evt = ApprovalResolved (a_callId a) (Some d)" "a_state a = (if d then Approved else Rejected)"
    by auto
  then show ?case
  proof cases
    case 1
    with snoc.IH [of b] snoc.prems(2) show ?thesis by auto
  next
    case 2
    then show ?thesis by (auto simp: e split: if_splits)
  qed
qed

text \<open>
  a card never shows a decision nobody took: an approval that a whole stream leaves approved
  or rejected was resolved in that stream by an event carrying exactly that decision. (An absent
  decision, a stop or the end of the turn leaves it stopped.)
\<close>

theorem decision_has_event:
  assumes "a \<in> set (approvals (run parse (newAgentMsg i t0) evs))"
    and "a_state a = Approved \<or> a_state a = Rejected"
  shows "\<exists>now. (ApprovalResolved (a_callId a) (Some (a_state a = Approved)), now) \<in> set evs"
  using run_decided [OF assms(1)] assms(2) by auto

theorem decision_has_event_witness:
  "let evs = [(ApprovalPending sample_wire, 1), (ApprovalResolved ''ap-1'' (Some False), 2)];
       m = run (\<lambda>_. None) (newAgentMsg 0 0) evs
   in a_state (hd (approvals m)) = Rejected \<and>
      (\<exists>now. (ApprovalResolved ''ap-1'' (Some False), now) \<in> set evs)"
proof -
  let ?evs = "[(ApprovalPending sample_wire, 1), (ApprovalResolved ''ap-1'' (Some False), 2)]"
  let ?m = "run (\<lambda>_. None) (newAgentMsg 0 0) ?evs"
  have st: "a_state (hd (approvals ?m)) = Rejected" by code_simp
  have id: "a_callId (hd (approvals ?m)) = ''ap-1''" by code_simp
  have "approvals ?m \<noteq> []" by code_simp
  then have "hd (approvals ?m) \<in> set (approvals ?m)" by (rule hd_in_set)
  from decision_has_event [OF this] st id
  have "\<exists>now. (ApprovalResolved ''ap-1'' (Some False), now) \<in> set ?evs" by simp
  with st show ?thesis by (simp only: Let_def simp_thms)
qed

text \<open>
  the terminal event settles the turn: no card is left waiting, the cards and their ids are
  kept, a card already decided keeps its state, the turn is not reported as running any more,
  and a stopped turn carries no error.
\<close>

theorem message_done_settles:
  fixes parse m err stop now
  defines "m' \<equiv> applyAgentEvent parse m (MessageDone err stop) now"
  shows "openApprovals m' = [] \<and> openQuestions m' = [] \<and>
    map a_callId (approvals m') = map a_callId (approvals m) \<and>
    map q_callId (questions m') = map q_callId (questions m) \<and>
    blocks m' = blocks m \<and>
    (\<forall>a\<in>set (approvals m). \<not> open_approval a \<longrightarrow> a \<in> set (approvals m')) \<and>
    (\<forall>q\<in>set (questions m). \<not> open_question q \<longrightarrow> q \<in> set (questions m')) \<and>
    fst (turnStatus m' t) \<noteq> ToneRun \<and> (stop = Some True \<longrightarrow> m_error m' = None)"
proof -
  have sa: "\<not> open_approval a \<Longrightarrow> settle_approval a = a" for a
    by (auto simp: settle_approval_def open_approval_def)
  have sq: "\<not> open_question q \<Longrightarrow> settle_question q = q" for q
    by (auto simp: settle_question_def open_question_def)
  have m': "approvals m' = map settle_approval (approvals m)"
      "questions m' = map settle_question (questions m)" "blocks m' = blocks m" "phase m' = Done"
      "m_error m' = (if stop = Some True then None else or_undef err)"
    by (simp_all add: m'_def applyAgentEvent_def)
  have "\<forall>a\<in>set (approvals m). \<not> open_approval a \<longrightarrow> a \<in> set (approvals m')"
    by (metis m'(1) sa image_eqI list.set_map)
  moreover have "\<forall>q\<in>set (questions m). \<not> open_question q \<longrightarrow> q \<in> set (questions m')"
    by (metis m'(2) sq image_eqI list.set_map)
  moreover have "fst (turnStatus m' t) \<noteq> ToneRun" by (simp add: turnStatus_def m'(4))
  ultimately show ?thesis
    by (simp add: m' openApprovals_def openQuestions_def filter_map o_def)
qed

theorem message_done_settles_witness:
  "let m = applyAgentEvent (\<lambda>_. None) (newAgentMsg 0 0) (ApprovalPending sample_wire) 1
   in openApprovals m \<noteq> [] \<and>
      openApprovals (applyAgentEvent (\<lambda>_. None) m (MessageDone None (Some True)) 2) = []"
proof -
  let ?m = "applyAgentEvent (\<lambda>_. None) (newAgentMsg 0 0) (ApprovalPending sample_wire) 1"
  have "List.null (openApprovals ?m) = False" by code_simp
  then have "openApprovals ?m \<noteq> []" by auto
  with message_done_settles [of "\<lambda>_. None" ?m None "Some True" 2] show ?thesis by (simp add: Let_def)
qed

section \<open>Text and narration\<close>

lemma with_text_with_text [simp]: "with_text t (with_text u b) = with_text t b"
  by (cases b) auto

lemma with_text_b_text [simp]: "with_text (b_text b) b = b"
  by (cases b) auto

lemma appendText_answer:
  "blocks m = bs @ [TextB u old None] \<Longrightarrow>
     appendText m d = m\<lparr>blocks := bs @ [TextB (u @ d) old None]\<rparr>"
  by (simp add: appendText_def)

lemma appendText_start:
  "answerBlock (blocks m) = None \<Longrightarrow> appendText m d = m\<lparr>blocks := blocks m @ [TextB d None None]\<rparr>"
  by (simp add: appendText_def)

lemma answer_cases:
  obtains "answerBlock bs = None" | cs u old where "bs = cs @ [TextB u old None]"
proof (cases "answerBlock bs")
  case (Some k)
  then obtain t old where "bs \<noteq> []" "k = length bs - 1" "bs ! k = TextB t old None"
    by (rule answerBlock_SomeD)
  then have "bs = butlast bs @ [TextB t old None]"
    by (metis append_butlast_last_id last_conv_nth)
  with that show thesis by blast
qed

lemma appendText_append: "appendText (appendText m d) e = appendText m (d @ e)"
proof (cases rule: answer_cases [of "blocks m"])
  case 1
  then show ?thesis by (simp add: appendText_start) (simp add: appendText_answer)
next
  case (2 cs u old)
  then show ?thesis by (simp add: appendText_answer)
qed

lemma foldl_appendText: "foldl appendText (appendText m d) ds = appendText m (d @ concat ds)"
  by (induction ds arbitrary: d) (auto simp: appendText_append)

text \<open>
  a streamed answer is the concatenation of its increments: however the text is cut into
  deltas, the turn is the same as after one delta with the whole text.
\<close>

theorem deltas_concat:
  assumes "ds \<noteq> []"
  shows "foldl appendText m ds = appendText m (concat ds)"
  using assms foldl_appendText by (cases ds) auto

theorem deltas_concat_witness:
  "foldl appendText (newAgentMsg 0 0) [''ab'', ''c''] = appendText (newAgentMsg 0 0) ''abc''"
  using deltas_concat [of "[''ab'', ''c'']" "newAgentMsg 0 0"] by simp

lemma replaceText_answer:
  "blocks m = bs @ [TextB u old None] \<Longrightarrow>
     replaceText m t = m\<lparr>blocks := bs @ [TextB t
       (let s = superseded_by t (TextB u old None) in if s = None \<or> s = Some [] then None else s) None]\<rparr>"
  by (simp add: replaceText_def Let_def)

lemma replaceText_start:
  "answerBlock (blocks m) = None \<Longrightarrow> replaceText m d = m\<lparr>blocks := blocks m @ [TextB d None None]\<rparr>"
  by (simp add: replaceText_def)

text \<open>
  a rewrite of the answer is a snapshot that loses nothing: the displaced text is kept (last
  in the list of displaced texts), text in front of the answer is untouched, and a repeated
  snapshot changes nothing.
\<close>

theorem replaceText_keeps_displaced:
  assumes "blocks m = bs @ [TextB u old None]" and "u \<noteq> []" and "u \<noteq> t"
  shows "blocks (replaceText m t) = bs @ [TextB t (Some (nullish old [] @ [u])) None] \<and>
    replaceText (replaceText m t) t = replaceText m t"
proof -
  have r: "replaceText m t = m\<lparr>blocks := bs @ [TextB t (Some (nullish old [] @ [u])) None]\<rparr>"
    using assms by (simp add: replaceText_answer superseded_by_def)
  then have "replaceText (replaceText m t) t = replaceText m t"
    by (simp add: replaceText_answer superseded_by_def)
  with r show ?thesis by simp
qed

theorem replaceText_keeps_displaced_witness:
  "blocks (replaceText ((newAgentMsg 0 0)\<lparr>blocks := [TextB ''old'' None None]\<rparr>) ''new'') =
     [TextB ''new'' (Some [''old'']) None]"
  using replaceText_keeps_displaced
    [of "(newAgentMsg 0 0)\<lparr>blocks := [TextB ''old'' None None]\<rparr>" "[]" "''old''" None "''new''"]
  by simp

lemma narrate_at:
  assumes "find_index (is_narration i) (blocks m) = Some k"
  shows "narrate m i t = m\<lparr>blocks := (blocks m)[k := with_text t (blocks m ! k)]\<rparr>"
  using assms by (auto simp: narrate_def)

lemma find_index_narrated:
  assumes "find_index (is_narration i) bs = Some k"
  shows "find_index (is_narration i) (bs[k := with_text t (bs ! k)]) = Some k"
proof -
  have same: "is_narration i (with_text t b) = is_narration i b" for b
    by (cases b) (auto simp: is_narration_def)
  from assms show ?thesis
  proof (induction bs arbitrary: k)
    case (Cons b bs)
    then show ?case by (cases k) (auto simp: same split: if_splits)
  qed simp
qed

text \<open>
  the last snapshot of a narration step is the one shown, in the step's own place: folding
  two snapshots of a step is folding the second, and no increment or rewrite of the answer
  changes a narration block.
\<close>

theorem narration_last_wins:
  "narrate (narrate m i t) i u = narrate m i u \<and>
   (\<forall>b\<in>set (blocks m). text_id b \<noteq> None \<longrightarrow>
      b \<in> set (blocks (appendText m d)) \<and> b \<in> set (blocks (replaceText m d)))"
proof (rule conjI)
  show "narrate (narrate m i t) i u = narrate m i u"
  proof (cases "find_index (is_narration i) (blocks m)")
    case None
    then have "narrate m i t = m\<lparr>blocks := blocks m @ [TextB t None (Some i)]\<rparr>" for t
      by (simp add: narrate_def)
    moreover from None
    have "find_index (is_narration i) (blocks m @ [TextB t None (Some i)]) = Some (length (blocks m))"
      by (simp add: find_index_append is_narration_def)
    ultimately show ?thesis by (simp add: narrate_at)
  next
    case (Some k)
    from find_index_SomeD(1) [OF Some] find_index_narrated [OF Some] show ?thesis
      by (simp add: narrate_at [OF Some] narrate_at)
  qed
next
  show "\<forall>b\<in>set (blocks m). text_id b \<noteq> None \<longrightarrow>
      b \<in> set (blocks (appendText m d)) \<and> b \<in> set (blocks (replaceText m d))"
  proof (cases rule: answer_cases [of "blocks m"])
    case 1
    then show ?thesis by (auto simp: appendText_start replaceText_start)
  next
    case (2 cs v old)
    then show ?thesis
      by (auto simp: appendText_answer replaceText_answer text_id_def)
  qed
qed

theorem narration_last_wins_witness:
  "narrate (narrate (newAgentMsg 0 0) ''s1'' ''looking'') ''s1'' ''found'' =
     narrate (newAgentMsg 0 0) ''s1'' ''found''"
  using narration_last_wins [of "newAgentMsg 0 0" "''s1''" "''looking''" "''found''"] by simp

section \<open>Tool results\<close>

lemma attach_at:
  "tool_target bs c = Some k \<Longrightarrow> attachToolResult bs c out = bs[k := finish_tool out (bs ! k)]"
  by (simp add: attachToolResult_def)

text \<open>
  attaching a result changes at most the one call it is paired with, marks it done and
  loses no output: every other block is unchanged, and what a call had already printed is a
  prefix of what it shows afterwards. Only a turn in which every call has its result drops one.
\<close>

theorem attach_conserves:
  "length (attachToolResult bs c out) = length bs \<and>
   (\<forall>i<length bs. attachToolResult bs c out ! i = bs ! i \<or>
      (\<exists>cid n args prev d new. bs ! i = ToolB cid n args prev d \<and>
         attachToolResult bs c out ! i = ToolB cid n args (Some new) True \<and>
         tool_target bs c = Some i \<and> prefix (nullish prev []) new \<and> suffix out new)) \<and>
   (tool_target bs c = None \<longrightarrow> (\<forall>b\<in>set bs. is_tool b \<longrightarrow> b_done b \<and> b_output b \<noteq> None))"
proof (cases "tool_target bs c")
  case None
  then have "\<forall>b\<in>set bs. is_tool b \<longrightarrow> b_done b \<and> b_output b \<noteq> None"
    by (auto simp: tool_target_def or_else_None find_index_None)
  moreover from None have "attachToolResult bs c out = bs" by (simp add: attachToolResult_def)
  ultimately show ?thesis by simp
next
  case (Some k)
  from tool_target_SomeD [OF Some] obtain cid n args prev d where
    k: "k < length bs" "bs ! k = ToolB cid n args prev d" by (auto simp: is_tool_iff)
  let ?new = "if truthy prev then the prev @ CHR 0x0A # out else out"
  have "prefix (nullish prev []) ?new \<and> suffix out ?new"
    by (cases prev) (auto simp: suffix_def)
  with k Some show ?thesis by (auto simp: attach_at nth_list_update)
qed

theorem attach_conserves_witness:
  "attachToolResult [ToolB (Some ''c1'') ''exec'' None None False] (Some ''c1'') ''ok'' =
     [ToolB (Some ''c1'') ''exec'' None (Some ''ok'') True] \<and>
   length (attachToolResult [ToolB (Some ''c1'') ''exec'' None None False] (Some ''c1'') ''ok'') = 1"
  using attach_conserves [of "[ToolB (Some ''c1'') ''exec'' None None False]" "Some ''c1''" "''ok''"]
  by (simp add: attachToolResult_def tool_target_def or_else_def is_tool_def)

text \<open>Pairing by id.\<close>

lemma find_index_unique:
  "k < length xs \<Longrightarrow> P (xs ! k) \<Longrightarrow> (\<And>j. j < length xs \<Longrightarrow> P (xs ! j) \<Longrightarrow> j = k) \<Longrightarrow>
     find_index P xs = Some k"
  by (metis find_index_None find_index_SomeD(1,2) not_None_eq nth_mem)

text \<open>Pairing by arrival order: the oldest unfinished call is the one a result without id goes
  to.\<close>

lemma attach_oldest:
  assumes "\<forall>b\<in>set ds. is_tool b \<longrightarrow> b_done b" and "is_tool b" and "\<not> b_done b"
  shows "attachToolResult (ds @ b # bs) None out = ds @ finish_tool out b # bs"
proof -
  from assms have "find_index (\<lambda>b. is_tool b \<and> \<not> b_done b) (ds @ b # bs) = Some (length ds)"
    by (auto simp: find_index_append find_index_None [THEN iffD2])
  then show ?thesis by (simp add: attachToolResult_def tool_target_def or_else_def)
qed

lemma finish_tool_done [simp]: "is_tool b \<Longrightarrow> b_done (finish_tool out b)"
  by (auto simp: is_tool_iff)

lemma attach_in_order:
  "length rs = length bs \<Longrightarrow> \<forall>b\<in>set bs. is_tool b \<and> \<not> b_done b \<Longrightarrow>
     \<forall>b\<in>set ds. is_tool b \<longrightarrow> b_done b \<Longrightarrow>
   foldl (\<lambda>x r. attachToolResult x None r) (ds @ bs) rs = ds @ map2 finish_tool rs bs"
proof (induction rs arbitrary: bs ds)
  case (Cons r rs)
  then obtain b bs' where bs: "bs = b # bs'" "length rs = length bs'" by (cases bs) auto
  with Cons.prems have "attachToolResult (ds @ bs) None r = (ds @ [finish_tool r b]) @ bs'"
    by (simp add: attach_oldest)
  with Cons.IH [of bs' "ds @ [finish_tool r b]"] Cons.prems bs show ?case by simp
qed simp

text \<open>
  results that carry no call id pair with the calls in the order both arrived: after as many
  results as there are open calls, the i-th call holds the i-th result.
\<close>

theorem results_pair_in_order:
  assumes "length rs = length bs" and "\<forall>b\<in>set bs. is_tool b \<and> \<not> b_done b"
  shows "foldl (\<lambda>x r. attachToolResult x None r) bs rs = map2 finish_tool rs bs"
  using attach_in_order [of rs bs "[]"] assms by simp

theorem results_pair_in_order_witness:
  "foldl (\<lambda>x r. attachToolResult x None r)
     [ToolB None ''a'' None None False, ToolB None ''b'' None None False] [''1'', ''2''] =
   [ToolB None ''a'' None (Some ''1'') True, ToolB None ''b'' None (Some ''2'') True]"
  using results_pair_in_order [of "[''1'', ''2'']"
      "[ToolB None ''a'' None None False, ToolB None ''b'' None None False]"]
  by (simp add: is_tool_def)

text \<open>
  a result that names an open call goes to that call, wherever it stands in the turn.
\<close>

theorem result_pairs_by_id:
  assumes "k < length bs" and "bs ! k = ToolB (Some c) n args None False" and "c \<noteq> []"
    and "\<And>j. j < length bs \<Longrightarrow> j \<noteq> k \<Longrightarrow> is_tool (bs ! j) \<Longrightarrow> b_callId (bs ! j) \<noteq> Some c"
  shows "attachToolResult bs (Some c) out = bs[k := ToolB (Some c) n args (Some out) True]"
proof -
  have "find_index (\<lambda>b. is_tool b \<and> b_callId b = Some c \<and> \<not> b_done b) bs = Some k"
  proof (rule find_index_unique)
    show "j = k" if "j < length bs" "is_tool (bs ! j) \<and> b_callId (bs ! j) = Some c \<and> \<not> b_done (bs ! j)"
      for j using assms(4) [of j] that by auto
  qed (use assms in \<open>auto simp: is_tool_iff\<close>)
  then have "tool_target bs (Some c) = Some k"
    using assms(3) by (simp add: tool_target_def or_else_def)
  with assms(2) show ?thesis by (simp add: attach_at)
qed

theorem result_pairs_by_id_witness:
  "attachToolResult [ToolB None ''a'' None None False, ToolB (Some ''c'') ''b'' None None False]
     (Some ''c'') ''r'' =
   [ToolB None ''a'' None None False, ToolB (Some ''c'') ''b'' None (Some ''r'') True]"
  using result_pairs_by_id [of 1 "[ToolB None ''a'' None None False,
      ToolB (Some ''c'') ''b'' None None False]" "''c''" "''b''" None "''r''"]
  by (auto simp: less_Suc_eq)

section \<open>Questions and countdowns\<close>

text \<open>
  unlike an approval, a question announced again is a second card: the fold appends one card
  per announcement, whatever cards of that id the turn already holds.
\<close>

theorem question_pending_appends:
  "length (filter (\<lambda>q. q_callId q = c)
      (questions (applyAgentEvent parse m (QuestionPending c its t) now))) =
   Suc (length (filter (\<lambda>q. q_callId q = c) (questions m)))"
  by (simp add: applyAgentEvent_def)

lemma round_seconds_0: "round_seconds ms = 0 \<longleftrightarrow> ms < 500"
  by (auto simp: round_seconds_def max_def)

text \<open>
  the controls of a card are withdrawn in the last half second before its deadline, not only
  once the deadline has passed: an open approval is expiring exactly from 499 milliseconds
  before its expiry on (and a card without a deadline never is).
\<close>

theorem approvalExpiring_iff:
  "approvalExpiring a now \<longleftrightarrow>
     open_approval a \<and> (\<exists>d. a_expiresAtMs a = Some d \<and> d - 500 < now)"
  by (auto simp: approvalExpiring_def approvalSecondsLeft_def round_seconds_0)

lemma isExpiring_iff:
  "isExpiring q now \<longleftrightarrow> open_question q \<and> (\<exists>d. q_deadline q = Some d \<and> d - 500 < now)"
  by (auto simp: isExpiring_def remainingSeconds_def round_seconds_0)

end
