(* ===== verification/Agent_Cards.thy ===== *)
theory Agent_Cards
  imports Agent_Turn
begin

text \<open>
  A thread and its refresh (\<open>lib/cubepilot/agentThread.ts\<close>): merging the open cards of the thread
  on screen into the runtime's transcript, settling the cards a pending read no longer carries,
  and the fold of the runtime's history document. The lemmas show that a refresh loses no open
  card, that the sweep retires exactly the cards it may, and the shape of a restored thread.
\<close>

section \<open>Carrying cards\<close>

definition mergeOpenCards ::
    "agent_msg \<Rightarrow> agent_approval list \<Rightarrow> agent_question list \<Rightarrow> agent_msg" where
  "mergeOpenCards msg as qs =
     (let out = foldl addApproval msg as;
          known = set (map q_callId (questions out));
          added = filter (\<lambda>q. q_callId q \<notin> known) qs
      in if added \<noteq> [] then out\<lparr>questions := questions out @ added\<rparr> else out)"

definition is_agent :: "'u thread_item \<Rightarrow> bool" where
  "is_agent x = (case x of Agent _ \<Rightarrow> True | Other _ \<Rightarrow> False)"

fun agent_indices :: "nat \<Rightarrow> 'u thread_item list \<Rightarrow> nat list" where
  "agent_indices i [] = []"
| "agent_indices i (x # xs) =
     (if is_agent x then i # agent_indices (Suc i) xs else agent_indices (Suc i) xs)"

fun merge_item ::
    "'u thread_item \<Rightarrow> agent_approval list \<Rightarrow> agent_question list \<Rightarrow> 'u thread_item" where
  "merge_item (Agent m) as qs = Agent (mergeOpenCards m as qs)"
| "merge_item (Other u) as qs = Other u"

text \<open>Where the cards of the j-th turn on screen go.\<close>

definition landing :: "nat list \<Rightarrow> nat \<Rightarrow> nat" where
  "landing idx j = idx ! min j (length idx - 1)"

text \<open>The loop over the agent turns of the thread on screen; \<open>idx\<close> are the positions of the agent
  turns of the transcript.\<close>

fun carry_loop ::
    "nat list \<Rightarrow> nat \<Rightarrow> agent_msg list \<Rightarrow> 'u thread_item list \<Rightarrow> 'u thread_item list" where
  "carry_loop idx i [] out = out"
| "carry_loop idx i (m # ms) out =
     (if openApprovals m = [] \<and> openQuestions m = [] then carry_loop idx (Suc i) ms out
      else
        carry_loop idx (Suc i) ms
          (out[landing idx i := merge_item (out ! landing idx i) (openApprovals m) (openQuestions m)]))"

definition carryOpenCards ::
    "'u thread_item list \<Rightarrow> 'u thread_item list \<Rightarrow> 'u thread_item list" where
  "carryOpenCards prev nxt =
     (let idx = agent_indices 0 nxt
      in if idx = [] then nxt else carry_loop idx 0 (agent_msgs prev) nxt)"

section \<open>The pending read\<close>

datatype card_kind = Approvals | Questions

definition kind_key :: "card_kind \<Rightarrow> string" where
  "kind_key k = (case k of Approvals \<Rightarrow> ''approvals'' | Questions \<Rightarrow> ''questions'')"

definition pendingCollection :: "json option \<Rightarrow> card_kind \<Rightarrow> string + json list" where
  "pendingCollection body kind =
     (case (case body of Some (JObj es) \<Rightarrow> map_of es (kind_key kind) | _ \<Rightarrow> None) of
        Some (JArr vs) \<Rightarrow> Inr vs
      | _ \<Rightarrow> Inl (''the '' @ kind_key kind @ '' answer carried no list''))"

definition openCardIds :: "'u thread_item list \<Rightarrow> string set \<times> string set" where
  "openCardIds msgs =
     (set (concat (map (\<lambda>m. map a_callId (openApprovals m)) (agent_msgs msgs))),
      set (concat (map (\<lambda>m. map q_callId (openQuestions m)) (agent_msgs msgs))))"

definition sweep_approval :: "string set \<Rightarrow> string set \<Rightarrow> agent_approval \<Rightarrow> agent_approval" where
  "sweep_approval pending before a =
     (if a_state a = Pending \<and> a_callId a \<in> before \<and> a_callId a \<notin> pending
      then a\<lparr>a_state := Stopped\<rparr> else a)"

definition sweep_question :: "string set \<Rightarrow> string set \<Rightarrow> agent_question \<Rightarrow> agent_question" where
  "sweep_question pending before q =
     (if q_state q = QPending \<and> q_callId q \<in> before \<and> q_callId q \<notin> pending
      then q\<lparr>q_state := Expired\<rparr> else q)"

definition sweep_msg :: "card_kind \<Rightarrow> string set \<Rightarrow> string set \<Rightarrow> agent_msg \<Rightarrow> agent_msg" where
  "sweep_msg kind pending before m =
     (case kind of
        Approvals \<Rightarrow> m\<lparr>approvals := map (sweep_approval pending before) (approvals m)\<rparr>
      | Questions \<Rightarrow> m\<lparr>questions := map (sweep_question pending before) (questions m)\<rparr>)"

definition settleCardsAbsent ::
    "'u thread_item list \<Rightarrow> card_kind \<Rightarrow> string set \<Rightarrow> string set \<Rightarrow> 'u thread_item list" where
  "settleCardsAbsent msgs kind pending before =
     map (\<lambda>x. case x of Agent m \<Rightarrow> Agent (sweep_msg kind pending before m) | Other u \<Rightarrow> Other u) msgs"

section \<open>History\<close>

datatype history_role = RUser | RAssistant | RToolResult

datatype block_type = HText | HToolCall

record history_block =
  hb_type :: block_type
  hb_text :: "string option"
  hb_name :: "string option"
  hb_id :: "string option"
  hb_arguments :: "json option"

datatype history_content = CText string | CBlocks "history_block list"

record history_message =
  h_role :: history_role
  h_content :: history_content
  h_toolCallId :: "string option"

abbreviation newline :: string where
  "newline \<equiv> [CHR 0x0A]"

definition user_text :: "history_content \<Rightarrow> string" where
  "user_text c =
     (case c of CText t \<Rightarrow> t
      | CBlocks bs \<Rightarrow> join newline (map (\<lambda>b. nullish (hb_text b) []) (filter (\<lambda>b. hb_type b = HText) bs)))"

definition result_text :: "history_content \<Rightarrow> string" where
  "result_text c =
     (case c of CText t \<Rightarrow> t | CBlocks bs \<Rightarrow> join newline (map (\<lambda>b. nullish (hb_text b) []) bs))"

definition content_blocks :: "history_content \<Rightarrow> history_block list" where
  "content_blocks c =
     (case c of
        CText t \<Rightarrow> [\<lparr>hb_type = HText, hb_text = Some t, hb_name = None, hb_id = None, hb_arguments = None\<rparr>]
      | CBlocks bs \<Rightarrow> bs)"

definition add_history_block ::
    "(string \<Rightarrow> json option) \<Rightarrow> agent_msg \<Rightarrow> history_block \<Rightarrow> agent_msg" where
  "add_history_block parse agent b =
     (if hb_type b = HText \<and> truthy (hb_text b) then
        (case last_opt (blocks agent) of
           Some (TextB t old i) \<Rightarrow>
             agent\<lparr>blocks := butlast (blocks agent) @ [TextB (t @ newline @ newline @ the (hb_text b)) old i]\<rparr>
         | _ \<Rightarrow> agent\<lparr>blocks := blocks agent @ [TextB (the (hb_text b)) None None]\<rparr>)
      else if hb_type b = HToolCall then
        agent\<lparr>blocks := blocks agent @
          [ToolB (hb_id b) (nullish (hb_name b) ''tool'') (fmtToolArgs parse (hb_arguments b)) None False]\<rparr>
      else agent)"

text \<open>One message of the document. \<open>ids k\<close> is the answer of the k-th call of the caller's
  \<open>nextId\<close>, and \<open>k\<close> counts the calls so far.\<close>

definition history_step ::
    "(string \<Rightarrow> json option) \<Rightarrow> (nat \<Rightarrow> nat) \<Rightarrow> int \<Rightarrow> thread_msg list \<times> nat \<Rightarrow> history_message \<Rightarrow>
     thread_msg list \<times> nat" where
  "history_step parse ids now s it =
     (case s of (out, k) \<Rightarrow>
        if h_role it = RUser then
          (let text = user_text (h_content it)
           in if trim text \<noteq> [] then (out @ [Other \<lparr>u_id = ids k, u_text = text\<rparr>], Suc k) else (out, k))
        else
          (let (front, agent, k') =
             (case last_opt out of
                Some (Agent m) \<Rightarrow> (butlast out, m, k)
              | _ \<Rightarrow> (out, (newAgentMsg (ids k) now)\<lparr>phase := Done\<rparr>, Suc k))
           in (front @ [Agent
                 (if h_role it = RToolResult
                  then agent\<lparr>blocks := attachToolResult (blocks agent) (h_toolCallId it) (result_text (h_content it))\<rparr>
                  else foldl (add_history_block parse) agent (content_blocks (h_content it)))], k')))"

definition historyToMsgs ::
    "(string \<Rightarrow> json option) \<Rightarrow> (nat \<Rightarrow> nat) \<Rightarrow> int \<Rightarrow> history_message list \<Rightarrow> thread_msg list" where
  "historyToMsgs parse ids now items = fst (foldl (history_step parse ids now) ([], 0) items)"

section \<open>Merging keeps every card\<close>

lemma addApproval_keeps: "prefix (approvals m) (approvals (addApproval m c))"
  by (auto simp: addApproval_def)

lemma addApproval_has: "\<exists>b\<in>set (approvals (addApproval m c)). a_callId b = a_callId c"
  by (auto simp: addApproval_def)

lemma addApproval_ids:
  "a_callId ` set (approvals (addApproval m c)) = insert (a_callId c) (a_callId ` set (approvals m))"
proof (cases "\<exists>a\<in>set (approvals m). a_callId a = a_callId c")
  case True
  then have "a_callId c \<in> a_callId ` set (approvals m)" by (metis imageI)
  with True show ?thesis by (simp add: addApproval_def insert_absorb)
qed (auto simp: addApproval_def)

lemma addApproval_distinct:
  "distinct (map a_callId (approvals m)) \<Longrightarrow> distinct (map a_callId (approvals (addApproval m c)))"
  by (auto simp: addApproval_def)

lemma foldl_addApproval:
  "prefix (approvals m) (approvals (foldl addApproval m as))"
  "a_callId ` set (approvals (foldl addApproval m as)) =
     a_callId ` set as \<union> a_callId ` set (approvals m)"
  "distinct (map a_callId (approvals m)) \<Longrightarrow>
     distinct (map a_callId (approvals (foldl addApproval m as)))"
  "questions (foldl addApproval m as) = questions m"
  "blocks (foldl addApproval m as) = blocks m"
  by (induction as arbitrary: m)
    (auto simp: addApproval_ids addApproval_distinct intro: prefix_order.trans [OF addApproval_keeps])

lemma mergeOpenCards_simps:
  "approvals (mergeOpenCards m as qs) = approvals (foldl addApproval m as)"
  "questions (mergeOpenCards m as qs) =
     questions m @ filter (\<lambda>q. q_callId q \<notin> q_callId ` set (questions m)) qs"
  "blocks (mergeOpenCards m as qs) = blocks m"
  by (auto simp: mergeOpenCards_def Let_def foldl_addApproval filter_empty_conv)

lemma mergeOpenCards_keeps:
  "prefix (approvals m) (approvals (mergeOpenCards m as qs))"
  "prefix (questions m) (questions (mergeOpenCards m as qs))"
  by (simp_all add: mergeOpenCards_simps foldl_addApproval)

lemma mergeOpenCards_ids:
  "a_callId ` set (approvals (mergeOpenCards m as qs)) = a_callId ` set as \<union> a_callId ` set (approvals m)"
  "q_callId ` set (questions (mergeOpenCards m as qs)) = q_callId ` set qs \<union> q_callId ` set (questions m)"
  by (auto simp: mergeOpenCards_simps foldl_addApproval)

section \<open>Carrying loses nothing\<close>

text \<open>A later version of a thread item: the same message, with at least its cards.\<close>

fun extends :: "'u thread_item \<Rightarrow> 'u thread_item \<Rightarrow> bool" where
  "extends (Agent m) (Agent n) \<longleftrightarrow> prefix (approvals m) (approvals n) \<and>
     prefix (questions m) (questions n) \<and> blocks n = blocks m \<and>
     (distinct (map a_callId (approvals m)) \<longrightarrow> distinct (map a_callId (approvals n)))"
| "extends (Other u) (Other v) \<longleftrightarrow> u = v"
| "extends _ _ \<longleftrightarrow> False"

lemma extends_refl [simp]: "extends x x"
  by (cases x) auto

lemma extends_trans: "extends x y \<Longrightarrow> extends y z \<Longrightarrow> extends x z"
  by (cases x; cases y; cases z) (auto intro: prefix_order.trans)

lemma extends_merge: "extends x (merge_item x as qs)"
  by (cases x)
    (auto simp: mergeOpenCards_keeps mergeOpenCards_simps foldl_addApproval)

lemma extends_is_agent: "extends x y \<Longrightarrow> is_agent y = is_agent x"
  by (cases x; cases y) (auto simp: is_agent_def)

lemma extends_update: "list_all2 extends out (out[k := merge_item (out ! k) as qs])"
  unfolding list_all2_conv_all_nth
proof (intro conjI allI impI)
  fix p
  assume "p < length out"
  then show "extends (out ! p) (out[k := merge_item (out ! k) as qs] ! p)"
    by (cases "p = k") (simp_all add: extends_merge)
qed simp

lemma carry_loop_extends:
  "list_all2 extends out (carry_loop idx i ms out)"
proof (induction idx i ms out rule: carry_loop.induct)
  case (1 idx i out)
  then show ?case by (simp add: list_all2_refl)
next
  case (2 idx i m ms out)
  let ?k = "landing idx i"
  let ?out = "out[?k := merge_item (out ! ?k) (openApprovals m) (openQuestions m)]"
  have step: "list_all2 extends out ?out" by (rule extends_update)
  show ?case
  proof (cases "openApprovals m = [] \<and> openQuestions m = []")
    case True
    with 2 show ?thesis by simp
  next
    case False
    with 2 have "list_all2 extends ?out (carry_loop idx (Suc i) ms ?out)" by simp
    with step have "list_all2 extends out (carry_loop idx (Suc i) ms ?out)"
      by (rule list_all2_trans [rotated]) (rule extends_trans)
    with False show ?thesis by auto
  qed
qed

lemma agent_indices_nth:
  "k \<in> set (agent_indices i xs) \<Longrightarrow> i \<le> k \<and> k < i + length xs \<and> is_agent (xs ! (k - i))"
proof (induction xs arbitrary: i)
  case (Cons x xs)
  then show ?case
    by (cases "k = i") (fastforce simp: nth_Cons' split: if_splits)+
qed simp

definition holds_cards :: "'u thread_item \<Rightarrow> agent_msg \<Rightarrow> bool" where
  "holds_cards x m = (case x of
      Agent n \<Rightarrow> a_callId ` set (openApprovals m) \<subseteq> a_callId ` set (approvals n) \<and>
        q_callId ` set (openQuestions m) \<subseteq> q_callId ` set (questions n)
    | Other _ \<Rightarrow> False)"

lemma holds_cards_extends:
  assumes "extends x y" and "holds_cards x m"
  shows "holds_cards y m"
proof -
  from assms(2) obtain a where a: "x = Agent a" by (cases x) (auto simp: holds_cards_def)
  with assms(1) obtain b where b: "y = Agent b" by (cases y) auto
  from a b assms(1) have "set (approvals a) \<subseteq> set (approvals b)"
    and "set (questions a) \<subseteq> set (questions b)"
    by (simp_all add: set_mono_prefix)
  then have sub: "a_callId ` set (approvals a) \<subseteq> a_callId ` set (approvals b)"
    "q_callId ` set (questions a) \<subseteq> q_callId ` set (questions b)"
    by (simp_all only: image_mono)
  from a assms(2) have "a_callId ` set (openApprovals m) \<subseteq> a_callId ` set (approvals a)"
    "q_callId ` set (openQuestions m) \<subseteq> q_callId ` set (questions a)"
    by (simp_all only: holds_cards_def thread_item.case)
  then have "a_callId ` set (openApprovals m) \<subseteq> a_callId ` set (approvals b)"
    "q_callId ` set (openQuestions m) \<subseteq> q_callId ` set (questions b)"
    using sub subset_trans by metis+
  with b show ?thesis by (simp only: holds_cards_def thread_item.case simp_thms)
qed

lemma carry_loop_holds:
  assumes "j < length ms" and "openApprovals (ms ! j) \<noteq> [] \<or> openQuestions (ms ! j) \<noteq> []"
    and "\<forall>k\<in>set idx. k < length out \<and> is_agent (out ! k)" and "idx \<noteq> []"
  shows "holds_cards (carry_loop idx i ms out ! landing idx (i + j)) (ms ! j)"
  using assms
proof (induction idx i ms out arbitrary: j rule: carry_loop.induct)
  case (2 idx i m ms out)
  let ?k = "landing idx i"
  let ?out = "out[?k := merge_item (out ! ?k) (openApprovals m) (openQuestions m)]"
  have k: "?k \<in> set idx"
    using "2.prems"(4) unfolding landing_def by (intro nth_mem) (cases idx, auto)
  have next_ok: "\<forall>k\<in>set idx. k < length ?out \<and> is_agent (?out ! k)"
  proof
    fix p
    assume "p \<in> set idx"
    with "2.prems"(3) have "p < length out" "is_agent (out ! p)" by auto
    then show "p < length ?out \<and> is_agent (?out ! p)"
      by (cases "p = ?k") (simp_all add: extends_is_agent [OF extends_merge])
  qed
  show ?case
  proof (cases j)
    case 0
    with "2.prems" have ne: "\<not> (openApprovals m = [] \<and> openQuestions m = [])" by auto
    from k "2.prems"(3) obtain n where n: "?k < length out" "out ! ?k = Agent n"
      by (cases "out ! ?k") (auto simp: is_agent_def)
    then have "holds_cards (?out ! ?k) m"
      by (simp add: holds_cards_def mergeOpenCards_ids)
    moreover have "extends (?out ! ?k) (carry_loop idx (Suc i) ms ?out ! ?k)"
      by (rule list_all2_nthD [OF carry_loop_extends]) (simp add: n(1))
    ultimately have "holds_cards (carry_loop idx (Suc i) ms ?out ! ?k) m"
      by (rule holds_cards_extends [rotated])
    with 0 ne show ?thesis by auto
  next
    case (Suc j')
    show ?thesis
    proof (cases "openApprovals m = [] \<and> openQuestions m = []")
      case True
      with "2.IH"(1) [of j'] "2.prems" Suc show ?thesis by simp
    next
      case False
      have "holds_cards (carry_loop idx (Suc i) ms ?out ! landing idx (Suc i + j')) (ms ! j')"
        by (rule "2.IH"(2)) (use False "2.prems" next_ok Suc in simp_all)
      with False Suc show ?thesis by auto
    qed
  qed
qed simp

lemma agent_indices_nonempty: "agent_indices i xs = [] \<longleftrightarrow> agent_msgs xs = []"
proof (induction xs arbitrary: i)
  case (Cons x xs)
  then show ?case by (cases x) (simp_all add: is_agent_def)
qed simp

lemma carryOpenCards_extends: "list_all2 extends nxt (carryOpenCards prev nxt)"
  by (simp add: carryOpenCards_def Let_def carry_loop_extends list_all2_refl)

lemma carryOpenCards_holds:
  assumes "j < length (agent_msgs prev)"
    and "openApprovals (agent_msgs prev ! j) \<noteq> [] \<or> openQuestions (agent_msgs prev ! j) \<noteq> []"
    and "agent_msgs nxt \<noteq> []"
  shows "holds_cards (carryOpenCards prev nxt ! landing (agent_indices 0 nxt) j) (agent_msgs prev ! j)"
proof -
  have "\<forall>k\<in>set (agent_indices 0 nxt). k < length nxt \<and> is_agent (nxt ! k)"
    using agent_indices_nth [where i = 0 and xs = nxt] by auto
  with assms carry_loop_holds [of j "agent_msgs prev" "agent_indices 0 nxt" nxt 0] show ?thesis
    by (simp add: carryOpenCards_def agent_indices_nonempty)
qed


definition sample_turn :: agent_msg where
  "sample_turn = addApproval (newAgentMsg 1 0) (newApproval sample_wire)"


section \<open>The sweep\<close>

lemma sweep_approval_frame [simp]:
  "a_callId (sweep_approval pending before a) = a_callId a"
  "a_state a \<noteq> Pending \<Longrightarrow> sweep_approval pending before a = a"
  by (simp_all add: sweep_approval_def)

lemma sweep_question_frame [simp]:
  "q_callId (sweep_question pending before q) = q_callId q"
  "q_state q \<noteq> QPending \<Longrightarrow> sweep_question pending before q = q"
  by (simp_all add: sweep_question_def)

lemma agent_msgs_sweep:
  "agent_msgs (settleCardsAbsent msgs kind pending before) =
     map (sweep_msg kind pending before) (agent_msgs msgs)"
  by (induction msgs rule: agent_msgs.induct) (simp_all add: settleCardsAbsent_def)

text \<open>The ids of the cards of a kind that wait for an answer, and of those whose answer is on its
  way.\<close>

definition msg_pending :: "card_kind \<Rightarrow> agent_msg \<Rightarrow> string set" where
  "msg_pending kind m = (case kind of
      Approvals \<Rightarrow> a_callId ` {a \<in> set (approvals m). a_state a = Pending}
    | Questions \<Rightarrow> q_callId ` {q \<in> set (questions m). q_state q = QPending})"

definition msg_answering :: "card_kind \<Rightarrow> agent_msg \<Rightarrow> string set" where
  "msg_answering kind m = (case kind of
      Approvals \<Rightarrow> a_callId ` {a \<in> set (approvals m). a_state a = Deciding}
    | Questions \<Rightarrow> q_callId ` {q \<in> set (questions m). q_state q = Submitting})"

definition pending_ids :: "card_kind \<Rightarrow> 'u thread_item list \<Rightarrow> string set" where
  "pending_ids kind msgs = \<Union> (msg_pending kind ` set (agent_msgs msgs))"

definition answering_ids :: "card_kind \<Rightarrow> 'u thread_item list \<Rightarrow> string set" where
  "answering_ids kind msgs = \<Union> (msg_answering kind ` set (agent_msgs msgs))"

lemma openCardIds_split:
  "openCardIds msgs = (pending_ids Approvals msgs \<union> answering_ids Approvals msgs,
     pending_ids Questions msgs \<union> answering_ids Questions msgs)"
  by (auto simp: openCardIds_def pending_ids_def answering_ids_def msg_pending_def
      msg_answering_def openApprovals_def openQuestions_def
      open_approval_def open_question_def)

lemma sweep_pending:
  "{a \<in> set (map (sweep_approval pending before) as). a_state a = Pending} =
     {a \<in> set as. a_state a = Pending \<and> a_callId a \<notin> before - pending}"
  by (auto simp: sweep_approval_def image_iff split: if_splits)

lemma sweep_pending_questions:
  "{q \<in> set (map (sweep_question pending before) qs). q_state q = QPending} =
     {q \<in> set qs. q_state q = QPending \<and> q_callId q \<notin> before - pending}"
  by (auto simp: sweep_question_def image_iff split: if_splits)

lemma sweep_deciding:
  "{a \<in> set (map (sweep_approval pending before) as). a_state a = Deciding} =
     {a \<in> set as. a_state a = Deciding}"
  by (auto simp: sweep_approval_def image_iff split: if_splits)

lemma sweep_submitting:
  "{q \<in> set (map (sweep_question pending before) qs). q_state q = Submitting} =
     {q \<in> set qs. q_state q = Submitting}"
  by (auto simp: sweep_question_def image_iff split: if_splits)

lemma sweep_msg_cases:
  "approvals (sweep_msg kind pending before m) =
     (if kind = Approvals then map (sweep_approval pending before) (approvals m) else approvals m)"
  "questions (sweep_msg kind pending before m) =
     (if kind = Questions then map (sweep_question pending before) (questions m) else questions m)"
  "blocks (sweep_msg kind pending before m) = blocks m"
  "phase (sweep_msg kind pending before m) = phase m"
  by (cases kind; simp add: sweep_msg_def)+

lemma msg_sweep:
  "msg_pending k (sweep_msg kind read before m) =
     msg_pending k m - (if k = kind then before - read else {})"
  "msg_answering k (sweep_msg kind read before m) = msg_answering k m"
  unfolding msg_pending_def msg_answering_def sweep_msg_cases
  by (cases k; cases kind; auto simp: sweep_pending sweep_pending_questions sweep_deciding
      sweep_submitting simp del: set_map)+

lemma pending_ids_sweep:
  "pending_ids k (settleCardsAbsent msgs kind read before) =
     pending_ids k msgs - (if k = kind then before - read else {})"
  by (auto simp: pending_ids_def agent_msgs_sweep msg_sweep)

lemma answering_ids_sweep:
  "answering_ids k (settleCardsAbsent msgs kind read before) = answering_ids k msgs"
  by (simp add: answering_ids_def agent_msgs_sweep msg_sweep)

lemma sweep_msg_id:
  assumes "msg_pending kind m \<inter> (before - read) = {}"
  shows "sweep_msg kind read before m = m"
proof (cases kind)
  case Approvals
  with assms have "map (sweep_approval read before) (approvals m) = approvals m"
    by (intro map_idI) (auto simp: msg_pending_def sweep_approval_def)
  with Approvals show ?thesis by (simp add: sweep_msg_def)
next
  case Questions
  with assms have "map (sweep_question read before) (questions m) = questions m"
    by (intro map_idI) (auto simp: msg_pending_def sweep_question_def)
  with Questions show ?thesis by (simp add: sweep_msg_def)
qed

lemma sweep_nothing_gone:
  "pending_ids kind msgs \<inter> (before - read) = {} \<Longrightarrow> settleCardsAbsent msgs kind read before = msgs"
proof (induction msgs rule: agent_msgs.induct)
  case (2 m xs)
  then have "msg_pending kind m \<inter> (before - read) = {}" and "pending_ids kind xs \<inter> (before - read) = {}"
    by (auto simp: pending_ids_def)
  with 2 show ?case by (simp add: settleCardsAbsent_def sweep_msg_id)
qed (simp_all add: settleCardsAbsent_def pending_ids_def)

text \<open>The sweep retires exactly the cards it may: after it, a card of the swept kind is pending
  if and only if it was pending and is not one that was open when the read was issued and absent
  from the answer; the cards of the other kind, and every card whose answer is on its way, are as
  before; and the thread itself is returned unchanged exactly when no card is gone.\<close>

theorem settleCardsAbsent_retires_exactly:
  "pending_ids k (settleCardsAbsent msgs kind read before) =
     pending_ids k msgs - (if k = kind then before - read else {}) \<and>
   answering_ids k (settleCardsAbsent msgs kind read before) = answering_ids k msgs \<and>
   (settleCardsAbsent msgs kind read before = msgs \<longleftrightarrow> pending_ids kind msgs \<inter> (before - read) = {})"
proof (intro conjI pending_ids_sweep answering_ids_sweep iffI sweep_nothing_gone)
  assume "settleCardsAbsent msgs kind read before = msgs"
  with pending_ids_sweep [of kind msgs kind read before]
  have "pending_ids kind msgs = pending_ids kind msgs - (before - read)" by simp
  then show "pending_ids kind msgs \<inter> (before - read) = {}" by blast
qed

section \<open>A restored thread\<close>

fun user_texts :: "thread_msg list \<Rightarrow> string list" where
  "user_texts [] = []"
| "user_texts (Other u # xs) = u_text u # user_texts xs"
| "user_texts (Agent m # xs) = user_texts xs"

definition item_id :: "thread_msg \<Rightarrow> nat" where
  "item_id x = (case x of Agent m \<Rightarrow> m_id m | Other u \<Rightarrow> u_id u)"

text \<open>A block of a restored turn; a restored turn has no two answer texts in a row, and a restored
  thread no two agent turns.\<close>

fun restored_block :: "agent_block \<Rightarrow> bool" where
  "restored_block (TextB t old i) = (t \<noteq> [] \<and> old = None \<and> i = None)"
| "restored_block (ToolB c n a out d) = (d \<longleftrightarrow> out \<noteq> None)"

definition restored_blocks :: "agent_block list \<Rightarrow> bool" where
  "restored_blocks bs \<longleftrightarrow> (\<forall>b\<in>set bs. restored_block b) \<and> successively (\<or>) (map is_tool bs)"

definition restored_turn :: "agent_msg \<Rightarrow> bool" where
  "restored_turn m \<longleftrightarrow> phase m = Done \<and> approvals m = [] \<and> questions m = [] \<and> restored_blocks (blocks m)"

definition restored_item :: "thread_msg \<Rightarrow> bool" where
  "restored_item x = (case x of Agent m \<Rightarrow> restored_turn m | Other u \<Rightarrow> trim (u_text u) \<noteq> [])"

definition restored_thread :: "thread_msg list \<Rightarrow> bool" where
  "restored_thread msgs \<longleftrightarrow> (\<forall>x\<in>set msgs. restored_item x) \<and>
     successively (\<lambda>x y. \<not> (is_agent x \<and> is_agent y)) msgs"

definition tool_names :: "agent_block list \<Rightarrow> string list" where
  "tool_names bs = map b_name (filter is_tool bs)"

definition thread_tool_names :: "thread_msg list \<Rightarrow> string list" where
  "thread_tool_names msgs = concat (map (\<lambda>m. tool_names (blocks m)) (agent_msgs msgs))"

text \<open>What the document holds: the prompts that say something, and the calls of the assistant.\<close>

definition document_prompts :: "history_message list \<Rightarrow> string list" where
  "document_prompts items =
     filter (\<lambda>t. trim t \<noteq> []) (map (\<lambda>it. user_text (h_content it)) (filter (\<lambda>it. h_role it = RUser) items))"

definition call_names :: "history_block list \<Rightarrow> string list" where
  "call_names bs = map (\<lambda>b. nullish (hb_name b) ''tool'') (filter (\<lambda>b. hb_type b = HToolCall) bs)"

definition document_calls :: "history_message list \<Rightarrow> string list" where
  "document_calls items =
     concat (map (\<lambda>it. call_names (content_blocks (h_content it))) (filter (\<lambda>it. h_role it = RAssistant) items))"

lemma is_tool_simps [simp]: "is_tool (ToolB c n a out d)" "\<not> is_tool (TextB t old i)"
  by (simp_all add: is_tool_def)

lemma restored_blocks_snoc:
  "restored_blocks (bs @ [b]) \<longleftrightarrow>
     restored_blocks bs \<and> restored_block b \<and> (bs = [] \<or> is_tool (last bs) \<or> is_tool b)"
  by (auto simp: restored_blocks_def successively_append_iff last_map)

lemma restored_blocks_snoc2:
  "restored_blocks (bs @ [a, b]) \<longleftrightarrow>
     restored_blocks (bs @ [a]) \<and> restored_block b \<and> (is_tool a \<or> is_tool b)"
  using restored_blocks_snoc [of "bs @ [a]" b] by simp

lemmas restored_blocks_ends = restored_blocks_snoc restored_blocks_snoc2
  restored_blocks_snoc2 [where bs = "[]", simplified]

lemma attach_frame:
  "map is_tool (attachToolResult bs c out) = map is_tool bs"
  "tool_names (attachToolResult bs c out) = tool_names bs"
  "(\<forall>b\<in>set bs. restored_block b) \<Longrightarrow> \<forall>b\<in>set (attachToolResult bs c out). restored_block b"
proof -
  let ?P = "map is_tool (attachToolResult bs c out) = map is_tool bs \<and>
    tool_names (attachToolResult bs c out) = tool_names bs \<and>
    ((\<forall>b\<in>set bs. restored_block b) \<longrightarrow> (\<forall>b\<in>set (attachToolResult bs c out). restored_block b))"
  have ?P
  proof (cases "tool_target bs c")
    case None
    then show ?P by (simp add: attachToolResult_def)
  next
    case (Some k)
    then have k: "k < length bs" "is_tool (bs ! k)" by (rule tool_target_SomeD)+
    then obtain cid n args prev d where t: "bs ! k = ToolB cid n args prev d" by (auto simp: is_tool_iff)
    let ?b = "finish_tool out (bs ! k)"
    have b: "is_tool ?b" "b_name ?b = b_name (bs ! k)" "restored_block ?b" by (simp_all add: t)
    have split: "bs = take k bs @ bs ! k # drop (Suc k) bs" using k(1) by (rule id_take_nth_drop)
    have at: "attachToolResult bs c out = take k bs @ ?b # drop (Suc k) bs"
      using Some k(1) by (simp add: attachToolResult_def upd_conv_take_nth_drop)
    have "map is_tool (attachToolResult bs c out) = map is_tool bs"
      "tool_names (attachToolResult bs c out) = tool_names bs"
      by (subst (2) split, simp add: at b k tool_names_def)+
    moreover have "(\<forall>b\<in>set bs. restored_block b) \<longrightarrow> (\<forall>b\<in>set (attachToolResult bs c out). restored_block b)"
      by (auto simp: at b dest: in_set_takeD in_set_dropD)
    ultimately show ?P by blast
  qed
  then show "map is_tool (attachToolResult bs c out) = map is_tool bs"
    "tool_names (attachToolResult bs c out) = tool_names bs"
    "(\<forall>b\<in>set bs. restored_block b) \<Longrightarrow> \<forall>b\<in>set (attachToolResult bs c out). restored_block b"
    by blast+
qed

lemma restored_attach: "restored_blocks bs \<Longrightarrow> restored_blocks (attachToolResult bs c out)"
  using attach_frame(3) [of bs c out] by (simp add: restored_blocks_def attach_frame(1))

lemma add_history_block_frame [simp]:
  "m_id (add_history_block parse m b) = m_id m"
  "phase (add_history_block parse m b) = phase m"
  "approvals (add_history_block parse m b) = approvals m"
  "questions (add_history_block parse m b) = questions m"
  by (simp_all add: add_history_block_def split: option.split agent_block.split)

lemma add_history_block_blocks:
  assumes "restored_blocks (blocks m)"
  shows "restored_blocks (blocks (add_history_block parse m b)) \<and>
    tool_names (blocks (add_history_block parse m b)) = tool_names (blocks m) @ call_names [b]"
proof (cases "blocks m" rule: rev_cases)
  case Nil
  then show ?thesis
    by (cases "hb_type b")
      (auto simp: add_history_block_def restored_blocks_def tool_names_def call_names_def truthy_def
        split: option.splits)
next
  case (snoc bs l)
  with assms show ?thesis
    by (cases "hb_type b"; cases l)
      (auto simp: add_history_block_def restored_blocks_ends tool_names_def call_names_def truthy_def
        butlast_append split: option.splits)
qed

lemma add_history_blocks:
  assumes "restored_turn m"
  shows "restored_turn (foldl (add_history_block parse) m bs) \<and>
    m_id (foldl (add_history_block parse) m bs) = m_id m \<and>
    tool_names (blocks (foldl (add_history_block parse) m bs)) = tool_names (blocks m) @ call_names bs"
  using assms
proof (induction bs arbitrary: m)
  case (Cons b bs)
  then have "restored_turn (add_history_block parse m b)"
    by (simp add: restored_turn_def add_history_block_blocks)
  with Cons.IH [of "add_history_block parse m b"] Cons.prems show ?case
    by (simp add: restored_turn_def add_history_block_blocks call_names_def)
qed (simp add: call_names_def)

lemma agent_msgs_append [simp]: "agent_msgs (xs @ ys) = agent_msgs xs @ agent_msgs ys"
  by (induction xs rule: agent_msgs.induct) simp_all

lemma thread_append [simp]:
  "user_texts (us @ vs) = user_texts us @ user_texts vs"
  "thread_tool_names (us @ vs) = thread_tool_names us @ thread_tool_names vs"
  by (induction us rule: user_texts.induct) (simp_all add: thread_tool_names_def)

lemma thread_single [simp]:
  "thread_tool_names [] = []"
  "thread_tool_names [Agent m] = tool_names (blocks m)" "thread_tool_names [Other u] = []"
  "item_id (Agent m) = m_id m" "item_id (Other u) = u_id u"
  "is_agent (Agent m)" "\<not> is_agent (Other v)"
  by (simp_all add: thread_tool_names_def item_id_def is_agent_def)

lemma restored_thread_snoc:
  "restored_thread (msgs @ [x]) \<longleftrightarrow>
     restored_thread msgs \<and> restored_item x \<and> (msgs = [] \<or> \<not> is_agent (last msgs) \<or> \<not> is_agent x)"
  by (auto simp: restored_thread_def successively_append_iff)

text \<open>The state of the loop after the messages \<open>items\<close>: \<open>k\<close> ids have been drawn.\<close>

definition history_inv :: "(nat \<Rightarrow> nat) \<Rightarrow> history_message list \<Rightarrow> thread_msg list \<times> nat \<Rightarrow> bool" where
  "history_inv ids items s \<longleftrightarrow>
     (case s of (out, k) \<Rightarrow> map item_id out = map ids [0..<k] \<and> restored_thread out \<and>
        user_texts out = document_prompts items \<and> thread_tool_names out = document_calls items)"

text \<open>What an assistant message or a tool result does to the turn it belongs to.\<close>

definition history_turn :: "(string \<Rightarrow> json option) \<Rightarrow> history_message \<Rightarrow> agent_msg \<Rightarrow> agent_msg" where
  "history_turn parse it agent =
     (if h_role it = RToolResult
      then agent\<lparr>blocks := attachToolResult (blocks agent) (h_toolCallId it) (result_text (h_content it))\<rparr>
      else foldl (add_history_block parse) agent (content_blocks (h_content it)))"

lemma history_turn_restored:
  assumes "restored_turn m" and "h_role it \<noteq> RUser"
  shows "restored_turn (history_turn parse it m)" and "m_id (history_turn parse it m) = m_id m"
    and "tool_names (blocks (history_turn parse it m)) = tool_names (blocks m) @ document_calls [it]"
  using assms add_history_blocks [OF assms(1), of parse "content_blocks (h_content it)"]
  by (cases "h_role it"; auto simp: history_turn_def restored_turn_def restored_attach attach_frame
      document_calls_def)+

lemma document_snoc:
  "document_prompts (items @ [it]) = document_prompts items @ document_prompts [it]"
  "document_calls (items @ [it]) = document_calls items @ document_calls [it]"
  "h_role it \<noteq> RUser \<Longrightarrow> document_prompts [it] = []"
  "h_role it = RUser \<Longrightarrow> document_calls [it] = []"
  by (simp_all add: document_prompts_def document_calls_def)

lemma history_step_inv:
  assumes "history_inv ids items s"
  shows "history_inv ids (items @ [it]) (history_step parse ids now s it)"
proof -
  obtain out k where s: "s = (out, k)" by fastforce
  show ?thesis
  proof (cases "h_role it = RUser")
    case True
    with assms show ?thesis
      by (auto simp: history_inv_def history_step_def s Let_def document_snoc restored_thread_snoc
          restored_item_def document_prompts_def)
  next
    case False
    let ?fresh = "(newAgentMsg (ids k) now)\<lparr>phase := Done\<rparr>"
    have fresh: "restored_turn ?fresh" "m_id ?fresh = ids k" "tool_names (blocks ?fresh) = []"
      by (simp_all add: newAgentMsg_def restored_turn_def restored_blocks_def tool_names_def)
    note turn = history_turn_restored [OF _ False]
    show ?thesis
    proof (cases "out \<noteq> [] \<and> is_agent (last out)")
      case True
      then obtain front m where out: "out = front @ [Agent m]"
        by (cases out rule: rev_cases) (auto simp: is_agent_def split: thread_item.splits)
      with assms have "restored_turn m" by (simp add: history_inv_def s restored_thread_snoc restored_item_def)
      from turn [OF this, of parse] assms False out show ?thesis
        by (simp add: history_inv_def history_step_def s history_turn_def [symmetric] document_snoc
            restored_thread_snoc restored_item_def)
    next
      case not_agent: False
      then have "history_step parse ids now s it = (out @ [Agent (history_turn parse it ?fresh)], Suc k)"
        using False by (auto simp: history_step_def s history_turn_def last_opt_def is_agent_def
            split: thread_item.splits)
      with assms False turn [OF fresh(1), of parse] fresh not_agent show ?thesis
        by (auto simp: history_inv_def s document_snoc restored_thread_snoc restored_item_def)
    qed
  qed
qed

lemma history_fold_inv: "history_inv ids items (foldl (history_step parse ids now) ([], 0) items)"
proof (induction items rule: rev_induct)
  case Nil
  show ?case
    by (simp add: history_inv_def restored_thread_def document_prompts_def document_calls_def
        thread_tool_names_def)
next
  case (snoc it items)
  then show ?case by (simp add: history_step_inv)
qed

text \<open>C38. A restored thread is faithful to the runtime's document: the prompts on screen are exactly
  the user messages that say something, in order and complete, whichever shape their content has;
  the tool cards are exactly the assistant's calls, in order; ids are drawn once each, in order;
  no two agent turns are adjacent, no card is open, every turn is settled, a call is finished
  exactly when a result reached it, and no two texts of a turn are adjacent.\<close>

theorem historyToMsgs_faithful:
  "user_texts (historyToMsgs parse ids now items) = document_prompts items \<and>
   thread_tool_names (historyToMsgs parse ids now items) = document_calls items \<and>
   map item_id (historyToMsgs parse ids now items) =
     map ids [0..<length (historyToMsgs parse ids now items)] \<and>
   restored_thread (historyToMsgs parse ids now items)"
proof -
  obtain out k where s: "foldl (history_step parse ids now) ([], 0) items = (out, k)" by fastforce
  with history_fold_inv [of ids items parse now]
  have inv: "map item_id out = map ids [0..<k]" "restored_thread out" "user_texts out = document_prompts items"
    "thread_tool_names out = document_calls items"
    by (simp_all add: history_inv_def)
  from arg_cong [OF inv(1), of length] have "length out = k" by simp
  with inv s show ?thesis by (simp add: historyToMsgs_def)
qed

end
