(* ===== verification/Calendar.thy ===== *)
theory Calendar
  imports Prelude
begin

text \<open>
  The UTC part of JavaScript's \<open>Date\<close>, as ECMAScript defines it: an instant is a number of
  milliseconds, its day, year, month, date, weekday and time of day, and the setters the
  scheduler uses. The lemmas say when two instants share a month, a day or an hour, which is
  what makes a scan that skips whole months, days and hours complete.
\<close>

section \<open>Instants\<close>

type_synonym instant = int

abbreviation ms_minute :: int where "ms_minute \<equiv> 60000"
abbreviation ms_hour :: int where "ms_hour \<equiv> 3600000"
abbreviation ms_day :: int where "ms_day \<equiv> 86400000"

definition Day :: "instant \<Rightarrow> int" where
  "Day t = t div ms_day"

definition getUTCHours :: "instant \<Rightarrow> int" where
  "getUTCHours t = t mod ms_day div ms_hour"

definition getUTCMinutes :: "instant \<Rightarrow> int" where
  "getUTCMinutes t = t mod ms_hour div ms_minute"

definition getUTCDay :: "instant \<Rightarrow> int" where
  "getUTCDay t = (Day t + 4) mod 7"

section \<open>Years and months\<close>

definition DayFromYear :: "int \<Rightarrow> int" where
  "DayFromYear y = 365 * (y - 1970) + (y - 1969) div 4 - (y - 1901) div 100 + (y - 1601) div 400"

definition leap :: "int \<Rightarrow> bool" where
  "leap y \<longleftrightarrow> 4 dvd y \<and> (\<not> 100 dvd y \<or> 400 dvd y)"

lemma div_step:
  fixes n k :: int
  assumes "1 < k"
  shows "(n + 1) div k = n div k + (if k dvd n + 1 then 1 else 0)"
proof (cases "k dvd n + 1")
  case True
  then obtain q where q: "n + 1 = k * q" by auto
  then have n: "n = k * (q - 1) + (k - 1)" by (simp add: algebra_simps)
  have "n div k = q - 1" by (rule int_div_pos_eq [OF n]) (use assms in simp_all)
  moreover have "(n + 1) div k = q" using q assms by simp
  ultimately show ?thesis using True by simp
next
  case False
  have n: "n + 1 = k * (n div k) + (n mod k + 1)" using mult_div_mod_eq [of k n] by linarith
  have "n mod k + 1 \<noteq> k"
  proof
    assume "n mod k + 1 = k"
    with n have "n + 1 = k * (n div k + 1)" by (simp add: distrib_left)
    then show False using False by simp
  qed
  moreover have "n mod k < k" "0 \<le> n mod k" using assms by simp_all
  ultimately have "(n + 1) div k = n div k" by (intro int_div_pos_eq [OF n]) linarith+
  with False show ?thesis by simp
qed

lemma div_step_shift:
  fixes y a k :: int
  assumes "1 < k" and "k dvd a - 1"
  shows "(y + 1 - a) div k = (y - a) div k + (if k dvd y then 1 else 0)"
proof -
  have eq: "y - a + 1 = y - (a - 1)" "y + 1 - a = y - a + 1" by simp_all
  have "k dvd y - a + 1 \<longleftrightarrow> k dvd y" unfolding eq(1) by (rule dvd_diff_left_iff [OF assms(2)])
  with div_step [OF assms(1), of "y - a"] show ?thesis unfolding eq(2) by simp
qed

lemma DayFromYear_step: "DayFromYear (y + 1) = DayFromYear y + (if leap y then 366 else 365)"
proof -
  define a b c where "a = (if 4 dvd y then 1 else 0 :: int)" and "b = (if 100 dvd y then 1 else 0 :: int)"
    and "c = (if 400 dvd y then 1 else 0 :: int)"
  have step: "(y + 1 - 1969) div 4 = (y - 1969) div 4 + a" "(y + 1 - 1901) div 100 = (y - 1901) div 100 + b"
    "(y + 1 - 1601) div 400 = (y - 1601) div 400 + c"
    unfolding a_def b_def c_def by (rule div_step_shift; simp)+
  have "365 * (y + 1 - 1970) = 365 * (y - 1970) + 365" by simp
  then have "DayFromYear (y + 1) = DayFromYear y + (365 + a - b + c)"
    unfolding DayFromYear_def step by linarith
  moreover have "4 dvd y" if "100 dvd y" using that by (rule dvd_trans [rotated]) simp
  moreover have "100 dvd y" if "400 dvd y" using that by (rule dvd_trans [rotated]) simp
  ultimately show ?thesis
    by (cases "4 dvd y"; cases "100 dvd y"; cases "400 dvd y") (simp_all add: leap_def a_def b_def c_def)
qed

text \<open>\<open>YearFromTime\<close>: the largest year that has begun. The search starts at a year that has begun
  and ends since every year has at least 365 days.\<close>

function year_from :: "int \<Rightarrow> int \<Rightarrow> int" where
  "year_from y d = (if DayFromYear (y + 1) \<le> d then year_from (y + 1) d else y)"
  by pat_completeness auto
termination
  by (relation "measure (\<lambda>(y, d). nat (d + 1 - DayFromYear y))") (auto simp: DayFromYear_step split: if_splits)

declare year_from.simps [simp del]

definition first_guess :: "int \<Rightarrow> int" where
  "first_guess d = 1970 + (if 0 \<le> d then d div 366 else d div 365)"

definition YearFromDay :: "int \<Rightarrow> int" where
  "YearFromDay d = year_from (first_guess d) d"

lemma DayFromYear_mono_nat: "DayFromYear y + 365 * int n \<le> DayFromYear (y + int n)"
proof (induction n)
  case (Suc n)
  have "DayFromYear (y + int (Suc n)) = DayFromYear (y + int n + 1)" by (simp add: algebra_simps)
  with Suc show ?case by (simp add: DayFromYear_step split: if_splits)
qed simp

lemma DayFromYear_mono: "y \<le> z \<Longrightarrow> DayFromYear y + 365 * (z - y) \<le> DayFromYear z"
  using DayFromYear_mono_nat [of y "nat (z - y)"] by simp

lemma DayFromYear_bound_nat: "DayFromYear (y + int n) \<le> DayFromYear y + 366 * int n"
proof (induction n)
  case (Suc n)
  have "DayFromYear (y + int (Suc n)) = DayFromYear (y + int n + 1)" by (simp add: algebra_simps)
  with Suc show ?case by (simp add: DayFromYear_step split: if_splits)
qed simp

lemma first_guess_begun: "DayFromYear (first_guess d) \<le> d"
proof (cases "0 \<le> d")
  case True
  then have "0 \<le> d div 366" by simp
  then have "DayFromYear (1970 + d div 366) \<le> DayFromYear 1970 + 366 * (d div 366)"
    using DayFromYear_bound_nat [of 1970 "nat (d div 366)"] by simp
  moreover have "DayFromYear 1970 = 0" by (simp add: DayFromYear_def)
  moreover have "366 * (d div 366) \<le> d" by simp
  ultimately show ?thesis using True by (simp add: first_guess_def)
next
  case False
  then have "d div 365 \<le> 0" by simp
  then have "DayFromYear (1970 + d div 365) + 365 * (- (d div 365)) \<le> DayFromYear 1970"
    using DayFromYear_mono [of "1970 + d div 365" 1970] by simp
  moreover have "DayFromYear 1970 = 0" by (simp add: DayFromYear_def)
  moreover have "365 * (d div 365) \<le> d" by simp
  ultimately show ?thesis using False by (simp add: first_guess_def)
qed

lemma year_from_correct:
  "DayFromYear y \<le> d \<Longrightarrow> DayFromYear (year_from y d) \<le> d \<and> d < DayFromYear (year_from y d + 1)"
proof (induction y d rule: year_from.induct)
  case (1 y d)
  then show ?case by (subst (1 2) year_from.simps) auto
qed

lemma YearFromDay_bounds: "DayFromYear (YearFromDay d) \<le> d" "d < DayFromYear (YearFromDay d + 1)"
  using year_from_correct [OF first_guess_begun] by (simp_all add: YearFromDay_def)

lemma YearFromDay_eqI:
  assumes "DayFromYear y \<le> d" and "d < DayFromYear (y + 1)"
  shows "YearFromDay d = y"
proof (rule linorder_cases)
  assume "YearFromDay d < y"
  then have "DayFromYear (YearFromDay d + 1) \<le> DayFromYear y"
    using DayFromYear_mono [of "YearFromDay d + 1" y] by simp
  with YearFromDay_bounds [of d] assms show ?thesis by simp
next
  assume "y < YearFromDay d"
  then have "DayFromYear (y + 1) \<le> DayFromYear (YearFromDay d)"
    using DayFromYear_mono [of "y + 1" "YearFromDay d"] by simp
  with YearFromDay_bounds [of d] assms show ?thesis by simp
qed

section \<open>Months\<close>

definition month_starts :: "bool \<Rightarrow> int list" where
  "month_starts l =
     (let x = (if l then 1 else 0)
      in [0, 31, 59 + x, 90 + x, 120 + x, 151 + x, 181 + x, 212 + x, 243 + x, 273 + x, 304 + x,
          334 + x, 365 + x])"

text \<open>Months count from 0, as \<open>getUTCMonth\<close> does; dates from 1.\<close>

definition MonthFromDay :: "int \<Rightarrow> nat" where
  "MonthFromDay d =
     (let y = YearFromDay d
      in length (takeWhile (\<lambda>s. s \<le> d - DayFromYear y) (month_starts (leap y))) - 1)"

definition month_first :: "int \<Rightarrow> nat \<Rightarrow> int" where
  "month_first y m = DayFromYear y + month_starts (leap y) ! m"

definition DateFromDay :: "int \<Rightarrow> int" where
  "DateFromDay d = d - month_first (YearFromDay d) (MonthFromDay d) + 1"

definition MakeDay :: "int \<Rightarrow> nat \<Rightarrow> int \<Rightarrow> int" where
  "MakeDay y m dt = month_first (y + int m div 12) (m mod 12) + dt - 1"

definition getUTCMonth :: "instant \<Rightarrow> nat" where
  "getUTCMonth t = MonthFromDay (Day t)"

definition getUTCDate :: "instant \<Rightarrow> int" where
  "getUTCDate t = DateFromDay (Day t)"

definition setUTCDate :: "instant \<Rightarrow> int \<Rightarrow> instant" where
  "setUTCDate t dt = MakeDay (YearFromDay (Day t)) (getUTCMonth t) dt * ms_day + t mod ms_day"

definition setUTCMonth :: "instant \<Rightarrow> nat \<Rightarrow> instant" where
  "setUTCMonth t m = MakeDay (YearFromDay (Day t)) m (getUTCDate t) * ms_day + t mod ms_day"

definition setUTCHours :: "instant \<Rightarrow> int \<Rightarrow> int \<Rightarrow> int \<Rightarrow> int \<Rightarrow> instant" where
  "setUTCHours t h mi s ms = Day t * ms_day + (h * ms_hour + mi * ms_minute + s * 1000 + ms)"

definition setUTCMinutes :: "instant \<Rightarrow> int \<Rightarrow> instant" where
  "setUTCMinutes t mi = Day t * ms_day + (getUTCHours t * ms_hour + mi * ms_minute + t mod ms_minute)"

definition setUTCSeconds :: "instant \<Rightarrow> int \<Rightarrow> int \<Rightarrow> instant" where
  "setUTCSeconds t s ms =
     Day t * ms_day + (getUTCHours t * ms_hour + getUTCMinutes t * ms_minute + s * 1000 + ms)"

lemma month_starts_length [simp]: "length (month_starts l) = 13"
  by (simp add: month_starts_def Let_def)

lemma month_starts_ends [simp]:
  "month_starts l ! 0 = 0" "month_starts l ! 12 = (if l then 366 else 365)"
  by (simp_all add: month_starts_def Let_def)

lemma month_starts_sorted: "sorted (month_starts l)"
  by (simp add: month_starts_def Let_def)

lemma month_starts_less: "m < 12 \<Longrightarrow> month_starts l ! m < month_starts l ! Suc m"
proof -
  assume "m < 12"
  then have "m \<in> set [0..<12]" by simp
  moreover have "\<forall>k\<in>set [0..<12]. month_starts l ! k < month_starts l ! Suc k"
    unfolding upt_conv_Cons_Cons by (simp add: month_starts_def Let_def upt_rec)
  ultimately show ?thesis by blast
qed

lemma month_first_next: "month_first y 12 = month_first (y + 1) 0"
  by (simp add: month_first_def DayFromYear_step)

lemma takeWhile_le_length:
  assumes "sorted xs" and "Suc m < length xs" and "xs ! m \<le> n" and "n < xs ! Suc m"
  shows "length (takeWhile (\<lambda>s. s \<le> n) xs) = Suc m"
proof -
  have "takeWhile (\<lambda>s. s \<le> n) xs = take (Suc m) xs"
  proof (rule takeWhile_eq_take_P_nth)
    fix i
    assume "i < Suc m" "i < length xs"
    then have "xs ! i \<le> xs ! m" using assms by (intro sorted_nth_mono) auto
    with assms show "xs ! i \<le> n" by simp
  qed (use assms in simp)
  with assms show ?thesis by simp
qed

text \<open>A day of the m-th month of the year y has that month and that year.\<close>

lemma month_eqI:
  assumes "m < 12" and "month_first y m \<le> d" and "d < month_first y (Suc m)"
  shows "YearFromDay d = y" and "MonthFromDay d = m"
proof -
  have "month_starts (leap y) ! 0 \<le> month_starts (leap y) ! m"
    and "month_starts (leap y) ! Suc m \<le> month_starts (leap y) ! 12"
    using month_starts_sorted assms(1) by (auto intro!: sorted_nth_mono simp del: month_starts_ends)
  with assms show y: "YearFromDay d = y"
    by (intro YearFromDay_eqI) (auto simp: month_first_def DayFromYear_step)
  have "length (takeWhile (\<lambda>s. s \<le> d - DayFromYear y) (month_starts (leap y))) = Suc m"
    by (rule takeWhile_le_length) (use assms in \<open>auto simp: month_starts_sorted month_first_def\<close>)
  with y show "MonthFromDay d = m" by (simp add: MonthFromDay_def Let_def)
qed

lemma month_exists: "\<exists>m<12. month_first (YearFromDay d) m \<le> d \<and> d < month_first (YearFromDay d) (Suc m)"
proof -
  let ?y = "YearFromDay d"
  let ?P = "\<lambda>k. d < month_first ?y k"
  have b: "month_first ?y 0 \<le> d" "d < month_first ?y 12"
    using YearFromDay_bounds [of d] by (simp_all add: month_first_def DayFromYear_step)
  define k where "k = (LEAST k. ?P k)"
  have k: "?P k" "k \<le> 12" unfolding k_def using b(2) by (auto intro: LeastI Least_le)
  with b obtain m where m: "k = Suc m" by (cases k) auto
  then have "\<not> ?P m" using not_less_Least [of m ?P] k_def by simp
  with m k show ?thesis by (intro exI [of _ m]) simp
qed

lemma MonthFromDay_bounds:
  "MonthFromDay d < 12" "month_first (YearFromDay d) (MonthFromDay d) \<le> d"
  "d < month_first (YearFromDay d) (Suc (MonthFromDay d))"
  using month_exists [of d] month_eqI by metis+

lemma MakeDay_same: "MakeDay (YearFromDay d) (MonthFromDay d) dt = d - DateFromDay d + dt"
  using MonthFromDay_bounds(1) [of d] by (simp add: MakeDay_def DateFromDay_def)

lemma MakeDay_next: "MakeDay (YearFromDay d) (Suc (MonthFromDay d)) 1 = month_first (YearFromDay d) (Suc (MonthFromDay d))"
proof (cases "MonthFromDay d = 11")
  case True
  then show ?thesis using month_first_next [of "YearFromDay d"] by (simp add: MakeDay_def)
next
  case False
  with MonthFromDay_bounds(1) [of d] have "Suc (MonthFromDay d) < 12" by simp
  then show ?thesis by (simp add: MakeDay_def)
qed

section \<open>Skipping\<close>

lemma Day_split: "0 \<le> r \<Longrightarrow> r < ms_day \<Longrightarrow> Day (n * ms_day + r) = n"
  by (simp add: Day_def)

lemma Day_times [simp]: "Day (n * ms_day) = n"
  by (simp add: Day_def)

lemma Day_bounds: "Day t * ms_day \<le> t" "t < (Day t + 1) * ms_day"
  using mult_div_mod_eq [of ms_day t] pos_mod_bound [of ms_day t] pos_mod_sign [of ms_day t]
  by (simp_all add: Day_def algebra_simps)

lemma Day_eqI: "n * ms_day \<le> t \<Longrightarrow> t < (n + 1) * ms_day \<Longrightarrow> Day t = n"
  using Day_split [of "t - n * ms_day" n] by (simp add: algebra_simps)

text \<open>The three jumps of the scheduler's scan, as it writes them.\<close>

definition next_month :: "instant \<Rightarrow> instant" where
  "next_month t =
     (let a = setUTCDate t 1; b = setUTCHours a 0 0 0 0 in setUTCMonth b (getUTCMonth b + 1))"

definition next_day :: "instant \<Rightarrow> instant" where
  "next_day t = setUTCHours (setUTCDate t (getUTCDate t + 1)) 0 0 0 0"

definition next_hour :: "instant \<Rightarrow> instant" where
  "next_hour t = setUTCHours t (getUTCHours t + 1) 0 0 0"

lemma next_day_eq: "next_day t = (Day t + 1) * ms_day"
proof -
  have "setUTCDate t (getUTCDate t + 1) = (Day t + 1) * ms_day + t mod ms_day"
    by (simp add: setUTCDate_def getUTCMonth_def getUTCDate_def MakeDay_same)
  moreover have "Day ((Day t + 1) * ms_day + t mod ms_day) = Day t + 1" by (rule Day_split) simp_all
  ultimately show ?thesis unfolding next_day_def setUTCHours_def by simp
qed

lemma next_month_eq:
  "next_month t = month_first (YearFromDay (Day t)) (Suc (getUTCMonth t)) * ms_day"
proof -
  let ?y = "YearFromDay (Day t)" and ?m = "getUTCMonth t"
  let ?f = "month_first ?y ?m"
  have m: "?m < 12" unfolding getUTCMonth_def by (rule MonthFromDay_bounds)
  have f: "?f < month_first ?y (Suc ?m)" using month_starts_less [OF m] by (simp add: month_first_def)
  have ym: "YearFromDay ?f = ?y" "MonthFromDay ?f = ?m" using month_eqI [OF m order_refl f] by auto
  have "setUTCDate t 1 = ?f * ms_day + t mod ms_day"
    using m by (simp add: setUTCDate_def MakeDay_def)
  then have b: "setUTCHours (setUTCDate t 1) 0 0 0 0 = ?f * ms_day"
    by (simp add: setUTCHours_def Day_split)
  have "DateFromDay ?f = 1" by (simp add: DateFromDay_def ym)
  with ym MakeDay_next [of ?f] show ?thesis
    by (simp add: next_month_def b setUTCMonth_def getUTCMonth_def getUTCDate_def)
qed

lemma hours_eq: "t div ms_day = t div ms_hour div 24" "getUTCHours t = t div ms_hour mod 24"
proof -
  show "t div ms_day = t div ms_hour div 24" using zdiv_zmult2_eq [of 24 t ms_hour] by simp
  have "t mod ms_day = ms_hour * (t div ms_hour mod 24) + t mod ms_hour"
    using zmod_zmult2_eq [of 24 t ms_hour] by simp
  then show "getUTCHours t = t div ms_hour mod 24" by (simp add: getUTCHours_def)
qed

lemma minutes_eq: "t div ms_hour = t div ms_minute div 60" "getUTCMinutes t = t div ms_minute mod 60"
proof -
  show "t div ms_hour = t div ms_minute div 60" using zdiv_zmult2_eq [of 60 t ms_minute] by simp
  have "t mod ms_hour = ms_minute * (t div ms_minute mod 60) + t mod ms_minute"
    using zmod_zmult2_eq [of 60 t ms_minute] by simp
  then show "getUTCMinutes t = t div ms_minute mod 60" by (simp add: getUTCMinutes_def)
qed

text \<open>An instant as day, hour, minute and remainder.\<close>

lemma instant_parts:
  obtains d h m r where "Day t = d" "getUTCHours t = h" "getUTCMinutes t = m" "t mod ms_minute = r"
    and "t div ms_hour = 24 * d + h" "t div ms_minute = 60 * (24 * d + h) + m"
    and "t = ms_minute * (60 * (24 * d + h) + m) + r"
proof (rule that [OF refl refl refl refl])
  have "t div ms_hour = 24 * (t div ms_hour div 24) + t div ms_hour mod 24" by (rule mult_div_mod_eq [symmetric])
  then show h: "t div ms_hour = 24 * Day t + getUTCHours t" unfolding hours_eq(2) Day_def hours_eq(1) .
  have "t div ms_minute = 60 * (t div ms_minute div 60) + t div ms_minute mod 60"
    by (rule mult_div_mod_eq [symmetric])
  then show m: "t div ms_minute = 60 * (24 * Day t + getUTCHours t) + getUTCMinutes t"
    unfolding minutes_eq(2) h [symmetric] minutes_eq(1) .
  show "t = ms_minute * (60 * (24 * Day t + getUTCHours t) + getUTCMinutes t) + t mod ms_minute"
    unfolding m [symmetric] by (rule mult_div_mod_eq [symmetric])
qed

lemma next_hour_eq: "next_hour t = (t div ms_hour + 1) * ms_hour"
  by (rule instant_parts [of t]) (simp add: next_hour_def setUTCHours_def)

lemma setUTCMinutes_next: "setUTCMinutes t (getUTCMinutes t + 1) = t + ms_minute"
  by (rule instant_parts [of t]) (simp add: setUTCMinutes_def)

lemma setUTCSeconds_zero: "setUTCSeconds t 0 0 = t div ms_minute * ms_minute"
  by (rule instant_parts [of t]) (simp add: setUTCSeconds_def)

text \<open>What an instant before the target of a jump shares with the instant the jump leaves.\<close>

lemma between_div:
  fixes t u k :: int
  assumes "t \<le> u" and "u < (t div k + 1) * k" and "0 < k"
  shows "u div k = t div k"
proof (rule order_antisym)
  from assms have "u div k < t div k + 1"
    by (metis div_mult_mod_eq le_add_same_cancel1 mult_less_cancel_right_pos order_le_less_trans pos_mod_sign)
  then show "u div k \<le> t div k" by simp
qed (use assms in \<open>simp add: zdiv_mono1\<close>)

lemma skip_day: "t \<le> u \<Longrightarrow> u < next_day t \<Longrightarrow> Day u = Day t"
  unfolding next_day_eq Day_def by (rule between_div) simp_all

lemma skip_hour: "t \<le> u \<Longrightarrow> u < next_hour t \<Longrightarrow> u div ms_hour = t div ms_hour"
  unfolding next_hour_eq by (rule between_div) simp_all

lemma skip_month:
  assumes "t \<le> u" and "u < next_month t"
  shows "getUTCMonth u = getUTCMonth t"
proof -
  have lt: "Day u < month_first (YearFromDay (Day t)) (Suc (MonthFromDay (Day t)))"
    using assms(2) Day_bounds(1) [of u]
    by (simp add: next_month_eq getUTCMonth_def)
  have "Day t \<le> Day u" using assms(1) by (simp add: Day_def zdiv_mono1)
  then have "month_first (YearFromDay (Day t)) (MonthFromDay (Day t)) \<le> Day u"
    using MonthFromDay_bounds(2) [of "Day t"] by simp
  from month_eqI(2) [OF MonthFromDay_bounds(1) this lt] show ?thesis by (simp add: getUTCMonth_def)
qed

lemma next_month_later: "t < next_month t"
proof -
  have "(Day t + 1) * ms_day \<le> month_first (YearFromDay (Day t)) (Suc (getUTCMonth t)) * ms_day"
    using MonthFromDay_bounds(3) [of "Day t"] by (intro mult_right_mono) (simp_all add: getUTCMonth_def)
  with Day_bounds(2) [of t] show ?thesis by (simp only: next_month_eq)
qed

lemma next_day_later: "t < next_day t"
  using Day_bounds(2) by (simp only: next_day_eq)

lemma next_hour_later: "t < next_hour t"
proof -
  have "t mod ms_hour < ms_hour" by simp
  with mult_div_mod_eq [of ms_hour t] have "t < ms_hour * (t div ms_hour) + ms_hour" by linarith
  then show ?thesis by (simp add: next_hour_eq algebra_simps)
qed

lemma next_whole_minute:
  "ms_minute dvd next_month t" "ms_minute dvd next_day t" "ms_minute dvd next_hour t"
  by (simp_all only: next_month_eq next_day_eq next_hour_eq) (rule dvd_mult, simp)+

lemmas next_later = next_month_later next_day_later next_hour_later

end
