(* ===== verification/Cron.thy ===== *)
theory Cron
  imports Calendar Regex
begin

text \<open>
  Schedules of the automation tasks (\<open>lib/cubepilot/cron.ts\<close>): the five-field grammar, the
  description a reader sees, and the search for the next run. The main result is that the
  search, which skips whole months, days and hours, returns the earliest minute a declarative
  reading of the expression allows, and nothing only if there is none within its bound.
\<close>

section \<open>Validation\<close>

definition FIELD_BOUNDS :: "(int \<times> int) list" where
  "FIELD_BOUNDS = [(0, 59), (0, 23), (1, 31), (1, 12), (0, 7)]"

text \<open>\<open>/^\d+$/\<close>, and \<open>Number\<close> on such a string.\<close>

definition digits :: "string \<Rightarrow> bool" where
  "digits s = rx_match (Plus (Cls digit)) s"

definition Number :: "string \<Rightarrow> int" where
  "Number s = int (string_to_nat s)"

definition tokenOk :: "string \<Rightarrow> int \<Rightarrow> int \<Rightarrow> bool" where
  "tokenOk token lo hi =
     (if token = ''*'' then True
      else if startsWith token ''*/'' then digits (drop 2 token) \<and> 1 \<le> Number (drop 2 token)
      else digits token \<and> lo \<le> Number token \<and> Number token \<le> hi)"

definition fieldOk :: "string \<Rightarrow> int \<Rightarrow> int \<Rightarrow> bool" where
  "fieldOk spec lo hi =
     (spec \<noteq> [] \<and> list_all (\<lambda>p. trim p \<noteq> [] \<and> tokenOk (trim p) lo hi) (split_char CHR '','' spec))"

definition cron_parts :: "string \<Rightarrow> string list" where
  "cron_parts expr = split_ws (trim expr)"

definition isValidCron :: "string \<Rightarrow> bool" where
  "isValidCron expr =
     (length (cron_parts expr) = length FIELD_BOUNDS \<and>
      list_all2 (\<lambda>f b. fieldOk f (fst b) (snd b)) (cron_parts expr) FIELD_BOUNDS)"

section \<open>Description\<close>

text \<open>The clauses of the description: \<open>Daily\<close>, \<open>Yearly\<close> (month, date, time), \<open>Weekly\<close> (index into
  the weekday names, time), \<open>Hourly\<close> and \<open>EveryMinutes\<close>, and the expression itself.\<close>

datatype cron_text =
    Daily string
  | Yearly string string string
  | Weekly nat string
  | Hourly int
  | EveryMinutes string
  | Raw string

datatype cron_error = InvalidCron

definition pad :: "int \<Rightarrow> string" where
  "pad n = (if n < 10 then ''0'' @ nat_to_string (nat n) else nat_to_string (nat n))"

definition clock :: "string \<Rightarrow> string" where
  "clock hm = take 2 hm @ '':'' @ drop 2 hm"

definition everyN :: "string \<Rightarrow> cron_text option" where
  "everyN f = (if startsWith f ''*/'' then Some (EveryMinutes (drop 2 f)) else None)"

definition plain :: "string \<Rightarrow> int option" where
  "plain f = (if f \<noteq> ''*'' \<and> digits f then Some (Number f) else None)"

definition describe :: "string \<Rightarrow> string \<Rightarrow> string \<Rightarrow> string \<Rightarrow> string \<Rightarrow> string \<Rightarrow> cron_text" where
  "describe e minF hourF domF monF dowF =
     (case (plain minF, plain hourF, plain domF, plain dowF) of
        (Some minute, Some hour, None, None) \<Rightarrow>
          (if monF = ''*'' then Daily (clock (pad hour @ pad minute)) else nullish (everyN minF) (Raw e))
      | (Some minute, Some hour, Some _, None) \<Rightarrow>
          (if monF \<noteq> ''*'' then Yearly monF domF (clock (pad hour @ pad minute))
           else nullish (everyN minF) (Raw e))
      | (Some minute, Some hour, None, Some dow) \<Rightarrow>
          (if monF = ''*'' then Weekly (if dow = 7 then 0 else nat dow) (clock (pad hour @ pad minute))
           else nullish (everyN minF) (Raw e))
      | (Some minute, None, None, None) \<Rightarrow>
          (if monF = ''*'' then Hourly minute else nullish (everyN minF) (Raw e))
      | _ \<Rightarrow> nullish (everyN minF) (Raw e))"

definition cronDescription :: "string \<Rightarrow> cron_error + cron_text option" where
  "cronDescription expr =
     (let e = trim expr
      in if e = [] then Inr None
         else if \<not> isValidCron e then Inl InvalidCron
         else case split_ws e of
             [minF, hourF, domF, monF, dowF] \<Rightarrow> Inr (Some (describe e minF hourF domF monF dowF))
           | _ \<Rightarrow> Inl InvalidCron)"

section \<open>Field values\<close>

function values_from :: "int \<Rightarrow> int \<Rightarrow> int \<Rightarrow> int list" where
  "values_from i hi step = (if i \<le> hi \<and> 0 < step then i # values_from (i + step) hi step else [])"
  by pat_completeness auto
termination
  by (relation "measure (\<lambda>(i, hi, step). nat (hi + 1 - i))") auto

declare values_from.simps [simp del]

text \<open>\<open>Math.max(1, Number(t.slice(2)) || 1)\<close>; a text that is not digits is not a number.\<close>

definition step_of :: "string \<Rightarrow> int" where
  "step_of t = (if digits (drop 2 t) then max 1 (Number (drop 2 t)) else 1)"

definition token_values :: "string \<Rightarrow> int \<Rightarrow> int \<Rightarrow> int list" where
  "token_values t lo hi =
     (if t = ''*'' then values_from lo hi 1
      else if startsWith t ''*/'' then values_from lo hi (step_of t)
      else if digits t \<and> lo \<le> Number t \<and> Number t \<le> hi then [Number t]
      else [])"

definition fieldValues :: "string \<Rightarrow> int \<Rightarrow> int \<Rightarrow> int set" where
  "fieldValues f lo hi =
     set (concat (map (\<lambda>p. token_values (trim p) lo hi) (split_char CHR '','' f)))"

section \<open>The next run\<close>

record cron_fields =
  c_minutes :: "int set"
  c_hours :: "int set"
  c_doms :: "int set"
  c_months :: "int set"
  c_dows :: "int set"
  domRestricted :: bool
  dowRestricted :: bool

definition normalize_dows :: "int set \<Rightarrow> int set" where
  "normalize_dows dows =
     (if 0 \<notin> dows \<or> 7 \<notin> dows then
        (let a = (if 7 \<in> dows \<and> 0 \<notin> dows then insert 0 dows else dows)
         in if 0 \<in> a \<and> 7 \<notin> a then insert 7 a else a)
      else dows)"

definition parse_fields :: "string \<Rightarrow> cron_fields option" where
  "parse_fields expr =
     (case cron_parts expr of
        [m, h, dm, mon, dow] \<Rightarrow>
          Some \<lparr>c_minutes = fieldValues m 0 59, c_hours = fieldValues h 0 23,
                c_doms = fieldValues dm 1 31, c_months = fieldValues mon 1 12,
                c_dows = normalize_dows (fieldValues dow 0 7),
                domRestricted = (dm \<noteq> ''*''), dowRestricted = (dow \<noteq> ''*'')\<rparr>
      | _ \<Rightarrow> None)"

definition day_ok :: "cron_fields \<Rightarrow> instant \<Rightarrow> bool" where
  "day_ok F t =
     (let domMatch = getUTCDate t \<in> c_doms F; dowMatch = getUTCDay t \<in> c_dows F
      in if domRestricted F \<and> dowRestricted F then domMatch \<or> dowMatch else domMatch \<and> dowMatch)"

function cron_loop :: "cron_fields \<Rightarrow> instant \<Rightarrow> instant \<Rightarrow> instant option" where
  "cron_loop F limit t =
     (if \<not> t < limit then None
      else if int (getUTCMonth t) + 1 \<notin> c_months F then cron_loop F limit (next_month t)
      else if \<not> day_ok F t then cron_loop F limit (next_day t)
      else if getUTCHours t \<notin> c_hours F then cron_loop F limit (next_hour t)
      else if getUTCMinutes t \<notin> c_minutes F
        then cron_loop F limit (setUTCMinutes t (getUTCMinutes t + 1))
      else Some t)"
  by pat_completeness auto
termination
proof (relation "measure (\<lambda>(F, limit, t). nat (limit - t))", goal_cases)
  case (2 F limit t)
  then show ?case using next_month_later [of t] by simp
next
  case (3 F limit t)
  then show ?case using next_day_later [of t] by simp
next
  case (4 F limit t)
  then show ?case using next_hour_later [of t] by simp
qed (simp_all add: setUTCMinutes_next)

declare cron_loop.simps [simp del]

definition first_minute :: "instant \<Rightarrow> instant" where
  "first_minute from = (let t = setUTCSeconds from 0 0 in setUTCMinutes t (getUTCMinutes t + 1))"

definition scan_limit :: "instant \<Rightarrow> instant" where
  "scan_limit from = from + 366 * 24 * 3600 * 1000"

definition nextCronRun :: "string \<Rightarrow> instant \<Rightarrow> instant option" where
  "nextCronRun expr from =
     (if \<not> isValidCron expr then None
      else case parse_fields expr of
          None \<Rightarrow> None
        | Some F \<Rightarrow> cron_loop F (scan_limit from) (first_minute from))"

section \<open>The declarative reading of an expression\<close>

text \<open>A field allows a value when one of its comma-separated tokens does: a star every value, a
  step every step-th value from the lower bound, a number itself.\<close>

definition token_allows :: "string \<Rightarrow> int \<Rightarrow> int \<Rightarrow> bool" where
  "token_allows t lo v \<longleftrightarrow>
     t = ''*'' \<or> startsWith t ''*/'' \<and> (v - lo) mod Number (drop 2 t) = 0 \<or> digits t \<and> Number t = v"

definition field_allows :: "string \<Rightarrow> int \<Rightarrow> int \<Rightarrow> bool" where
  "field_allows f lo v \<longleftrightarrow> (\<exists>p\<in>set (split_char CHR '','' f). token_allows (trim p) lo v)"

text \<open>A schedule is due at an instant: minute, hour and month are allowed, and the day is. When
  both day fields are restricted either suffices; weekday 7 is Sunday.\<close>

definition due :: "string \<Rightarrow> instant \<Rightarrow> bool" where
  "due expr t \<longleftrightarrow>
     (case cron_parts expr of
        [m, h, dm, mon, dow] \<Rightarrow>
          (let date = field_allows dm 1 (getUTCDate t);
               weekday = (field_allows dow 0 (getUTCDay t) \<or> getUTCDay t = 0 \<and> field_allows dow 0 7)
           in field_allows m 0 (getUTCMinutes t) \<and> field_allows h 0 (getUTCHours t) \<and>
              field_allows mon 1 (int (getUTCMonth t) + 1) \<and>
              (if dm \<noteq> ''*'' \<and> dow \<noteq> ''*'' then date \<or> weekday else date \<and> weekday))
      | _ \<Rightarrow> False)"

section \<open>Field values implement the reading\<close>

lemma values_from_iff:
  assumes "0 < step"
  shows "v \<in> set (values_from i hi step) \<longleftrightarrow> i \<le> v \<and> v \<le> hi \<and> (v - i) mod step = 0"
  using assms
proof (induction i hi step rule: values_from.induct)
  case (1 i hi step)
  show ?case
  proof (cases "i \<le> hi")
    case True
    have "i \<le> v \<and> (v - i) mod step = 0 \<longleftrightarrow> v = i \<or> i + step \<le> v \<and> (v - (i + step)) mod step = 0"
    proof -
      have "(v - (i + step)) mod step = (v - i) mod step"
        by (metis diff_diff_eq minus_mod_self2)
      moreover have "i + step \<le> v" if "i \<le> v" "v \<noteq> i" "(v - i) mod step = 0"
      proof -
        from that have "step dvd v - i" "0 < v - i" by (auto simp: dvd_eq_mod_eq_0)
        then have "step \<le> v - i" by (rule zdvd_imp_le)
        then show ?thesis by simp
      qed
      ultimately show ?thesis using \<open>0 < step\<close> by auto
    qed
    with True 1 show ?thesis by (subst values_from.simps) auto
  next
    case False
    then show ?thesis by (subst values_from.simps) auto
  qed
qed

lemma digits_not_star: "digits t \<Longrightarrow> t \<noteq> ''*'' \<and> \<not> startsWith t ''*/''"
  by (auto simp: digits_def rx_match_lang digit_def between_def prefix_def)

lemma token_values_iff:
  assumes "tokenOk t lo hi"
  shows "v \<in> set (token_values t lo hi) \<longleftrightarrow> lo \<le> v \<and> v \<le> hi \<and> token_allows t lo v"
proof -
  consider (star) "t = ''*''" | (step) "t \<noteq> ''*''" "startsWith t ''*/''" "digits (drop 2 t)" "1 \<le> Number (drop 2 t)"
    | (number) "t \<noteq> ''*''" "\<not> startsWith t ''*/''" "digits t" "lo \<le> Number t" "Number t \<le> hi"
    using assms by (auto simp: tokenOk_def split: if_splits)
  then show ?thesis
  proof cases
    case star
    then show ?thesis by (simp add: token_values_def token_allows_def values_from_iff)
  next
    case step
    then have "step_of t = Number (drop 2 t)" "\<not> digits t"
      using digits_not_star by (auto simp: step_of_def)
    with step show ?thesis by (simp add: token_values_def token_allows_def values_from_iff)
  next
    case number
    then show ?thesis by (auto simp: token_values_def token_allows_def)
  qed
qed

lemma fieldValues_iff:
  assumes "fieldOk f lo hi"
  shows "v \<in> fieldValues f lo hi \<longleftrightarrow> lo \<le> v \<and> v \<le> hi \<and> field_allows f lo v"
proof -
  from assms have "\<forall>p\<in>set (split_char CHR '','' f). tokenOk (trim p) lo hi"
    by (simp add: fieldOk_def list_all_iff)
  then show ?thesis by (auto simp: fieldValues_def field_allows_def token_values_iff)
qed

section \<open>Bounds of the calendar\<close>

lemma clock_bounds:
  "0 \<le> getUTCMinutes t" "getUTCMinutes t \<le> 59" "0 \<le> getUTCHours t" "getUTCHours t \<le> 23"
  "0 \<le> getUTCDay t" "getUTCDay t \<le> 6"
proof -
  have "getUTCMinutes t < 60" "getUTCHours t < 24" "getUTCDay t < 7"
    by (simp_all add: minutes_eq hours_eq getUTCDay_def)
  then show "0 \<le> getUTCMinutes t" "getUTCMinutes t \<le> 59" "0 \<le> getUTCHours t" "getUTCHours t \<le> 23"
    "0 \<le> getUTCDay t" "getUTCDay t \<le> 6"
    by (simp_all add: minutes_eq hours_eq getUTCDay_def)
qed

lemma month_bounds: "1 \<le> int (getUTCMonth t) + 1" "int (getUTCMonth t) + 1 \<le> 12"
  using MonthFromDay_bounds(1) [of "Day t"] by (simp_all add: getUTCMonth_def)

lemma month_starts_31: "m < 12 \<Longrightarrow> month_starts l ! Suc m \<le> month_starts l ! m + 31"
proof -
  assume "m < 12"
  then have "m \<in> set [0..<12]" by simp
  moreover have "\<forall>k\<in>set [0..<12]. month_starts l ! Suc k \<le> month_starts l ! k + 31"
    by (simp add: month_starts_def Let_def upt_rec)
  ultimately show ?thesis by blast
qed

lemma date_bounds: "1 \<le> getUTCDate t" "getUTCDate t \<le> 31"
  using MonthFromDay_bounds [of "Day t"]
    month_starts_31 [of "MonthFromDay (Day t)" "leap (YearFromDay (Day t))"]
  by (simp_all add: getUTCDate_def DateFromDay_def month_first_def)

section \<open>The search is complete and minimal\<close>

definition matches :: "cron_fields \<Rightarrow> instant \<Rightarrow> bool" where
  "matches F t \<longleftrightarrow> int (getUTCMonth t) + 1 \<in> c_months F \<and> day_ok F t \<and>
     getUTCHours t \<in> c_hours F \<and> getUTCMinutes t \<in> c_minutes F"

lemma day_ok_cong: "Day u = Day t \<Longrightarrow> day_ok F u = day_ok F t"
  by (simp add: day_ok_def getUTCDate_def getUTCDay_def)

lemma hours_cong: "u div ms_hour = t div ms_hour \<Longrightarrow> getUTCHours u = getUTCHours t"
  by (simp add: hours_eq)

text \<open>Between an instant and the target of the jump the loop makes there, nothing matches.\<close>

lemma skipped_no_match:
  assumes "t \<le> u"
  shows "int (getUTCMonth t) + 1 \<notin> c_months F \<Longrightarrow> u < next_month t \<Longrightarrow> \<not> matches F u"
    and "\<not> day_ok F t \<Longrightarrow> u < next_day t \<Longrightarrow> \<not> matches F u"
    and "getUTCHours t \<notin> c_hours F \<Longrightarrow> u < next_hour t \<Longrightarrow> \<not> matches F u"
  using skip_month [OF assms] day_ok_cong [OF skip_day [OF assms]] hours_cong [OF skip_hour [OF assms]]
  by (auto simp: matches_def)

definition no_match :: "cron_fields \<Rightarrow> instant \<Rightarrow> instant \<Rightarrow> bool" where
  "no_match F t u \<longleftrightarrow> (\<forall>v. t \<le> v \<longrightarrow> v < u \<longrightarrow> ms_minute dvd v \<longrightarrow> \<not> matches F v)"

lemma skipped_minutes:
  "int (getUTCMonth t) + 1 \<notin> c_months F \<Longrightarrow> no_match F t (next_month t)"
  "\<not> day_ok F t \<Longrightarrow> no_match F t (next_day t)"
  "getUTCHours t \<notin> c_hours F \<Longrightarrow> no_match F t (next_hour t)"
  unfolding no_match_def using skipped_no_match by blast+

lemma same_minute:
  assumes "ms_minute dvd t" "ms_minute dvd u" "t \<le> u" "u < t + ms_minute"
  shows "u = t"
proof -
  from assms have "ms_minute dvd u - t" by simp
  with assms(3,4) show ?thesis using zdvd_not_zless [of "u - t" ms_minute] by force
qed

definition scan_result :: "cron_fields \<Rightarrow> instant \<Rightarrow> instant \<Rightarrow> instant option \<Rightarrow> bool" where
  "scan_result F limit t r \<longleftrightarrow>
     (case r of
        None \<Rightarrow> no_match F t limit
      | Some u \<Rightarrow> t \<le> u \<and> u < limit \<and> ms_minute dvd u \<and> matches F u \<and> no_match F t u)"

lemma scan_result_jump:
  assumes "scan_result F limit n r" and "t \<le> n" and "no_match F t n"
  shows "scan_result F limit t r"
proof -
  have trans: "no_match F t u" if "no_match F n u" for u
    using that assms(3) by (meson no_match_def not_le)
  from assms(1,2) show ?thesis by (cases r) (auto simp: scan_result_def intro: trans)
qed

lemma cron_loop_result:
  "ms_minute dvd t \<Longrightarrow> scan_result F limit t (cron_loop F limit t)"
proof (induction F limit t rule: cron_loop.induct)
  case (1 F limit t)
  note unfold = cron_loop.simps [of F limit t]
  consider (past) "\<not> t < limit" | (month) "t < limit" "int (getUTCMonth t) + 1 \<notin> c_months F"
    | (day) "t < limit" "int (getUTCMonth t) + 1 \<in> c_months F" "\<not> day_ok F t"
    | (hour) "t < limit" "int (getUTCMonth t) + 1 \<in> c_months F" "day_ok F t" "getUTCHours t \<notin> c_hours F"
    | (minute) "t < limit" "int (getUTCMonth t) + 1 \<in> c_months F" "day_ok F t" "getUTCHours t \<in> c_hours F"
        "getUTCMinutes t \<notin> c_minutes F"
    | (found) "t < limit" "matches F t"
    by (auto simp: matches_def)
  then show ?case
  proof cases
    case past
    then show ?thesis by (simp add: unfold scan_result_def no_match_def)
  next
    case month
    with "1.IH"(1) have "scan_result F limit (next_month t) (cron_loop F limit t)"
      by (simp add: unfold next_whole_minute)
    then show ?thesis by (rule scan_result_jump)
        (use month next_month_later [of t] in \<open>simp_all add: skipped_minutes\<close>)
  next
    case day
    with "1.IH"(2) have "scan_result F limit (next_day t) (cron_loop F limit t)"
      by (simp add: unfold next_whole_minute)
    then show ?thesis by (rule scan_result_jump)
        (use day next_day_later [of t] in \<open>simp_all add: skipped_minutes\<close>)
  next
    case hour
    with "1.IH"(3) have "scan_result F limit (next_hour t) (cron_loop F limit t)"
      by (simp add: unfold next_whole_minute)
    then show ?thesis by (rule scan_result_jump)
        (use hour next_hour_later [of t] in \<open>simp_all add: skipped_minutes\<close>)
  next
    case minute
    with "1.IH"(4) "1.prems" have "scan_result F limit (t + ms_minute) (cron_loop F limit t)"
      by (simp add: unfold setUTCMinutes_next)
    moreover have "no_match F t (t + ms_minute)"
      using same_minute [OF "1.prems"] minute by (auto simp: no_match_def matches_def)
    ultimately show ?thesis by (auto intro: scan_result_jump)
  next
    case found
    with "1.prems" show ?thesis by (auto simp: unfold matches_def scan_result_def no_match_def)
  qed
qed

lemma normalize_dows_iff:
  "0 \<le> v \<Longrightarrow> v \<le> 6 \<Longrightarrow> v \<in> normalize_dows D \<longleftrightarrow> v \<in> D \<or> v = 0 \<and> 7 \<in> D"
  by (auto simp: normalize_dows_def Let_def)

lemma valid_parts:
  assumes "isValidCron expr"
  obtains m h dm mon dow where "cron_parts expr = [m, h, dm, mon, dow]" "fieldOk m 0 59" "fieldOk h 0 23"
    "fieldOk dm 1 31" "fieldOk mon 1 12" "fieldOk dow 0 7"
  using assms
  by (auto simp: isValidCron_def FIELD_BOUNDS_def list_all2_Cons2 intro!: that)

lemma matches_due:
  assumes "isValidCron expr" and "parse_fields expr = Some F"
  shows "matches F t = due expr t"
proof -
  from assms(1) obtain m h dm mon dow where p: "cron_parts expr = [m, h, dm, mon, dow]" and
    ok: "fieldOk m 0 59" "fieldOk h 0 23" "fieldOk dm 1 31" "fieldOk mon 1 12" "fieldOk dow 0 7"
    by (rule valid_parts)
  note iff = ok [THEN fieldValues_iff] and bounds = clock_bounds [of t] month_bounds [of t] date_bounds [of t]
  from assms(2) p have F: "F = \<lparr>c_minutes = fieldValues m 0 59, c_hours = fieldValues h 0 23,
      c_doms = fieldValues dm 1 31, c_months = fieldValues mon 1 12,
      c_dows = normalize_dows (fieldValues dow 0 7),
      domRestricted = (dm \<noteq> ''*''), dowRestricted = (dow \<noteq> ''*'')\<rparr>"
    by (simp add: parse_fields_def)
  have "getUTCMinutes t \<in> c_minutes F \<longleftrightarrow> field_allows m 0 (getUTCMinutes t)"
    "getUTCHours t \<in> c_hours F \<longleftrightarrow> field_allows h 0 (getUTCHours t)"
    "int (getUTCMonth t) + 1 \<in> c_months F \<longleftrightarrow> field_allows mon 1 (int (getUTCMonth t) + 1)"
    "getUTCDate t \<in> c_doms F \<longleftrightarrow> field_allows dm 1 (getUTCDate t)"
    using bounds by (simp_all add: F iff)
  moreover have "getUTCDay t \<in> c_dows F \<longleftrightarrow>
      field_allows dow 0 (getUTCDay t) \<or> getUTCDay t = 0 \<and> field_allows dow 0 7"
    using bounds by (simp add: F iff normalize_dows_iff)
  moreover have "domRestricted F = (dm \<noteq> ''*'')" "dowRestricted F = (dow \<noteq> ''*'')" by (simp_all add: F)
  ultimately show ?thesis by (simp add: matches_def day_ok_def due_def p Let_def) blast
qed

lemma first_minute_eq: "first_minute from = from div ms_minute * ms_minute + ms_minute"
  by (simp add: first_minute_def setUTCMinutes_next setUTCSeconds_zero)

lemma first_minute_le:
  assumes "ms_minute dvd u"
  shows "first_minute from \<le> u \<longleftrightarrow> from < u"
proof -
  from assms obtain k where k: "u = ms_minute * k" by (auto simp: dvd_def)
  define q r where "q = from div ms_minute" and "r = from mod ms_minute"
  have f: "from = ms_minute * q + r" "0 \<le> r" "r < ms_minute" by (simp_all add: q_def r_def)
  have "first_minute from \<le> u \<longleftrightarrow> q + 1 \<le> k" 
  proof -
    have "first_minute from = ms_minute * (q + 1)" by (simp add: first_minute_eq q_def)
    then show ?thesis unfolding k by (simp only: mult_le_cancel_left_pos zero_less_numeral)
  qed
  moreover have "from < u" if "q + 1 \<le> k" using f k that by linarith
  moreover have "\<not> from < u" if "\<not> q + 1 \<le> k" using f k that by linarith
  ultimately show ?thesis by blast
qed

lemma first_minute_dvd: "ms_minute dvd first_minute from"
  by (simp add: first_minute_eq)

text \<open>C21. The search for the next run returns the earliest due minute: for a valid expression its
  answer is a whole minute after \<open>from\<close> and within 366 days at which the expression, read field by
  field, is due, and no earlier minute after \<open>from\<close> is; it answers nothing only if no minute within
  the bound is due. The jumps over months, days and hours miss nothing.\<close>

theorem nextCronRun_least:
  assumes "isValidCron expr"
  shows "case nextCronRun expr from of
      Some t \<Rightarrow> from < t \<and> t < scan_limit from \<and> ms_minute dvd t \<and> due expr t \<and>
        (\<forall>u. from < u \<and> u < t \<and> ms_minute dvd u \<longrightarrow> \<not> due expr u)
    | None \<Rightarrow> \<forall>u. from < u \<and> u < scan_limit from \<and> ms_minute dvd u \<longrightarrow> \<not> due expr u"
proof -
  obtain F where F: "parse_fields expr = Some F"
    by (rule valid_parts [OF assms]) (simp add: parse_fields_def)
  note eq = matches_due [OF assms F]
  have res: "scan_result F (scan_limit from) (first_minute from) (nextCronRun expr from)"
    using cron_loop_result [OF first_minute_dvd] assms F by (simp add: nextCronRun_def)
  show ?thesis
  proof (cases "nextCronRun expr from")
    case None
    with res have "no_match F (first_minute from) (scan_limit from)" by (simp add: scan_result_def)
    with None show ?thesis using first_minute_le by (simp add: no_match_def eq)
  next
    case (Some t)
    with res have "first_minute from \<le> t" "t < scan_limit from" "ms_minute dvd t" "due expr t"
      "no_match F (first_minute from) t" by (simp_all add: scan_result_def eq)
    with Some show ?thesis using first_minute_le by (simp add: no_match_def eq)
  qed
qed

text \<open>Applied at 2026-01-31 10:00 UTC to a nightly schedule of two months: the run is on March 1st.\<close>

theorem nextCronRun_least_witness:
  "nextCronRun ''0 2 * 3,5 *'' 1769853600000 = Some 1772330400000 \<and>
   due ''0 2 * 3,5 *'' 1772330400000 \<and> \<not> due ''0 2 * 3,5 *'' 1769853660000"
proof -
  have "isValidCron ''0 2 * 3,5 *''" by code_simp
  moreover have "nextCronRun ''0 2 * 3,5 *'' 1769853600000 = Some 1772330400000" by code_simp
  moreover have "ms_minute dvd 1769853660000" by simp
  ultimately show ?thesis using nextCronRun_least [of "''0 2 * 3,5 *''" 1769853600000] by simp
qed

section \<open>Descriptions\<close>

lemma digits_chars: "digits f \<Longrightarrow> f \<noteq> [] \<and> CHR '','' \<notin> set f \<and> (\<forall>c\<in>set f. \<not> js_space c)"
  by (auto simp: digits_def rx_match_lang digit_def between_def js_space_def)

lemma field_allows_plain:
  assumes "plain f = Some n"
  shows "field_allows f lo v \<longleftrightarrow> v = n" and "0 \<le> n"
proof -
  from assms have f: "digits f" "n = Number f" by (auto simp: plain_def split: if_splits)
  with digits_chars [OF f(1)] digits_not_star [OF f(1)]
  show "field_allows f lo v \<longleftrightarrow> v = n"
    by (auto simp: field_allows_def token_allows_def split_char_no_sep trim_no_space)
  from f show "0 \<le> n" by (simp add: Number_def)
qed

lemma field_allows_star [simp]: "field_allows ''*'' lo v"
  by (simp add: field_allows_def token_allows_def trim_def trimStart_def trimEnd_def js_space_def)

lemma fieldOk_plain: "plain f = Some n \<Longrightarrow> lo \<le> n \<Longrightarrow> n \<le> hi \<Longrightarrow> fieldOk f lo hi"
  using digits_chars [of f] digits_not_star [of f]
  by (auto simp: plain_def fieldOk_def tokenOk_def split_char_no_sep trim_no_space split: if_splits)

lemma fieldOk_star [simp]: "fieldOk ''*'' lo hi"
  by (simp add: fieldOk_def tokenOk_def trim_def trimStart_def trimEnd_def js_space_def)

lemma cron_parts_trim: "cron_parts (trim e) = cron_parts e"
  by (simp add: cron_parts_def)

lemma isValidCron_trim: "isValidCron (trim e) = isValidCron e"
  by (simp add: isValidCron_def cron_parts_trim)

lemma cron_parts_Nil: "trim e = [] \<Longrightarrow> cron_parts e = [[]]"
  by (simp add: cron_parts_def split_ws.simps)

lemma cronDescription_valid:
  assumes "isValidCron e" and "cron_parts e = [m, h, dm, mon, dow]"
  shows "cronDescription e = Inr (Some (describe (trim e) m h dm mon dow))"
proof -
  have "trim e \<noteq> []" using assms(2) cron_parts_Nil by fastforce
  with assms show ?thesis by (simp add: cronDescription_def isValidCron_trim cron_parts_def [symmetric] cron_parts_trim)
qed

text \<open>The daily description is exact: an expression whose minute and hour are numbers and whose
  other fields are stars is described as that time of day, and it is due at exactly the instants
  whose UTC hour and minute these are.\<close>

theorem cronDescription_daily:
  assumes "cron_parts e = [m, h, ''*'', ''*'', ''*'']" and "plain m = Some mi" and "plain h = Some ho"
    and "mi \<le> 59" and "ho \<le> 23"
  shows "cronDescription e = Inr (Some (Daily (clock (pad ho @ pad mi)))) \<and>
    (due e t \<longleftrightarrow> getUTCHours t = ho \<and> getUTCMinutes t = mi)"
proof -
  have "isValidCron e"
    using assms field_allows_plain(2)
    by (simp add: isValidCron_def FIELD_BOUNDS_def fieldOk_plain)
  with assms show ?thesis
    by (auto simp: cronDescription_valid describe_def plain_def [of "''*''"] due_def field_allows_plain(1))
qed

theorem cronDescription_daily_witness:
  "cronDescription '' 5 2 * * *'' = Inr (Some (Daily ''02:05'')) \<and>
   (due '' 5 2 * * *'' 7500000 \<longleftrightarrow> getUTCHours 7500000 = 2 \<and> getUTCMinutes 7500000 = 5)"
proof -
  have p: "cron_parts '' 5 2 * * *'' = [''5'', ''2'', ''*'', ''*'', ''*'']" by code_simp
  have "plain ''5'' = Some 5" "plain ''2'' = Some 2" "clock (pad 2 @ pad 5) = ''02:05''" by code_simp+
  with cronDescription_daily [OF p, of 5 2 7500000] show ?thesis by simp
qed

text \<open>The description of some schedules is of another schedule: an expression with a step in the
  hour field is described as hourly although it is not due in the odd hours, and one with a list
  of weekdays as daily although it is not due on the others.\<close>

theorem cronDescription_misleads:
  "cronDescription ''5 */2 * * *'' = Inr (Some (Hourly 5)) \<and> \<not> due ''5 */2 * * *'' (1 * ms_hour + 5 * ms_minute) \<and>
   cronDescription ''0 2 * * 1,3'' = Inr (Some (Daily ''02:00'')) \<and> \<not> due ''0 2 * * 1,3'' (2 * ms_hour)"
proof (intro conjI)
  show "cronDescription ''5 */2 * * *'' = Inr (Some (Hourly 5))" by code_simp
  show "\<not> due ''5 */2 * * *'' (1 * ms_hour + 5 * ms_minute)" by code_simp
  show "cronDescription ''0 2 * * 1,3'' = Inr (Some (Daily ''02:00''))" by code_simp
  show "\<not> due ''0 2 * * 1,3'' (2 * ms_hour)" by code_simp
qed

end
