(* ===== verification/Llm.thy ===== *)
theory Llm
  imports Regex
begin

text \<open>
  The provider catalogue of the agent template (\<open>lib/cubepilot/llm.ts\<close>, \<open>provider-names.ts\<close> and
  the platform names of \<open>types.ts\<close>): provider names, model ids, model references, endpoints and
  credentials. Error messages are constructors of a datatype; the empty message is \<^const>\<open>None\<close>.
\<close>

section \<open>Providers\<close>

record template_provider =
  p_name :: "string option"
  p_endpoint :: "string option"
  p_models :: "string list option"
  p_credentialRef :: "string option option"

definition llmCredentialName :: "string \<Rightarrow> string" where
  "llmCredentialName providerName = ''llm-'' @ providerName"

definition PLATFORM_MODEL_NAME :: string where
  "PLATFORM_MODEL_NAME = ''cubestack''"

definition isPlatformProviderName :: "string \<Rightarrow> bool" where
  "isPlatformProviderName name \<longleftrightarrow>
     name = PLATFORM_MODEL_NAME \<or> startsWith name (PLATFORM_MODEL_NAME @ ''-'')"

definition displayModelName :: "string \<Rightarrow> string" where
  "displayModelName selectedModel =
     (case find_index ((=) CHR ''/'') selectedModel of
        None \<Rightarrow> selectedModel
      | Some slash \<Rightarrow>
          (if isPlatformProviderName (take slash selectedModel)
           then drop (slash + 1) selectedModel else selectedModel))"

section \<open>Provider names\<close>

definition DNS_1123_LABEL :: rx where
  "DNS_1123_LABEL = label_rx lower_alnum label_char lower_alnum"

definition MAX_PROVIDER_NAME :: nat where "MAX_PROVIDER_NAME = 63"
definition MAX_PROVIDER_MODELS :: nat where "MAX_PROVIDER_MODELS = 64"
definition MAX_MODEL_ID :: nat where "MAX_MODEL_ID = 256"

definition sanitizeProviderName :: "string \<Rightarrow> string" where
  "sanitizeProviderName raw =
     strip_ends CHR ''-''
       (take MAX_PROVIDER_NAME (collapse_runs label_char CHR ''-'' (toLowerCase (trim raw))))"

datatype name_error = NotLabel string | ReservedName string

definition providerNameError :: "string \<Rightarrow> name_error option" where
  "providerNameError name =
     (if name = [] \<or> MAX_PROVIDER_NAME < length name \<or> \<not> rx_match DNS_1123_LABEL name
      then Some (NotLabel name)
      else if isPlatformProviderName name then Some (ReservedName name)
      else None)"

section \<open>Model ids\<close>

text \<open>The loop of \<open>normalizeModelIds\<close>, with its \<open>seen\<close> set; an absent entry reads as empty.\<close>

fun normalize_loop :: "string set \<Rightarrow> string option list \<Rightarrow> string list" where
  "normalize_loop seen [] = []"
| "normalize_loop seen (raw # ids) =
     (let i = trim (nullish raw [])
      in if i = [] \<or> i \<in> seen then normalize_loop seen ids
         else i # normalize_loop (insert i seen) ids)"

definition normalizeModelIds :: "string option list \<Rightarrow> string list" where
  "normalizeModelIds ids = normalize_loop {} ids"

datatype model_error = UnusableId string | NoModels | TooManyModels nat

definition modelIdError :: "string \<Rightarrow> model_error option" where
  "modelIdError i =
     (if i = [] \<or> i = ''*'' \<or> MAX_MODEL_ID < length i \<or> list_ex js_space i \<or>
         str_includes i ''//'' \<or> startsWith i ''/'' \<or> endsWith i ''/''
      then Some (UnusableId i) else None)"

fun first_id_error :: "string list \<Rightarrow> model_error option" where
  "first_id_error [] = None"
| "first_id_error (i # ids) =
     (case modelIdError i of Some e \<Rightarrow> Some e | None \<Rightarrow> first_id_error ids)"

definition modelIdsError :: "string list \<Rightarrow> model_error option" where
  "modelIdsError ids =
     (if length ids = 0 then Some NoModels
      else if MAX_PROVIDER_MODELS < length ids then Some (TooManyModels (length ids))
      else first_id_error ids)"

text \<open>The words of \<open>NON_CHAT_MODEL_ID\<close>. The pattern is case-insensitive, so it is run on the
  lower-cased id, and its alternatives \<open>^\<close> and \<open>$\<close> of the boundary are a space put at either end,
  which no word contains.\<close>

definition non_chat_word :: rx where
  "non_chat_word = Alts
     [Seq (Lit ''image'') (Star (Cls digit)), Lit ''img'', Seq (Lit ''dall'') (Seq (Opt (Lit ''-'')) (Lit ''e'')),
      Lit ''diffusion'', Lit ''sdxl'', Lit ''flux'', Lit ''midjourney'',
      Seq (Lit ''embed'') (Seq (Opt (Lit ''ding'')) (Opt (Lit ''s''))),
      Seq (Lit ''rerank'') (Opt (Lit ''er'')), Lit ''whisper'', Lit ''tts'', Lit ''audio'', Lit ''speech'',
      Lit ''video'', Lit ''veo'', Lit ''sora'', Lit ''moderation'']"

definition NON_CHAT_MODEL_ID :: rx where
  "NON_CHAT_MODEL_ID =
     Seq (Cls (\<lambda>c. \<not> lower_alnum c)) (Seq non_chat_word (Cls (\<lambda>c. \<not> lower_alnum c)))"

definition isChatModel :: "string \<Rightarrow> bool" where
  "isChatModel i = (\<not> rx_search NON_CHAT_MODEL_ID ('' '' @ toLowerCase (trim i) @ '' ''))"

definition modelKey :: "string \<Rightarrow> string \<Rightarrow> string" where
  "modelKey provider modelId =
     (let p = trim provider; i = trim modelId
      in if p = [] then i
         else if i = [] then p
         else if startsWith (toLowerCase i) (toLowerCase p @ ''/'') then i else p @ ''/'' @ i)"

section \<open>Endpoints and credentials\<close>

datatype endpoint_error = HasFragment | HasQuery | NotUrl

definition chat_suffix :: string where
  "chat_suffix = ''/chat/completions''"

definition cut_suffix :: "string \<Rightarrow> string" where
  "cut_suffix endpoint =
     (if length chat_suffix \<le> length endpoint \<and>
         toLowerCase (drop (length endpoint - length chat_suffix) endpoint) = chat_suffix
      then strip_trailing CHR ''/'' (drop_end (length chat_suffix) endpoint)
      else endpoint)"

text \<open>\<open>parse_url\<close> is the platform's \<open>URL\<close> constructor: protocol and host, or \<^const>\<open>None\<close> when it throws.\<close>

definition normalizeEndpoint ::
    "(string \<Rightarrow> (string \<times> string) option) \<Rightarrow> string option \<Rightarrow> endpoint_error + string" where
  "normalizeEndpoint parse_url raw =
     (let endpoint = strip_trailing CHR ''/'' (trim (nullish raw []))
      in if str_includes endpoint ''#'' then Inl HasFragment
         else if str_includes endpoint ''?'' then Inl HasQuery
         else
           let trimmed = cut_suffix endpoint
           in case parse_url trimmed of
                None \<Rightarrow> Inl NotUrl
              | Some (protocol, host) \<Rightarrow>
                  (if protocol = [] \<or> host = [] then Inl NotUrl else Inr trimmed))"

datatype credential_error = ExclusiveChoice | KeyRequired

definition credentialChoiceError :: "string \<Rightarrow> bool \<Rightarrow> credential_error option" where
  "credentialChoiceError apiKey isPublic =
     (if isPublic \<and> apiKey \<noteq> [] then Some ExclusiveChoice
      else if \<not> isPublic \<and> apiKey = [] then Some KeyRequired
      else None)"

definition providerIndex :: "template_provider list option \<Rightarrow> string \<Rightarrow> nat option" where
  "providerIndex providers name = find_index (\<lambda>p. p_name p = Some name) (nullish providers [])"

section \<open>What a provider name means to the runtime\<close>

definition RESERVED_PLUGIN_PROVIDERS :: "(string \<times> string) list" where
  "RESERVED_PLUGIN_PROVIDERS =
    [(''amazon-bedrock'', ''Amazon Bedrock''),
     (''amazon-bedrock-mantle'', ''Amazon Bedrock Mantle''),
     (''anthropic-vertex'', ''Anthropic Vertex''), (''arcee'', ''Arcee AI''),
     (''bailian-token-plan'', ''Alibaba Token Plan''), (''baseten'', ''Baseten''),
     (''byteplus'', ''BytePlus''), (''byteplus-plan'', ''BytePlus''), (''cerebras'', ''Cerebras''),
     (''chutes'', ''Chutes''), (''cloudflare-ai-gateway'', ''Cloudflare AI Gateway''),
     (''cohere'', ''Cohere''), (''comfy'', ''ComfyUI''), (''dashscope'', ''Qwen Cloud''),
     (''deepinfra'', ''DeepInfra''), (''deepseek'', ''DeepSeek''),
     (''featherless'', ''Featherless AI''), (''fireworks'', ''Fireworks''),
     (''fireworks-ai'', ''Fireworks''), (''gmi'', ''GMI Cloud''), (''gmi-cloud'', ''GMI Cloud''),
     (''gmicloud'', ''GMI Cloud''), (''groq'', ''Groq''), (''kilocode'', ''Kilo Gateway''),
     (''kimi'', ''Kimi Coding''), (''kimi-coding'', ''Kimi Coding''), (''longcat'', ''LongCat''),
     (''meituan-longcat'', ''LongCat''), (''meta'', ''Meta''), (''mistral'', ''Mistral''),
     (''modelstudio'', ''Qwen Cloud''), (''moonshot'', ''Moonshot''),
     (''moonshot-ai'', ''Moonshot''), (''moonshotai'', ''Moonshot''), (''novita'', ''NovitaAI''),
     (''novita-ai'', ''NovitaAI''), (''novitaai'', ''NovitaAI''), (''opencode'', ''OpenCode Zen''),
     (''opencode-go'', ''OpenCode Go''), (''pixverse'', ''PixVerse''), (''qianfan'', ''Qianfan''),
     (''qwen'', ''Qwen Cloud''), (''qwen-token-plan'', ''Qwen Token Plan''),
     (''qwencloud'', ''Qwen Cloud''), (''stepfun'', ''StepFun''), (''stepfun-plan'', ''StepFun''),
     (''synthetic'', ''Synthetic''), (''tencent-tokenhub'', ''Tencent TokenHub''),
     (''tencent-tokenplan'', ''Tencent TokenPlan''), (''venice'', ''Venice''),
     (''vercel-ai-gateway'', ''Vercel AI Gateway''), (''volcengine'', ''Volcengine''),
     (''volcengine-plan'', ''Volcengine Plan''), (''voyage'', ''Voyage''), (''vydra'', ''Vydra''),
     (''xiaomi'', ''Xiaomi''), (''xiaomi-token-plan'', ''Xiaomi Token Plan''), (''z-ai'', ''Z.AI''),
     (''zai'', ''Z.AI'')]"

definition BUILTIN_PROVIDERS :: "string list" where
  "BUILTIN_PROVIDERS =
    [''anthropic'', ''clawrouter'', ''copilot-proxy'', ''fal'', ''github-copilot'', ''google'',
     ''google-gemini-cli'', ''google-vertex'', ''huggingface'', ''litellm'', ''lmstudio'',
     ''microsoft-foundry'', ''minimax'', ''minimax-portal'', ''nvidia'', ''ollama'',
     ''ollama-cloud'', ''openai'', ''opencode-go'', ''openrouter'', ''sglang'', ''together'',
     ''vllm'', ''xai'']"

text \<open>Reading a property of an object literal: its own entries, then what every object inherits.\<close>

datatype property_value = Own string | Inherited

definition INHERITED_PROPERTIES :: "string list" where
  "INHERITED_PROPERTIES =
     [''constructor'', ''__proto__'', ''hasOwnProperty'', ''isPrototypeOf'', ''propertyIsEnumerable'',
      ''toLocaleString'', ''toString'', ''valueOf'', ''__defineGetter__'', ''__defineSetter__'',
      ''__lookupGetter__'', ''__lookupSetter__'']"

definition object_get :: "(string \<times> string) list \<Rightarrow> string \<Rightarrow> property_value option" where
  "object_get entries k =
     (case map_of entries k of
        Some v \<Rightarrow> Some (Own v)
      | None \<Rightarrow> if k \<in> set INHERITED_PROPERTIES then Some Inherited else None)"

datatype provider_notice =
    Builtin
  | ReservedPlugin property_value string
  | Custom

definition providerNameNotice :: "string \<Rightarrow> provider_notice" where
  "providerNameNotice name =
     (let i = toLowerCase (trim name)
      in if i \<in> set BUILTIN_PROVIDERS then Builtin
         else case object_get RESERVED_PLUGIN_PROVIDERS i of
             Some provider \<Rightarrow>
               (if provider = Own [] then Custom
                else let base = strip_trailing CHR ''-'' (take (MAX_PROVIDER_NAME - 6) i)
                     in ReservedPlugin provider (base @ ''-proxy''))
           | None \<Rightarrow> Custom)"

section \<open>Names\<close>

definition dns_label :: "string \<Rightarrow> bool" where
  "dns_label s \<longleftrightarrow> s \<noteq> [] \<and> length s \<le> 63 \<and> lower_alnum (hd s) \<and> lower_alnum (last s) \<and>
     (\<forall>c\<in>set s. label_char c)"

lemma DNS_1123_LABEL_match:
  "rx_match DNS_1123_LABEL s \<longleftrightarrow> s \<noteq> [] \<and> lower_alnum (hd s) \<and> lower_alnum (last s) \<and> (\<forall>c\<in>set s. label_char c)"
  unfolding DNS_1123_LABEL_def by (rule label_rx_match) (auto simp: label_char_def)

lemma providerNameError_None:
  "providerNameError s = None \<longleftrightarrow> dns_label s \<and> \<not> isPlatformProviderName s"
  by (auto simp: providerNameError_def DNS_1123_LABEL_match dns_label_def MAX_PROVIDER_NAME_def)

lemma label_char_lower [simp]: "label_char c \<Longrightarrow> lower_char c = c"
proof (cases "lower_alnum c")
  case False
  moreover assume "label_char c"
  ultimately have "c = CHR ''-''" by (simp add: label_char_def)
  then show ?thesis by (simp add: lower_char_def)
qed simp

lemma sanitize_chars: "c \<in> set (sanitizeProviderName raw) \<Longrightarrow> label_char c"
proof -
  assume "c \<in> set (sanitizeProviderName raw)"
  then have "c \<in> set (collapse_runs label_char CHR ''-'' (toLowerCase (trim raw)))"
    unfolding sanitizeProviderName_def by (meson in_set_takeD set_strip_ends subsetD)
  then show "label_char c" by (auto dest: set_collapse_runs simp: label_char_def)
qed

lemma sanitize_length: "length (sanitizeProviderName raw) \<le> 63"
  unfolding sanitizeProviderName_def MAX_PROVIDER_NAME_def
  by (rule order_trans [OF length_strip_ends]) simp

lemma sanitize_label:
  assumes "sanitizeProviderName raw \<noteq> []"
  shows "dns_label (sanitizeProviderName raw)"
proof -
  let ?s = "sanitizeProviderName raw"
  have "hd ?s \<noteq> CHR ''-''" "last ?s \<noteq> CHR ''-''"
    using assms strip_ends_hd_last unfolding sanitizeProviderName_def by blast+
  moreover have "label_char (hd ?s)" "label_char (last ?s)"
    using assms by (intro sanitize_chars [of _ raw]; simp)+
  ultimately have "lower_alnum (hd ?s)" "lower_alnum (last ?s)" by (simp_all add: label_char_def)
  then show ?thesis using assms sanitize_chars sanitize_length by (simp add: dns_label_def)
qed

lemma sanitize_fixed: "dns_label s \<Longrightarrow> sanitizeProviderName s = s"
proof -
  assume s: "dns_label s"
  then have "trim s = s" 
    by (intro trim_no_space) (simp add: dns_label_def label_char_not_space)
  moreover from s have "toLowerCase s = s" "collapse_runs label_char CHR ''-'' s = s" "take 63 s = s"
    by (auto simp: dns_label_def intro: toLowerCase_alnum collapse_runs_id)
  moreover from s have "strip_ends CHR ''-'' s = s"
    by (auto simp: dns_label_def intro!: strip_ends_id dest: lower_alnum_not_dash)
  ultimately show ?thesis by (simp add: sanitizeProviderName_def MAX_PROVIDER_NAME_def)
qed

text \<open>Sanitizing a typed provider name gives a DNS-1123 label of at most 63 characters whenever it
  gives anything, leaves exactly the labels unchanged, and is idempotent; so the only names the
  check then refuses are the empty one and the platform's own.\<close>

theorem sanitizeProviderName_label:
  "(sanitizeProviderName s = [] \<or> dns_label (sanitizeProviderName s)) \<and>
   (s \<noteq> [] \<and> sanitizeProviderName s = s \<longleftrightarrow> dns_label s) \<and>
   sanitizeProviderName (sanitizeProviderName s) = sanitizeProviderName s \<and>
   (providerNameError (sanitizeProviderName s) = None \<longleftrightarrow>
      sanitizeProviderName s \<noteq> [] \<and> \<not> isPlatformProviderName (sanitizeProviderName s))"
proof -
  have "sanitizeProviderName [] = []"
    by (simp add: sanitizeProviderName_def toLowerCase_def strip_ends_def)
  then have fixed: "sanitizeProviderName (sanitizeProviderName s) = sanitizeProviderName s"
    using sanitize_label [of s] sanitize_fixed by (cases "sanitizeProviderName s = []") simp_all
  have ne: "t \<noteq> []" if "dns_label t" for t using that by (simp add: dns_label_def)
  have "s \<noteq> [] \<and> sanitizeProviderName s = s \<longleftrightarrow> dns_label s"
    using sanitize_label [of s] sanitize_fixed [of s] ne [of s] by metis
  moreover have "providerNameError (sanitizeProviderName s) = None \<longleftrightarrow>
      sanitizeProviderName s \<noteq> [] \<and> \<not> isPlatformProviderName (sanitizeProviderName s)"
    using sanitize_label [of s] ne by (metis providerNameError_None)
  ultimately show ?thesis using fixed sanitize_label [of s] by blast
qed

section \<open>Model ids and references\<close>

lemma normalize_loop_first_by:
  "normalize_loop seen ids = first_by (\<lambda>i. i) (\<lambda>i. i \<noteq> []) seen (map (\<lambda>r. trim (nullish r [])) ids)"
  by (induction ids arbitrary: seen) (simp_all add: Let_def)

interpretation model_ids: first_wins normalizeModelIds "\<lambda>r. trim (nullish r [])" "\<lambda>i. i" "\<lambda>i. i \<noteq> []"
  by (rule first_wins_first_by) (simp add: normalizeModelIds_def normalize_loop_first_by)

interpretation given_ids: first_wins_idem "\<lambda>ids. normalizeModelIds (map Some ids)" trim "\<lambda>i. i" "\<lambda>i. i \<noteq> []"
proof (rule first_wins_idem.intro)
  show "first_wins (\<lambda>ids. normalizeModelIds (map Some ids)) trim (\<lambda>i. i) (\<lambda>i. i \<noteq> [])"
    by (rule first_wins_first_by) (simp add: normalizeModelIds_def normalize_loop_first_by comp_def)
qed (unfold_locales, simp)

text \<open>Normalizing the requested model ids keeps exactly the trimmed ids that are not empty, each
  once, in the order of their first mention, and is idempotent.\<close>

theorem normalizeModelIds_set:
  "distinct (normalizeModelIds ids) \<and>
   set (normalizeModelIds ids) = {trim (nullish r []) |r. r \<in> set ids} - {[]} \<and>
   subseq (normalizeModelIds ids) (map (\<lambda>r. trim (nullish r [])) ids) \<and>
   normalizeModelIds (map Some (normalizeModelIds ids)) = normalizeModelIds ids"
proof (intro conjI)
  show "distinct (normalizeModelIds ids)" using model_ids.merge_distinct [of ids] by simp
  show "set (normalizeModelIds ids) = {trim (nullish r []) |r. r \<in> set ids} - {[]}"
    using model_ids.merge_keys [of ids] by auto
  show "subseq (normalizeModelIds ids) (map (\<lambda>r. trim (nullish r [])) ids)"
    using model_ids.merge_subseq [of ids] subseq_filter_left subseq_order.trans by blast
  have "\<forall>i\<in>set (normalizeModelIds ids). i \<noteq> [] \<and> trim i = i"
    using model_ids.merge_sound [of _ ids] by fastforce
  then show "normalizeModelIds (map Some (normalizeModelIds ids)) = normalizeModelIds ids"
    using model_ids.merge_distinct [of ids] by (intro given_ids.merge_id) simp_all
qed

lemma first_id_error_None: "first_id_error ids = None \<longleftrightarrow> (\<forall>i\<in>set ids. modelIdError i = None)"
  by (induction ids) (auto split: option.splits)

lemma modelIdsError_None:
  "modelIdsError ids = None \<longleftrightarrow> ids \<noteq> [] \<and> length ids \<le> 64 \<and> (\<forall>i\<in>set ids. modelIdError i = None)"
  by (auto simp: modelIdsError_def MAX_PROVIDER_MODELS_def first_id_error_None)

lemma trim_prefixed:
  assumes "p \<noteq> []" "trim p = p" "i \<noteq> []" "trim i = i"
  shows "trim (p @ ''/'' @ i) = p @ ''/'' @ i"
proof (rule trim_id)
  have "\<not> js_space (hd p)" using trim_ends(1) [of p] assms by simp
  moreover have "\<not> js_space (last i)" using trim_ends(2) [of i] assms by simp
  ultimately show "p @ ''/'' @ i = [] \<or> \<not> js_space (hd (p @ ''/'' @ i)) \<and> \<not> js_space (last (p @ ''/'' @ i))"
    using assms by simp
qed

lemma modelKey_prefixed:
  assumes "trim p \<noteq> []" and "trim i \<noteq> []"
  shows "startsWith (toLowerCase (modelKey p i)) (toLowerCase (trim p) @ ''/'')"
    and "trim (modelKey p i) = modelKey p i" and "modelKey p i \<noteq> []"
proof -
  show "startsWith (toLowerCase (modelKey p i)) (toLowerCase (trim p) @ ''/'')"
    using assms by (auto simp: modelKey_def Let_def toLowerCase_def lower_char_def)
  show "trim (modelKey p i) = modelKey p i" "modelKey p i \<noteq> []"
    using assms trim_prefixed [of "trim p" "trim i"] by (auto simp: modelKey_def Let_def)
qed

lemma find_index_first: "c \<notin> set p \<Longrightarrow> find_index ((=) c) (p @ c # q) = Some (length p)"
  by (induction p) auto

text \<open>A model reference is built once and shown back: the key always starts with its provider,
  building it again from a key adds nothing, and for a platform provider the name a reader sees
  is the model id itself (when the id is not already a reference of that provider).\<close>

theorem modelKey_roundtrip:
  assumes "trim p \<noteq> []" and "trim i \<noteq> []"
  shows "startsWith (toLowerCase (modelKey p i)) (toLowerCase (trim p) @ ''/'') \<and>
    modelKey p (modelKey p i) = modelKey p i \<and>
    (CHR ''/'' \<notin> set (trim p) \<and> isPlatformProviderName (trim p) \<and>
      \<not> startsWith (toLowerCase (trim i)) (toLowerCase (trim p) @ ''/'') \<longrightarrow>
      displayModelName (modelKey p i) = trim i)"
proof (intro conjI impI)
  note pre = modelKey_prefixed [OF assms]
  show "startsWith (toLowerCase (modelKey p i)) (toLowerCase (trim p) @ ''/'')" by (rule pre)
  have "modelKey p k = k" if "startsWith (toLowerCase k) (toLowerCase (trim p) @ ''/'')" "trim k = k" "k \<noteq> []" for k
    using that assms by (simp add: modelKey_def Let_def)
  with pre show "modelKey p (modelKey p i) = modelKey p i" by blast
  assume "CHR ''/'' \<notin> set (trim p) \<and> isPlatformProviderName (trim p) \<and>
      \<not> startsWith (toLowerCase (trim i)) (toLowerCase (trim p) @ ''/'')"
  with assms show "displayModelName (modelKey p i) = trim i"
    by (simp add: modelKey_def Let_def displayModelName_def find_index_first)
qed

theorem modelKey_roundtrip_witness:
  "modelKey ''cubestack-private'' '' qwen3-32b'' = ''cubestack-private/qwen3-32b'' \<and>
   displayModelName (modelKey ''cubestack-private'' '' qwen3-32b'') = ''qwen3-32b''"
proof -
  have "trim ''cubestack-private'' = ''cubestack-private''" "trim '' qwen3-32b'' = ''qwen3-32b''"
    "isPlatformProviderName ''cubestack-private''"
    "\<not> startsWith (toLowerCase ''qwen3-32b'') (toLowerCase ''cubestack-private'' @ ''/'')"
    "modelKey ''cubestack-private'' '' qwen3-32b'' = ''cubestack-private/qwen3-32b''"
    by code_simp+
  with modelKey_roundtrip [of "''cubestack-private''" "'' qwen3-32b''"] show ?thesis by simp
qed

section \<open>Chat models\<close>

text \<open>A word stands in an id between boundaries: the ends of the id or characters that are neither
  letters nor digits.\<close>

definition has_word :: "string set \<Rightarrow> string \<Rightarrow> bool" where
  "has_word ws s \<longleftrightarrow> (\<exists>u w v. s = u @ w @ v \<and> w \<in> ws \<and>
     (u = [] \<or> \<not> lower_alnum (last u)) \<and> (v = [] \<or> \<not> lower_alnum (hd v)))"

lemma snoc_pad: "s @ [x] = u @ w @ b # v \<Longrightarrow> \<exists>v'. s = u @ w @ v' \<and> (v' = [] \<or> hd v' = b)"
  by (cases v rule: rev_cases) (auto simp: append_eq_append_conv2)

lemma search_padded:
  assumes "\<not> lower_alnum x"
  shows "rx_search (Seq (Cls (\<lambda>c. \<not> lower_alnum c)) (Seq r (Cls (\<lambda>c. \<not> lower_alnum c)))) (x # s @ [x]) \<longleftrightarrow>
    has_word (lang r) s"
proof
  assume "rx_search (Seq (Cls (\<lambda>c. \<not> lower_alnum c)) (Seq r (Cls (\<lambda>c. \<not> lower_alnum c)))) (x # s @ [x])"
  then obtain u a w b v where eq: "x # s @ [x] = u @ (a # w @ [b]) @ v" and
    ab: "\<not> lower_alnum a" "\<not> lower_alnum b" and w: "w \<in> lang r"
    by (auto simp: rx_search_lang)
  show "has_word (lang r) s"
  proof (cases u)
    case Nil
    with eq have "s @ [x] = [] @ w @ b # v" by auto
    from snoc_pad [OF this] obtain v' where "s = [] @ w @ v'" "v' = [] \<or> hd v' = b" by auto
    with ab w show ?thesis unfolding has_word_def by blast
  next
    case (Cons y us)
    with eq have "s @ [x] = (us @ [a]) @ w @ b # v" by auto
    from snoc_pad [OF this] obtain v' where "s = (us @ [a]) @ w @ v'" "v' = [] \<or> hd v' = b" by auto
    with ab w show ?thesis unfolding has_word_def by (metis last_snoc)
  qed
next
  assume "has_word (lang r) s"
  then obtain u w v where s: "s = u @ w @ v" and w: "w \<in> lang r" and
    u: "u = [] \<or> \<not> lower_alnum (last u)" and v: "v = [] \<or> \<not> lower_alnum (hd v)"
    by (auto simp: has_word_def)
  have "x # u = butlast (x # u) @ [last (x # u)]" "\<not> lower_alnum (last (x # u))" using u assms by auto
  then obtain u' a where u': "x # u = u' @ [a]" "\<not> lower_alnum a" by blast
  obtain b v' where v': "v @ [x] = b # v'" "\<not> lower_alnum b" using v assms by (cases v) auto
  have "x # s @ [x] = u' @ ([a] @ w @ [b]) @ v'" using s u'(1) v'(1)
    by (metis append.assoc append_Cons append_Nil)
  moreover have "[a] @ w @ [b] \<in> lang (Seq (Cls (\<lambda>c. \<not> lower_alnum c)) (Seq r (Cls (\<lambda>c. \<not> lower_alnum c))))"
    using u'(2) v'(2) w by (simp only: lang.simps mem_Collect_eq) blast
  ultimately show "rx_search (Seq (Cls (\<lambda>c. \<not> lower_alnum c)) (Seq r (Cls (\<lambda>c. \<not> lower_alnum c)))) (x # s @ [x])"
    unfolding rx_search_lang by metis
qed

text \<open>A model is withheld from the chat exactly when its id, whatever its case, holds a word of
  another modality as a whole word: a chat model whose id merely contains one inside a longer run
  of letters and digits is kept.\<close>

theorem isChatModel_whole_words:
  "isChatModel i \<longleftrightarrow> \<not> has_word (lang non_chat_word) (toLowerCase (trim i))"
proof -
  have "\<not> lower_alnum CHR '' ''" by code_simp
  from search_padded [OF this] show ?thesis
    by (simp only: isChatModel_def NON_CHAT_MODEL_ID_def append_Cons append_Nil)
qed

section \<open>Endpoints\<close>

lemma strip_trailing_shape: "strip_trailing c s = [] \<or> last (strip_trailing c s) \<noteq> c"
  using last_strip_trailing by blast

lemma single_in_sublist: "sublist [c] s \<longleftrightarrow> c \<in> set s"
  by (metis append.left_neutral append_Cons in_set_conv_decomp list.set_intros(1) set_mono_sublist
      sublist_def subsetD)

lemma normalizeEndpoint_unfold:
  "normalizeEndpoint parse_url r =
     (let ep = strip_trailing CHR ''/'' (trim (nullish r []))
      in if CHR ''#'' \<in> set ep then Inl HasFragment else if CHR ''?'' \<in> set ep then Inl HasQuery
         else case parse_url (cut_suffix ep) of
             None \<Rightarrow> Inl NotUrl
           | Some (protocol, host) \<Rightarrow>
               if protocol = [] \<or> host = [] then Inl NotUrl else Inr (cut_suffix ep))"
  by (simp add: normalizeEndpoint_def str_includes_def single_in_sublist Let_def)

lemma prefix_cut_suffix: "prefix (cut_suffix ep) ep"
  unfolding cut_suffix_def drop_end_def
  by (auto intro: prefix_order.trans [OF prefix_strip_trailing] take_is_prefix)

lemma toLowerCase_suffix: "toLowerCase chat_suffix = chat_suffix"
  by code_simp

lemma cut_suffix_append: "e = [] \<or> last e \<noteq> CHR ''/'' \<Longrightarrow> cut_suffix (e @ chat_suffix) = e"
  by (auto simp: cut_suffix_def drop_end_def toLowerCase_suffix strip_trailing_last)

lemma cut_suffix_id: "\<not> suffix chat_suffix (toLowerCase e) \<Longrightarrow> cut_suffix e = e"
  unfolding cut_suffix_def toLowerCase_def drop_map [symmetric] using suffix_drop by metis

lemma chat_suffix_chars:
  "last chat_suffix = CHR ''s''" "chat_suffix \<noteq> []" "CHR ''#'' \<notin> set chat_suffix" "CHR ''?'' \<notin> set chat_suffix"
  by (simp_all add: chat_suffix_def)

text \<open>An accepted endpoint is the API root of what was typed: a prefix of the trimmed text with
  no query, no fragment and no trailing slash, that the platform reads as a URL with a protocol
  and a host; a full request URL and the root it was built from give the same endpoint.\<close>

theorem normalizeEndpoint_root:
  assumes "normalizeEndpoint parse_url raw = Inr e"
  shows "prefix e (trim (nullish raw [])) \<and> CHR ''#'' \<notin> set e \<and> CHR ''?'' \<notin> set e \<and>
    (e = [] \<or> last e \<noteq> CHR ''/'') \<and>
    (\<exists>protocol host. parse_url e = Some (protocol, host) \<and> protocol \<noteq> [] \<and> host \<noteq> []) \<and>
    (trim e = e \<and> \<not> suffix chat_suffix (toLowerCase e) \<longrightarrow>
      normalizeEndpoint parse_url (Some (e @ chat_suffix)) = Inr e \<and>
      normalizeEndpoint parse_url (Some e) = Inr e)"
proof -
  let ?ep = "strip_trailing CHR ''/'' (trim (nullish raw []))"
  have e: "e = cut_suffix ?ep" and clean: "CHR ''#'' \<notin> set ?ep" "CHR ''?'' \<notin> set ?ep"
    and url: "\<exists>protocol host. parse_url e = Some (protocol, host) \<and> protocol \<noteq> [] \<and> host \<noteq> []"
    using assms by (auto simp: normalizeEndpoint_unfold Let_def split: if_splits option.splits)
  have pre: "prefix e ?ep" by (simp add: e prefix_cut_suffix)
  then have "prefix e (trim (nullish raw []))" using prefix_strip_trailing prefix_order.trans by blast
  moreover have notin: "CHR ''#'' \<notin> set e" "CHR ''?'' \<notin> set e"
    using clean set_mono_prefix [OF pre] by auto
  moreover have last: "e = [] \<or> last e \<noteq> CHR ''/''"
    using strip_trailing_shape unfolding e cut_suffix_def by auto
  moreover have "normalizeEndpoint parse_url (Some (e @ chat_suffix)) = Inr e \<and>
      normalizeEndpoint parse_url (Some e) = Inr e"
    if "trim e = e \<and> \<not> suffix chat_suffix (toLowerCase e)"
  proof -
    have "trim (e @ chat_suffix) = e @ chat_suffix"
      using that trim_ends(1) [of e]
      by (intro trim_id) (cases "e = []"; simp add: chat_suffix_def js_space_def)
    moreover have "strip_trailing CHR ''/'' (e @ chat_suffix) = e @ chat_suffix"
      by (rule strip_trailing_last) (simp add: chat_suffix_chars)
    moreover have "strip_trailing CHR ''/'' e = e" using last by (rule strip_trailing_last)
    ultimately show ?thesis
      using that url notin
      by (auto simp: normalizeEndpoint_unfold cut_suffix_append [OF last] cut_suffix_id chat_suffix_chars
          simp del: append.simps)
  qed
  ultimately show ?thesis using url by blast
qed

text \<open>The constructor instantiated by one that reads an \<open>https\<close> URL.\<close>

definition sample_parse_url :: "string \<Rightarrow> (string \<times> string) option" where
  "sample_parse_url s =
     (if startsWith s ''https://'' \<and> length s > 8 then Some (''https:'', drop 8 s) else None)"

theorem normalizeEndpoint_root_witness:
  "normalizeEndpoint sample_parse_url (Some '' https://llm.example/v1/chat/completions/'') =
     Inr ''https://llm.example/v1'' \<and>
   normalizeEndpoint sample_parse_url (Some ''https://llm.example/v1'') = Inr ''https://llm.example/v1'' \<and>
   prefix ''https://llm.example/v1'' (trim '' https://llm.example/v1/chat/completions/'')"
proof -
  have ok: "normalizeEndpoint sample_parse_url (Some '' https://llm.example/v1/chat/completions/'') =
     Inr ''https://llm.example/v1''" by code_simp
  have "trim ''https://llm.example/v1'' = ''https://llm.example/v1''"
    "\<not> suffix chat_suffix (toLowerCase ''https://llm.example/v1'')" by code_simp+
  with ok normalizeEndpoint_root [OF ok] show ?thesis by simp
qed

section \<open>Notices\<close>

definition table_ok :: "string \<Rightarrow> bool" where
  "table_ok i \<longleftrightarrow> \<not> suffix ''-proxy'' i \<and> \<not> prefix PLATFORM_MODEL_NAME i \<and>
     strip_trailing CHR ''-'' (take 57 i) \<noteq> ''copilot''"

lemma reserved_ok: "list_all table_ok (map fst RESERVED_PLUGIN_PROVIDERS @ INHERITED_PROPERTIES)"
  by code_simp

lemma builtin_proxy: "list_all (\<lambda>i. suffix ''-proxy'' i \<longrightarrow> i = ''copilot-proxy'') BUILTIN_PROVIDERS"
  by code_simp

lemma object_get_SomeD: "object_get tab i = Some v \<Longrightarrow> i \<in> set (map fst tab @ INHERITED_PROPERTIES)"
  by (auto simp: object_get_def split: option.splits if_splits dest: map_of_SomeD) (force dest: map_of_SomeD)

lemma label_trim_lower: "dns_label s \<Longrightarrow> toLowerCase (trim s) = s"
  by (auto simp: dns_label_def trim_no_space label_char_not_space toLowerCase_alnum)

lemma label_base:
  assumes "dns_label i"
  shows "dns_label (strip_trailing CHR ''-'' (take 57 i) @ ''-proxy'')"
proof -
  let ?b = "strip_trailing CHR ''-'' (take 57 i)"
  have pre: "prefix ?b i" using prefix_strip_trailing prefix_order.trans take_is_prefix by blast
  have len: "length ?b \<le> 57" by (rule order_trans [OF length_strip_trailing]) simp
  have ne: "?b \<noteq> []"
  proof -
    obtain c r where i: "i = c # r" "lower_alnum c" using assms by (cases i) (auto simp: dns_label_def)
    have "strip_trailing d (x # xs) \<noteq> []" if "x \<noteq> d" for d x and xs :: string
      using that by (induction xs rule: rev_induct) (simp_all add: strip_trailing_def dropWhile_append)
    with i show ?thesis by (simp add: lower_alnum_not_dash)
  qed
  have "hd ?b = hd i" using prefix_hd [OF pre ne] by simp
  moreover have "set ?b \<subseteq> set i" using pre by (rule set_mono_prefix)
  ultimately show ?thesis using assms ne len
    by (auto simp: dns_label_def) (auto simp: label_char_def lower_alnum_def lower_alpha_def between_def)
qed

lemma prefix_platform_base:
  assumes "prefix PLATFORM_MODEL_NAME (b @ ''-proxy'')"
  shows "prefix PLATFORM_MODEL_NAME b"
proof -
  from assms consider "prefix PLATFORM_MODEL_NAME b" | r where "PLATFORM_MODEL_NAME = b @ r" "prefix r ''-proxy''"
    by (auto simp: prefix_append)
  then show ?thesis
  proof cases
    case 2
    have "r = []"
    proof (rule ccontr)
      assume "r \<noteq> []"
      with 2(2) have "CHR ''-'' \<in> set r" by (cases r) (auto simp: prefix_Cons)
      then have "CHR ''-'' \<in> set PLATFORM_MODEL_NAME" unfolding 2(1) by simp
      then show False by (simp add: PLATFORM_MODEL_NAME_def)
    qed
    with 2(1) show ?thesis by simp
  qed
qed

text \<open>When a provider name is one the runtime would install a plugin for, the suggested
  alternative is a usable provider name that means nothing to the runtime.\<close>

theorem providerNameNotice_suggestion:
  assumes "dns_label name" and "providerNameNotice name = ReservedPlugin v s"
  shows "providerNameNotice s = Custom \<and> providerNameError s = None"
proof -
  let ?b = "strip_trailing CHR ''-'' (take 57 name)"
  have s: "s = ?b @ ''-proxy''" and "object_get RESERVED_PLUGIN_PROVIDERS name = Some v"
    using assms by (auto simp: providerNameNotice_def label_trim_lower Let_def MAX_PROVIDER_NAME_def
        split: if_splits option.splits)
  then have ok: "table_ok name" using reserved_ok object_get_SomeD by (metis list_all_iff)
  have label: "dns_label s" unfolding s by (rule label_base [OF assms(1)])
  have proxy: "suffix ''-proxy'' s" unfolding s by (rule suffixI) (rule refl)
  then have "s \<notin> set (map fst RESERVED_PLUGIN_PROVIDERS @ INHERITED_PROPERTIES)"
    using reserved_ok by (auto simp: list_all_iff table_ok_def)
  then have "object_get RESERVED_PLUGIN_PROVIDERS s = None" using object_get_SomeD by fastforce
  moreover have "s \<notin> set BUILTIN_PROVIDERS"
  proof
    assume "s \<in> set BUILTIN_PROVIDERS"
    with proxy builtin_proxy have "s = ''copilot'' @ ''-proxy''" by (auto simp: list_all_iff)
    with ok show False unfolding s by (simp add: table_ok_def del: append.simps)
  qed
  moreover have "\<not> prefix PLATFORM_MODEL_NAME s"
  proof
    assume "prefix PLATFORM_MODEL_NAME s"
    then have "prefix PLATFORM_MODEL_NAME ?b" unfolding s by (rule prefix_platform_base)
    then have "prefix PLATFORM_MODEL_NAME name"
      using prefix_strip_trailing take_is_prefix prefix_order.trans by metis
    with ok show False by (simp add: table_ok_def)
  qed
  then have "\<not> isPlatformProviderName s" by (auto simp: isPlatformProviderName_def prefix_def)
  ultimately show ?thesis
    using label by (simp add: providerNameNotice_def label_trim_lower providerNameError_None)
qed

theorem providerNameNotice_suggestion_witness:
  "providerNameNotice ''deepseek'' = ReservedPlugin (Own ''DeepSeek'') ''deepseek-proxy'' \<and>
   providerNameNotice ''deepseek-proxy'' = Custom"
proof -
  have n: "providerNameNotice ''deepseek'' = ReservedPlugin (Own ''DeepSeek'') ''deepseek-proxy''" by code_simp
  have "providerNameError ''deepseek'' = None" by code_simp
  then have "dns_label ''deepseek''" by (simp add: providerNameError_None)
  from providerNameNotice_suggestion [OF this n] n show ?thesis by simp
qed

text \<open>The table of plugin names is read as a plain object, so the valid name \<open>constructor\<close> is
  announced as a reserved plugin although the table does not hold it, with an inherited property
  where the name of a provider belongs.\<close>

theorem providerNameNotice_inherited:
  "providerNameError ''constructor'' = None \<and> ''constructor'' \<notin> set (map fst RESERVED_PLUGIN_PROVIDERS) \<and>
   providerNameNotice ''constructor'' = ReservedPlugin Inherited ''constructor-proxy''"
  by (intro conjI) code_simp+

end
