(* ===== verification/Allowlist.thy ===== *)
theory Allowlist
  imports Regex
begin

text \<open>
  The command allowlist of the assistant (\<open>lib/cubepilot/allowlist.ts\<close>) and the screen of its
  instructions (\<open>instructions.ts\<close>). The platform's rules, the merge of rule groups, the list in
  effect, the rules stored on an instance, and rule validation. The two argument patterns are
  given both as the text the gateway compiles and as the regular expression that text denotes.
\<close>

section \<open>Rules\<close>

record allowlist_rule =
  r_pattern :: string
  r_argPattern :: "string option"
  r_label :: "string option"
  r_owned :: bool

subsection \<open>Argument patterns\<close>

abbreviation dquote :: char where "dquote \<equiv> CHR 0x22"
abbreviation squote :: char where "squote \<equiv> CHR 0x27"
abbreviation backslash :: char where "backslash \<equiv> CHR 0x5C"

text \<open>The text of the character class shared by the patterns, and the class.\<close>

definition plain_class :: string where
  "plain_class = ''[A-Za-z0-9_./:=,%+*?@~'' @ [dquote] @ ''#'' @ [squote] @ ''-]''"

definition plain_char :: "char \<Rightarrow> bool" where
  "plain_char c \<longleftrightarrow> upper_alpha c \<or> lower_alpha c \<or> digit c \<or>
     c \<in> set (''_./:=,%+*?@~'' @ [dquote] @ ''#'' @ [squote] @ ''-'')"

definition spaces :: string where
  "spaces = [backslash] @ ''s+''"

definition SAFE_ARG_PATTERN :: string where
  "SAFE_ARG_PATTERN = ''^'' @ plain_class @ ''+('' @ spaces @ plain_class @ ''+)*$''"

definition SAFE_ARG_rx :: rx where
  "SAFE_ARG_rx =
     Seq (Plus (Cls plain_char)) (Star (Seq (Plus (Cls js_space)) (Plus (Cls plain_char))))"

definition KUBECTL_GLOBAL_FLAG :: string where
  "KUBECTL_GLOBAL_FLAG =
     ''--[A-Za-z0-9][A-Za-z0-9-]*(='' @ plain_class @ ''+)?|-[a-zA-Z0-9]('' @ spaces @ plain_class @ ''+)?''
     @ ''|--namespace'' @ spaces @ plain_class @ ''+|--context'' @ spaces @ plain_class @ ''+''"

definition alnum :: "char \<Rightarrow> bool" where
  "alnum c \<longleftrightarrow> upper_alpha c \<or> lower_alpha c \<or> digit c"

definition KUBECTL_GLOBAL_FLAG_rx :: rx where
  "KUBECTL_GLOBAL_FLAG_rx =
     (let word = Plus (Cls plain_char); gap = Plus (Cls js_space)
      in Alts
        [Seq (Lit ''--'') (Seq (Cls alnum) (Seq (Star (Cls (\<lambda>c. alnum c \<or> c = CHR ''-'')))
           (Opt (Seq (Lit ''='') word)))),
         Seq (Lit ''-'') (Seq (Cls alnum) (Opt (Seq gap word))),
         Seq (Lit ''--namespace'') (Seq gap word),
         Seq (Lit ''--context'') (Seq gap word)])"

definition KUBECTL_READ_VERBS :: "string list" where
  "KUBECTL_READ_VERBS =
     [''get'', ''list'', ''watch'', ''describe'', ''logs'', ''events'', ''top'', ''api-resources'',
      ''api-versions'', ''explain'', ''version'', ''diff'', ''cluster-info'']"

definition KUBECTL_READ_ARG_PATTERN :: string where
  "KUBECTL_READ_ARG_PATTERN =
     ''^(('' @ KUBECTL_GLOBAL_FLAG @ '')'' @ spaces @ '')*('' @ join ''|'' KUBECTL_READ_VERBS @ '')('' @
     [backslash] @ ''b['' @ [backslash] @ ''s'' @ [backslash] @ ''S]*)?$''"

text \<open>A verb ends in a letter, so the boundary \<open>\b\<close> behind it is a character that is not of a word,
  or the end.\<close>

definition word_char :: "char \<Rightarrow> bool" where
  "word_char c \<longleftrightarrow> alnum c \<or> c = CHR ''_''"

definition KUBECTL_READ_ARG_rx :: rx where
  "KUBECTL_READ_ARG_rx =
     Seq (Star (Seq KUBECTL_GLOBAL_FLAG_rx (Plus (Cls js_space))))
       (Seq (Alts (map Lit KUBECTL_READ_VERBS)) (Opt (Seq (Cls (\<lambda>c. \<not> word_char c)) (Star Any))))"

definition SAFE_BINS :: "string list" where
  "SAFE_BINS =
     [''ls'', ''cat'', ''pwd'', ''grep'', ''head'', ''tail'', ''wc'', ''jq'', ''echo'', ''printf'', ''which'']"

abbreviation em_dash :: string where "em_dash \<equiv> '' '' @ [CHR 0x97] @ '' ''"

definition builtinAllowlist :: "allowlist_rule list" where
  "builtinAllowlist =
     \<lparr>r_pattern = ''kubectl'', r_argPattern = Some KUBECTL_READ_ARG_PATTERN,
      r_label = Some (''kubectl'' @ em_dash @ ''read-only operations (get/list/watch/describe/logs/events/top/''
        @ [CHR 0x85] @ '')''), r_owned = False\<rparr> #
     map (\<lambda>bin. \<lparr>r_pattern = bin, r_argPattern = Some SAFE_ARG_PATTERN,
        r_label = Some (bin @ em_dash @ ''read-only, plain args''), r_owned = False\<rparr>) SAFE_BINS"

section \<open>Merging\<close>

definition ruleKey :: "allowlist_rule \<Rightarrow> string" where
  "ruleKey r = r_pattern r @ ''|'' @ nullish (r_argPattern r) []"

fun merge_group :: "string set \<Rightarrow> allowlist_rule list \<Rightarrow> allowlist_rule list \<Rightarrow> string set \<times> allowlist_rule list" where
  "merge_group seen out [] = (seen, out)"
| "merge_group seen out (rule # rules) =
     (if length (r_pattern rule) = 0 then merge_group seen out rules
      else if ruleKey rule \<in> seen then merge_group seen out rules
      else merge_group (insert (ruleKey rule) seen) (out @ [rule]) rules)"

fun merge_groups :: "string set \<Rightarrow> allowlist_rule list \<Rightarrow> allowlist_rule list list \<Rightarrow> allowlist_rule list" where
  "merge_groups seen out [] = out"
| "merge_groups seen out (g # groups) =
     (case merge_group seen out g of (seen', out') \<Rightarrow> merge_groups seen' out' groups)"

definition mergeRules :: "allowlist_rule list list \<Rightarrow> allowlist_rule list" where
  "mergeRules groups = merge_groups {} [] groups"

definition effectiveAllowlist :: "allowlist_rule list option \<Rightarrow> allowlist_rule list" where
  "effectiveAllowlist owned =
     mergeRules [builtinAllowlist, map (\<lambda>r. r\<lparr>r_owned := True\<rparr>) (nullish owned [])]"

text \<open>A rule as it is stored on the instance: pattern and argument pattern.\<close>

definition sanitize_rule :: "allowlist_rule \<Rightarrow> allowlist_rule" where
  "sanitize_rule r =
     \<lparr>r_pattern = trim (r_pattern r), r_argPattern = or_undef (map_option trim (r_argPattern r)),
      r_label = None, r_owned = True\<rparr>"

definition ownedRules :: "allowlist_rule list option \<Rightarrow> (string \<times> string option) list" where
  "ownedRules rules =
     map (\<lambda>r. (r_pattern r, if truthy (r_argPattern r) then r_argPattern r else None))
       (mergeRules [map sanitize_rule (nullish rules [])])"

section \<open>Validation\<close>

datatype js_incompatible = NamedGroup | InlineFlags | PosixClass | UnicodeProperty

definition JS_INCOMPATIBLE :: "(rx \<times> js_incompatible) list" where
  "JS_INCOMPATIBLE =
     [(Lit ''(?P<'', NamedGroup),
      (Seq (Lit ''(?'') (Cls (\<lambda>c. lower_alpha c \<or> upper_alpha c \<or> c = CHR ''-'')), InlineFlags),
      (Lit (''['' @ ''[:''), PosixClass),
      (Seq (Lit [backslash]) (Seq (Cls (\<lambda>c. c = CHR ''p'' \<or> c = CHR ''P'')) (Lit ''{'')), UnicodeProperty)]"

datatype rule_error = PatternRequired | PatternHasBar | GoOnly js_incompatible | NotARegex string

text \<open>\<open>compile_error\<close> is what \<open>new RegExp\<close> throws for a text, \<^const>\<open>None\<close> when it compiles.\<close>

definition validateRule ::
    "(string \<Rightarrow> string option) \<Rightarrow> string \<Rightarrow> string option \<Rightarrow> rule_error option" where
  "validateRule compile_error pattern argPattern =
     (if pattern = [] \<or> trim pattern = [] then Some PatternRequired
      else if str_includes pattern ''|'' then Some PatternHasBar
      else if truthy argPattern then
        (case find (\<lambda>x. rx_search (fst x) (the argPattern)) JS_INCOMPATIBLE of
           Some (_, why) \<Rightarrow> Some (GoOnly why)
         | None \<Rightarrow> map_option NotARegex (compile_error (the argPattern)))
      else None)"

section \<open>Instructions\<close>

definition MANAGED_START :: string where
  "MANAGED_START = ''<!-- cubepilot:system-prompt:start -->''"

definition MANAGED_END :: string where
  "MANAGED_END = ''<!-- cubepilot:system-prompt:end -->''"

definition MAX_INSTRUCTION_CHARS :: nat where
  "MAX_INSTRUCTION_CHARS = 20000"

datatype instructions_error = TooLong | ReservedMarker

definition validateInstructions :: "string \<Rightarrow> instructions_error option" where
  "validateInstructions value =
     (let trimmed = trim value
      in if MAX_INSTRUCTION_CHARS < length trimmed then Some TooLong
         else if str_includes trimmed MANAGED_START \<or> str_includes trimmed MANAGED_END
         then Some ReservedMarker else None)"

section \<open>The merge and the list in effect\<close>

lemma merge_group_eq:
  "merge_group seen out rules =
     (seen \<union> ruleKey ` {r \<in> set rules. r_pattern r \<noteq> []},
      out @ first_by ruleKey (\<lambda>r. r_pattern r \<noteq> []) seen rules)"
proof (induction seen out rules rule: merge_group.induct)
  case (2 seen out rule rules)
  then show ?case by (cases "r_pattern rule = []"; cases "ruleKey rule \<in> seen") auto
qed simp

lemma first_by_append:
  "first_by key keep seen (xs @ ys) =
     first_by key keep seen xs @ first_by key keep (seen \<union> key ` {x \<in> set xs. keep x}) ys"
proof (induction xs arbitrary: seen)
  case (Cons x xs)
  have "{y. (y = x \<or> y \<in> set xs) \<and> keep y} = {y \<in> set xs. keep y}" if "\<not> keep x" using that by auto
  moreover have "seen \<union> key ` {y. (y = x \<or> y \<in> set xs) \<and> keep y} =
      insert (key x) seen \<union> key ` {y \<in> set xs. keep y}" if "keep x" using that by auto
  ultimately show ?case using Cons.IH by (cases "keep x") (auto simp: insert_absorb)
qed simp

lemma merge_groups_eq:
  "merge_groups seen out groups = out @ first_by ruleKey (\<lambda>r. r_pattern r \<noteq> []) seen (concat groups)"
  by (induction groups arbitrary: seen out) (simp_all add: merge_group_eq first_by_append)

lemma mergeRules_eq: "mergeRules groups = first_by ruleKey (\<lambda>r. r_pattern r \<noteq> []) {} (concat groups)"
  by (simp add: mergeRules_def merge_groups_eq)

interpretation rules: first_wins_idem "\<lambda>rs. mergeRules [rs]" "\<lambda>r. r" ruleKey "\<lambda>r. r_pattern r \<noteq> []"
proof (rule first_wins_idem.intro)
  show "first_wins (\<lambda>rs. mergeRules [rs]) (\<lambda>r. r) ruleKey (\<lambda>r. r_pattern r \<noteq> [])"
    by (rule first_wins_first_by) (simp add: mergeRules_eq)
qed (unfold_locales, simp)

lemma mergeRules_concat: "mergeRules groups = mergeRules [concat groups]"
  by (simp add: mergeRules_eq)

lemma bar_split: "p @ ''|'' @ a = q @ ''|'' @ b \<Longrightarrow> CHR ''|'' \<notin> set p \<Longrightarrow> CHR ''|'' \<notin> set q \<Longrightarrow> p = q \<and> a = b"
  using split_char_append [of "CHR ''|''" p a] split_char_append [of "CHR ''|''" q b]
  by (simp add: append_eq_append_conv2 Cons_eq_append_conv) (auto simp: append_eq_Cons_conv Cons_eq_append_conv)

lemma ruleKey_inj:
  assumes "CHR ''|'' \<notin> set (r_pattern r)" and "CHR ''|'' \<notin> set (r_pattern s)"
  shows "ruleKey r = ruleKey s \<longleftrightarrow>
    r_pattern r = r_pattern s \<and> nullish (r_argPattern r) [] = nullish (r_argPattern s) []"
  using bar_split [OF _ assms] by (auto simp: ruleKey_def)

lemma builtin_distinct: "distinct (map ruleKey builtinAllowlist)"
proof -
  have patterns: "map r_pattern builtinAllowlist = ''kubectl'' # SAFE_BINS"
    by (simp add: builtinAllowlist_def comp_def)
  have bar: "\<forall>r\<in>set builtinAllowlist. CHR ''|'' \<notin> set (r_pattern r)"
    by (simp add: builtinAllowlist_def SAFE_BINS_def)
  have "distinct (map r_pattern builtinAllowlist)" unfolding patterns by (simp add: SAFE_BINS_def)
  with bar show ?thesis by (auto simp: distinct_map inj_on_def ruleKey_inj)
qed

lemma builtin_patterns: "\<forall>r\<in>set builtinAllowlist. r_pattern r \<noteq> [] \<and> \<not> r_owned r"
  by (simp add: builtinAllowlist_def SAFE_BINS_def)

text \<open>An instance's own rules only widen the list: whatever they are, the list in effect starts
  with every platform rule, none of them marked removable; behind them stand the instance's rules
  that have a pattern and are not a platform rule, each once, all marked removable; and every rule
  of the instance that has a pattern is represented by a rule of the same identity.\<close>

theorem effectiveAllowlist_widens:
  "\<exists>own. effectiveAllowlist owned = builtinAllowlist @ own \<and>
     (\<forall>r\<in>set builtinAllowlist. \<not> r_owned r) \<and>
     (\<forall>r\<in>set own. r_owned r \<and> ruleKey r \<notin> ruleKey ` set builtinAllowlist) \<and>
     subseq (map ruleKey own) (map ruleKey (nullish owned [])) \<and>
     distinct (map ruleKey (effectiveAllowlist owned)) \<and>
     (\<forall>r\<in>set (nullish owned []). r_pattern r \<noteq> [] \<longrightarrow>
        (\<exists>e\<in>set (effectiveAllowlist owned). ruleKey e = ruleKey r))"
proof -
  let ?mine = "map (\<lambda>r. r\<lparr>r_owned := True\<rparr>) (nullish owned [])"
  let ?own = "first_by ruleKey (\<lambda>r. r_pattern r \<noteq> []) (ruleKey ` {r \<in> set builtinAllowlist. r_pattern r \<noteq> []}) ?mine"
  have b: "first_by ruleKey (\<lambda>r. r_pattern r \<noteq> []) {} builtinAllowlist = builtinAllowlist"
    using rules.merge_id [of builtinAllowlist] builtin_distinct builtin_patterns by (simp add: mergeRules_eq)
  have eff: "effectiveAllowlist owned = builtinAllowlist @ ?own"
    by (simp add: effectiveAllowlist_def mergeRules_eq first_by_append b)
  have sub: "subseq ?own ?mine" using first_by_subseq subseq_filter_left subseq_order.trans by blast
  have keys: "map ruleKey ?mine = map ruleKey (nullish owned [])" by (simp add: ruleKey_def comp_def)
  have "subseq (map ruleKey ?own) (map ruleKey (nullish owned []))"
    unfolding keys [symmetric] by (rule subseq_mapI [OF sub])
  moreover have "\<forall>r\<in>set ?own. r_owned r \<and> ruleKey r \<notin> ruleKey ` set builtinAllowlist"
  proof
    fix r
    assume r: "r \<in> set ?own"
    then have "r \<in> set ?mine" using subseq_set [OF sub] by blast
    moreover have "{r \<in> set builtinAllowlist. r_pattern r \<noteq> []} = set builtinAllowlist"
      using builtin_patterns by blast
    then have "ruleKey r \<notin> ruleKey ` set builtinAllowlist"
      using r first_by_keys [of ruleKey "\<lambda>r. r_pattern r \<noteq> []" "ruleKey ` set builtinAllowlist" ?mine] by auto
    ultimately show "r_owned r \<and> ruleKey r \<notin> ruleKey ` set builtinAllowlist" by auto
  qed
  moreover have m: "effectiveAllowlist owned = mergeRules [builtinAllowlist @ ?mine]"
    by (simp add: effectiveAllowlist_def mergeRules_eq)
  then have "distinct (map ruleKey (effectiveAllowlist owned))"
    using rules.merge_distinct [of "builtinAllowlist @ ?mine"] by (simp only:)
  moreover have "\<exists>e\<in>set (effectiveAllowlist owned). ruleKey e = ruleKey r"
    if "r \<in> set (nullish owned [])" "r_pattern r \<noteq> []" for r
    using rules.merge_complete [of "r\<lparr>r_owned := True\<rparr>" "builtinAllowlist @ ?mine"] that
    unfolding m by (simp add: ruleKey_def)
  ultimately show ?thesis using eff builtin_patterns by blast
qed

section \<open>What the patterns accept\<close>

lemma plain_not_space: "plain_char c \<Longrightarrow> \<not> js_space c"
  by (auto simp: plain_char_def js_space_def upper_alpha_def lower_alpha_def digit_def between_def)

definition gap_words :: "string set" where
  "gap_words = {g @ w |g w. (g \<noteq> [] \<and> (\<forall>c\<in>set g. js_space c)) \<and> w \<noteq> [] \<and> (\<forall>c\<in>set w. plain_char c)}"

lemma star_words:
  "t \<in> star_lang gap_words \<Longrightarrow> (\<forall>c\<in>set t. plain_char c \<or> js_space c) \<and> (t = [] \<or> plain_char (last t))"
proof (induction rule: star_lang.induct)
  case (star_app u v)
  then obtain g w where "u = g @ w" "\<forall>c\<in>set g. js_space c" "w \<noteq> []" "\<forall>c\<in>set w. plain_char c"
    by (auto simp: gap_words_def)
  with star_app.IH show ?case by (auto simp: last_append)
qed simp

lemma SAFE_ARG_lang:
  "lang SAFE_ARG_rx = {w @ t |w t. (w \<noteq> [] \<and> (\<forall>c\<in>set w. plain_char c)) \<and>
     t \<in> star_lang gap_words}"
  by (simp add: SAFE_ARG_rx_def gap_words_def)

definition plain_words :: "string \<Rightarrow> bool" where
  "plain_words s \<longleftrightarrow> s \<noteq> [] \<and> plain_char (hd s) \<and> plain_char (last s) \<and> (\<forall>c\<in>set s. plain_char c \<or> js_space c)"

lemma last_dropWhile: "dropWhile P xs \<noteq> [] \<Longrightarrow> last (dropWhile P xs) = last xs"
  by (metis last_appendR takeWhile_dropWhile_id)

lemma plain_words_accepted: "plain_words s \<Longrightarrow> s \<in> lang SAFE_ARG_rx"
proof (induction "length s" arbitrary: s rule: less_induct)
  case less
  let ?w = "takeWhile plain_char s" and ?r = "dropWhile plain_char s"
  let ?g = "takeWhile js_space ?r" and ?q = "dropWhile js_space ?r"
  from less.prems have w: "?w \<noteq> []" "\<forall>c\<in>set ?w. plain_char c"
    by (cases s; auto simp: plain_words_def dest: set_takeWhileD)+
  show ?case
  proof (cases "?r = []")
    case True
    then have "s = ?w @ []" by (metis append_Nil2 takeWhile_dropWhile_id)
    with w show ?thesis unfolding SAFE_ARG_lang using star_lang.star_Nil by blast
  next
    case False
    have "\<not> plain_char (hd ?r)" using False by (rule hd_dropWhile)
    moreover have "hd ?r \<in> set s" by (rule set_dropWhileD [OF hd_in_set [OF False]])
    ultimately have "js_space (hd ?r)" using less.prems by (auto simp: plain_words_def)
    with False have g: "?g \<noteq> []" "\<forall>c\<in>set ?g. js_space c" by (cases ?r; auto dest: set_takeWhileD)+
    have last: "last ?r = last s" using False last_dropWhile by blast
    have q: "?q \<noteq> []"
    proof
      assume "?q = []"
      then have "\<forall>c\<in>set ?r. js_space c" by (simp only: dropWhile_eq_Nil_conv)
      with False last less.prems plain_not_space show False by (metis last_in_set plain_words_def)
    qed
    have "plain_char (hd ?q)"
      using q less.prems hd_dropWhile [OF q] by (metis hd_in_set plain_words_def set_dropWhileD)
    moreover have "last ?q = last s" using q last by (metis last_dropWhile)
    moreover have "set ?q \<subseteq> set s" by (meson set_dropWhileD subsetI)
    ultimately have "plain_words ?q" using q less.prems by (auto simp: plain_words_def)
    moreover have "length ?q < length s"
      using w(1) by (metis (no_types, lifting) length_append length_dropWhile_le length_greater_0_conv
          less_add_same_cancel2 order_le_less_trans takeWhile_dropWhile_id)
    ultimately have "?q \<in> lang SAFE_ARG_rx" using less.hyps by blast
    then obtain w' t where w': "?q = w' @ t" "w' \<noteq> []" "\<forall>c\<in>set w'. plain_char c" and t:
      "t \<in> star_lang gap_words"
      unfolding SAFE_ARG_lang by blast
    have "s = ?w @ (?g @ w') @ t" using w'(1) by (metis append.assoc takeWhile_dropWhile_id)
    moreover have "(?g @ w') @ t \<in> star_lang gap_words"
      using g w'(2,3) t unfolding gap_words_def by (intro star_lang.intros) blast+
    ultimately show ?thesis using w unfolding SAFE_ARG_lang by blast
  qed
qed

text \<open>The argument pattern of the read-only shell tools accepts exactly the non-empty texts of
  plain words and white space that begin and end with a plain character, so no shell operator,
  substitution or redirection passes; a line break is white space, though, and it passes.\<close>

theorem SAFE_ARG_exactly:
  "(rx_match SAFE_ARG_rx s \<longleftrightarrow> plain_words s) \<and>
   list_all (\<lambda>c. \<not> plain_char c \<and> \<not> js_space c)
     (''|&;<>()$!{}'' @ [backslash, CHR 0x60]) \<and>
   rx_match SAFE_ARG_rx (''a'' @ [CHR 0x0A] @ ''rm'')"
proof (intro conjI)
  have "plain_words s" if "s \<in> lang SAFE_ARG_rx"
    using that star_words unfolding SAFE_ARG_lang plain_words_def by (fastforce simp: last_append)
  then show "rx_match SAFE_ARG_rx s \<longleftrightarrow> plain_words s"
    using plain_words_accepted unfolding rx_match_lang by blast
qed code_simp+

lemma verb_first:
  assumes "s \<in> lang (Seq (Alts (map Lit vs)) (Opt (Seq (Cls (\<lambda>c. \<not> word_char c)) (Star Any))))"
  shows "\<exists>v\<in>set vs. prefix v s \<and> (s = v \<or> \<not> word_char (s ! length v))"
  using assms by (auto simp: lang_Alts) (fastforce simp: nth_append)+

lemma flag_dash: "s \<in> lang KUBECTL_GLOBAL_FLAG_rx \<Longrightarrow> s \<noteq> [] \<and> hd s = CHR ''-''"
  by (auto simp: KUBECTL_GLOBAL_FLAG_rx_def Let_def)

text \<open>The kubectl rule is gated by its verb: the arguments it accepts begin with a global flag or
  with one of the read verbs as a whole word; so a command whose first argument is a mutating
  verb, for instance delete, apply, exec or get2, is not on the list.\<close>

theorem KUBECTL_READ_verb:
  assumes "rx_match KUBECTL_READ_ARG_rx s"
  shows "s \<noteq> [] \<and> (hd s = CHR ''-'' \<or>
    (\<exists>v\<in>set KUBECTL_READ_VERBS. prefix v s \<and> (s = v \<or> \<not> word_char (s ! length v))))"
proof -
  let ?F = "Star (Seq KUBECTL_GLOBAL_FLAG_rx (Plus (Cls js_space)))"
  let ?V = "Seq (Alts (map Lit KUBECTL_READ_VERBS)) (Opt (Seq (Cls (\<lambda>c. \<not> word_char c)) (Star Any)))"
  have "s \<in> lang (Seq ?F ?V)" using assms by (simp only: rx_match_lang KUBECTL_READ_ARG_rx_def)
  then obtain f t where s: "s = f @ t" and f: "f \<in> lang ?F" and t: "t \<in> lang ?V"
    by (simp only: lang.simps mem_Collect_eq) blast
  from verb_first [OF t] obtain v where v: "v \<in> set KUBECTL_READ_VERBS" "prefix v t" "t = v \<or> \<not> word_char (t ! length v)"
    by blast
  have "v \<noteq> []" using v(1) by (auto simp: KUBECTL_READ_VERBS_def)
  show ?thesis
  proof (cases "f = []")
    case True
    with s v \<open>v \<noteq> []\<close> show ?thesis by (auto simp: prefix_def)
  next
    case False
    have "f = [] \<or> hd f = CHR ''-''"
      using f unfolding lang.simps(6)
    proof (induction rule: star_lang.induct)
      case (star_app u w)
      then show ?case using flag_dash by (auto simp: hd_append)
    qed simp
    with False s show ?thesis by simp
  qed
qed

theorem KUBECTL_READ_verb_witness:
  "rx_match KUBECTL_READ_ARG_rx ''get pods'' \<and> \<not> rx_match KUBECTL_READ_ARG_rx ''delete pod a'' \<and>
   (\<exists>v\<in>set KUBECTL_READ_VERBS. prefix v ''get pods'')"
proof -
  have ok: "rx_match KUBECTL_READ_ARG_rx ''get pods''" by code_simp
  moreover have "\<not> rx_match KUBECTL_READ_ARG_rx ''delete pod a''" by code_simp
  moreover have "\<exists>v\<in>set KUBECTL_READ_VERBS. prefix v ''get pods''"
    using KUBECTL_READ_verb [OF ok] by auto
  ultimately show ?thesis by blast
qed

text \<open>Accepted rules never collide on one identity: two rules that validation lets through have
  the same identity if and only if they have the same pattern and the same argument pattern, and
  no accepted argument pattern holds a construct that only the other regular-expression dialect
  reads.\<close>

theorem validateRule_identity:
  assumes "validateRule compile_error (r_pattern r) (r_argPattern r) = None"
    and "validateRule compile_error (r_pattern s) (r_argPattern s) = None"
  shows "(ruleKey r = ruleKey s \<longleftrightarrow>
      r_pattern r = r_pattern s \<and> nullish (r_argPattern r) [] = nullish (r_argPattern s) []) \<and>
    trim (r_pattern r) \<noteq> [] \<and>
    (truthy (r_argPattern r) \<longrightarrow> \<not> str_includes (the (r_argPattern r)) ''(?P<'' \<and>
       \<not> str_includes (the (r_argPattern r)) (''['' @ ''[:'') \<and> compile_error (the (r_argPattern r)) = None)"
proof (intro conjI impI)
  have bar: "CHR ''|'' \<notin> set p" if "validateRule compile_error p a = None" for p a
    using that by (auto simp: validateRule_def str_includes_def sublist_def in_set_conv_decomp split: if_splits)
  show "ruleKey r = ruleKey s \<longleftrightarrow>
      r_pattern r = r_pattern s \<and> nullish (r_argPattern r) [] = nullish (r_argPattern s) []"
    by (rule ruleKey_inj) (rule bar assms)+
  show "trim (r_pattern r) \<noteq> []" using assms(1) by (auto simp: validateRule_def split: if_splits)
  assume a: "truthy (r_argPattern r)"
  with assms(1) have n: "find (\<lambda>x. rx_search (fst x) (the (r_argPattern r))) JS_INCOMPATIBLE = None"
    and c: "compile_error (the (r_argPattern r)) = None"
    by (auto simp: validateRule_def split: if_splits option.splits)
  then show "compile_error (the (r_argPattern r)) = None" by simp
  have lit: "rx_search (Lit p) t \<longleftrightarrow> str_includes t p" for p t
    by (auto simp: rx_search_lang str_includes_def sublist_def)
  have "\<not> rx_search x (the (r_argPattern r))" if "(x, w) \<in> set JS_INCOMPATIBLE" for x w
    using n that by (auto simp: find_None_iff)
  moreover have "(Lit ''(?P<'', NamedGroup) \<in> set JS_INCOMPATIBLE"
    "(Lit (''['' @ ''[:''), PosixClass) \<in> set JS_INCOMPATIBLE"
    by (simp_all add: JS_INCOMPATIBLE_def)
  ultimately show "\<not> str_includes (the (r_argPattern r)) ''(?P<''"
    "\<not> str_includes (the (r_argPattern r)) (''['' @ ''[:'')"
    unfolding lit [symmetric] by blast+
qed

definition sample_rule :: "string \<Rightarrow> string option \<Rightarrow> allowlist_rule" where
  "sample_rule p a = \<lparr>r_pattern = p, r_argPattern = a, r_label = None, r_owned = True\<rparr>"

theorem validateRule_identity_witness:
  "ruleKey (sample_rule ''helm'' (Some ''^list$'')) \<noteq> ruleKey (sample_rule ''helm'' None) \<and>
   validateRule (\<lambda>_. None) ''helm|x'' None = Some PatternHasBar"
proof -
  have "validateRule (\<lambda>_. None) ''helm'' (Some ''^list$'') = None" "validateRule (\<lambda>_. None) ''helm'' None = None"
    "validateRule (\<lambda>_. None) ''helm|x'' None = Some PatternHasBar"
    by code_simp+
  with validateRule_identity [of "\<lambda>_. None" "sample_rule ''helm'' (Some ''^list$'')" "sample_rule ''helm'' None"]
  show ?thesis by (simp add: sample_rule_def)
qed

theorem effectiveAllowlist_widens_witness:
  "(\<exists>e\<in>set (effectiveAllowlist (Some [sample_rule ''helm'' None])). ruleKey e = ''helm|'') \<and>
   (\<exists>own. effectiveAllowlist (Some [sample_rule ''helm'' None]) = builtinAllowlist @ own)"
  using effectiveAllowlist_widens [of "Some [sample_rule ''helm'' None]"]
  by (auto simp: sample_rule_def ruleKey_def)

end
