(* ===== verification/Pilot_Path.thy ===== *)
theory Pilot_Path
  imports Prelude
begin

text \<open>
  The boundary of the assistant proxy (\<open>lib/cubepilot/pilotpath.ts\<close>): which requests the portal
  forwards, with the caller's identity, to the agent API, and under which path. The results are
  that a forwarded path cannot leave the sessions prefix, that it names exactly the session the
  request named, and which requests are forwarded.
\<close>

section \<open>Encoding\<close>

text \<open>\<open>encodeURIComponent\<close>: unreserved characters stay, any other is the percent form of its UTF-8
  bytes (one below 0x80, two from there).\<close>

definition unreserved :: "char \<Rightarrow> bool" where
  "unreserved c \<longleftrightarrow> upper_alpha c \<or> lower_alpha c \<or> digit c \<or> c \<in> set (''-_.!~*()'' @ [CHR 0x27])"

definition upper_hex :: "nat \<Rightarrow> char" where
  "upper_hex n = (if n < 10 then char_of (48 + n) else char_of (55 + n))"

definition percent :: "nat \<Rightarrow> string" where
  "percent b = [CHR ''%'', upper_hex (b div 16), upper_hex (b mod 16)]"

definition encode_char :: "char \<Rightarrow> string" where
  "encode_char c =
     (let n = (of_char c :: nat)
      in if unreserved c then [c]
         else if n < 128 then percent n
         else percent (192 + n div 64) @ percent (128 + n mod 64))"

definition encodeURIComponent :: "string \<Rightarrow> string" where
  "encodeURIComponent s = concat (map encode_char s)"

definition enc :: "string list \<Rightarrow> string option" where
  "enc segments =
     (if list_ex (\<lambda>s. s = [] \<or> s = ''.'' \<or> s = ''..'') segments then None
      else Some (join ''/'' (map encodeURIComponent segments)))"

section \<open>The allow-list\<close>

definition SUBRESOURCE :: "(string list \<times> string) list" where
  "SUBRESOURCE =
     [([''messages''], ''GET''), ([''messages''], ''POST''), ([''turn''], ''GET''),
      ([''turn'', ''events''], ''GET''), ([''abort''], ''POST''), ([''approvals''], ''GET''),
      ([''approvals'', ''decision''], ''POST''), ([''questions''], ''GET''),
      ([''questions'', ''answer''], ''POST''), ([''questions'', ''cancel''], ''POST'')]"

definition sessions_path :: string where
  "sessions_path = ''/api/v1/sessions''"

text \<open>The loop over the sub-resources: the first entry whose method and tail fit decides.\<close>

fun subresource_loop :: "string \<Rightarrow> string list \<Rightarrow> (string list \<times> string) list \<Rightarrow> string option" where
  "subresource_loop method rest [] = None"
| "subresource_loop method rest ((tail, answers) # subs) =
     (if answers \<noteq> method then subresource_loop method rest subs
      else if length rest < length tail + 2 then subresource_loop method rest subs
      else if drop (length rest - length tail) rest \<noteq> tail then subresource_loop method rest subs
      else case enc (tl (take (length rest - length tail) rest)) of
          None \<Rightarrow> None
        | Some key \<Rightarrow> Some (sessions_path @ ''/'' @ key @ ''/'' @ join ''/'' tail))"

definition upstreamPath :: "string \<Rightarrow> string list \<Rightarrow> string option" where
  "upstreamPath method segments =
     (if nth_opt segments 0 \<noteq> Some ''api'' \<or> nth_opt segments 1 \<noteq> Some ''v1'' then None
      else
        let rest = drop 2 segments
        in if length rest = 1 \<and> nth_opt rest 0 = Some ''sessions'' \<and> method = ''GET'' then Some sessions_path
           else if 2 \<le> length rest \<and> nth_opt rest 0 = Some ''sessions'' \<and> method = ''DELETE'' then
             (case enc (drop 1 rest) of None \<Rightarrow> None | Some key \<Rightarrow> Some (sessions_path @ ''/'' @ key))
           else if length rest < 3 \<or> nth_opt rest 0 \<noteq> Some ''sessions'' then None
           else subresource_loop method rest SUBRESOURCE)"

section \<open>Facts on the encoding\<close>

definition path_char :: "char \<Rightarrow> bool" where
  "path_char c \<longleftrightarrow> unreserved c \<or> c = CHR ''%''"

lemma upper_hex_unreserved: "n < 16 \<Longrightarrow> unreserved (upper_hex n)"
  by (auto simp: unreserved_def upper_hex_def upper_alpha_def digit_def between_def)

lemma percent_chars: "b < 256 \<Longrightarrow> c \<in> set (percent b) \<Longrightarrow> path_char c"
  by (auto simp: percent_def path_char_def upper_hex_unreserved)

lemma encode_bytes: "192 + (of_char c :: nat) div 64 < 256" "128 + (of_char c :: nat) mod 64 < 256"
  using nat_of_char_less_256 [of c] by linarith+

lemma encode_char_chars: "c \<in> set (encode_char d) \<Longrightarrow> path_char c"
  using percent_chars [of "of_char d" c] percent_chars [OF encode_bytes(1), of c d]
    percent_chars [OF encode_bytes(2), of c d]
  by (auto simp: encode_char_def Let_def path_char_def split: if_splits)

lemma encode_chars: "c \<in> set (encodeURIComponent s) \<Longrightarrow> path_char c"
  by (auto simp: encodeURIComponent_def dest: encode_char_chars)

lemma slash_not_path_char: "\<not> path_char CHR ''/''" "\<not> path_char CHR ''?''" "\<not> path_char CHR ''#''"
  by (simp_all add: path_char_def unreserved_def upper_alpha_def lower_alpha_def digit_def between_def)

lemma percent_not_unreserved: "\<not> unreserved CHR ''%''"
  by (simp add: unreserved_def upper_alpha_def lower_alpha_def digit_def between_def)

lemma upper_hex_inj: "m < 16 \<Longrightarrow> n < 16 \<Longrightarrow> upper_hex m = upper_hex n \<Longrightarrow> m = n"
proof -
  assume mn: "m < 16" "n < 16" and eq: "upper_hex m = upper_hex n"
  from eq have "(of_char (upper_hex m) :: nat) = of_char (upper_hex n)" by simp
  with mn show "m = n" by (auto simp: upper_hex_def split: if_splits)
qed

lemma percent_inj: "a < 256 \<Longrightarrow> b < 256 \<Longrightarrow> percent a = percent b \<Longrightarrow> a = b"
proof -
  assume ab: "a < 256" "b < 256" and eq: "percent a = percent b"
  have "a div 16 < 16" "b div 16 < 16" "a mod 16 < 16" "b mod 16 < 16" using ab by auto
  with eq have "a div 16 = b div 16" "a mod 16 = b mod 16" by (auto simp: percent_def intro: upper_hex_inj)
  then show "a = b" by (metis div_mult_mod_eq)
qed

lemma percent_append: "percent a @ x = percent b @ y \<longleftrightarrow> percent a = percent b \<and> x = y"
  by (auto simp: percent_def)

lemma encode_char_prefix_code:
  assumes "encode_char c @ x = encode_char d @ y"
  shows "c = d \<and> x = y"
proof -
  let ?m = "of_char c :: nat" and ?n = "of_char d :: nat"
  note lt = nat_of_char_less_256 [of c] nat_of_char_less_256 [of d] encode_bytes [of c] encode_bytes [of d]
  consider "unreserved c" "unreserved d" | "\<not> unreserved c" "\<not> unreserved d"
    | "unreserved c" "\<not> unreserved d" | "\<not> unreserved c" "unreserved d" by blast
  then show ?thesis
  proof cases
    case 1
    with assms show ?thesis by (simp add: encode_char_def Let_def)
  next
    case 2
    consider "?m < 128" "?n < 128" | "?m < 128" "128 \<le> ?n" | "128 \<le> ?m" "?n < 128" | "128 \<le> ?m" "128 \<le> ?n"
      by linarith
    then have "?m = ?n \<and> x = y"
    proof cases
      case 1
      with 2 assms have "percent ?m = percent ?n" "x = y" by (simp_all add: encode_char_def Let_def percent_append)
      with lt show ?thesis using percent_inj by blast
    next
      case le: 2
      with 2 assms have "percent ?m = percent (192 + ?n div 64)" by (simp add: encode_char_def Let_def percent_append)
      with lt have "?m = 192 + ?n div 64" by (intro percent_inj) auto
      with le show ?thesis by simp
    next
      case ge: 3
      with 2 assms have "percent (192 + ?m div 64) = percent ?n" by (simp add: encode_char_def Let_def percent_append)
      with lt have "192 + ?m div 64 = ?n" by (intro percent_inj) auto
      with ge show ?thesis by simp
    next
      case 4
      with 2 assms have "percent (192 + ?m div 64) = percent (192 + ?n div 64)"
        "percent (128 + ?m mod 64) = percent (128 + ?n mod 64)" "x = y"
        by (simp_all add: encode_char_def Let_def percent_append)
      with lt have "192 + ?m div 64 = 192 + ?n div 64" "128 + ?m mod 64 = 128 + ?n mod 64" "x = y"
        by (blast intro: percent_inj)+
      then show ?thesis by (metis add_left_cancel div_mult_mod_eq)
    qed
    then show ?thesis by simp
  qed (use assms percent_not_unreserved in \<open>auto simp: encode_char_def Let_def percent_def split: if_splits\<close>)
qed

lemma encode_char_not_Nil [simp]: "encode_char c \<noteq> []"
  by (simp add: encode_char_def Let_def percent_def)

lemma encode_inj: "encodeURIComponent s = encodeURIComponent t \<longleftrightarrow> s = t"
proof
  assume "encodeURIComponent s = encodeURIComponent t"
  then show "s = t"
  proof (induction s arbitrary: t)
    case Nil
    then show ?case by (cases t) (simp_all add: encodeURIComponent_def)
  next
    case (Cons c s)
    then obtain d t' where t: "t = d # t'" by (cases t) (auto simp: encodeURIComponent_def)
    with Cons.prems have "encode_char c @ encodeURIComponent s = encode_char d @ encodeURIComponent t'"
      by (simp add: encodeURIComponent_def)
    with encode_char_prefix_code have "c = d" "encodeURIComponent s = encodeURIComponent t'" by blast+
    with Cons.IH t show ?case by simp
  qed
qed simp

lemma encode_unreserved: "\<forall>c\<in>set s. unreserved c \<Longrightarrow> encodeURIComponent s = s"
  by (induction s) (simp_all add: encodeURIComponent_def encode_char_def)

definition dot_segment :: "string \<Rightarrow> bool" where
  "dot_segment s \<longleftrightarrow> s = [] \<or> s = ''.'' \<or> s = ''..''"

lemma encode_dots: "dot_segment (encodeURIComponent s) \<longleftrightarrow> dot_segment s"
proof -
  have "encodeURIComponent t = t" if "dot_segment t" for t
    using that by (intro encode_unreserved) (auto simp: dot_segment_def unreserved_def)
  then show ?thesis using encode_inj unfolding dot_segment_def by metis
qed

lemma enc_Some: "enc segs = Some k \<longleftrightarrow> \<not> list_ex dot_segment segs \<and> k = join ''/'' (map encodeURIComponent segs)"
  by (auto simp: enc_def dot_segment_def list_ex_iff)

section \<open>The boundary\<close>

lemma subresource_loop_SomeD:
  assumes "subresource_loop verb rest subs = Some p"
  obtains tail key where "(tail, verb) \<in> set subs" "rest = hd rest # key @ tail" "key \<noteq> []"
    "\<not> list_ex dot_segment key"
    "p = sessions_path @ ''/'' @ join ''/'' (map encodeURIComponent key) @ ''/'' @ join ''/'' tail"
  using assms
proof (induction verb rest subs arbitrary: thesis rule: subresource_loop.induct)
  case (2 verb rest tail answers subs)
  show ?case
  proof (cases "answers \<noteq> verb \<or> length rest < length tail + 2 \<or> drop (length rest - length tail) rest \<noteq> tail")
    case True
    with "2.prems"(2) have "subresource_loop verb rest subs = Some p" by (auto split: if_splits)
    with True "2.IH" "2.prems"(1) show ?thesis by (metis list.set_intros(2))
  next
    case False
    let ?f = "take (length rest - length tail) rest"
    from False "2.prems"(2) have p: "\<not> list_ex dot_segment (tl ?f)"
      "p = sessions_path @ ''/'' @ join ''/'' (map encodeURIComponent (tl ?f)) @ ''/'' @ join ''/'' tail"
      by (auto simp: enc_Some split: option.splits if_splits)
    from False have len: "length tail + 2 \<le> length rest" by simp
    then have "rest \<noteq> []" "0 < length (tl ?f)" by auto
    then have "rest \<noteq> []" "tl ?f \<noteq> []" by (simp, metis length_greater_0_conv)
    moreover have "?f = hd rest # tl ?f" using len by (cases rest) (auto simp: take_Cons')
    moreover have "rest = ?f @ tail" using False by (metis append_take_drop_id)
    ultimately have "rest = hd rest # tl ?f @ tail" by (metis append_Cons)
    with False p \<open>tl ?f \<noteq> []\<close> show ?thesis by (intro "2.prems"(1) [of tail "tl ?f"]) auto
  qed
qed simp

lemma tails_plain:
  assumes "(tail, m) \<in> set SUBRESOURCE"
  shows "map encodeURIComponent tail = tail" and "\<not> list_ex dot_segment tail" and "tail \<noteq> []"
proof -
  have "list_all (\<lambda>(tail, m). map encodeURIComponent tail = tail \<and> \<not> list_ex dot_segment tail \<and> tail \<noteq> []) SUBRESOURCE"
    by code_simp
  with assms show "map encodeURIComponent tail = tail" "\<not> list_ex dot_segment tail" "tail \<noteq> []"
    by (auto simp: list_all_iff)
qed

lemma join_append: "xs \<noteq> [] \<Longrightarrow> ys \<noteq> [] \<Longrightarrow> join sep (xs @ ys) = join sep xs @ sep @ join sep ys"
  by (induction xs) (auto simp: join_Cons)

definition session_root :: "string list" where
  "session_root = [''api'', ''v1'', ''sessions'']"

lemma session_root_facts:
  "session_root \<noteq> []" "length session_root = 3" "map encodeURIComponent session_root = session_root"
  "\<not> list_ex dot_segment session_root" "sessions_path = ''/'' @ join ''/'' session_root"
  by code_simp+

lemma root_path:
  "sessions_path = ''/'' @ join ''/'' (map encodeURIComponent session_root)"
  "ks \<noteq> [] \<Longrightarrow> sessions_path @ ''/'' @ join ''/'' (map encodeURIComponent ks) =
     ''/'' @ join ''/'' (map encodeURIComponent (session_root @ ks))"
  unfolding map_append session_root_facts(3) session_root_facts(5)
  by (simp_all add: join_append session_root_facts(1))

lemma segments_root:
  assumes "nth_opt segs 0 = Some ''api''" and "nth_opt segs 1 = Some ''v1''"
    and "nth_opt (drop 2 segs) 0 = Some ''sessions''"
  shows "segs = session_root @ drop 3 segs" and "drop 2 segs = ''sessions'' # drop 3 segs"
proof -
  from assms have len: "2 < length segs" "segs ! 0 = ''api''" "segs ! 1 = ''v1''" "segs ! 2 = ''sessions''"
    by (simp_all add: nth_opt_def split: if_splits)
  then obtain a b c r where s: "segs = a # b # c # r"
    by (cases segs; cases "tl segs"; cases "tl (tl segs)") auto
  then have "a = ''api''" "b = ''v1''" "c = ''sessions''" using len by simp_all
  with s show "segs = session_root @ drop 3 segs" "drop 2 segs = ''sessions'' # drop 3 segs"
    by (simp_all add: session_root_def)
qed

text \<open>The forwarded path is the request's own path, segment by segment encoded.\<close>

lemma upstreamPath_cases:
  assumes "upstreamPath m segs = Some p"
  shows "segs = session_root @ drop 3 segs \<and> drop 2 segs = ''sessions'' # drop 3 segs \<and>
    (drop 3 segs = [] \<and> m = ''GET'' \<and> p = sessions_path \<or>
     drop 3 segs \<noteq> [] \<and> m = ''DELETE'' \<and> (\<exists>key. enc (drop 3 segs) = Some key \<and> p = sessions_path @ ''/'' @ key) \<or>
     subresource_loop m (drop 2 segs) SUBRESOURCE = Some p)"
proof -
  let ?rest = "drop 2 segs"
  define A where "A = (nth_opt segs 0 \<noteq> Some ''api'' \<or> nth_opt segs 1 \<noteq> Some ''v1'')"
  define S where "S = (nth_opt ?rest 0 = Some ''sessions'')"
  have up: "upstreamPath m segs = (if A then None
      else if length ?rest = 1 \<and> S \<and> m = ''GET'' then Some sessions_path
      else if 2 \<le> length ?rest \<and> S \<and> m = ''DELETE''
        then (case enc (drop 1 ?rest) of None \<Rightarrow> None | Some key \<Rightarrow> Some (sessions_path @ ''/'' @ key))
      else if length ?rest < 3 \<or> \<not> S then None else subresource_loop m ?rest SUBRESOURCE)"
    unfolding upstreamPath_def Let_def A_def S_def by (rule refl)
  have c: "\<not> A \<and> S \<and> (length ?rest = 1 \<and> m = ''GET'' \<and> p = sessions_path \<or>
      2 \<le> length ?rest \<and> m = ''DELETE'' \<and> (\<exists>key. enc (drop 1 ?rest) = Some key \<and> p = sessions_path @ ''/'' @ key) \<or>
      subresource_loop m ?rest SUBRESOURCE = Some p)"
    using assms unfolding up
    by (cases A; cases S; cases "m = ''GET''"; cases "m = ''DELETE''"; cases "enc (drop 1 ?rest)")
      (simp_all split: if_splits)
  then have r: "segs = session_root @ drop 3 segs" "?rest = ''sessions'' # drop 3 segs"
    using segments_root [of segs] unfolding A_def S_def by blast+
  have "drop 1 ?rest = drop 3 segs" unfolding r(2) by simp
  moreover have "length ?rest = 1 \<longleftrightarrow> drop 3 segs = []" "2 \<le> length ?rest \<longleftrightarrow> drop 3 segs \<noteq> []"
    unfolding r(2) by (cases "drop 3 segs"; simp)+
  ultimately show ?thesis using c r by metis
qed

lemma upstreamPath_SomeD:
  assumes "upstreamPath m segs = Some p"
  obtains key tail where "segs = session_root @ key @ tail"
    "p = ''/'' @ join ''/'' (map encodeURIComponent segs)" "\<not> list_ex dot_segment segs"
    "key = [] \<and> tail = [] \<and> m = ''GET'' \<or> key \<noteq> [] \<and> tail = [] \<and> m = ''DELETE'' \<or>
     key \<noteq> [] \<and> (tail, m) \<in> set SUBRESOURCE"
proof -
  let ?key = "drop 3 segs"
  note c = upstreamPath_cases [OF assms]
  note s = conjunct1 [OF c]
  from c consider (list) "?key = []" "m = ''GET''" "p = sessions_path"
    | (delete) k where "?key \<noteq> []" "m = ''DELETE''" "enc ?key = Some k" "p = sessions_path @ ''/'' @ k"
    | (sub) "subresource_loop m (drop 2 segs) SUBRESOURCE = Some p" by blast
  then show thesis
  proof cases
    case list
    then have "segs = session_root" using s by simp
    then show thesis using that [of "[]" "[]"] list root_path(1) session_root_facts(4) by simp
  next
    case delete
    then have k: "\<not> list_ex dot_segment ?key" "p = sessions_path @ ''/'' @ join ''/'' (map encodeURIComponent ?key)"
      by (simp_all add: enc_Some)
    have "p = ''/'' @ join ''/'' (map encodeURIComponent segs)"
      using root_path(2) [OF delete(1)] k(2) s by (simp only:)
    moreover have "\<not> list_ex dot_segment segs"
      using k(1) session_root_facts(4) by (subst s) (simp add: list_ex_append)
    moreover have "segs = session_root @ ?key @ []" using s by simp
    ultimately show thesis using that [of ?key "[]"] delete(1,2) by blast
  next
    case sub
    obtain tail key where t: "(tail, m) \<in> set SUBRESOURCE"
      and r: "drop 2 segs = hd (drop 2 segs) # key @ tail" and k: "key \<noteq> []" "\<not> list_ex dot_segment key"
      and p: "p = sessions_path @ ''/'' @ join ''/'' (map encodeURIComponent key) @ ''/'' @ join ''/'' tail"
      by (rule subresource_loop_SomeD [OF sub])
    have "?key = key @ tail" using r c by (metis list.inject)
    then have s': "segs = session_root @ key @ tail" using s by simp
    note tp = tails_plain [OF t]
    have "p = sessions_path @ ''/'' @ join ''/'' (map encodeURIComponent (key @ tail))"
      using p k(1) tp by (simp add: join_append)
    then have "p = ''/'' @ join ''/'' (map encodeURIComponent segs)"
      using root_path(2) [of "key @ tail"] k(1) s' by simp
    moreover have "\<not> list_ex dot_segment segs" using k(2) tp(2) session_root_facts(4) by (simp add: s')
    ultimately show thesis using that [of key tail] s' k(1) t by blast
  qed
qed

lemma upstreamPath_chars:
  assumes "upstreamPath m segs = Some p"
  shows "split_char CHR ''/'' p = [] # map encodeURIComponent segs"
    and "c \<in> set p \<Longrightarrow> path_char c \<or> c = CHR ''/''"
proof -
  obtain key tail where ne: "segs = session_root @ key @ tail"
    and p: "p = ''/'' @ join ''/'' (map encodeURIComponent segs)"
    by (rule upstreamPath_SomeD [OF assms])
  have "segs \<noteq> []" by (simp add: ne session_root_facts)
  moreover have "CHR ''/'' \<notin> set (encodeURIComponent s)" for s using encode_chars slash_not_path_char(1) by blast
  ultimately show "split_char CHR ''/'' p = [] # map encodeURIComponent segs"
    by (simp add: p split_char_join)
  have "set (join ''/'' xs) \<subseteq> insert (CHR ''/'') (\<Union> (set ` set xs))" for xs
    by (induction xs) (auto simp: join_Cons)
  from this [of "map encodeURIComponent segs"] show "c \<in> set p \<Longrightarrow> path_char c \<or> c = CHR ''/''"
    using encode_chars by (auto simp: p)
qed

lemma upstreamPath_inj:
  assumes "upstreamPath m segs = Some p" and "upstreamPath m' segs' = Some p"
  shows "segs' = segs"
proof -
  have "map encodeURIComponent segs' = map encodeURIComponent segs"
    using upstreamPath_chars(1) [OF assms(1)] upstreamPath_chars(1) [OF assms(2)] by (simp only: list.inject)
  moreover have "inj encodeURIComponent" by (simp add: inj_def encode_inj)
  ultimately show ?thesis by (metis inj_mapI injD)
qed

lemma upstreamPath_query_free:
  assumes "upstreamPath m segs = Some p"
  shows "CHR ''?'' \<notin> set p" and "CHR ''#'' \<notin> set p"
proof -
  have "c \<notin> set p" if "\<not> path_char c" "c \<noteq> CHR ''/''" for c using upstreamPath_chars(2) [OF assms] that by blast
  from this [OF slash_not_path_char(2)] this [OF slash_not_path_char(3)]
  show "CHR ''?'' \<notin> set p" and "CHR ''#'' \<notin> set p" by simp_all
qed

text \<open>C17. A forwarded request cannot leave the sessions of the agent API: the upstream path has no
  query, no fragment and no empty or dot segment for a URL parser to resolve away; its segments
  are \<open>api\<close>, \<open>v1\<close>, \<open>sessions\<close> and the encoded segments of the request, so it decodes to the
  request's own session and resource, two requests never share a path, and only the listed
  methods reach the listed resources.\<close>

theorem upstreamPath_confined:
  assumes "upstreamPath m segs = Some p"
  shows "split_char CHR ''/'' p = [] # map encodeURIComponent segs \<and>
    list_all (\<lambda>s. \<not> dot_segment s) (map encodeURIComponent segs) \<and>
    prefix session_root segs \<and>
    CHR ''?'' \<notin> set p \<and> CHR ''#'' \<notin> set p \<and>
    (upstreamPath m' segs' = Some p \<longrightarrow> segs' = segs) \<and>
    (m = ''GET'' \<and> length segs = 3 \<or> m = ''DELETE'' \<and> 3 < length segs \<or>
     (\<exists>tail. (tail, m) \<in> set SUBRESOURCE \<and> suffix tail segs))"
proof -
  obtain key tail where s: "segs = session_root @ key @ tail"
    and dots: "\<not> list_ex dot_segment segs"
    and how: "key = [] \<and> tail = [] \<and> m = ''GET'' \<or> key \<noteq> [] \<and> tail = [] \<and> m = ''DELETE'' \<or>
     key \<noteq> [] \<and> (tail, m) \<in> set SUBRESOURCE"
    by (rule upstreamPath_SomeD [OF assms])
  have "list_all (\<lambda>s. \<not> dot_segment s) (map encodeURIComponent segs)"
    using dots by (simp add: list_all_iff list_ex_iff encode_dots)
  moreover have "prefix session_root segs" unfolding s by (rule prefixI) (rule refl)
  moreover have "length segs = 3 + length key + length tail" by (simp add: s session_root_facts)
  moreover have "suffix tail segs" unfolding s by (simp only: append_assoc [symmetric] suffixI)
  ultimately show ?thesis
    using upstreamPath_chars(1) [OF assms] upstreamPath_query_free [OF assms] upstreamPath_inj [OF assms] how
    by auto
qed

theorem upstreamPath_confined_witness:
  "split_char CHR ''/'' ''/api/v1/sessions/a%20b/messages'' =
     [] # map encodeURIComponent [''api'', ''v1'', ''sessions'', ''a b'', ''messages''] \<and>
   upstreamPath ''POST'' [''api'', ''v1'', ''sessions'', ''..'', ''messages''] = None"
proof -
  have ok: "upstreamPath ''POST'' [''api'', ''v1'', ''sessions'', ''a b'', ''messages''] =
     Some ''/api/v1/sessions/a%20b/messages''" by code_simp
  have "upstreamPath ''POST'' [''api'', ''v1'', ''sessions'', ''..'', ''messages''] = None" by code_simp
  with upstreamPath_confined [OF ok] show ?thesis by blast
qed

end
