(* ===== verification/Cluster.thy ===== *)
theory Cluster
  imports Prelude "HOL-Library.Multiset"
begin

text \<open>
  What the routes share when they talk to the Kubernetes API (\<open>lib/cubepilot/taskcrd.ts\<close>): the
  errors of the client and the status they are answered with, the reading of an absent object, the
  escaping of a JSON pointer with its inverse, assignment to an object, and the newest-first order of a listing with its correctness.
\<close>

section \<open>Failures of the cluster\<close>

text \<open>An error of the client: its code and status code, absent when undefined or null, and its message.
  A code is a number for an answer of the API server and a text for a failure of the connection.\<close>

datatype err_code = NumCode int | TextCode string

record k8s_error =
  e_code :: "err_code option"
  e_statusCode :: "err_code option"
  e_message :: string

definition k8sErrorCode :: "k8s_error \<Rightarrow> int option" where
  "k8sErrorCode e =
     (case (case e_code e of Some c \<Rightarrow> Some c | None \<Rightarrow> e_statusCode e) of
        Some (NumCode n) \<Rightarrow> Some n
      | _ \<Rightarrow> None)"

definition k8s_status :: "k8s_error \<Rightarrow> nat" where
  "k8s_status e = (if k8sErrorCode e = Some 404 then 503 else 502)"

definition isNotFound :: "k8s_error \<Rightarrow> bool" where
  "isNotFound e \<longleftrightarrow> e_code e = Some (NumCode 404) \<or> e_statusCode e = Some (NumCode 404)"

text \<open>\<open>getCr\<close>: a 404 is an absent object, any other failure is thrown.\<close>

definition absent :: "k8s_error + 'a \<Rightarrow> k8s_error + 'a option" where
  "absent r =
     (case r of
        Inr x \<Rightarrow> Inr (Some x)
      | Inl e \<Rightarrow> if k8sErrorCode e = Some 404 then Inr None else Inl e)"

text \<open>\<open>replace(/~/g, "~0").replace(/\//g, "~1")\<close>.\<close>

definition json_pointer :: "string \<Rightarrow> string" where
  "json_pointer s =
     concat (map (\<lambda>c. if c = CHR ''/'' then ''~1'' else [c])
       (concat (map (\<lambda>c. if c = CHR ''~'' then ''~0'' else [c]) s)))"

text \<open>A stable sort, newest first: \<open>compare\<close> is \<open>localeCompare\<close> of the two stamps.\<close>

fun insert_by :: "('a \<Rightarrow> 'a \<Rightarrow> bool) \<Rightarrow> 'a \<Rightarrow> 'a list \<Rightarrow> 'a list" where
  "insert_by before x [] = [x]"
| "insert_by before x (y # ys) = (if before y x then y # insert_by before x ys else x # y # ys)"

definition sort_newest :: "(string \<Rightarrow> string \<Rightarrow> int) \<Rightarrow> ('a \<Rightarrow> string) \<Rightarrow> 'a list \<Rightarrow> 'a list" where
  "sort_newest compare stamp xs = foldr (insert_by (\<lambda>y x. compare (stamp x) (stamp y) < 0)) xs []"

text \<open>Assignment to a property: in place when it exists, at the end otherwise.\<close>

fun obj_set :: "(string \<times> 'v) list \<Rightarrow> string \<Rightarrow> 'v \<Rightarrow> (string \<times> 'v) list" where
  "obj_set [] k v = [(k, v)]"
| "obj_set ((k', v') # es) k v = (if k' = k then (k, v) # es else (k', v') # obj_set es k v)"

text \<open>How the API server reads a reference token of a pointer (RFC 6901).\<close>

fun pointer_unescape :: "string \<Rightarrow> string" where
  "pointer_unescape [] = []"
| "pointer_unescape [c] = [c]"
| "pointer_unescape (c # d # s) =
     (if c = CHR ''~'' \<and> d = CHR ''1'' then CHR ''/'' # pointer_unescape s
      else if c = CHR ''~'' \<and> d = CHR ''0'' then CHR ''~'' # pointer_unescape s
      else c # pointer_unescape (d # s))"

lemma json_pointer_Nil [simp]: "json_pointer [] = []"
  by (simp add: json_pointer_def)

lemma json_pointer_Cons [simp]:
  "json_pointer (c # s) =
     (if c = CHR ''~'' then ''~0'' else if c = CHR ''/'' then ''~1'' else [c]) @ json_pointer s"
  by (simp add: json_pointer_def)

lemma unescape_plain: "c \<noteq> CHR ''~'' \<Longrightarrow> pointer_unescape (c # s) = c # pointer_unescape s"
  by (cases s) simp_all

lemma pointer_unescape_escape [simp]: "pointer_unescape (json_pointer s) = s"
  by (induction s) (simp_all add: unescape_plain)

lemma json_pointer_no_slash: "CHR ''/'' \<notin> set (json_pointer s)"
  by (induction s) auto

lemma map_of_obj_set: "map_of (obj_set es k v) = (map_of es)(k \<mapsto> v)"
  by (induction es k v rule: obj_set.induct) auto

lemma absent_Some: "absent r = Inr (Some x) \<longleftrightarrow> r = Inr x"
  by (auto simp: absent_def split: sum.splits if_splits)

lemma set_insert_by: "set (insert_by b x ys) = insert x (set ys)"
  by (induction ys) auto

lemma set_sort_newest: "set (sort_newest compare stamp xs) = set xs"
  by (induction xs) (simp_all add: sort_newest_def set_insert_by)

section \<open>Newest first\<close>

text \<open>What a comparison of two texts is relied on to be: total, with its signs opposite for the swapped
  arguments, and transitive.\<close>

definition comparator :: "(string \<Rightarrow> string \<Rightarrow> int) \<Rightarrow> bool" where
  "comparator compare \<longleftrightarrow>
     (\<forall>a b. 0 \<le> compare a b \<longrightarrow> compare b a \<le> 0) \<and>
     (\<forall>a b c. compare a b \<le> 0 \<longrightarrow> compare b c \<le> 0 \<longrightarrow> compare a c \<le> 0)"

lemma mset_insert_by [simp]: "mset (insert_by b x ys) = add_mset x (mset ys)"
  by (induction ys) auto

lemma mset_sort_newest [simp]: "mset (sort_newest compare stamp xs) = mset xs"
  by (induction xs) (simp_all add: sort_newest_def)

lemma insert_by_sorted:
  assumes c: "comparator compare" and "sorted_wrt (\<lambda>x y. compare (stamp y) (stamp x) \<le> 0) ys"
  shows "sorted_wrt (\<lambda>x y. compare (stamp y) (stamp x) \<le> 0) (insert_by (\<lambda>y x. compare (stamp x) (stamp y) < 0) x ys)"
  using assms(2)
proof (induction ys)
  case (Cons y ys)
  show ?case
  proof (cases "compare (stamp x) (stamp y) < 0")
    case True
    with Cons show ?thesis by (auto simp: set_insert_by)
  next
    case False
    then have le: "compare (stamp y) (stamp x) \<le> 0" using c by (simp add: comparator_def)
    moreover have "compare (stamp z) (stamp x) \<le> 0" if "z \<in> set ys" for z
      using Cons.prems that le c unfolding comparator_def by (metis sorted_wrt.simps(2))
    ultimately show ?thesis using False Cons.prems by simp
  qed
qed simp

lemma sorted_sort_newest:
  "comparator compare \<Longrightarrow> sorted_wrt (\<lambda>x y. compare (stamp y) (stamp x) \<le> 0) (sort_newest compare stamp xs)"
  by (induction xs) (simp_all add: sort_newest_def insert_by_sorted)

end
