(* ===== verification/Cache.thy ===== *)
theory Cache
  imports Prelude
begin

text \<open>
  The contract of the program's memoized reads: the password file (\<open>lib/auth/htpasswd.ts\<close>), the gateway
  addresses and the model catalogues (\<open>lib/cubepilot/gateway.ts\<close>) keep an answer with the time it was
  read and use it until it is too old. The lemmas bound how old an answer can be; each read is an
  interpretation in its own theory.
\<close>

section \<open>Accesses\<close>

text \<open>The state after a sequence of accesses, each with its time and what the outside world would answer
  then.\<close>

fun run_accesses :: "('w \<Rightarrow> int \<Rightarrow> 's \<Rightarrow> 'v \<times> 's) \<Rightarrow> (int \<times> 'w) list \<Rightarrow> 's \<Rightarrow> 's" where
  "run_accesses access [] s = s"
| "run_accesses access ((now, w) # accs) s = run_accesses access accs (snd (access w now s))"

lemma run_accesses_snoc:
  "run_accesses access (accs @ [(now, w)]) s = snd (access w now (run_accesses access accs s))"
  by (induction access accs s rule: run_accesses.induct) simp_all

section \<open>Memoized reads\<close>

text \<open>\<open>entry\<close> is what the state remembers of the read in question and since when, \<open>lifetime\<close> how long an
  answer is used, \<open>fetch\<close> the answer of the outside world, and \<open>concerns\<close> tells the accesses to this
  read from those to others in the same state; \<open>good\<close> is the state's own invariant.\<close>

locale memoized =
  fixes access :: "'w \<Rightarrow> int \<Rightarrow> 's \<Rightarrow> 'v \<times> 's"
    and entry :: "'s \<Rightarrow> ('v \<times> int) option"
    and lifetime :: "'v \<Rightarrow> int"
    and fetch :: "'w \<Rightarrow> 'v"
    and concerns :: "'w \<Rightarrow> bool"
    and good :: "'s \<Rightarrow> bool"
  assumes good_access: "good s \<Longrightarrow> good (snd (access w now s))"
    and hit: "good s \<Longrightarrow> concerns w \<Longrightarrow> entry s = Some (v, t) \<Longrightarrow> now - t < lifetime v \<Longrightarrow> access w now s = (v, s)"
    and miss: "good s \<Longrightarrow> concerns w \<Longrightarrow> \<not> (\<exists>v t. entry s = Some (v, t) \<and> now - t < lifetime v) \<Longrightarrow>
      fst (access w now s) = fetch w \<and>
      entry (snd (access w now s)) \<in> {Some (fetch w, now), entry s}"
    and other: "\<not> concerns w \<Longrightarrow> entry (snd (access w now s)) = entry s"
begin

lemma good_run: "good s \<Longrightarrow> good (run_accesses access accs s)"
  by (induction accs rule: rev_induct) (auto simp: run_accesses_snoc good_access)

lemma entry_after:
  assumes "good s"
  shows "entry (snd (access w now s)) = entry s \<or> concerns w \<and> entry (snd (access w now s)) = Some (fetch w, now)"
proof (cases "concerns w \<and> \<not> (\<exists>v t. entry s = Some (v, t) \<and> now - t < lifetime v)")
  case True
  then show ?thesis using miss [OF assms, of w now] by blast
next
  case False
  then show ?thesis using hit [OF assms] other by (metis snd_conv)
qed

text \<open>What is remembered was answered at the time recorded with it.\<close>

lemma entry_history:
  assumes "good s0" and "entry s0 = None" and "entry (run_accesses access accs s0) = Some (v, t)"
  shows "\<exists>w. (t, w) \<in> set accs \<and> concerns w \<and> v = fetch w"
  using assms(3)
proof (induction accs rule: rev_induct)
  case Nil
  with assms(2) show ?case by simp
next
  case (snoc a accs)
  obtain now w where a: "a = (now, w)" by fastforce
  from entry_after [OF good_run [OF assms(1)], of w now accs] show ?case
  proof
    assume "entry (snd (access w now (run_accesses access accs s0))) = entry (run_accesses access accs s0)"
    with snoc show ?thesis by (auto simp: a run_accesses_snoc)
  next
    assume "concerns w \<and> entry (snd (access w now (run_accesses access accs s0))) = Some (fetch w, now)"
    with snoc.prems show ?thesis by (auto simp: a run_accesses_snoc)
  qed
qed

lemma answer_age:
  assumes "good s0" and "entry s0 = None" and "concerns w"
    and "fst (access w now (run_accesses access accs s0)) = v"
  shows "v = fetch w \<or> (\<exists>t w'. (t, w') \<in> set accs \<and> concerns w' \<and> v = fetch w' \<and> now - t < lifetime v)"
proof (cases "\<exists>u t. entry (run_accesses access accs s0) = Some (u, t) \<and> now - t < lifetime u")
  case True
  then obtain u t where u: "entry (run_accesses access accs s0) = Some (u, t)" "now - t < lifetime u" by blast
  with hit [OF good_run [OF assms(1)] assms(3) u] assms(4) entry_history [OF assms(1,2) u(1)] show ?thesis by auto
next
  case False
  then show ?thesis using miss [OF good_run [OF assms(1)] assms(3)] assms(4) by blast
qed

end

end
