(* ===== verification/Auth.thy ===== *)
theory Auth
  imports Json Cache "HOL-Library.Countable"
begin

text \<open>
  Sign-in and the guard of every API route (\<open>lib/auth\<close>, \<open>app/api/auth\<close>, \<open>proxy.ts\<close>,
  \<open>lib/base-path.ts\<close>): configuration from the environment, the htpasswd file and its cache, the
  signed session, cookies, and the handlers. Code that is not part of the portal is a parameter
  of the definitions: the token library (\<open>sign\<close> and \<open>verify\<close>), the password hash comparison, the
  URL constructor, the decoding of the Secret and the formatting of a date.
\<close>

section \<open>Configuration\<close>

type_synonym env = "string \<Rightarrow> string option"

definition htpasswdSecretName :: "env \<Rightarrow> string" where
  "htpasswdSecretName env = nullish (env ''HTPASSWD_SECRET_NAME'') ''cubestack-htpasswd''"

definition htpasswdSecretNamespace :: "env \<Rightarrow> string" where
  "htpasswdSecretNamespace env = nullish (env ''HTPASSWD_SECRET_NAMESPACE'') ''cubestack-system''"

definition htpasswdSecretKey :: "env \<Rightarrow> string" where
  "htpasswdSecretKey env = nullish (env ''HTPASSWD_SECRET_KEY'') ''htpasswd''"

definition sessionCookieName :: "env \<Rightarrow> string" where
  "sessionCookieName env = nullish (env ''SESSION_COOKIE_NAME'') ''cubestack-session''"

text \<open>\<open>to_number\<close> is \<open>Number\<close> on a text, \<^const>\<open>None\<close> when the result is not finite.\<close>

definition sessionTtlMs :: "(string \<Rightarrow> rat option) \<Rightarrow> env \<Rightarrow> rat" where
  "sessionTtlMs to_number env =
     (case (if truthy (env ''SESSION_TTL_MS'') then to_number (the (env ''SESSION_TTL_MS'')) else None) of
        Some parsed \<Rightarrow> if 0 < parsed then parsed else 24 * 60 * 60 * 1000
      | None \<Rightarrow> 24 * 60 * 60 * 1000)"

datatype secret_error = SecretRequired

text \<open>A key: the text of the environment, or the random key of the process.\<close>

datatype session_key = EnvKey string | EphemeralKey

definition sessionSecret :: "env \<Rightarrow> secret_error + session_key" where
  "sessionSecret env =
     (if truthy (env ''SESSION_SECRET'') then Inr (EnvKey (the (env ''SESSION_SECRET'')))
      else if env ''NODE_ENV'' = Some ''production'' then Inl SecretRequired
      else Inr EphemeralKey)"

definition secureCookieOverride :: "env \<Rightarrow> bool option" where
  "secureCookieOverride env =
     (if env ''SESSION_COOKIE_SECURE'' = Some ''true'' then Some True
      else if env ''SESSION_COOKIE_SECURE'' = Some ''false'' then Some False
      else None)"

section \<open>The htpasswd file\<close>

text \<open>\<open>content.split(/\r?\n/)\<close>.\<close>

abbreviation LF :: char where "LF \<equiv> CHR 0x0A"
abbreviation CR :: char where "CR \<equiv> CHR 0x0D"

fun split_lines :: "string \<Rightarrow> string list" where
  "split_lines [] = [[]]"
| "split_lines (c # cs) =
     (if c = LF then [] # split_lines cs
      else if c = CR \<and> cs \<noteq> [] \<and> hd cs = LF then [] # split_lines (tl cs)
      else case split_lines cs of [] \<Rightarrow> [[c]] | l # ls \<Rightarrow> (c # l) # ls)"

definition parse_entry :: "string \<Rightarrow> (string \<times> string) option" where
  "parse_entry line =
     (let trimmed = trim line
      in if trimmed = [] \<or> startsWith trimmed ''#'' then None
         else case find_index ((=) CHR '':'') trimmed of
             None \<Rightarrow> None
           | Some colon \<Rightarrow>
               (if colon = 0 then None
                else let user = trim (take colon trimmed); hash = trim (drop (colon + 1) trimmed)
                     in if user \<noteq> [] \<and> hash \<noteq> [] then Some (user, hash) else None))"

definition set_entry :: "(string \<rightharpoonup> string) \<Rightarrow> string \<Rightarrow> (string \<rightharpoonup> string)" where
  "set_entry m line = (case parse_entry line of None \<Rightarrow> m | Some (user, hash) \<Rightarrow> m(user \<mapsto> hash))"

definition parseHtpasswd :: "string \<Rightarrow> (string \<rightharpoonup> string)" where
  "parseHtpasswd content = foldl set_entry Map.empty (split_lines content)"

text \<open>The cached snapshot of the Secret. \<open>read\<close> answers the Secret's data (or fails), and \<open>decode\<close> is
  the base64 reading of a data value.\<close>

record loaded_htpasswd =
  entries :: "string \<rightharpoonup> string"
  loadedAt :: int

datatype load_error = Unreadable | MissingKey

definition TTL_MS :: int where "TTL_MS = 30000"

definition read_htpasswd ::
    "(unit + (string \<rightharpoonup> string) option) \<Rightarrow> (string \<Rightarrow> string) \<Rightarrow> env \<Rightarrow> int \<Rightarrow> load_error + loaded_htpasswd" where
  "read_htpasswd secret decode env now =
     (case secret of
        Inl _ \<Rightarrow> Inl Unreadable
      | Inr data \<Rightarrow>
          (case (case data of None \<Rightarrow> None | Some d \<Rightarrow> d (htpasswdSecretKey env)) of
             None \<Rightarrow> Inl MissingKey
           | Some raw \<Rightarrow>
               (if trim raw = [] then Inl MissingKey
                else Inr \<lparr>entries = parseHtpasswd (decode raw), loadedAt = now\<rparr>)))"

definition loadHtpasswd ::
    "(unit + (string \<rightharpoonup> string) option) \<Rightarrow> (string \<Rightarrow> string) \<Rightarrow> env \<Rightarrow> int \<Rightarrow> loaded_htpasswd option \<Rightarrow>
     (load_error + loaded_htpasswd) \<times> loaded_htpasswd option" where
  "loadHtpasswd secret decode env now cache =
     (if cache \<noteq> None \<and> now - loadedAt (the cache) < TTL_MS then (Inr (the cache), cache)
      else case read_htpasswd secret decode env now of
          Inl e \<Rightarrow> (Inl e, cache)
        | Inr c \<Rightarrow> (Inr c, Some c))"

text \<open>\<open>compare_hash\<close> is the comparison of the hash library, \<^const>\<open>None\<close> when it throws.\<close>

definition verifyCredentials ::
    "(string \<Rightarrow> string \<Rightarrow> bool option) \<Rightarrow> (unit + (string \<rightharpoonup> string) option) \<Rightarrow> (string \<Rightarrow> string) \<Rightarrow> env \<Rightarrow>
     int \<Rightarrow> loaded_htpasswd option \<Rightarrow> string \<Rightarrow> string \<Rightarrow>
     (load_error + string option) \<times> loaded_htpasswd option" where
  "verifyCredentials compare_hash secret decode env now cache username password =
     (let user = trim username
      in if user = [] \<or> length password = 0 then (Inr None, cache)
         else case loadHtpasswd secret decode env now cache of
             (Inl e, c) \<Rightarrow> (Inl e, c)
           | (Inr h, c) \<Rightarrow>
               (case entries h user of
                  None \<Rightarrow> (Inr None, c)
                | Some hash \<Rightarrow>
                    (Inr (if compare_hash password hash = Some True then Some user else None), c)))"

section \<open>Sessions\<close>

text \<open>The payload of a token as the library reads it: a field is \<^const>\<open>None\<close> when it is absent or not
  of its type. Times are in seconds.\<close>

record payload =
  sub :: "string option"
  iat :: "rat option"
  expires :: "rat option"

record session_claims =
  s_user :: string
  s_iat :: rat
  s_exp :: rat

type_synonym ('k, 't) signer = "'k \<Rightarrow> payload \<Rightarrow> 't"
type_synonym ('k, 't) verifier = "'k \<Rightarrow> 't \<Rightarrow> int \<Rightarrow> payload option"

definition verifySession ::
    "(session_key, 't) verifier \<Rightarrow> env \<Rightarrow> int \<Rightarrow> 't \<Rightarrow> secret_error + session_claims option" where
  "verifySession verify env now token =
     (case sessionSecret env of
        Inl e \<Rightarrow> Inl e
      | Inr key \<Rightarrow>
          Inr (case verify key token now of
             None \<Rightarrow> None
           | Some p \<Rightarrow>
               (case (sub p, iat p, expires p) of
                  (Some u, Some i, Some e) \<Rightarrow>
                    if u = [] then None else Some \<lparr>s_user = u, s_iat = i * 1000, s_exp = e * 1000\<rparr>
                | _ \<Rightarrow> None)))"

definition signSession ::
    "(session_key, 't) signer \<Rightarrow> (string \<Rightarrow> rat option) \<Rightarrow> env \<Rightarrow> int \<Rightarrow> string \<Rightarrow> secret_error + 't" where
  "signSession sign to_number env now user =
     (case sessionSecret env of
        Inl e \<Rightarrow> Inl e
      | Inr key \<Rightarrow>
          Inr (sign key \<lparr>sub = Some user, iat = Some (of_int now / 1000),
             expires = Some ((of_int now + sessionTtlMs to_number env) / 1000)\<rparr>))"

subsection \<open>Cookies\<close>

record request =
  r_method :: string
  r_pathname :: string
  r_search :: string
  r_protocol :: string
  r_url :: string
  r_headers :: "string \<rightharpoonup> string"
  r_cookies :: "string \<rightharpoonup> string"

definition secureCookieForRequest :: "env \<Rightarrow> request \<Rightarrow> bool" where
  "secureCookieForRequest env req =
     (case secureCookieOverride env of
        Some b \<Rightarrow> b
      | None \<Rightarrow>
          (if truthy (r_headers req ''x-forwarded-proto'')
           then trim (hd (split_char CHR '','' (the (r_headers req ''x-forwarded-proto'')))) = ''https''
           else r_protocol req = ''https:''))"

text \<open>\<open>utc_string\<close> is \<open>new Date(ms).toUTCString()\<close>.\<close>

definition sessionCookieHeader ::
    "(int \<Rightarrow> string) \<Rightarrow> env \<Rightarrow> int \<Rightarrow> string \<Rightarrow> nat \<Rightarrow> bool \<Rightarrow> string" where
  "sessionCookieHeader utc_string env now token maxAgeSeconds secure =
     join ''; ''
       ([sessionCookieName env @ ''='' @ token, ''Path=/'', ''SameSite=Lax'', ''HttpOnly''] @
        (if secure then [''Secure''] else []) @
        [''Max-Age='' @ nat_to_string maxAgeSeconds,
         ''Expires='' @ utc_string (now + int maxAgeSeconds * 1000)])"

definition clearSessionCookieHeader :: "env \<Rightarrow> bool \<Rightarrow> string" where
  "clearSessionCookieHeader env secure =
     join ''; ''
       ([sessionCookieName env @ ''='', ''Path=/'', ''SameSite=Lax'', ''HttpOnly'', ''Max-Age=0'',
         ''Expires=Thu, 01 Jan 1970 00:00:00 GMT''] @ (if secure then [''Secure''] else []))"

section \<open>Handlers\<close>

text \<open>A response: its status, its body (of the route's own type) and the cookie it sets. A handler
  that throws has the status \<open>Thrown\<close>.\<close>

datatype status = Status nat | Thrown

record 'b response =
  res_status :: status
  res_body :: 'b
  res_cookie :: "string option"

definition answer :: "nat \<Rightarrow> 'b \<Rightarrow> 'b response" where
  "answer code b = \<lparr>res_status = Status code, res_body = b, res_cookie = None\<rparr>"

text \<open>The guard: what it answers to a request without a session is \<open>unauthorized\<close>; the handler's
  effects are the list it returns, and there are none when it does not run.\<close>

definition withAuth ::
    "(session_key, string) verifier \<Rightarrow> env \<Rightarrow> int \<Rightarrow> 'b \<Rightarrow>
     (request \<Rightarrow> session_claims \<Rightarrow> 'b response \<times> 'c list) \<Rightarrow> request \<Rightarrow> 'b response \<times> 'c list" where
  "withAuth verify env now unauthorized handler req =
     (case (case r_cookies req (sessionCookieName env) of
              None \<Rightarrow> Inr None
            | Some token \<Rightarrow> if token = [] then Inr None else verifySession verify env now token) of
        Inl e \<Rightarrow> (\<lparr>res_status = Thrown, res_body = unauthorized, res_cookie = None\<rparr>, [])
      | Inr None \<Rightarrow> (answer 401 unauthorized, [])
      | Inr (Some session) \<Rightarrow> handler req session)"

datatype auth_body = InvalidRequest | NotConfigured | WrongCredentials | LoggedIn string | Forbidden | LoggedOut

text \<open>The login route. The body is the JSON the request carries, \<^const>\<open>None\<close> when it does not parse.\<close>

definition login_fields :: "json option \<Rightarrow> (string \<times> string) option" where
  "login_fields body =
     (case body of
        Some (JObj es) \<Rightarrow>
          (case (map_of es ''username'', map_of es ''password'') of
             (Some (JStr u), Some (JStr p)) \<Rightarrow> Some (u, p)
           | _ \<Rightarrow> None)
      | _ \<Rightarrow> None)"

definition login ::
    "(string \<Rightarrow> string \<Rightarrow> bool option) \<Rightarrow> (unit + (string \<rightharpoonup> string) option) \<Rightarrow> (string \<Rightarrow> string) \<Rightarrow>
     (session_key, string) signer \<Rightarrow> (string \<Rightarrow> rat option) \<Rightarrow> (int \<Rightarrow> string) \<Rightarrow> env \<Rightarrow> int \<Rightarrow>
     loaded_htpasswd option \<Rightarrow> request \<Rightarrow> json option \<Rightarrow>
     auth_body response \<times> loaded_htpasswd option" where
  "login compare_hash secret decode sign to_number utc_string env now cache req body =
     (if body = Some JNull
      then (\<lparr>res_status = Thrown, res_body = InvalidRequest, res_cookie = None\<rparr>, cache)
      else case login_fields body of
        None \<Rightarrow> (answer 400 InvalidRequest, cache)
      | Some (username, password) \<Rightarrow>
          (case verifyCredentials compare_hash secret decode env now cache username password of
             (Inl e, c) \<Rightarrow> (answer 500 NotConfigured, c)
           | (Inr None, c) \<Rightarrow> (answer 401 WrongCredentials, c)
           | (Inr (Some user), c) \<Rightarrow>
               (case signSession sign to_number env now user of
                  Inl e \<Rightarrow> (\<lparr>res_status = Thrown, res_body = NotConfigured, res_cookie = None\<rparr>, c)
                | Inr token \<Rightarrow>
                    ((answer 200 (LoggedIn user))\<lparr>res_cookie :=
                       Some (sessionCookieHeader utc_string env now token
                         (nat \<lfloor>sessionTtlMs to_number env / 1000\<rfloor>) (secureCookieForRequest env req))\<rparr>, c))))"

text \<open>\<open>origin_of\<close> is \<open>new URL(s).origin\<close>, \<^const>\<open>None\<close> when the constructor throws.\<close>

definition isSameOrigin :: "(string \<Rightarrow> string option) \<Rightarrow> request \<Rightarrow> bool" where
  "isSameOrigin origin_of req =
     (case (case r_headers req ''origin'' of Some v \<Rightarrow> Some v | None \<Rightarrow> r_headers req ''referer'') of
        None \<Rightarrow> True
      | Some candidate \<Rightarrow>
          (if candidate = [] then True
           else case (origin_of candidate, origin_of (r_url req)) of
               (Some a, Some b) \<Rightarrow> a = b
             | _ \<Rightarrow> False))"

definition logout :: "(string \<Rightarrow> string option) \<Rightarrow> env \<Rightarrow> request \<Rightarrow> auth_body response" where
  "logout origin_of env req =
     (if \<not> isSameOrigin origin_of req then answer 403 Forbidden
      else (answer 200 LoggedOut)\<lparr>res_cookie :=
        Some (clearSessionCookieHeader env (secureCookieForRequest env req))\<rparr>)"

definition me :: "request \<Rightarrow> session_claims \<Rightarrow> auth_body response \<times> unit list" where
  "me req session = (answer 200 (LoggedIn (s_user session)), [])"

text \<open>The page proxy: pass, or redirect to the login page with the requested path.\<close>

datatype proxy_result = Pass | RedirectLogin string | ProxyThrown

definition proxy :: "(session_key, string) verifier \<Rightarrow> env \<Rightarrow> int \<Rightarrow> request \<Rightarrow> proxy_result" where
  "proxy verify env now req =
     (if r_pathname req = ''/login'' then Pass
      else case (case r_cookies req (sessionCookieName env) of
              None \<Rightarrow> Inr None
            | Some token \<Rightarrow> if token = [] then Inr None else verifySession verify env now token) of
          Inl e \<Rightarrow> ProxyThrown
        | Inr (Some session) \<Rightarrow> Pass
        | Inr None \<Rightarrow> RedirectLogin (r_pathname req @ r_search req))"

section \<open>Base path\<close>

definition BASE_PATH :: string where "BASE_PATH = ''/cubestack''"

definition withBasePath :: "string \<Rightarrow> string" where
  "withBasePath path =
     (if path = BASE_PATH \<or> startsWith path (BASE_PATH @ ''/'') then path
      else if path = ''/'' then BASE_PATH
      else BASE_PATH @ path)"

section \<open>Sign-in and the guard\<close>

text \<open>What the portal relies on of the token library: a token verifies exactly under the key that
  signed it, gives back the payload it was signed with, and only before the payload's expiry,
  which is compared in whole seconds.\<close>

definition unexpired :: "payload \<Rightarrow> int \<Rightarrow> bool" where
  "unexpired p now = (case expires p of None \<Rightarrow> True | Some e \<Rightarrow> of_int (now div 1000) < e)"

definition token_library :: "(session_key, string) signer \<Rightarrow> (session_key, string) verifier \<Rightarrow> bool" where
  "token_library sign verify \<longleftrightarrow>
     (\<forall>k p now. verify k (sign k p) now = (if unexpired p now then Some p else None)) \<and>
     (\<forall>k t now p. verify k t now = Some p \<longrightarrow> t = sign k p) \<and> (\<forall>k p. sign k p \<noteq> [])"

lemma token_libraryD:
  assumes "token_library sign verify"
  shows "verify k (sign k p) now = (if unexpired p now then Some p else None)"
    and "verify k t now = Some p \<Longrightarrow> t = sign k p \<and> unexpired p now" and "sign k p \<noteq> []"
proof -
  show a: "verify k (sign k p) now = (if unexpired p now then Some p else None)"
    using assms unfolding token_library_def by blast
  show "verify k t now = Some p \<Longrightarrow> t = sign k p \<and> unexpired p now"
    using assms a unfolding token_library_def by (metis option.distinct(1))
  show "sign k p \<noteq> []" using assms unfolding token_library_def by blast
qed

definition claims_of :: "string \<Rightarrow> int \<Rightarrow> rat \<Rightarrow> session_claims" where
  "claims_of user issued ttl = \<lparr>s_user = user, s_iat = of_int issued, s_exp = of_int issued + ttl\<rparr>"

lemma verifySession_signed:
  assumes "token_library sign verify" and "signSession sign to_number env now user = Inr token" and "user \<noteq> []"
  shows "verifySession verify env later token =
    Inr (if of_int (later div 1000) < (of_int now + sessionTtlMs to_number env) / 1000
         then Some (claims_of user now (sessionTtlMs to_number env)) else None)"
proof -
  define ttl where "ttl = sessionTtlMs to_number env"
  define p where "p = \<lparr>sub = Some user, iat = Some (of_int now / 1000), expires = Some ((of_int now + ttl) / 1000)\<rparr>"
  from assms(2) obtain key where key: "sessionSecret env = Inr key" "token = sign key p"
    unfolding p_def ttl_def by (cases "sessionSecret env") (simp_all add: signSession_def)
  have v: "verify key token later = (if unexpired p later then Some p else None)"
    unfolding key(2) by (rule token_libraryD(1) [OF assms(1)])
  have u: "unexpired p later \<longleftrightarrow> of_int (later div 1000) < (of_int now + ttl) / 1000"
    by (simp add: p_def unexpired_def)
  have claims: "claims_of user now ttl = \<lparr>s_user = user, s_iat = of_int now / 1000 * 1000, s_exp = (of_int now + ttl) / 1000 * 1000\<rparr>"
    by (simp add: claims_of_def)
  show ?thesis
    unfolding ttl_def [symmetric] u [symmetric] claims
    using assms(3) by (simp add: verifySession_def key(1) v) (simp add: p_def)
qed

lemma verifyCredentials_SomeD:
  assumes "verifyCredentials compare_hash secret decode env now cache username password = (Inr (Some user), c)"
  obtains h hash where "user = trim username" "user \<noteq> []" "password \<noteq> []"
    "loadHtpasswd secret decode env now cache = (Inr h, c)" "entries h user = Some hash"
    "compare_hash password hash = Some True"
proof -
  let ?u = "trim username"
  have ne: "?u \<noteq> []" "password \<noteq> []" using assms by (auto simp: verifyCredentials_def Let_def split: if_splits)
  obtain l c' where l: "loadHtpasswd secret decode env now cache = (l, c')" by fastforce
  with assms ne obtain h where h: "l = Inr h" by (cases l) (simp_all add: verifyCredentials_def)
  with assms ne l obtain hash where hash: "entries h ?u = Some hash"
    by (cases "entries h ?u") (simp_all add: verifyCredentials_def)
  with assms ne l h have "user = ?u" "compare_hash password hash = Some True" "c' = c"
    by (auto simp: verifyCredentials_def split: if_splits)
  with ne l h hash show thesis by (intro that) auto
qed

lemma login_cookieD:
  assumes "login compare_hash secret decode sign to_number utc_string env now cache req body = (res, c)"
    and "res_cookie res \<noteq> None"
  obtains username password user token where "login_fields body = Some (username, password)"
    "verifyCredentials compare_hash secret decode env now cache username password = (Inr (Some user), c)"
    "signSession sign to_number env now user = Inr token"
    "res_status res = Status 200" "res_body res = LoggedIn user"
proof -
  have null: "body \<noteq> Some JNull" using assms by (auto simp: login_def)
  from assms null obtain username password where f: "login_fields body = Some (username, password)"
    by (cases "login_fields body") (auto simp: login_def answer_def)
  obtain v c' where v: "verifyCredentials compare_hash secret decode env now cache username password = (v, c')"
    by fastforce
  with assms null f obtain user where u: "v = Inr (Some user)"
    by (cases v; cases "projr v") (auto simp: login_def answer_def)
  with assms null f v obtain token where t: "signSession sign to_number env now user = Inr token"
    by (cases "signSession sign to_number env now user") (auto simp: login_def)
  with assms null f v u have "c' = c" "res_status res = Status 200" "res_body res = LoggedIn user"
    by (auto simp: login_def answer_def)
  with f v u t show thesis by (intro that) auto
qed


subsection \<open>A library that satisfies the contract\<close>

text \<open>Tokens as numbers that code the key and the payload.\<close>

definition key_text :: "session_key \<Rightarrow> string option" where
  "key_text k = (case k of EnvKey s \<Rightarrow> Some s | EphemeralKey \<Rightarrow> None)"

definition sample_sign :: "(session_key, string) signer" where
  "sample_sign k p = nat_to_string (to_nat (key_text k, sub p, iat p, expires p))"

definition sample_verify :: "(session_key, string) verifier" where
  "sample_verify k t now =
     (case from_nat (string_to_nat t) of (_ :: string option, s, i, e) \<Rightarrow>
        let p = \<lparr>sub = s, iat = i, expires = e\<rparr>
        in if sample_sign k p = t \<and> unexpired p now then Some p else None)"

lemma sample_token_library: "token_library sample_sign sample_verify"
  unfolding token_library_def
proof (intro conjI allI impI)
  fix k p now
  show "sample_verify k (sample_sign k p) now = (if unexpired p now then Some p else None)"
    by (cases p) (simp add: sample_verify_def sample_sign_def string_to_nat_nat_to_string Let_def)
next
  fix k t now p
  assume "sample_verify k t now = Some p"
  then show "t = sample_sign k p"
    by (auto simp: sample_verify_def Let_def split: prod.splits if_splits)
qed (simp add: sample_sign_def)

definition sample_request :: "(string \<rightharpoonup> string) \<Rightarrow> request" where
  "sample_request cookies =
     \<lparr>r_method = ''GET'', r_pathname = ''/'', r_search = [], r_protocol = ''https:'', r_url = [],
      r_headers = Map.empty, r_cookies = cookies\<rparr>"

definition sample_body :: json where
  "sample_body = JObj [(''username'', JStr '' ann''), (''password'', JStr ''pw'')]"

definition sample_login :: "auth_body response \<times> loaded_htpasswd option" where
  "sample_login = login (\<lambda>p h. Some (p = h)) (Inr (Some [''htpasswd'' \<mapsto> ''ann:pw''])) (\<lambda>s. s) sample_sign
     (\<lambda>_. None) (\<lambda>_. []) (\<lambda>_. None) 0 None (sample_request Map.empty) (Some sample_body)"

lemma sample_login_cookie: "res_cookie (fst sample_login) \<noteq> None"
proof -
  have f: "login_fields (Some sample_body) = Some ('' ann'', ''pw'')" by code_simp
  have u: "trim '' ann'' = ''ann''" "trim ''ann:pw'' \<noteq> []" by code_simp+
  have h: "parseHtpasswd ''ann:pw'' ''ann'' = Some ''pw''" by code_simp
  have k: "htpasswdSecretKey (\<lambda>_. None) = ''htpasswd''" by (simp add: htpasswdSecretKey_def)
  have "verifyCredentials (\<lambda>p h. Some (p = h)) (Inr (Some [''htpasswd'' \<mapsto> ''ann:pw''])) (\<lambda>s. s) (\<lambda>_. None) 0 None
      '' ann'' ''pw'' = (Inr (Some ''ann''), Some \<lparr>entries = parseHtpasswd ''ann:pw'', loadedAt = 0\<rparr>)"
    by (simp add: verifyCredentials_def loadHtpasswd_def read_htpasswd_def u k h)
  then show ?thesis
    by (simp add: sample_login_def login_def f signSession_def sessionSecret_def answer_def) (simp add: sample_body_def)
qed




section \<open>The password file round trip\<close>

text \<open>A line of the file for an entry, and what makes an entry writable: no part is empty, begins or
  ends with white space or holds a line break, and the user holds no colon and begins with no
  comment sign.\<close>

definition entry_line :: "string \<times> string \<Rightarrow> string" where
  "entry_line e = fst e @ '':'' @ snd e"

definition entry_ok :: "string \<times> string \<Rightarrow> bool" where
  "entry_ok e \<longleftrightarrow> fst e \<noteq> [] \<and> snd e \<noteq> [] \<and> trim (fst e) = fst e \<and> trim (snd e) = snd e \<and>
     CHR '':'' \<notin> set (fst e) \<and> hd (fst e) \<noteq> CHR ''#'' \<and> LF \<notin> set (fst e @ snd e)"

lemma split_lines_line: "LF \<notin> set l \<Longrightarrow> CR \<notin> set (take 1 (rev l)) \<Longrightarrow> split_lines (l @ LF # r) = l # split_lines r"
proof (induction l)
  case (Cons c l)
  then have "CR \<notin> set (take 1 (rev l)) \<or> l = []" by (cases l rule: rev_cases) auto
  moreover have "l = [] \<Longrightarrow> c \<noteq> CR" using Cons.prems(2) by auto
  moreover have "hd (l @ LF # r) = LF \<Longrightarrow> l = []" using Cons.prems(1) by (cases l) auto
  ultimately show ?case using Cons by (cases "l = []") auto
qed simp

lemma split_lines_last: "LF \<notin> set l \<Longrightarrow> split_lines l = [l]"
proof (induction l)
  case (Cons c l)
  then have "l \<noteq> [] \<Longrightarrow> hd l \<noteq> LF" by (cases l) auto
  with Cons show ?case by auto
qed simp

lemma entry_line_shape:
  assumes "entry_ok e"
  shows "LF \<notin> set (entry_line e)" and "CR \<notin> set (take 1 (rev (entry_line e)))"
    and "parse_entry (entry_line e) = Some e"
proof -
  obtain u h where e: "e = (u, h)" by fastforce
  from assms have ok: "u \<noteq> []" "h \<noteq> []" "trim u = u" "trim h = h" "CHR '':'' \<notin> set u" "hd u \<noteq> CHR ''#''"
    "LF \<notin> set u" "LF \<notin> set h" by (auto simp: entry_ok_def e)
  have u: "\<not> js_space (hd u)" and h: "\<not> js_space (last h)" using trim_ends [of u] trim_ends [of h] ok by auto
  show "LF \<notin> set (entry_line e)" using ok by (auto simp: entry_line_def e)
  have "last h \<noteq> CR" using h by (auto simp: js_space_def)
  then show "CR \<notin> set (take 1 (rev (entry_line e)))"
    using ok(2) by (cases h rule: rev_cases) (auto simp: entry_line_def e)
  have t: "trim (entry_line e) = u @ CHR '':'' # h" using u h ok by (auto simp: entry_line_def e intro!: trim_id)
  have "find_index ((=) CHR '':'') (u @ CHR '':'' # h) = Some (length u)"
    using ok(5) by (induction u) auto
  moreover have "\<not> prefix ''#'' (u @ CHR '':'' # h)" using ok(1,6) by (cases u) auto
  ultimately show "parse_entry (entry_line e) = Some e"
    unfolding parse_entry_def t Let_def using ok by (simp add: e)
qed

lemma split_lines_entries:
  "es \<noteq> [] \<Longrightarrow> \<forall>e\<in>set es. entry_ok e \<Longrightarrow> split_lines (join [LF] (map entry_line es)) = map entry_line es"
proof (induction es)
  case (Cons e es)
  from Cons.prems have e: "entry_ok e" by simp
  note line = split_lines_line [OF entry_line_shape(1,2) [OF e]]
  from Cons e show ?case
    by (cases "es = []") (simp_all add: join_Cons split_lines_last line entry_line_shape)
qed simp

lemma foldl_set_entry:
  "\<forall>e\<in>set es. entry_ok e \<Longrightarrow> foldl set_entry m (map entry_line es) = m ++ map_of (rev es)"
proof (induction es arbitrary: m)
  case (Cons e es)
  then show ?case by (cases e) (simp add: set_entry_def entry_line_shape)
qed simp

text \<open>Reading a written password file gives back its entries: for any list of writable entries,
  parsing their lines yields exactly the mapping of users to hashes, the last line of a user
  winning.\<close>

theorem parseHtpasswd_roundtrip:
  assumes "\<forall>e\<in>set es. entry_ok e"
  shows "parseHtpasswd (join [LF] (map entry_line es)) = map_of (rev es)"
proof (cases "es = []")
  case True
  then show ?thesis by (simp add: parseHtpasswd_def set_entry_def parse_entry_def)
next
  case False
  with assms show ?thesis by (simp add: parseHtpasswd_def split_lines_entries foldl_set_entry)
qed

theorem parseHtpasswd_roundtrip_witness:
  "parseHtpasswd (join [LF] (map entry_line [(''ann'', ''h1''), (''bob'', ''h2''), (''ann'', ''h3'')])) ''ann'' = Some ''h3''"
proof -
  have "list_all entry_ok [(''ann'', ''h1''), (''bob'', ''h2''), (''ann'', ''h3'')]" by code_simp
  then have "\<forall>e\<in>set [(''ann'', ''h1''), (''bob'', ''h2''), (''ann'', ''h3'')]. entry_ok e"
    by (simp only: list_all_iff)
  from parseHtpasswd_roundtrip [OF this] show ?thesis by simp
qed

section \<open>Freshness of the password file\<close>

text \<open>An access to the password file as its entries, and the entries a read of the Secret gives.\<close>

definition password_access ::
    "(string \<Rightarrow> string) \<Rightarrow> env \<Rightarrow> (unit + (string \<rightharpoonup> string) option) \<Rightarrow> int \<Rightarrow> loaded_htpasswd option \<Rightarrow>
     (load_error + (string \<rightharpoonup> string)) \<times> loaded_htpasswd option" where
  "password_access decode env secret now cache =
     (map_sum (\<lambda>e. e) entries (fst (loadHtpasswd secret decode env now cache)),
      snd (loadHtpasswd secret decode env now cache))"

definition password_read ::
    "(string \<Rightarrow> string) \<Rightarrow> env \<Rightarrow> (unit + (string \<rightharpoonup> string) option) \<Rightarrow> load_error + (string \<rightharpoonup> string)" where
  "password_read decode env secret = map_sum (\<lambda>e. e) entries (read_htpasswd secret decode env 0)"

lemma read_entries:
  "map_sum (\<lambda>e. e) entries (read_htpasswd secret decode env now) = password_read decode env secret"
  by (auto simp: password_read_def read_htpasswd_def split: sum.split option.split)

lemma read_loadedAt: "read_htpasswd secret decode env now = Inr h \<Longrightarrow> loadedAt h = now"
  by (auto simp: read_htpasswd_def split: sum.splits option.splits if_splits)

interpretation passwords: memoized "password_access decode env"
  "\<lambda>cache. map_option (\<lambda>c. (Inr (entries c), loadedAt c)) cache" "\<lambda>_. TTL_MS" "password_read decode env" "\<lambda>_. True" "\<lambda>_. True"
  for decode env
proof (unfold_locales, goal_cases)
  case (2 s w v t now)
  then show ?case by (auto simp: password_access_def loadHtpasswd_def)
next
  case (3 s w now)
  then have load: "loadHtpasswd w decode env now s =
      (case read_htpasswd w decode env now of Inl e \<Rightarrow> (Inl e, s) | Inr c \<Rightarrow> (Inr c, Some c))"
    by (cases s) (auto simp: loadHtpasswd_def)
  show ?case
  proof (cases "read_htpasswd w decode env now")
    case (Inl e)
    then show ?thesis using read_entries [of w decode env now] by (simp add: password_access_def load)
  next
    case (Inr c)
    then show ?thesis using read_entries [of w decode env now] read_loadedAt [OF Inr]
      by (simp add: password_access_def load)
  qed
qed simp_all

text \<open>C16. A change of the password file takes effect within thirty seconds: whoever is accepted, after
  whatever accesses before, has an entry whose hash the password matches in the file as it is now or as
  it was read less than thirty seconds ago.\<close>

theorem passwords_fresh:
  assumes "verifyCredentials compare_hash secret decode env now
      (run_accesses (password_access decode env) accs None) username password = (Inr (Some user), c)"
  shows "\<exists>t secret' file hash. ((t, secret') = (now, secret) \<or> (t, secret') \<in> set accs \<and> now - t < 30000) \<and>
    password_read decode env secret' = Inr file \<and> file user = Some hash \<and> compare_hash password hash = Some True"
proof -
  let ?cache = "run_accesses (password_access decode env) accs None"
  obtain h hash where h: "fst (loadHtpasswd secret decode env now ?cache) = Inr h" "entries h user = Some hash"
      "compare_hash password hash = Some True"
    using assms by (auto simp: verifyCredentials_def Let_def split: if_splits prod.splits sum.splits option.splits)
  then have "fst (password_access decode env secret now ?cache) = Inr (entries h)"
    by (simp add: password_access_def)
  from passwords.answer_age [OF _ _ _ this] have
    "Inr (entries h) = password_read decode env secret \<or>
     (\<exists>t secret'. (t, secret') \<in> set accs \<and> Inr (entries h) = password_read decode env secret' \<and> now - t < TTL_MS)"
    by simp
  with h show ?thesis unfolding TTL_MS_def by metis
qed

text \<open>Twenty seconds after the file was read, an entry that has been removed since is still accepted.\<close>

theorem passwords_fresh_witness:
  "\<exists>t secret' file hash.
    ((t, secret') = (20000 :: int, Inr (Some Map.empty)) \<or>
     (t, secret') \<in> set [(0, Inr (Some [''htpasswd'' \<mapsto> ''ann:x'']))] \<and> 20000 - t < 30000) \<and>
    password_read (\<lambda>s. s) (\<lambda>_. None) secret' = Inr file \<and> file ''ann'' = Some hash \<and>
    hash = ''x''"
proof -
  let ?read = "\<lparr>entries = parseHtpasswd ''ann:x'', loadedAt = 0\<rparr>"
  have key: "htpasswdSecretKey (\<lambda>_. None) = ''htpasswd''" by (simp add: htpasswdSecretKey_def)
  have "trim ''ann:x'' \<noteq> []" by code_simp
  then have "read_htpasswd (Inr (Some [''htpasswd'' \<mapsto> ''ann:x''])) (\<lambda>s. s) (\<lambda>_. None) 0 = Inr ?read"
    by (simp add: read_htpasswd_def key)
  then have run: "run_accesses (password_access (\<lambda>s. s) (\<lambda>_. None)) [(0, Inr (Some [''htpasswd'' \<mapsto> ''ann:x'']))] None = Some ?read"
    by (simp add: password_access_def loadHtpasswd_def)
  have "trim ''ann'' = ''ann''" "parseHtpasswd ''ann:x'' ''ann'' = Some ''x''" by code_simp+
  then have "verifyCredentials (\<lambda>p h. Some (p = h)) (Inr (Some Map.empty)) (\<lambda>s. s) (\<lambda>_. None) 20000
      (run_accesses (password_access (\<lambda>s. s) (\<lambda>_. None)) [(0, Inr (Some [''htpasswd'' \<mapsto> ''ann:x'']))] None) ''ann'' ''x'' =
    (Inr (Some ''ann''), Some ?read)"
    unfolding run by (simp add: verifyCredentials_def loadHtpasswd_def TTL_MS_def)
  from passwords_fresh [OF this] show ?thesis by (simp only: option.inject simp_thms) (simp add: eq_commute)
qed

end
