(* ===== verification/Task_Crd.thy ===== *)
theory Task_Crd
  imports Cluster Auth Cron Llm
begin

text \<open>
  Automation tasks (\<open>lib/cubepilot/taskcrd.ts\<close> and the routes under \<open>app/api/cubepilot/tasks\<close> and
  \<open>tasktemplates\<close>): the custom resources, their projection, the parameters and instruction of a
  template, and the handlers. The Kubernetes API is a record of answer functions, a parameter of
  every handler; a handler returns its response together with the calls it made, so what it may
  change is visible in the list of its calls.

  Objects of the source (annotations, parameters) are association lists in property order; their
  keys are neither array indices nor \<open>__proto__\<close>, for which JavaScript orders or sets otherwise,
  and the parameters a template declares are not named like an inherited property.
\<close>

section \<open>Resources\<close>

record task_cr =
  t_name :: "string option"
  t_created :: "string option"
  t_annotations :: "(string \<times> string) list option"
  t_templateRef :: "string option"
  t_instruction :: "string option"
  t_params :: "(string \<times> string) list option"
  t_owner :: "string option"
  t_trigger :: "string option"
  t_cron :: "string option"
  t_state :: "string option"
  t_lastRunTime :: "string option"
  t_lastStatus :: "string option"
  t_nextRunTime :: "string option"

record task_run_cr =
  tr_name :: "string option"
  tr_created :: "string option"
  tr_creatorTask :: "string option"
  tr_taskName :: "string option"
  tr_trigger :: "string option"
  tr_phase :: "string option"
  tr_content :: "string option"
  tr_startedAt :: "string option"
  tr_finishedAt :: "string option"

record task_param =
  tp_name :: string
  tp_type :: "string option"
  tp_default :: "string option"
  tp_enum :: "string list option"

record template_cr =
  tt_name :: "string option"
  tt_displayName :: "string option"
  tt_description :: "string option"
  tt_instruction :: "string option"
  tt_paramsSchema :: "task_param list option"
  tt_defaultCron :: "string option"
  tt_skills :: "string list option"

definition DISPLAY_NAME_ANNOTATION :: string where
  "DISPLAY_NAME_ANNOTATION = ''cubepilot/display-name''"

definition MANUAL_RUN_ANNOTATION :: string where
  "MANUAL_RUN_ANNOTATION = ''cubepilot/manual-run''"

definition TASK_RUN_LABEL :: string where
  "TASK_RUN_LABEL = ''cubepilot/task''"

definition tasksNamespace :: "env \<Rightarrow> string" where
  "tasksNamespace env =
     (let ns = trim (nullish (env ''CUBESTACK_TASKS_NAMESPACE'') [])
      in if ns \<noteq> [] then ns else ''cubestack-system'')"

section \<open>Projections\<close>

datatype run_status = RunSuccess | RunFailed | RunRunning

record task =
  task_id :: string
  task_name :: string
  task_prompt :: string
  task_schedule :: string
  task_templateRef :: "string option"
  task_enabled :: bool
  task_creator :: string
  task_createdAt :: string
  task_lastRunAt :: "string option"
  task_lastStatus :: "run_status option"
  task_nextRunAt :: "string option"

record report =
  rep_id :: string
  rep_taskId :: string
  rep_taskName :: string
  rep_cron :: bool
  rep_status :: run_status
  rep_startedAt :: string
  rep_finishedAt :: string
  rep_content :: string

record task_template =
  tpl_name :: string
  tpl_displayName :: string
  tpl_description :: string
  tpl_instruction :: string
  tpl_paramsSchema :: "task_param list"
  tpl_defaultCron :: string
  tpl_skills :: "string list"

definition isTaskOwner :: "task_cr \<Rightarrow> string \<Rightarrow> bool" where
  "isTaskOwner cr user = (nullish (t_owner cr) [] = user)"

definition annotation :: "(string \<times> string) list option \<Rightarrow> string \<Rightarrow> string option" where
  "annotation as k = (case as of None \<Rightarrow> None | Some es \<Rightarrow> map_of es k)"

definition taskFromCr :: "task_cr \<Rightarrow> task" where
  "taskFromCr cr =
     \<lparr>task_id = nullish (t_name cr) [],
      task_name = or_str (annotation (t_annotations cr) DISPLAY_NAME_ANNOTATION) (or_str (t_name cr) []),
      task_prompt = nullish (t_instruction cr) [],
      task_schedule = nullish (t_cron cr) [],
      task_templateRef = or_undef (t_templateRef cr),
      task_enabled = (nullish (t_state cr) ''Enabled'' \<noteq> ''Paused''),
      task_creator = nullish (t_owner cr) [],
      task_createdAt = nullish (t_created cr) [],
      task_lastRunAt = t_lastRunTime cr,
      task_lastStatus =
        (if t_lastStatus cr = Some ''success'' then Some RunSuccess
         else if t_lastStatus cr = Some ''failed'' then Some RunFailed else None),
      task_nextRunAt = t_nextRunTime cr\<rparr>"

definition reportFromCr :: "task_run_cr \<Rightarrow> string \<Rightarrow> report" where
  "reportFromCr cr fallbackTaskName =
     (let ph = nullish (tr_phase cr) []
      in \<lparr>rep_id = nullish (tr_name cr) [],
          rep_taskId = nullish (tr_creatorTask cr) [],
          rep_taskName = or_str (tr_taskName cr) fallbackTaskName,
          rep_cron = (tr_trigger cr = Some ''Cron''),
          rep_status =
            (if ph = ''Completed'' then RunSuccess
             else if ph = ''Failed'' \<or> ph = ''Cancelled'' then RunFailed else RunRunning),
          rep_startedAt = nullish (tr_startedAt cr) (nullish (tr_created cr) []),
          rep_finishedAt = nullish (tr_finishedAt cr) [],
          rep_content = nullish (tr_content cr) []\<rparr>)"

definition templateFromCr :: "template_cr \<Rightarrow> task_template" where
  "templateFromCr cr =
     \<lparr>tpl_name = nullish (tt_name cr) [],
      tpl_displayName = or_str (tt_displayName cr) (or_str (tt_name cr) []),
      tpl_description = nullish (tt_description cr) [],
      tpl_instruction = nullish (tt_instruction cr) [],
      tpl_paramsSchema = nullish (tt_paramsSchema cr) [],
      tpl_defaultCron = nullish (tt_defaultCron cr) [],
      tpl_skills = nullish (tt_skills cr) []\<rparr>"

section \<open>Parameters and instructions\<close>

text \<open>The \<open>in\<close> operator: an own property, or one that every object inherits.\<close>

definition obj_has :: "(string \<times> 'v) list \<Rightarrow> string \<Rightarrow> bool" where
  "obj_has es k \<longleftrightarrow> map_of es k \<noteq> None \<or> k \<in> set INHERITED_PROPERTIES"

datatype param_error = InvalidParam string string

definition param_value :: "task_param \<Rightarrow> (string \<times> string) list option \<Rightarrow> string" where
  "param_value p overrides =
     (case (case overrides of None \<Rightarrow> None | Some os \<Rightarrow> map_of os (tp_name p)) of
        Some v \<Rightarrow> v
      | None \<Rightarrow> nullish (tp_default p) [])"

fun resolve_schema ::
    "task_param list \<Rightarrow> (string \<times> string) list option \<Rightarrow> (string \<times> string) list \<Rightarrow>
     param_error + (string \<times> string) list" where
  "resolve_schema [] overrides merged = Inr merged"
| "resolve_schema (p # ps) overrides merged =
     (let v = param_value p overrides
      in if tp_enum p \<noteq> None \<and> the (tp_enum p) \<noteq> [] \<and> v \<notin> set (the (tp_enum p))
         then Inl (InvalidParam (tp_name p) v)
         else resolve_schema ps overrides (obj_set merged (tp_name p) v))"

fun add_extra :: "(string \<times> string) list \<Rightarrow> (string \<times> string) list \<Rightarrow> (string \<times> string) list" where
  "add_extra [] merged = merged"
| "add_extra ((k, v) # es) merged = add_extra es (if obj_has merged k then merged else obj_set merged k v)"

definition resolveParams ::
    "task_param list \<Rightarrow> (string \<times> string) list option \<Rightarrow> param_error + (string \<times> string) list" where
  "resolveParams schema overrides =
     (case resolve_schema schema overrides [] of
        Inl e \<Rightarrow> Inl e
      | Inr merged \<Rightarrow> Inr (add_extra (nullish overrides []) merged))"

text \<open>\<open>out.split(sep).join(v)\<close> for a separator that is not empty: every occurrence, from the left.\<close>

function replace_all :: "string \<Rightarrow> string \<Rightarrow> string \<Rightarrow> string" where
  "replace_all sep v [] = []"
| "replace_all sep v (c # cs) =
     (if sep \<noteq> [] \<and> startsWith (c # cs) sep then v @ replace_all sep v (drop (length sep) (c # cs))
      else c # replace_all sep v cs)"
  by pat_completeness auto
termination
  by (relation "measure (\<lambda>(sep, v, s). length s)") auto

definition placeholder :: "string \<Rightarrow> string" where
  "placeholder k = ''{'' @ ''{'' @ k @ ''}}''"

definition renderInstruction :: "string \<Rightarrow> (string \<times> string) list \<Rightarrow> string" where
  "renderInstruction instruction params =
     foldl (\<lambda>out (k, v). replace_all (placeholder k) v out) instruction params"

section \<open>Names\<close>

text \<open>\<open>replace(/-+/g, "-")\<close>.\<close>

fun collapse_dashes :: "string \<Rightarrow> string" where
  "collapse_dashes [] = []"
| "collapse_dashes (c # cs) =
     (if c = CHR ''-'' then CHR ''-'' # collapse_dashes (dropWhile ((=) CHR ''-'') cs)
      else c # collapse_dashes cs)"

text \<open>\<open>hex\<close> is the hexadecimal text of the four random bytes.\<close>

definition taskCrName :: "string \<Rightarrow> string \<Rightarrow> string" where
  "taskCrName hex owner =
     (let base = take 50 (strip_ends CHR ''-'' (collapse_dashes
            (map (\<lambda>c. if label_char c then c else CHR ''-'') (toLowerCase owner))))
      in (if base = [] then ''user'' else base) @ ''-task-'' @ hex)"

section \<open>The cluster interface\<close>

datatype patch_value = PText string | PAnnotations "(string \<times> string) list"

record patch_op =
  op_path :: string
  op_value :: patch_value

datatype call =
    ListTasks | ListRuns string | ListTemplates
  | GetTask string | GetTemplate string
  | CreateTask task_cr
  | PatchTask string "patch_op list"
  | DeleteTask string

record task_api =
  api_list :: "k8s_error + task_cr list"
  api_runs :: "string \<Rightarrow> k8s_error + task_run_cr list"
  api_templates :: "k8s_error + template_cr list"
  api_get :: "string \<Rightarrow> k8s_error + task_cr"
  api_template :: "string \<Rightarrow> k8s_error + template_cr"
  api_create :: "task_cr \<Rightarrow> k8s_error + task_cr"
  api_patch :: "string \<Rightarrow> patch_op list \<Rightarrow> k8s_error + task_cr"
  api_delete :: "string \<Rightarrow> k8s_error + unit"

definition getTaskCr :: "task_api \<Rightarrow> string \<Rightarrow> k8s_error + task_cr option" where
  "getTaskCr api name = absent (api_get api name)"

definition getTemplateCr :: "task_api \<Rightarrow> string \<Rightarrow> k8s_error + template_cr option" where
  "getTemplateCr api name = absent (api_template api name)"

record create_input =
  in_name :: string
  in_instruction :: string
  in_cron :: string
  in_templateRef :: "string option"
  in_params :: "(string \<times> string) list option"
  in_owner :: string

text \<open>The resource \<open>createTaskCr\<close> posts.\<close>

definition new_task_cr :: "string \<Rightarrow> create_input \<Rightarrow> task_cr" where
  "new_task_cr hex i =
     \<lparr>t_name = Some (taskCrName hex (in_owner i)), t_created = None,
      t_annotations = Some [(DISPLAY_NAME_ANNOTATION, in_name i)],
      t_templateRef = or_undef (in_templateRef i),
      t_instruction = Some (in_instruction i),
      t_params = (if in_params i \<noteq> None \<and> the (in_params i) \<noteq> [] then in_params i else None),
      t_owner = Some (in_owner i),
      t_trigger = Some (if in_cron i \<noteq> [] then ''Cron'' else ''Manual''),
      t_cron = (if in_cron i \<noteq> [] then Some (in_cron i) else None),
      t_state = Some ''Enabled'', t_lastRunTime = None, t_lastStatus = None, t_nextRunTime = None\<rparr>"

definition state_patch :: "string \<Rightarrow> patch_op list" where
  "state_patch st = [\<lparr>op_path = ''/spec/state'', op_value = PText st\<rparr>]"

definition manual_run_patch :: "task_cr \<Rightarrow> string \<Rightarrow> patch_op list" where
  "manual_run_patch cr stamp =
     (if t_annotations cr \<noteq> None
      then [\<lparr>op_path = ''/metadata/annotations/'' @ json_pointer MANUAL_RUN_ANNOTATION, op_value = PText stamp\<rparr>]
      else [\<lparr>op_path = ''/metadata/annotations'', op_value = PAnnotations [(MANUAL_RUN_ANNOTATION, stamp)]\<rparr>])"

section \<open>Handlers\<close>

datatype task_body =
    TaskError string
  | TemplateNotFound string
  | BadState
  | ParamError param_error
  | ClusterError string
  | TasksBody "task list"
  | TaskBody task
  | Deleted string
  | Started
  | Reports "report list"
  | Templates "task_template list"

definition k8sErrorResponse :: "k8s_error \<Rightarrow> task_body response" where
  "k8sErrorResponse e = answer (k8s_status e) (ClusterError (e_message e))"

definition tasks_GET ::
    "(string \<Rightarrow> string \<Rightarrow> int) \<Rightarrow> task_api \<Rightarrow> string \<Rightarrow> task_body response \<times> call list" where
  "tasks_GET compare api user =
     (case api_list api of
        Inl e \<Rightarrow> (k8sErrorResponse e, [ListTasks])
      | Inr items \<Rightarrow>
          (answer 200 (TasksBody (sort_newest compare task_createdAt
             (filter (\<lambda>t. task_id t \<noteq> []) (map taskFromCr (filter (\<lambda>cr. isTaskOwner cr user) items))))),
           [ListTasks]))"

record create_body =
  b_name :: "string option"
  b_prompt :: "string option"
  b_schedule :: "string option"
  b_templateRef :: "string option"
  b_params :: "(string \<times> string) list option"

definition create_task ::
    "task_api \<Rightarrow> string \<Rightarrow> create_input \<Rightarrow> task_body response \<times> call list" where
  "create_task api hex i =
     (let cr = new_task_cr hex i
      in case api_create api cr of
           Inl e \<Rightarrow> (k8sErrorResponse e, [CreateTask cr])
         | Inr created \<Rightarrow> (answer 201 (TaskBody (taskFromCr created)), [CreateTask cr]))"

definition tasks_POST ::
    "task_api \<Rightarrow> string \<Rightarrow> string \<Rightarrow> create_body option \<Rightarrow> task_body response \<times> call list" where
  "tasks_POST api hex user body =
     (case body of
        None \<Rightarrow> (answer 400 (TaskError ''invalid JSON body''), [])
      | Some b \<Rightarrow>
          (let name = trim (nullish (b_name b) []); schedule = trim (nullish (b_schedule b) []);
               templateRef = trim (nullish (b_templateRef b) []);
               prompt = trim (nullish (b_prompt b) [])
           in if name = [] then (answer 400 (TaskError ''name is required''), [])
              else if schedule \<noteq> [] \<and> \<not> isValidCron schedule
                then (answer 400 (TaskError ''invalid cron schedule''), [])
              else if templateRef = [] \<and> prompt = []
                then (answer 400 (TaskError ''prompt or templateRef is required''), [])
              else if templateRef \<noteq> [] then
                (case getTemplateCr api templateRef of
                   Inl e \<Rightarrow> (k8sErrorResponse e, [GetTemplate templateRef])
                 | Inr None \<Rightarrow> (answer 400 (TemplateNotFound templateRef), [GetTemplate templateRef])
                 | Inr (Some tpl) \<Rightarrow>
                     (case resolveParams (nullish (tt_paramsSchema tpl) []) (b_params b) of
                        Inl e \<Rightarrow> (answer 400 (ParamError e), [GetTemplate templateRef])
                      | Inr params \<Rightarrow>
                          (case create_task api hex
                             \<lparr>in_name = name,
                              in_instruction = renderInstruction (nullish (tt_instruction tpl) []) params,
                              in_cron = schedule, in_templateRef = Some templateRef,
                              in_params = Some params, in_owner = user\<rparr> of
                             (r, cs) \<Rightarrow> (r, GetTemplate templateRef # cs))))
              else
                create_task api hex
                  \<lparr>in_name = name, in_instruction = prompt, in_cron = schedule, in_templateRef = None,
                   in_params = (if b_params b \<noteq> None \<and> the (b_params b) \<noteq> [] then b_params b else None),
                   in_owner = user\<rparr>))"

text \<open>The part every route of one task begins with: read it, and go on only for its owner.\<close>

definition with_own_task ::
    "task_api \<Rightarrow> string \<Rightarrow> string \<Rightarrow> (task_cr \<Rightarrow> task_body response \<times> call list) \<Rightarrow>
     task_body response \<times> call list" where
  "with_own_task api user i k =
     (case getTaskCr api i of
        Inl e \<Rightarrow> (k8sErrorResponse e, [GetTask i])
      | Inr None \<Rightarrow> (answer 404 (TaskError ''task not found''), [GetTask i])
      | Inr (Some existing) \<Rightarrow>
          (if \<not> isTaskOwner existing user then (answer 403 (TaskError ''not your task''), [GetTask i])
           else case k existing of (r, cs) \<Rightarrow> (r, GetTask i # cs)))"

definition task_DELETE :: "task_api \<Rightarrow> string \<Rightarrow> string \<Rightarrow> task_body response \<times> call list" where
  "task_DELETE api user i = with_own_task api user i (\<lambda>existing.
     case api_delete api i of
       Inl e \<Rightarrow> (k8sErrorResponse e, [DeleteTask i])
     | Inr _ \<Rightarrow> (answer 200 (Deleted i), [DeleteTask i]))"

text \<open>The state a toggle asks for: absent (or no body), or a value of any type; \<open>Inl ()\<close> is one that is
  not a text.\<close>

definition toggle_POST ::
    "task_api \<Rightarrow> string \<Rightarrow> string \<Rightarrow> (unit + string) option \<Rightarrow> task_body response \<times> call list" where
  "toggle_POST api user i desired =
     (if desired \<noteq> None \<and> desired \<noteq> Some (Inr ''Enabled'') \<and> desired \<noteq> Some (Inr ''Paused'')
      then (answer 400 BadState, [])
      else with_own_task api user i (\<lambda>existing.
        let current = nullish (t_state existing) ''Enabled'';
            nxt = (case desired of
                Some (Inr s) \<Rightarrow> s
              | _ \<Rightarrow> if current = ''Paused'' then ''Enabled'' else ''Paused'')
        in if nxt = current then (answer 200 (TaskBody (taskFromCr existing)), [])
           else case api_patch api i (state_patch nxt) of
               Inl e \<Rightarrow> (k8sErrorResponse e, [PatchTask i (state_patch nxt)])
             | Inr updated \<Rightarrow> (answer 200 (TaskBody (taskFromCr updated)), [PatchTask i (state_patch nxt)])))"

text \<open>The client refuses a call without a name before sending it; its error has no status.\<close>

definition name_required :: k8s_error where
  "name_required = \<lparr>e_code = None, e_statusCode = None,
     e_message = ''Required parameter name was null or undefined when calling CustomObjectsApi.patchNamespacedCustomObject.''\<rparr>"

definition run_POST :: "task_api \<Rightarrow> string \<Rightarrow> string \<Rightarrow> string \<Rightarrow> task_body response \<times> call list" where
  "run_POST api stamp user i = with_own_task api user i (\<lambda>existing.
     case t_name existing of
       None \<Rightarrow> (k8sErrorResponse name_required, [])
     | Some name \<Rightarrow>
         (let patch = manual_run_patch existing stamp
          in case api_patch api name patch of
               Inl e \<Rightarrow> (k8sErrorResponse e, [PatchTask name patch])
             | Inr _ \<Rightarrow> (answer 202 Started, [PatchTask name patch])))"

definition reports_GET ::
    "(string \<Rightarrow> string \<Rightarrow> int) \<Rightarrow> task_api \<Rightarrow> string \<Rightarrow> string \<Rightarrow> task_body response \<times> call list" where
  "reports_GET compare api user i = with_own_task api user i (\<lambda>existing.
     case api_runs api i of
       Inl e \<Rightarrow> (k8sErrorResponse e, [ListRuns (TASK_RUN_LABEL @ ''='' @ i)])
     | Inr runs \<Rightarrow>
         (answer 200 (Reports (sort_newest compare rep_startedAt (filter (\<lambda>r. rep_id r \<noteq> [])
            (map (\<lambda>r. reportFromCr r (task_name (taskFromCr existing))) runs)))),
          [ListRuns (TASK_RUN_LABEL @ ''='' @ i)]))"

definition templates_GET :: "task_api \<Rightarrow> task_body response \<times> call list" where
  "templates_GET api =
     (case api_templates api of
        Inl e \<Rightarrow> (k8sErrorResponse e, [ListTemplates])
      | Inr items \<Rightarrow>
          (answer 200 (Templates (filter (\<lambda>t. tpl_name t \<noteq> []) (map templateFromCr items))), [ListTemplates]))"

section \<open>Ownership\<close>

text \<open>The task routes as one handler.\<close>

datatype task_request =
    ListReq
  | CreateReq string "create_body option"
  | DeleteReq string
  | ToggleReq string "(unit + string) option"
  | RunReq string string
  | ReportsReq string
  | TemplatesReq

fun handle :: "(string \<Rightarrow> string \<Rightarrow> int) \<Rightarrow> task_api \<Rightarrow> string \<Rightarrow> task_request \<Rightarrow> task_body response \<times> call list" where
  "handle compare api user ListReq = tasks_GET compare api user"
| "handle compare api user (CreateReq hex b) = tasks_POST api hex user b"
| "handle compare api user (DeleteReq i) = task_DELETE api user i"
| "handle compare api user (ToggleReq i d) = toggle_POST api user i d"
| "handle compare api user (RunReq stamp i) = run_POST api stamp user i"
| "handle compare api user (ReportsReq i) = reports_GET compare api user i"
| "handle compare api user TemplatesReq = templates_GET api"

text \<open>The cluster answers a read by name with an object of that name.\<close>

definition names_ok :: "task_api \<Rightarrow> bool" where
  "names_ok api \<longleftrightarrow> (\<forall>n cr. api_get api n = Inr cr \<longrightarrow> t_name cr = Some n)"

definition owns :: "task_api \<Rightarrow> string \<Rightarrow> string \<Rightarrow> bool" where
  "owns api user i \<longleftrightarrow> (\<exists>cr. api_get api i = Inr cr \<and> isTaskOwner cr user)"

text \<open>A call a user may cause: reads, a new task of their own, a change to a task they own.\<close>

fun permitted :: "task_api \<Rightarrow> string \<Rightarrow> call \<Rightarrow> bool" where
  "permitted api user (CreateTask cr) = (t_owner cr = Some user)"
| "permitted api user (PatchTask i ops) = owns api user i"
| "permitted api user (DeleteTask i) = owns api user i"
| "permitted api user (ListRuns sel) = (\<exists>i. sel = TASK_RUN_LABEL @ ''='' @ i \<and> owns api user i)"
| "permitted api user _ = True"

lemma with_own_task_permitted:
  assumes "\<And>cr c. api_get api i = Inr cr \<Longrightarrow> isTaskOwner cr user \<Longrightarrow> c \<in> set (snd (k cr)) \<Longrightarrow> permitted api user c"
  shows "\<forall>c\<in>set (snd (with_own_task api user i k)). permitted api user c"
proof (cases "getTaskCr api i")
  case (Inl e)
  then show ?thesis by (simp add: with_own_task_def)
next
  case (Inr x)
  show ?thesis
  proof (cases x)
    case None
    with Inr show ?thesis by (simp add: with_own_task_def)
  next
    case (Some cr)
    with Inr have "api_get api i = Inr cr" by (simp add: getTaskCr_def absent_Some)
    with assms [of cr] Inr Some show ?thesis by (auto simp: with_own_task_def split: prod.split)
  qed
qed

lemma create_task_permitted: "c \<in> set (snd (create_task api hex i)) \<Longrightarrow> permitted api (in_owner i) c"
  by (auto simp: create_task_def new_task_cr_def Let_def split: sum.splits)

lemma tasks_POST_permitted: "list_all (permitted api user) (snd (tasks_POST api hex user body))"
proof (cases body)
  case None
  then show ?thesis by (simp add: tasks_POST_def)
next
  case (Some b)
  let ?t = "trim (nullish (b_templateRef b) [])"
  have create: "list_all (permitted api user) (snd (create_task api hex i))" if "in_owner i = user" for i
    using create_task_permitted [of _ api hex i] that by (auto simp: list_all_iff)
  have wrap: "list_all (permitted api user) (snd (case create_task api hex i of (r, cs) \<Rightarrow> (r, GetTemplate ?t # cs)))"
    if "in_owner i = user" for i using create [OF that] by (cases "create_task api hex i") simp
  show ?thesis
    unfolding tasks_POST_def Some option.case Let_def
    by (cases "getTemplateCr api ?t"; cases "projr (getTemplateCr api ?t)";
        cases "resolveParams (nullish (tt_paramsSchema (the (projr (getTemplateCr api ?t)))) []) (b_params b)")
      (simp_all add: create wrap)
qed

lemma handle_permitted:
  assumes "names_ok api"
  shows "\<forall>c\<in>set (snd (handle compare api user req)). permitted api user c"
proof (cases req)
  case (DeleteReq i)
  then show ?thesis unfolding handle.simps DeleteReq task_DELETE_def
    by (intro with_own_task_permitted) (auto simp: owns_def split: sum.splits)
next
  case (ToggleReq i d)
  show ?thesis
  proof (cases "d \<noteq> None \<and> d \<noteq> Some (Inr ''Enabled'') \<and> d \<noteq> Some (Inr ''Paused'')")
    case True
    then show ?thesis by (simp add: ToggleReq toggle_POST_def)
  next
    case False
    then show ?thesis unfolding handle.simps ToggleReq toggle_POST_def if_not_P [OF False]
      by (intro with_own_task_permitted) (auto simp: owns_def Let_def split: sum.splits if_splits)
  qed
next
  case (RunReq stamp i)
  show ?thesis unfolding handle.simps RunReq run_POST_def
  proof (rule with_own_task_permitted)
    fix cr c
    assume a: "api_get api i = Inr cr" "isTaskOwner cr user" and
      c: "c \<in> set (snd (case t_name cr of None \<Rightarrow> (k8sErrorResponse name_required, [])
        | Some name \<Rightarrow> (let patch = manual_run_patch cr stamp in case api_patch api name patch of
             Inl e \<Rightarrow> (k8sErrorResponse e, [PatchTask name patch])
           | Inr _ \<Rightarrow> (answer 202 Started, [PatchTask name patch]))))"
    from a(1) assms have "t_name cr = Some i" by (simp add: names_ok_def)
    with c have "c = PatchTask i (manual_run_patch cr stamp)" by (auto simp: Let_def split: sum.splits)
    with a show "permitted api user c" by (auto simp: owns_def)
  qed
next
  case (ReportsReq i)
  then show ?thesis unfolding handle.simps ReportsReq reports_GET_def
    by (intro with_own_task_permitted) (auto simp: owns_def split: sum.splits)
next
  case (CreateReq hex b)
  then show ?thesis using tasks_POST_permitted by (simp add: list_all_iff)
qed (auto simp: tasks_GET_def templates_GET_def split: sum.splits)

text \<open>C4. A user sees and changes only their own tasks: whatever the request and whatever the cluster
  answers, every task it lists was created by the user, every new task carries the user as its
  owner (the identity it will run with), and every patch, every deletion and every read of reports
  is of a task the cluster reports as owned by the user.\<close>

theorem tasks_owner_isolation:
  assumes "names_ok api"
  shows "list_all (permitted api user) (snd (handle compare api user req)) \<and>
    (res_body (fst (tasks_GET compare api user)) = TasksBody ts \<longrightarrow> list_all (\<lambda>t. task_creator t = user) ts)"
proof (intro conjI impI)
  show "list_all (permitted api user) (snd (handle compare api user req))"
    using handle_permitted [OF assms] by (simp add: list_all_iff)
  assume r: "res_body (fst (tasks_GET compare api user)) = TasksBody ts"
  then obtain items where "api_list api = Inr items" and
    "ts = sort_newest compare task_createdAt (filter (\<lambda>t. task_id t \<noteq> []) (map taskFromCr (filter (\<lambda>cr. isTaskOwner cr user) items)))"
    by (auto simp: tasks_GET_def answer_def k8sErrorResponse_def split: sum.splits)
  then have "set ts \<subseteq> taskFromCr ` {cr. isTaskOwner cr user}" by (auto simp: set_sort_newest)
  then show "list_all (\<lambda>t. task_creator t = user) ts"
    by (auto simp: list_all_iff taskFromCr_def isTaskOwner_def)
qed

text \<open>A cluster with one task, of the user \<open>ann\<close>.\<close>

definition sample_task :: task_cr where
  "sample_task = \<lparr>t_name = Some ''t1'', t_created = None, t_annotations = None, t_templateRef = None,
     t_instruction = None, t_params = None, t_owner = Some ''ann'', t_trigger = None, t_cron = None,
     t_state = None, t_lastRunTime = None, t_lastStatus = None, t_nextRunTime = None\<rparr>"

definition missing :: k8s_error where
  "missing = \<lparr>e_code = Some (NumCode 404), e_statusCode = None, e_message = []\<rparr>"

definition sample_api :: task_api where
  "sample_api = \<lparr>api_list = Inr [sample_task], api_runs = \<lambda>_. Inr [], api_templates = Inr [],
     api_get = (\<lambda>n. if n = ''t1'' then Inr sample_task else Inl missing), api_template = \<lambda>_. Inl missing,
     api_create = Inr, api_patch = \<lambda>_ _. Inr sample_task, api_delete = \<lambda>_. Inr ()\<rparr>"

theorem tasks_owner_isolation_witness:
  "list_all (permitted sample_api ''bob'') (snd (handle (\<lambda>_ _. 0) sample_api ''bob'' (DeleteReq ''t1''))) \<and>
   fst (handle (\<lambda>_ _. 0) sample_api ''bob'' (DeleteReq ''t1'')) = answer 403 (TaskError ''not your task'') \<and>
   snd (handle (\<lambda>_ _. 0) sample_api ''ann'' (DeleteReq ''t1'')) = [GetTask ''t1'', DeleteTask ''t1'']"
proof -
  have "names_ok sample_api" by (simp add: names_ok_def sample_api_def sample_task_def)
  from tasks_owner_isolation [OF this] have "list_all (permitted sample_api ''bob'')
      (snd (handle (\<lambda>_ _. 0) sample_api ''bob'' (DeleteReq ''t1'')))" by blast
  moreover have "fst (handle (\<lambda>_ _. 0) sample_api ''bob'' (DeleteReq ''t1'')) = answer 403 (TaskError ''not your task'')"
    by code_simp
  moreover have "snd (handle (\<lambda>_ _. 0) sample_api ''ann'' (DeleteReq ''t1'')) = [GetTask ''t1'', DeleteTask ''t1'']"
    by code_simp
  ultimately show ?thesis by blast
qed

section \<open>Toggling\<close>

lemma with_own_task_own:
  assumes "api_get api i = Inr cr" and "isTaskOwner cr user"
  shows "with_own_task api user i k = (fst (k cr), GetTask i # snd (k cr))"
  using assms by (simp add: with_own_task_def getTaskCr_def absent_def split: prod.split)

text \<open>A toggle with an explicit target is idempotent: it writes the target exactly when the task is
  not in that state (an absent state is Enabled), so a replayed request writes nothing; without a
  target it writes the other state, which is never the current one.\<close>

theorem toggle_idempotent:
  assumes "api_get api i = Inr cr" and "isTaskOwner cr user" and "s = ''Enabled'' \<or> s = ''Paused''"
  shows "snd (toggle_POST api user i (Some (Inr s))) =
      GetTask i # (if nullish (t_state cr) ''Enabled'' = s then [] else [PatchTask i (state_patch s)]) \<and>
    snd (toggle_POST api user i None) =
      [GetTask i, PatchTask i (state_patch (if nullish (t_state cr) ''Enabled'' = ''Paused'' then ''Enabled'' else ''Paused''))]"
proof -
  note own = with_own_task_own [OF assms(1,2)]
  have "snd (toggle_POST api user i (Some (Inr s))) =
      GetTask i # (if nullish (t_state cr) ''Enabled'' = s then [] else [PatchTask i (state_patch s)])"
    using assms(3) by (auto simp: toggle_POST_def own Let_def split: sum.split)
  moreover have "snd (toggle_POST api user i None) =
      [GetTask i, PatchTask i (state_patch (if nullish (t_state cr) ''Enabled'' = ''Paused'' then ''Enabled'' else ''Paused''))]"
    by (auto simp: toggle_POST_def own Let_def split: sum.split)
  ultimately show ?thesis by blast
qed

theorem toggle_idempotent_witness:
  "snd (toggle_POST sample_api ''ann'' ''t1'' (Some (Inr ''Enabled''))) = [GetTask ''t1''] \<and>
   snd (toggle_POST sample_api ''ann'' ''t1'' None) = [GetTask ''t1'', PatchTask ''t1'' (state_patch ''Paused'')]"
proof -
  have "api_get sample_api ''t1'' = Inr sample_task" "isTaskOwner sample_task ''ann''"
    by (simp_all add: sample_api_def isTaskOwner_def sample_task_def)
  from toggle_idempotent [OF this, of "''Enabled''"] show ?thesis by (simp add: sample_task_def)
qed

section \<open>Parameters\<close>

definition param_ok :: "(string \<times> string) list option \<Rightarrow> task_param \<Rightarrow> bool" where
  "param_ok overrides p \<longleftrightarrow> tp_enum p = None \<or> the (tp_enum p) = [] \<or> param_value p overrides \<in> set (the (tp_enum p))"

lemma resolve_schema_Inr:
  "resolve_schema ps overrides merged = Inr m \<Longrightarrow>
     list_all (param_ok overrides) ps \<and>
     map_of m = map_of merged ++ map_of (rev (map (\<lambda>p. (tp_name p, param_value p overrides)) ps))"
proof (induction ps overrides merged rule: resolve_schema.induct)
  case (2 p ps overrides merged)
  then have "param_ok overrides p" and r: "resolve_schema ps overrides (obj_set merged (tp_name p) (param_value p overrides)) = Inr m"
    by (auto simp: param_ok_def Let_def split: if_splits)
  moreover have "\<not> (tp_enum p \<noteq> None \<and> the (tp_enum p) \<noteq> [] \<and> param_value p overrides \<notin> set (the (tp_enum p)))"
    using \<open>param_ok overrides p\<close> by (auto simp: param_ok_def)
  ultimately show ?case using "2.IH" [OF refl _ r] 
    by (simp add: map_of_obj_set map_add_assoc) (simp only: fun_upd_def)
qed simp

lemma resolve_schema_Inl:
  "resolve_schema ps overrides merged = Inl (InvalidParam n v) \<Longrightarrow>
     \<exists>p\<in>set ps. \<not> param_ok overrides p \<and> tp_name p = n \<and> param_value p overrides = v"
  by (induction ps overrides merged rule: resolve_schema.induct)
    (auto simp: param_ok_def Let_def split: if_splits)

lemma add_extra_map:
  "map_of (add_extra es merged) k =
     (case map_of merged k of Some v \<Rightarrow> Some v
      | None \<Rightarrow> if k \<in> set INHERITED_PROPERTIES then None else map_of es k)"
  by (induction es merged rule: add_extra.induct)
    (auto simp: obj_has_def map_of_obj_set split: option.splits)

text \<open>The parameters of a task: when they are accepted, every declared parameter has the caller's
  value or its default, every restricted one a value it allows, and every other value the caller
  gave is kept (unless it is named like an inherited property); when they are refused, the named
  parameter is declared and its value is not allowed.\<close>

theorem resolveParams_correct:
  assumes "distinct (map tp_name schema)"
  shows "case resolveParams schema overrides of
      Inr m \<Rightarrow> list_all (param_ok overrides) schema \<and>
        list_all (\<lambda>p. map_of m (tp_name p) = Some (param_value p overrides)) schema \<and>
        (k \<notin> tp_name ` set schema \<and> k \<notin> set INHERITED_PROPERTIES \<longrightarrow> map_of m k = map_of (nullish overrides []) k)
    | Inl (InvalidParam n v) \<Rightarrow>
        \<exists>p\<in>set schema. \<not> param_ok overrides p \<and> tp_name p = n \<and> param_value p overrides = v"
proof (cases "resolve_schema schema overrides []")
  case (Inl e)
  then show ?thesis using resolve_schema_Inl [of schema overrides "[]"]
    by (cases e) (simp add: resolveParams_def)
next
  case (Inr m0)
  let ?vals = "map (\<lambda>p. (tp_name p, param_value p overrides)) schema"
  from resolve_schema_Inr [OF Inr] have ok: "list_all (param_ok overrides) schema"
    and m0: "map_of m0 = map_of (rev ?vals)" by simp_all
  have "distinct (map fst ?vals)" using assms by (simp add: comp_def)
  then have m0': "map_of m0 = map_of ?vals" 
    unfolding m0 by (subst map_of_inject_set) (simp_all add: rev_map [symmetric] del: rev_map)
  have "map_of m0 (tp_name p) = Some (param_value p overrides)" if "p \<in> set schema" for p
    unfolding m0' using \<open>distinct (map fst ?vals)\<close> that by (intro map_of_is_SomeI) auto
  moreover have "map_of m0 k = None" if "k \<notin> tp_name ` set schema"
    unfolding m0' using that by (auto simp: map_of_eq_None_iff)
  ultimately show ?thesis using ok Inr
    by (simp add: resolveParams_def add_extra_map list_all_iff)
qed

definition sample_schema :: "task_param list" where
  "sample_schema =
     [\<lparr>tp_name = ''level'', tp_type = None, tp_default = Some ''low'', tp_enum = Some [''low'', ''high'']\<rparr>,
      \<lparr>tp_name = ''ns'', tp_type = None, tp_default = None, tp_enum = None\<rparr>]"

theorem resolveParams_correct_witness:
  "resolveParams sample_schema (Some [(''level'', ''high''), (''x'', ''1'')]) =
     Inr [(''level'', ''high''), (''ns'', []), (''x'', ''1'')] \<and>
   map_of [(''level'', ''high''), (''ns'', []), (''x'', ''1'')] ''x'' = Some ''1'' \<and>
   resolveParams sample_schema (Some [(''level'', ''mid'')]) = Inl (InvalidParam ''level'' ''mid'')"
proof -
  have r: "resolveParams sample_schema (Some [(''level'', ''high''), (''x'', ''1'')]) =
     Inr [(''level'', ''high''), (''ns'', []), (''x'', ''1'')]"
    "resolveParams sample_schema (Some [(''level'', ''mid'')]) = Inl (InvalidParam ''level'' ''mid'')"
    by code_simp+
  have "distinct (map tp_name sample_schema)" by code_simp
  note t = resolveParams_correct [OF this, of "Some [(''level'', ''high''), (''x'', ''1'')]" "''x''"]
  have "''x'' \<notin> set INHERITED_PROPERTIES" "''x'' \<notin> tp_name ` set sample_schema"
    by (simp_all add: INHERITED_PROPERTIES_def sample_schema_def)
  with t r show ?thesis by simp
qed

section \<open>Names of tasks\<close>

lemma collapse_dashes_set: "set (collapse_dashes s) \<subseteq> set s"
proof (induction s rule: collapse_dashes.induct)
  case (2 c cs)
  then show ?case using set_dropWhileD by (cases "c = CHR ''-''") fastforce+
qed simp

lemma task_base:
  fixes owner
  defines "b \<equiv> strip_ends CHR ''-'' (collapse_dashes (map (\<lambda>c. if label_char c then c else CHR ''-'') (toLowerCase owner)))"
  shows "\<forall>c\<in>set b. label_char c" and "b \<noteq> [] \<Longrightarrow> lower_alnum (hd b)"
proof -
  show l: "\<forall>c\<in>set b. label_char c"
  proof
    fix c
    assume "c \<in> set b"
    then have "c \<in> set (map (\<lambda>c. if label_char c then c else CHR ''-'') (toLowerCase owner))"
      unfolding b_def using set_strip_ends collapse_dashes_set by blast
    then show "label_char c" by (auto simp: label_char_def split: if_splits)
  qed
  assume "b \<noteq> []"
  then show "lower_alnum (hd b)"
    using strip_ends_hd_last(1) [of "CHR ''-''"] l unfolding b_def by (fastforce simp: label_char_def)
qed

definition hex_char :: "char \<Rightarrow> bool" where
  "hex_char c \<longleftrightarrow> digit c \<or> between CHR ''a'' CHR ''f'' c"

lemma hex_alnum: "hex_char c \<Longrightarrow> lower_alnum c"
  by (auto simp: hex_char_def lower_alnum_def lower_alpha_def between_def)

text \<open>The name of a task resource consists of lower-case letters, digits and dashes and begins and
  ends with a letter or digit, whatever the owner's name; but it can have 64 characters, one more
  than a label value may have, and the runs of a task are found by a label whose value is this
  name.\<close>

theorem taskCrName_shape:
  assumes "length hex = 8" and "\<forall>c\<in>set hex. hex_char c"
  shows "(\<forall>c\<in>set (taskCrName hex owner). label_char c) \<and> lower_alnum (hd (taskCrName hex owner)) \<and>
    lower_alnum (last (taskCrName hex owner)) \<and> length (taskCrName hex owner) \<le> 64 \<and>
    length (taskCrName hex (replicate 50 CHR ''a'')) = 64"
proof -
  define b where "b = strip_ends CHR ''-'' (collapse_dashes (map (\<lambda>c. if label_char c then c else CHR ''-'') (toLowerCase owner)))"
  define base where "base = (if take 50 b = [] then ''user'' else take 50 b)"
  have name: "taskCrName hex owner = base @ ''-task-'' @ hex"
    by (simp add: taskCrName_def base_def b_def Let_def)
  have u: "\<forall>c\<in>set ''user''. lower_alnum c" "\<forall>c\<in>set ''-task-''. label_char c" by code_simp+
  note tb = task_base [of owner, folded b_def]
  have chars: "\<forall>c\<in>set base. label_char c" unfolding base_def
    using tb(1) u(1) by (auto dest: in_set_takeD simp: label_char_def)
  have ne: "base \<noteq> []" by (auto simp: base_def)
  have hd: "lower_alnum (hd base)" unfolding base_def using tb(2) u(1) by (cases b) auto
  have hex: "hex \<noteq> []" "lower_alnum (last hex)" using assms hex_alnum by (cases hex; auto)+
  have len: "length base \<le> 50" by (simp add: base_def)
  have "length (taskCrName hex (replicate 50 CHR ''a'')) = 50 + 6 + length hex"
  proof -
    have "take 50 (strip_ends CHR ''-'' (collapse_dashes (map (\<lambda>c. if label_char c then c else CHR ''-'')
        (toLowerCase (replicate 50 CHR ''a''))))) = replicate 50 CHR ''a''" by code_simp
    then show ?thesis by (simp add: taskCrName_def)
  qed
  moreover have "\<forall>c\<in>set (taskCrName hex owner). label_char c"
    using chars u(2) assms(2) hex_alnum unfolding name by (auto simp: label_char_def)
  moreover have "hd (taskCrName hex owner) = hd base" "last (taskCrName hex owner) = last hex"
    "length (taskCrName hex owner) = length base + 6 + length hex"
    using ne hex(1) by (simp_all add: name)
  ultimately show ?thesis using hd hex(2) len assms(1) by simp
qed

theorem taskCrName_shape_witness:
  "taskCrName ''0a1b2c3d'' ''Ann Lee'' = ''ann-lee-task-0a1b2c3d'' \<and>
   length (taskCrName ''0a1b2c3d'' (replicate 50 CHR ''a'')) = 64"
proof -
  have "taskCrName ''0a1b2c3d'' ''Ann Lee'' = ''ann-lee-task-0a1b2c3d''" by code_simp
  moreover have "list_all hex_char ''0a1b2c3d''" by code_simp
  then have "\<forall>c\<in>set ''0a1b2c3d''. hex_char c" by (simp only: list_all_iff)
  from taskCrName_shape [OF _ this] have "length (taskCrName ''0a1b2c3d'' (replicate 50 CHR ''a'')) = 64" by simp
  ultimately show ?thesis by blast
qed

end
