(* ===== verification/Dev_Env.thy ===== *)
theory Dev_Env
  imports Cluster Auth
begin

text \<open>
  Development environments, the data and the checks of a request
  (\<open>app/api/devenvironments/route.ts\<close>, \<open>lib/devenvironments/images.ts\<close>): the custom resource and its
  projection for the listing, the image catalogue, command lines, volume names, and the sections of the
  create handler that validate a request, each with the error it answers. The handlers are in
  \<open>Dev_Env_Api\<close>.

  Numbers of a request or a resource are rationals (a JSON number is finite); a field whose value is
  not of its declared type is read as absent where the source tests the type, and has its declared
  type elsewhere. The dash the listing shows for an absent image, CPU or memory is \<open>None\<close>.
\<close>

section \<open>The resource\<close>

record gpu_block =
  gb_vendor :: "string option"
  gb_count :: "rat option"
  gb_model :: "string option"

record storage_block =
  st_size :: "string option"
  st_mountPath :: "string option"
  st_pvcRetention :: "string option"

record volume_entry =
  vo_name :: "string option"
  vo_pvcName :: "string option"
  vo_mountPath :: "string option"
  vo_readOnly :: "bool option"

type_synonym key_ref = "string option \<times> string option"

record env_source =
  es_secretKeyRef :: "key_ref option"
  es_configMapKeyRef :: "key_ref option"
  es_fieldRef :: "string option option"
  es_resourceFieldRef :: "string option option"

record env_entry =
  en_name :: "string option"
  en_value :: "string option"
  en_valueFrom :: "env_source option"

record port_entry =
  po_name :: "string option"
  po_type :: "string option"
  po_containerPort :: "rat option"

record security_context =
  sc_runAsUser :: "rat option"
  sc_runAsGroup :: "rat option"

record runtime_block =
  rt_user :: "string option"
  rt_security :: "security_context option"
  rt_sudo :: "bool option"
  rt_env :: "env_entry list option"
  rt_command :: "string list option"
  rt_args :: "string list option"

record network_block =
  nw_rdmaEnabled :: "bool option"
  nw_rdmaType :: "string option"
  nw_egress :: "bool option option"

record ssh_block =
  sh_enabled :: "bool option"
  sh_authorizedKeys :: "(string \<times> string) option"

record dev_spec =
  sp_type :: "string option"
  sp_image :: "string option"
  sp_running :: "bool option"
  sp_gpu :: "gpu_block option"
  sp_cpu :: "string option"
  sp_memory :: "string option"
  sp_storage :: "storage_block option"
  sp_volumes :: "volume_entry list option"
  sp_ports :: "port_entry list option"
  sp_runtime :: "runtime_block option"
  sp_idleTimeout :: "rat option"
  sp_nodeSelector :: "(string \<times> string) list option"
  sp_network :: "network_block option"
  sp_ssh :: "ssh_block option"

record secret_ref =
  sr_name :: "string option"
  sr_namespace :: "string option"

record condition =
  co_type :: "string option"
  co_status :: "string option"
  co_reason :: "string option"
  co_message :: "string option"

record dev_status =
  ss_phase :: "string option"
  ss_phaseReason :: "string option"
  ss_endpoints :: "(string option \<times> string option) list option"
  ss_conditions :: "condition list option"
  ss_sshClientKeySecret :: "secret_ref option"
  ss_jupyterTokenSecret :: "secret_ref option"

record dev_meta =
  me_name :: "string option"
  me_namespace :: "string option"
  me_created :: "string option"
  me_annotations :: "(string \<times> string) list option"

record dev_env =
  de_meta :: "dev_meta option"
  de_spec :: "dev_spec option"
  de_status :: "dev_status option"

definition empty_meta :: dev_meta where
  "empty_meta = \<lparr>me_name = None, me_namespace = None, me_created = None, me_annotations = None\<rparr>"

definition empty_spec :: dev_spec where
  "empty_spec = \<lparr>sp_type = None, sp_image = None, sp_running = None, sp_gpu = None, sp_cpu = None,
     sp_memory = None, sp_storage = None, sp_volumes = None, sp_ports = None, sp_runtime = None,
     sp_idleTimeout = None, sp_nodeSelector = None, sp_network = None, sp_ssh = None\<rparr>"

definition empty_status :: dev_status where
  "empty_status = \<lparr>ss_phase = None, ss_phaseReason = None, ss_endpoints = None, ss_conditions = None,
     ss_sshClientKeySecret = None, ss_jupyterTokenSecret = None\<rparr>"

definition empty_runtime :: runtime_block where
  "empty_runtime = \<lparr>rt_user = None, rt_security = None, rt_sudo = None, rt_env = None,
     rt_command = None, rt_args = None\<rparr>"

section \<open>The projection\<close>

datatype env_type = Jupyter | Ssh | Vscode
datatype gpu_vendor = Nvidia | Metax
datatype retention = Retain | Delete
datatype port_type = Http | Tcp | Udp

record gpu_summary =
  gs_vendor :: gpu_vendor
  gs_count :: rat
  gs_model :: "string option"

record storage_summary =
  sts_size :: string
  sts_mountPath :: "string option"
  sts_pvcRetention :: retention

record volume_summary =
  vs_name :: string
  vs_pvcName :: string
  vs_mountPath :: string
  vs_readOnly :: bool

record env_summary =
  ens_name :: string
  ens_hasValue :: bool
  ens_valueFrom :: "string option"

record port_summary =
  ps_name :: string
  ps_type :: port_type
  ps_containerPort :: rat

record dev_summary =
  su_name :: string
  su_namespace :: string
  su_createdAt :: "string option"
  su_type :: env_type
  su_image :: "string option"
  su_running :: bool
  su_gpu :: "gpu_summary option"
  su_cpu :: "string option"
  su_memory :: "string option"
  su_storage :: "storage_summary option"
  su_volumes :: "volume_summary list"
  su_env :: "env_summary list"
  su_command :: "string list"
  su_args :: "string list"
  su_ports :: "port_summary list"
  su_idleTimeout :: rat
  su_sshEnabled :: bool
  su_nodeSelector :: "(string \<times> string) list"
  su_egressUnrestricted :: bool
  su_phase :: "string option"
  su_phaseReason :: "string option"
  su_endpoints :: "(string \<times> string) list"
  su_conditions :: "(string \<times> string \<times> string \<times> string) list"
  su_sshClientKeySecret :: "string option"
  su_jupyterTokenSecret :: "(string \<times> string) option"

definition num :: "rat option \<Rightarrow> rat" where
  "num v = nullish v 0"

definition source_ref :: "string \<Rightarrow> key_ref \<Rightarrow> string" where
  "source_ref kind r = kind @ '' '' @ nullish (fst r) ''?'' @ ''/'' @ nullish (snd r) ''?''"

definition envSource :: "env_source \<Rightarrow> string" where
  "envSource v =
     (case es_secretKeyRef v of
        Some r \<Rightarrow> source_ref ''secretKeyRef'' r
      | None \<Rightarrow>
     (case es_configMapKeyRef v of
        Some r \<Rightarrow> source_ref ''configMapKeyRef'' r
      | None \<Rightarrow>
     (case es_fieldRef v of
        Some p \<Rightarrow> ''fieldRef '' @ nullish p ''?''
      | None \<Rightarrow>
     (case es_resourceFieldRef v of
        Some p \<Rightarrow> ''resourceFieldRef '' @ nullish p ''?''
      | None \<Rightarrow> ''valueFrom''))))"

definition project_type :: "string option \<Rightarrow> env_type" where
  "project_type t = (if t = Some ''jupyter'' then Jupyter else if t = Some ''vscode'' then Vscode else Ssh)"

definition trimmed :: "string option \<Rightarrow> string option" where
  "trimmed s = or_undef (map_option trim s)"

definition project_gpu :: "gpu_block \<Rightarrow> gpu_summary" where
  "project_gpu g =
     \<lparr>gs_vendor = (if gb_vendor g = Some ''metax'' then Metax else Nvidia),
      gs_count = (if num (gb_count g) = 0 then 1 else num (gb_count g)),
      gs_model = trimmed (gb_model g)\<rparr>"

definition project_storage :: "storage_block \<Rightarrow> storage_summary" where
  "project_storage s =
     \<lparr>sts_size = nullish (st_size s) ''10Gi'',
      sts_mountPath = trimmed (st_mountPath s),
      sts_pvcRetention = (if st_pvcRetention s = Some ''retain'' then Retain else Delete)\<rparr>"

definition project_volume :: "volume_entry \<Rightarrow> volume_summary" where
  "project_volume v =
     \<lparr>vs_name = nullish (vo_name v) [], vs_pvcName = nullish (vo_pvcName v) [],
      vs_mountPath = nullish (vo_mountPath v) [], vs_readOnly = nullish (vo_readOnly v) False\<rparr>"

definition project_env :: "env_entry \<Rightarrow> env_summary" where
  "project_env e =
     \<lparr>ens_name = nullish (en_name e) [], ens_hasValue = (en_value e \<noteq> None),
      ens_valueFrom = map_option envSource (en_valueFrom e)\<rparr>"

definition project_port :: "port_entry \<Rightarrow> port_summary" where
  "project_port p =
     \<lparr>ps_name = nullish (po_name p) [],
      ps_type = (if po_type p = Some ''tcp'' then Tcp else if po_type p = Some ''udp'' then Udp else Http),
      ps_containerPort = num (po_containerPort p)\<rparr>"

definition project_token :: "string option \<Rightarrow> secret_ref option \<Rightarrow> (string \<times> string) option" where
  "project_token namespace r =
     (case r of
        None \<Rightarrow> None
      | Some ref \<Rightarrow>
          (if truthy (sr_name ref)
           then Some (the (sr_name ref), nullish (sr_namespace ref) (nullish namespace []))
           else None))"

definition project :: "dev_env \<Rightarrow> dev_summary" where
  "project env =
     (let meta = nullish (de_meta env) empty_meta; spec = nullish (de_spec env) empty_spec;
          status = nullish (de_status env) empty_status; runtime = nullish (sp_runtime spec) empty_runtime
      in \<lparr>su_name = nullish (me_name meta) ''?'',
          su_namespace = nullish (me_namespace meta) [],
          su_createdAt = me_created meta,
          su_type = project_type (sp_type spec),
          su_image = sp_image spec,
          su_running = nullish (sp_running spec) False,
          su_gpu = map_option project_gpu (sp_gpu spec),
          su_cpu = sp_cpu spec,
          su_memory = sp_memory spec,
          su_storage = map_option project_storage (sp_storage spec),
          su_volumes = map project_volume (nullish (sp_volumes spec) []),
          su_env = filter (\<lambda>e. ens_name e \<noteq> []) (map project_env (nullish (rt_env runtime) [])),
          su_command = nullish (rt_command runtime) [],
          su_args = nullish (rt_args runtime) [],
          su_ports = map project_port (nullish (sp_ports spec) []),
          su_idleTimeout = num (sp_idleTimeout spec),
          su_sshEnabled = (case sp_ssh spec of None \<Rightarrow> False | Some s \<Rightarrow> nullish (sh_enabled s) False),
          su_nodeSelector = nullish (sp_nodeSelector spec) [],
          su_egressUnrestricted =
            (case sp_network spec of None \<Rightarrow> False | Some n \<Rightarrow> nw_egress n = Some (Some True)),
          su_phase = ss_phase status,
          su_phaseReason = ss_phaseReason status,
          su_endpoints = map (\<lambda>(n, a). (nullish n [], nullish a [])) (nullish (ss_endpoints status) []),
          su_conditions = map (\<lambda>c. (nullish (co_type c) ''?'', nullish (co_status c) ''Unknown'',
            nullish (co_reason c) [], nullish (co_message c) [])) (nullish (ss_conditions status) []),
          su_sshClientKeySecret =
            (case ss_sshClientKeySecret status of None \<Rightarrow> None | Some r \<Rightarrow> sr_name r),
          su_jupyterTokenSecret = project_token (me_namespace meta) (ss_jupyterTokenSecret status)\<rparr>)"

section \<open>The image catalogue\<close>

datatype image_vendor = Cpu_Image | Nvidia_Image | Metax_Image

record dev_image =
  im_tag :: string
  im_label :: string
  im_user :: string
  im_runAsGroup :: "rat option"
  im_interface :: env_type
  im_vendor :: image_vendor

definition DEFAULT_REGISTRY :: string where
  "DEFAULT_REGISTRY = ''harbor.isuanova.com''"

definition REGISTRY :: "env \<Rightarrow> string" where
  "REGISTRY env =
     (let r = strip_trailing CHR ''/'' (trim (nullish (env ''CUBESTACK_DEV_IMAGE_REGISTRY'') []))
      in if r \<noteq> [] then r else DEFAULT_REGISTRY)"

text \<open>The six published images; the labels separate their parts with a middle dot.\<close>

definition label_text :: "string list \<Rightarrow> string" where
  "label_text parts = join [CHR '' '', CHR 0xB7, CHR '' ''] parts"

definition published_image :: "env \<Rightarrow> string \<Rightarrow> string \<Rightarrow> string \<Rightarrow> env_type \<Rightarrow> image_vendor \<Rightarrow> dev_image" where
  "published_image env repo stack mode i v =
     \<lparr>im_tag = REGISTRY env @ ''/suanova/'' @ repo @ '':latest'',
      im_label = label_text [''suanova/'' @ repo, stack, mode @ '' (ubuntu)''],
      im_user = ''ubuntu'', im_runAsGroup = None, im_interface = i, im_vendor = v\<rparr>"

definition DEV_IMAGES :: "env \<Rightarrow> dev_image list" where
  "DEV_IMAGES env =
     [published_image env ''cpu-pytorch'' ''CPU'' ''JupyterLab'' Jupyter Cpu_Image,
      published_image env ''cpu-pytorch'' ''CPU'' ''SSH'' Ssh Cpu_Image,
      published_image env ''cuda-pytorch'' ''NVIDIA CUDA'' ''JupyterLab'' Jupyter Nvidia_Image,
      published_image env ''cuda-pytorch'' ''NVIDIA CUDA'' ''SSH'' Ssh Nvidia_Image,
      published_image env ''maca-pytorch'' ''Metax MACA'' ''JupyterLab'' Jupyter Metax_Image,
      published_image env ''maca-pytorch'' ''Metax MACA'' ''SSH'' Ssh Metax_Image]"

definition devImageFor :: "env \<Rightarrow> string \<Rightarrow> dev_image option" where
  "devImageFor env tag = find (\<lambda>image. im_tag image = tag) (DEV_IMAGES env)"

section \<open>Command lines\<close>

abbreviation DQ :: char where "DQ \<equiv> CHR 0x22"
abbreviation SQ :: char where "SQ \<equiv> CHR 0x27"

fun split_loop :: "string \<Rightarrow> string \<Rightarrow> char option \<Rightarrow> bool \<Rightarrow> string list \<Rightarrow> string list option" where
  "split_loop [] current quote started argv =
     (if quote \<noteq> None then None else Some (if started then argv @ [current] else argv))"
| "split_loop (ch # input) current quote started argv =
     (case quote of
        Some q \<Rightarrow>
          (if ch = q then split_loop input current None started argv
           else split_loop input (current @ [ch]) quote started argv)
      | None \<Rightarrow>
          (if ch = DQ \<or> ch = SQ then split_loop input current (Some ch) True argv
           else if js_space ch then split_loop input [] None False (if started then argv @ [current] else argv)
           else split_loop input (current @ [ch]) None True argv))"

definition splitArgs :: "string \<Rightarrow> string list option" where
  "splitArgs input = split_loop input [] None False []"

section \<open>Volume names\<close>

definition volumeNameBase :: "string \<Rightarrow> string" where
  "volumeNameBase pvcName =
     (let slug = take 57 (strip_ends CHR ''-'' (collapse_runs lower_alnum CHR ''-'' (toLowerCase (trim pvcName))))
      in if slug \<noteq> [] then slug else ''volume'')"

definition numbered :: "string \<Rightarrow> nat \<Rightarrow> string" where
  "numbered base n = base @ ''-'' @ nat_to_string n"

lemma numbered_inject [simp]: "numbered base m = numbered base n \<longleftrightarrow> m = n"
  by (simp add: numbered_def nat_to_string_inject)

text \<open>The numbers that are still taken from \<open>n\<close> on: the search for a free name ends because there are
  finitely many.\<close>

definition taken_from :: "string \<Rightarrow> string list \<Rightarrow> nat \<Rightarrow> nat set" where
  "taken_from base names n = {m. n \<le> m \<and> numbered base m \<in> set names}"

lemma finite_taken_from [simp]: "finite (taken_from base names n)"
  by (rule finite_subset [of _ "numbered base -` set names"])
    (auto simp: taken_from_def intro!: finite_vimageI injI)

lemma taken_from_shrinks:
  "numbered base n \<in> set names \<Longrightarrow> card (taken_from base names (Suc n)) < card (taken_from base names n)"
proof (rule psubset_card_mono)
  assume "numbered base n \<in> set names"
  then have "n \<in> taken_from base names n" and "n \<notin> taken_from base names (Suc n)"
    by (simp_all add: taken_from_def)
  moreover have "taken_from base names (Suc n) \<subseteq> taken_from base names n" by (auto simp: taken_from_def)
  ultimately show "taken_from base names (Suc n) \<subset> taken_from base names n" by blast
qed simp

function free_name :: "string \<Rightarrow> string list \<Rightarrow> nat \<Rightarrow> string" where
  "free_name base names n =
     (if numbered base n \<in> set names then free_name base names (Suc n) else numbered base n)"
  by pat_completeness auto
termination
  by (relation "measure (\<lambda>(base, names, n). card (taken_from base names n))") (auto intro: taken_from_shrinks)

declare free_name.simps [simp del]

definition volume_name :: "string \<Rightarrow> string list \<Rightarrow> string" where
  "volume_name pvcName names =
     (let base = volumeNameBase pvcName in if base \<in> set names then free_name base names 2 else base)"

section \<open>The request\<close>

record dev_body =
  cb_namespace :: "string option"
  cb_name :: "string option"
  cb_type :: "string option"
  cb_image :: "string option"
  cb_accelerator :: "string option"
  cb_gpuCount :: "rat option"
  cb_gpuModel :: "string option"
  cb_cpu :: "string option"
  cb_memory :: "string option"
  cb_storageGi :: "rat option"
  cb_pvcRetention :: "string option"
  cb_idleTimeout :: "rat option"
  cb_runtimeUser :: "string option"
  cb_runAsUser :: "rat option"
  cb_runAsGroup :: "rat option"
  cb_sudo :: "bool option"
  cb_mountPath :: "string option"
  cb_volumes :: "(string option \<times> string option) list option"
  cb_env :: "(string option \<times> string option) list option"
  cb_command :: "string option"
  cb_args :: "string option"
  cb_ports :: "(string option \<times> rat option \<times> string option) list option"
  cb_rdmaEnabled :: "bool option"
  cb_rdmaType :: "string option"
  cb_egressUnrestricted :: "bool option"
  cb_nodeName :: "string option"
  cb_sshEnabled :: "bool option"
  cb_sshKeys :: "string option"

text \<open>The codes of a refused request with the values their sentence needs; the constants among them
  (the list of types, a bound) are left out.\<close>

datatype dev_error =
    NameInvalid | NamespaceImageRequired | TypeInvalid | AcceleratorInvalid | GpuCountInvalid
  | GpuModelInvalid | StorageInvalid | IdleTimeoutInvalid
  | RuntimeUserInvalid | RootAccountMismatch | RunAsIdInvalid string
  | MountPathInvalid | MountPathWithoutStorage | PvcRetentionInvalid | PvcRetentionWithoutStorage
  | VolumeIncomplete | VolumePathInvalid string | VolumePathDuplicate string
  | EnvNameRequired | EnvNameInvalid string | EnvNameDuplicate string | EnvHomeNotAbsolute
  | CommandUnbalanced | ArgsUnbalanced
  | PortNameRequired | PortNameDuplicate string | PortTypeInvalid | PortNumberInvalid | PortInUse rat
  | RdmaTypeInvalid | NodeNameInvalid string
  | SshKeysTooMany | SshKeyInvalid | NameTooLong
  | NamespaceMissing string | NameTaken string

definition name_word :: "char \<Rightarrow> bool" where
  "name_word c \<longleftrightarrow> lower_alpha c \<or> upper_alpha c \<or> digit c"

definition DNS_LABEL_RE :: rx where
  "DNS_LABEL_RE = Seq (Cls lower_alpha) (Opt (Seq (UpTo 61 (Cls label_char)) (Cls lower_alnum)))"

definition RUNTIME_USER_RE :: rx where
  "RUNTIME_USER_RE = Seq (Cls (\<lambda>c. lower_alpha c \<or> c = CHR ''_''))
     (Star (Cls (\<lambda>c. lower_alnum c \<or> c = CHR ''_'' \<or> c = CHR ''-'')))"

definition GPU_MODEL_RE :: rx where
  "GPU_MODEL_RE = label_rx name_word (\<lambda>c. name_word c \<or> c \<in> set ''-_.'') name_word"

definition NODE_NAME_RE :: rx where
  "NODE_NAME_RE = label_rx lower_alnum (\<lambda>c. lower_alnum c \<or> c \<in> set ''-.'') lower_alnum"

definition ENV_NAME_RE :: rx where
  "ENV_NAME_RE = Seq (Cls (\<lambda>c. lower_alpha c \<or> upper_alpha c \<or> c \<in> set ''-._''))
     (Star (Cls (\<lambda>c. name_word c \<or> c \<in> set ''-._'')))"

definition curve_rx :: rx where
  "curve_rx = Alts [Lit ''256'', Lit ''384'', Lit ''521'']"

definition key_type_rx :: rx where
  "key_type_rx = Alts
     [Seq (Lit ''ssh-'') (Alts [Lit ''rsa'', Lit ''dss'', Lit ''ed25519'', Lit ''ed25519@openssh.com'']),
      Seq (Lit ''ecdsa-sha2-nistp'') curve_rx,
      Seq (Lit ''sk-'') (Seq (Alts [Lit ''ssh-ed25519'', Seq (Lit ''ecdsa-sha2-nistp'') curve_rx])
        (Lit ''@openssh.com''))]"

definition OPENSSH_PUB_KEY_RE :: rx where
  "OPENSSH_PUB_KEY_RE =
     Seq key_type_rx (Seq (Plus (Cls js_space))
       (Seq (AtLeast 16 (Cls (\<lambda>c. name_word c \<or> c = CHR ''+'' \<or> c = CHR ''/'')))
       (Seq (UpTo 2 (Chr CHR ''=''))
         (Opt (Seq (Plus (Cls js_space)) (Seq (Cls (\<lambda>c. \<not> js_space c))
           (Star (Cls (\<lambda>c. c \<noteq> LF \<and> c \<noteq> CR)))))))))"

definition RUNTIME_USER_MAX :: nat where "RUNTIME_USER_MAX = 32"
definition RUN_AS_ID_MAX :: rat where "RUN_AS_ID_MAX = 2147483647"
definition IDLE_TIMEOUT_MAX :: rat where "IDLE_TIMEOUT_MAX = 2147483647"
definition GPU_MODEL_MAX :: nat where "GPU_MODEL_MAX = 63"
definition NODE_NAME_MAX :: nat where "NODE_NAME_MAX = 63"
definition SSH_KEYS_MAX :: nat where "SSH_KEYS_MAX = 50"
definition SSH_KEYS_SECRET_SUFFIX :: string where "SSH_KEYS_SECRET_SUFFIX = ''-ssh-user-keys''"
definition SSH_KEYS_DATA_KEY :: string where "SSH_KEYS_DATA_KEY = ''authorized_keys''"

definition DEVENV_TYPES :: "string list" where "DEVENV_TYPES = [''jupyter'', ''ssh'', ''vscode'']"
definition ACCELERATORS :: "string list" where "ACCELERATORS = [''none'', ''nvidia'', ''metax'']"
definition PORT_TYPES :: "string list" where "PORT_TYPES = [''http'', ''tcp'', ''udp'']"
definition RDMA_TYPES :: "string list" where "RDMA_TYPES = [''roce'', ''infiniband'']"
definition PVC_RETENTIONS :: "string list" where "PVC_RETENTIONS = [''retain'', ''delete'']"

text \<open>\<open>Number.isInteger\<close>, and what the handler derives from the fields of the body.\<close>

definition is_integer :: "rat \<Rightarrow> bool" where
  "is_integer q \<longleftrightarrow> of_int \<lfloor>q\<rfloor> = q"

definition text_field :: "string option \<Rightarrow> string" where
  "text_field s = trim (nullish s [])"

definition accelerator :: "dev_body \<Rightarrow> string" where
  "accelerator b = nullish (cb_accelerator b) ''none''"

definition gpuEnabled :: "dev_body \<Rightarrow> bool" where
  "gpuEnabled b \<longleftrightarrow> accelerator b \<noteq> ''none''"

definition gpuCount :: "dev_body \<Rightarrow> rat" where
  "gpuCount b = nullish (cb_gpuCount b) 1"

definition idleTimeout :: "dev_body \<Rightarrow> rat" where
  "idleTimeout b = nullish (cb_idleTimeout b) 0"

definition workspacePath :: "dev_body \<Rightarrow> string" where
  "workspacePath b = text_field (cb_mountPath b)"

definition pvcRetention :: "dev_body \<Rightarrow> string" where
  "pvcRetention b = nullish (cb_pvcRetention b) ''delete''"

definition rdmaType :: "dev_body \<Rightarrow> string" where
  "rdmaType b = nullish (cb_rdmaType b) ''roce''"

section \<open>The checks, in their order\<close>

definition basics_error :: "dev_body \<Rightarrow> dev_error option" where
  "basics_error b =
     (if \<not> truthy (cb_name b) \<or> \<not> rx_match DNS_LABEL_RE (the (cb_name b)) then Some NameInvalid
      else if \<not> truthy (cb_namespace b) \<or> text_field (cb_image b) = [] then Some NamespaceImageRequired
      else if \<not> truthy (cb_type b) \<or> the (cb_type b) \<notin> set DEVENV_TYPES then Some TypeInvalid
      else if accelerator b \<notin> set ACCELERATORS then Some AcceleratorInvalid
      else if gpuEnabled b \<and> (\<not> is_integer (gpuCount b) \<or> gpuCount b < 1 \<or> 16 < gpuCount b)
        then Some GpuCountInvalid
      else if gpuEnabled b \<and> text_field (cb_gpuModel b) \<noteq> [] \<and>
          (GPU_MODEL_MAX < length (text_field (cb_gpuModel b)) \<or> \<not> rx_match GPU_MODEL_RE (text_field (cb_gpuModel b)))
        then Some GpuModelInvalid
      else if cb_storageGi b \<noteq> None \<and> (the (cb_storageGi b) < 20 \<or> 800 < the (cb_storageGi b))
        then Some StorageInvalid
      else if \<not> is_integer (idleTimeout b) \<or> idleTimeout b < 0 \<or> IDLE_TIMEOUT_MAX < idleTimeout b
        then Some IdleTimeoutInvalid
      else None)"

definition run_as_bad :: "rat option \<Rightarrow> bool" where
  "run_as_bad v = (case v of None \<Rightarrow> False | Some q \<Rightarrow> \<not> is_integer q \<or> q < 0 \<or> RUN_AS_ID_MAX < q)"

definition identity_error :: "dev_body \<Rightarrow> dev_error option" where
  "identity_error b =
     (if truthy (cb_runtimeUser b) \<and> (RUNTIME_USER_MAX < length (the (cb_runtimeUser b)) \<or>
          \<not> rx_match RUNTIME_USER_RE (the (cb_runtimeUser b))) then Some RuntimeUserInvalid
      else if cb_runtimeUser b = Some ''root'' \<and> cb_runAsUser b \<noteq> Some 0 then Some RootAccountMismatch
      else if run_as_bad (cb_runAsUser b) then Some (RunAsIdInvalid ''runAsUser'')
      else if run_as_bad (cb_runAsGroup b) then Some (RunAsIdInvalid ''runAsGroup'')
      else None)"

definition mountable :: "string \<Rightarrow> bool" where
  "mountable path \<longleftrightarrow> startsWith path ''/'' \<and> path \<noteq> ''/''"

definition storage_error :: "dev_body \<Rightarrow> dev_error option" where
  "storage_error b =
     (if workspacePath b \<noteq> [] \<and> \<not> mountable (workspacePath b) then Some MountPathInvalid
      else if workspacePath b \<noteq> [] \<and> cb_storageGi b = None then Some MountPathWithoutStorage
      else if pvcRetention b \<notin> set PVC_RETENTIONS then Some PvcRetentionInvalid
      else if cb_pvcRetention b \<noteq> None \<and> cb_storageGi b = None then Some PvcRetentionWithoutStorage
      else None)"

record new_volume =
  nv_name :: string
  nv_pvcName :: string
  nv_mountPath :: string

text \<open>The sets of names and paths that are in use are lists here.\<close>

fun volumes_loop ::
    "(string option \<times> string option) list \<Rightarrow> string list \<Rightarrow> string list \<Rightarrow> new_volume list \<Rightarrow>
     dev_error + new_volume list" where
  "volumes_loop [] volumeNames mountedPaths volumes = Inr volumes"
| "volumes_loop ((p, m) # rows) volumeNames mountedPaths volumes =
     (let pvcName = text_field p; mountPath = text_field m
      in if pvcName = [] \<and> mountPath = [] then volumes_loop rows volumeNames mountedPaths volumes
         else if pvcName = [] \<or> mountPath = [] then Inl VolumeIncomplete
         else if \<not> mountable mountPath then Inl (VolumePathInvalid mountPath)
         else if mountPath \<in> set mountedPaths then Inl (VolumePathDuplicate mountPath)
         else (let name = volume_name pvcName volumeNames
               in volumes_loop rows (name # volumeNames) (mountPath # mountedPaths)
                    (volumes @ [\<lparr>nv_name = name, nv_pvcName = pvcName, nv_mountPath = mountPath\<rparr>])))"

definition request_volumes :: "dev_body \<Rightarrow> dev_error + new_volume list" where
  "request_volumes b =
     volumes_loop (nullish (cb_volumes b) []) [] (if workspacePath b \<noteq> [] then [workspacePath b] else []) []"

fun env_loop ::
    "(string option \<times> string option) list \<Rightarrow> string list \<Rightarrow> (string \<times> string) list \<Rightarrow>
     dev_error + (string \<times> string) list" where
  "env_loop [] envNames env = Inr env"
| "env_loop ((n, v) # rows) envNames env =
     (let name = text_field n; val = nullish v []
      in if name = [] \<and> val = [] then env_loop rows envNames env
         else if name = [] then Inl EnvNameRequired
         else if \<not> rx_match ENV_NAME_RE name then Inl (EnvNameInvalid name)
         else if name \<in> set envNames then Inl (EnvNameDuplicate name)
         else if name = ''HOME'' \<and> \<not> startsWith val ''/'' then Inl EnvHomeNotAbsolute
         else env_loop rows (name # envNames) (env @ [(name, val)]))"

definition request_env :: "dev_body \<Rightarrow> dev_error + (string \<times> string) list" where
  "request_env b = env_loop (nullish (cb_env b) []) [] []"

definition request_argv :: "dev_error \<Rightarrow> string option \<Rightarrow> dev_error + string list" where
  "request_argv unbalanced line =
     (if text_field line = [] then Inr []
      else case splitArgs (text_field line) of None \<Rightarrow> Inl unbalanced | Some argv \<Rightarrow> Inr argv)"

record new_port =
  np_name :: string
  np_type :: string
  np_containerPort :: rat

definition port_bad :: "rat option \<Rightarrow> bool" where
  "port_bad q = (case q of None \<Rightarrow> True | Some n \<Rightarrow> \<not> is_integer n \<or> n < 1 \<or> 65535 < n)"

fun ports_loop ::
    "(string option \<times> rat option \<times> string option) list \<Rightarrow> string list \<Rightarrow> rat list \<Rightarrow> new_port list \<Rightarrow>
     dev_error + new_port list" where
  "ports_loop [] portNames l4Ports ports = Inr ports"
| "ports_loop ((n, containerPort, ty) # rows) portNames l4Ports ports =
     (let name = text_field n; typ = (if text_field ty \<noteq> [] then text_field ty else ''http'')
      in if name = [] \<and> containerPort = None then ports_loop rows portNames l4Ports ports
         else if name = [] then Inl PortNameRequired
         else if name \<in> set portNames then Inl (PortNameDuplicate name)
         else if typ \<notin> set PORT_TYPES then Inl PortTypeInvalid
         else if port_bad containerPort then Inl PortNumberInvalid
         else if typ \<noteq> ''http'' \<and> the containerPort \<in> set l4Ports then Inl (PortInUse (the containerPort))
         else ports_loop rows (name # portNames)
                (if typ \<noteq> ''http'' then the containerPort # l4Ports else l4Ports)
                (ports @ [\<lparr>np_name = name, np_type = typ, np_containerPort = the containerPort\<rparr>]))"

definition request_ports :: "dev_body \<Rightarrow> dev_error + new_port list" where
  "request_ports b = ports_loop (nullish (cb_ports b) []) [] [] []"

definition network_error :: "dev_body \<Rightarrow> dev_error option" where
  "network_error b =
     (if cb_rdmaEnabled b = Some True \<and> rdmaType b \<notin> set RDMA_TYPES then Some RdmaTypeInvalid
      else if text_field (cb_nodeName b) \<noteq> [] \<and> (NODE_NAME_MAX < length (text_field (cb_nodeName b)) \<or>
          \<not> rx_match NODE_NAME_RE (text_field (cb_nodeName b)))
        then Some (NodeNameInvalid (text_field (cb_nodeName b)))
      else None)"

definition key_lines :: "string option \<Rightarrow> string list" where
  "key_lines keys = filter (\<lambda>l. l \<noteq> []) (map trim (split_char LF (nullish keys [])))"

text \<open>The user's keys: none when the switch is off or no line is filled.\<close>

definition request_keys :: "dev_body \<Rightarrow> dev_error + string list" where
  "request_keys b =
     (let lines = key_lines (cb_sshKeys b)
      in if cb_sshEnabled b \<noteq> Some True \<or> lines = [] then Inr []
         else if SSH_KEYS_MAX < length lines then Inl SshKeysTooMany
         else if \<exists>l\<in>set lines. \<not> rx_match OPENSSH_PUB_KEY_RE l then Inl SshKeyInvalid
         else if 63 < length (nullish (cb_name b) []) + length SSH_KEYS_SECRET_SUFFIX then Inl NameTooLong
         else Inr lines)"

record parsed =
  pr_volumes :: "new_volume list"
  pr_env :: "(string \<times> string) list"
  pr_command :: "string list"
  pr_args :: "string list"
  pr_ports :: "new_port list"
  pr_keys :: "string list"

definition first_error :: "'e option \<Rightarrow> 'e + 'a \<Rightarrow> 'e + 'a" where
  "first_error e k = (case e of Some x \<Rightarrow> Inl x | None \<Rightarrow> k)"

definition and_then :: "'e + 'a \<Rightarrow> ('a \<Rightarrow> 'e + 'b) \<Rightarrow> 'e + 'b" where
  "and_then r k = (case r of Inl e \<Rightarrow> Inl e | Inr x \<Rightarrow> k x)"

definition parse_request :: "dev_body \<Rightarrow> dev_error + parsed" where
  "parse_request b =
     first_error (basics_error b) (first_error (identity_error b) (first_error (storage_error b)
       (and_then (request_volumes b) (\<lambda>vs.
        and_then (request_env b) (\<lambda>es.
        and_then (request_argv CommandUnbalanced (cb_command b)) (\<lambda>command.
        and_then (request_argv ArgsUnbalanced (cb_args b)) (\<lambda>args.
        and_then (request_ports b) (\<lambda>ps.
        first_error (network_error b)
        (and_then (request_keys b) (\<lambda>keys.
          Inr \<lparr>pr_volumes = vs, pr_env = es, pr_command = command, pr_args = args, pr_ports = ps,
            pr_keys = keys\<rparr>))))))))))"

section \<open>Command lines: the round trip\<close>

text \<open>A quotation that every argument has: each character in quotes of the other kind.\<close>

definition quote_char :: "char \<Rightarrow> string" where
  "quote_char c = (if c = DQ then [SQ, DQ, SQ] else [DQ, c, DQ])"

definition shell_quote :: "string \<Rightarrow> string" where
  "shell_quote a = (if a = [] then [DQ, DQ] else concat (map quote_char a))"

lemma split_loop_quote_char:
  "split_loop (quote_char c @ s) current None started argv = split_loop s (current @ [c]) None True argv"
  by (simp add: quote_char_def)

lemma split_loop_word:
  "split_loop (concat (map quote_char a) @ s) current None started argv =
     split_loop s (current @ a) None (started \<or> a \<noteq> []) argv"
proof (induction a arbitrary: current started)
  case (Cons c a)
  then show ?case using split_loop_quote_char by simp
qed simp

lemma split_loop_shell_quote:
  "split_loop (shell_quote a @ s) [] None False argv = split_loop s a None True argv"
  by (cases "a = []") (simp_all add: shell_quote_def split_loop_word)

lemma split_loop_argv:
  "split_loop (join '' '' (map shell_quote as)) [] None False argv = Some (argv @ as)"
proof (induction as arbitrary: argv)
  case (Cons a as)
  have space: "js_space CHR '' ''" by (simp add: js_space_def)
  show ?case
  proof (cases "as = []")
    case True
    then show ?thesis using split_loop_shell_quote [of a "[]"] by simp
  next
    case False
    have "split_loop (join '' '' (map shell_quote (a # as))) [] None False argv =
        split_loop (CHR '' '' # join '' '' (map shell_quote as)) a None True argv"
      using False split_loop_shell_quote by (simp add: join_Cons)
    then show ?thesis using space Cons.IH by simp
  qed
qed simp

text \<open>No argument list is out of reach of a command line: quoting the arguments and separating them
  with spaces gives a line that the parser splits back into exactly those arguments, empty ones and
  ones with spaces or quotes included.\<close>

theorem splitArgs_roundtrip: "splitArgs (join '' '' (map shell_quote argv)) = Some argv"
  using split_loop_argv [of argv "[]"] by (simp add: splitArgs_def)

lemma split_ws_space:
  assumes "js_space c"
  shows "filter (\<lambda>w. w \<noteq> []) (split_ws (c # s)) = filter (\<lambda>w. w \<noteq> []) (split_ws s)"
proof (cases "dropWhile js_space s = s")
  case True
  then show ?thesis using assms by (subst split_ws.simps) (simp add: Let_def)
next
  case False
  then obtain d s' where s: "s = d # s'" "js_space d" by (cases s) (auto split: if_splits)
  have "split_ws (c # s) = [] # split_ws (dropWhile js_space s)"
    using assms by (subst split_ws.simps) (simp add: Let_def)
  moreover have "split_ws s = [] # split_ws (dropWhile js_space s)"
    using s by (subst split_ws.simps) (simp add: Let_def)
  ultimately show ?thesis by simp
qed

lemma split_ws_word:
  assumes "\<forall>c\<in>set w. \<not> js_space c" and "s = [] \<or> js_space (hd s)" and "w \<noteq> []"
  shows "filter (\<lambda>w. w \<noteq> []) (split_ws (w @ s)) = w # filter (\<lambda>w. w \<noteq> []) (split_ws s)"
proof (cases s)
  case Nil
  have w: "takeWhile (\<lambda>c. \<not> js_space c) w = w" "dropWhile (\<lambda>c. \<not> js_space c) w = []"
    using assms(1) by simp_all
  from Nil assms(3) show ?thesis
    by (subst split_ws.simps) (simp add: Let_def w split_ws.simps [of "[]"])
next
  case (Cons c s')
  with assms have "takeWhile (\<lambda>c. \<not> js_space c) (w @ s) = w" "dropWhile (\<lambda>c. \<not> js_space c) (w @ s) = s"
    by (simp_all add: takeWhile_append2 dropWhile_append2)
  then have "split_ws (w @ s) = w # split_ws (dropWhile js_space s)"
    using Cons by (subst split_ws.simps) (simp add: Let_def)
  moreover have "split_ws s = [] # split_ws (dropWhile js_space s)"
    using assms Cons by (subst split_ws.simps) (simp add: Let_def)
  ultimately show ?thesis using assms by simp
qed

lemma split_loop_unquoted:
  assumes "DQ \<notin> set s" and "SQ \<notin> set s" and "\<forall>c\<in>set current. \<not> js_space c" and "started \<longleftrightarrow> current \<noteq> []"
  shows "split_loop s current None started argv = Some (argv @ filter (\<lambda>w. w \<noteq> []) (split_ws (current @ s)))"
  using assms
proof (induction s arbitrary: current started argv)
  case Nil
  then show ?case using split_ws_word [of current "[]"] by (auto simp: split_ws.simps [of "[]"])
next
  case (Cons c s)
  then have q: "c \<noteq> DQ" "c \<noteq> SQ" by auto
  show ?case
  proof (cases "js_space c")
    case True
    have "split_loop s [] None False as = Some (as @ filter (\<lambda>w. w \<noteq> []) (split_ws s))" for as
      using Cons.IH [of "[]" False as] Cons.prems by simp
    with True q have "split_loop (c # s) current None started argv =
        Some ((if started then argv @ [current] else argv) @ filter (\<lambda>w. w \<noteq> []) (split_ws s))" by simp
    moreover have "filter (\<lambda>w. w \<noteq> []) (split_ws (current @ c # s)) =
        (if started then [current] else []) @ filter (\<lambda>w. w \<noteq> []) (split_ws s)"
      using Cons.prems True split_ws_space split_ws_word [of current "c # s"] by auto
    ultimately show ?thesis by simp
  next
    case False
    with Cons.IH [of "current @ [c]" True argv] Cons.prems q show ?thesis by simp
  qed
qed

text \<open>On a line without quotes the parser is plain splitting at white space: it returns the words
  \<open>split(/\s+/)\<close> gives, without the empty ones.\<close>

theorem splitArgs_unquoted:
  assumes "DQ \<notin> set s" and "SQ \<notin> set s"
  shows "splitArgs s = Some (filter (\<lambda>w. w \<noteq> []) (split_ws s))"
  using split_loop_unquoted [of s "[]" False "[]"] assms by (simp add: splitArgs_def)

theorem splitArgs_unquoted_witness: "splitArgs ''  run  -v '' = Some [''run'', ''-v'']"
proof -
  have "splitArgs ''  run  -v '' = Some (filter (\<lambda>w. w \<noteq> []) (split_ws ''  run  -v ''))"
    by (rule splitArgs_unquoted) simp_all
  also have "filter (\<lambda>w. w \<noteq> []) (split_ws ''  run  -v '') = [''run'', ''-v'']" by code_simp
  finally show ?thesis .
qed

section \<open>Rows of a request\<close>

text \<open>The contract of the sections that read rows (volumes, variables, ports): what they accept has
  distinct keys and satisfies the section's own condition. An entry is then the only one of its key.\<close>

lemma find_distinct_key: "distinct (map key xs) \<Longrightarrow> x \<in> set xs \<Longrightarrow> find (\<lambda>y. key y = key x) xs = Some x"
  by (induction xs) auto

locale accepted_rows =
  fixes accept :: "'b \<Rightarrow> 'e + 'a list" and key :: "'a \<Rightarrow> 'k" and ok :: "'b \<Rightarrow> 'a \<Rightarrow> bool"
  assumes accept_distinct: "accept b = Inr xs \<Longrightarrow> distinct (map key xs)"
    and accept_ok: "accept b = Inr xs \<Longrightarrow> x \<in> set xs \<Longrightarrow> ok b x"
begin

lemma accept_all: "accept b = Inr xs \<Longrightarrow> list_all (ok b) xs"
  by (simp add: list_all_iff accept_ok)

lemma accept_lookup: "accept b = Inr xs \<Longrightarrow> x \<in> set xs \<Longrightarrow> find (\<lambda>y. key y = key x) xs = Some x"
  by (rule find_distinct_key [OF accept_distinct])

lemma accept_key_inj: "accept b = Inr xs \<Longrightarrow> x \<in> set xs \<Longrightarrow> y \<in> set xs \<Longrightarrow> key x = key y \<Longrightarrow> x = y"
  by (metis accept_lookup option.inject)

end

lemma free_name_fresh: "free_name base names n \<notin> set names"
  by (induction base names n rule: free_name.induct) (subst free_name.simps, auto)

lemma volume_name_fresh: "volume_name p names \<notin> set names"
  by (simp add: volume_name_def Let_def free_name_fresh)

definition volume_ok :: "dev_body \<Rightarrow> new_volume \<Rightarrow> bool" where
  "volume_ok b v \<longleftrightarrow> nv_pvcName v \<noteq> [] \<and> mountable (nv_mountPath v) \<and> nv_mountPath v \<noteq> workspacePath b"

lemma volumes_loop_Inr:
  assumes "volumes_loop rows names paths vs = Inr out"
  shows "\<exists>new. out = vs @ new \<and> distinct (map nv_name new) \<and> set (map nv_name new) \<inter> set names = {} \<and>
    distinct (map nv_mountPath new) \<and> set (map nv_mountPath new) \<inter> set paths = {} \<and>
    (\<forall>v\<in>set new. nv_pvcName v \<noteq> [] \<and> mountable (nv_mountPath v))"
  using assms
proof (induction rows names paths vs rule: volumes_loop.induct)
  case (2 p m rows names paths vs)
  let ?p = "text_field p" and ?m = "text_field m"
  let ?v = "\<lparr>nv_name = volume_name ?p names, nv_pvcName = ?p, nv_mountPath = ?m\<rparr>"
  show ?case
  proof (cases "?p = [] \<and> ?m = []")
    case True
    with 2 show ?thesis by (simp add: Let_def)
  next
    case False
    with "2.prems" have row: "?p \<noteq> []" "?m \<noteq> []" "mountable ?m" "?m \<notin> set paths"
      and rec: "volumes_loop rows (nv_name ?v # names) (?m # paths) (vs @ [?v]) = Inr out"
      by (auto simp: Let_def split: if_splits)
    with False "2.IH"(2) obtain new where new: "out = vs @ ?v # new" "distinct (map nv_name new)"
      "set (map nv_name new) \<inter> set (nv_name ?v # names) = {}" "distinct (map nv_mountPath new)"
      "set (map nv_mountPath new) \<inter> set (?m # paths) = {}"
      "\<forall>v\<in>set new. nv_pvcName v \<noteq> [] \<and> mountable (nv_mountPath v)" by fastforce
    have "nv_name ?v \<notin> set names" using volume_name_fresh by simp
    with row new show ?thesis by (intro exI [of _ "?v # new"]) auto
  qed
qed simp

lemma request_volumes_Inr:
  assumes "request_volumes b = Inr vs"
  shows "distinct (map nv_name vs)" and "distinct (map nv_mountPath vs)" and "v \<in> set vs \<Longrightarrow> volume_ok b v"
proof -
  from volumes_loop_Inr [OF assms [unfolded request_volumes_def]]
  show "distinct (map nv_name vs)" "distinct (map nv_mountPath vs)" by auto
  show "volume_ok b v" if v: "v \<in> set vs"
  proof -
    from volumes_loop_Inr [OF assms [unfolded request_volumes_def]] v
    have m: "nv_pvcName v \<noteq> []" "mountable (nv_mountPath v)"
      "nv_mountPath v \<notin> set (if workspacePath b \<noteq> [] then [workspacePath b] else [])" by auto
    then show ?thesis by (cases "workspacePath b = []") (auto simp: volume_ok_def mountable_def)
  qed
qed

interpretation vol_names: accepted_rows request_volumes nv_name volume_ok
  by unfold_locales (auto intro: request_volumes_Inr)

interpretation vol_paths: accepted_rows request_volumes nv_mountPath volume_ok
  by unfold_locales (auto intro: request_volumes_Inr)

definition env_ok :: "dev_body \<Rightarrow> string \<times> string \<Rightarrow> bool" where
  "env_ok b e \<longleftrightarrow> rx_match ENV_NAME_RE (fst e) \<and> fst e \<noteq> [] \<and> (fst e = ''HOME'' \<longrightarrow> startsWith (snd e) ''/'')"

lemma env_loop_Inr:
  assumes "env_loop rows names es = Inr out"
  shows "\<exists>new. out = es @ new \<and> distinct (map fst new) \<and> set (map fst new) \<inter> set names = {} \<and>
    (\<forall>e\<in>set new. env_ok b e)"
  using assms
proof (induction rows names es rule: env_loop.induct)
  case (2 n v rows names es)
  let ?n = "text_field n" and ?v = "nullish v []"
  show ?case
  proof (cases "?n = [] \<and> ?v = []")
    case True
    with 2 show ?thesis by (simp add: Let_def)
  next
    case False
    with "2.prems" have row: "env_ok b (?n, ?v)" "?n \<notin> set names"
      and rec: "env_loop rows (?n # names) (es @ [(?n, ?v)]) = Inr out"
      by (auto simp: Let_def env_ok_def split: if_splits)
    then obtain new where new: "out = es @ (?n, ?v) # new" "distinct (map fst new)"
      "set (map fst new) \<inter> set (?n # names) = {}" "\<forall>e\<in>set new. env_ok b e"
      using False "2.IH"(2) "2.prems" by (fastforce simp: Let_def split: if_splits)
    with row show ?thesis by (intro exI [of _ "(?n, ?v) # new"]) auto
  qed
qed simp

interpretation env_rows: accepted_rows request_env fst env_ok
proof unfold_locales
  fix b es
  assume "request_env b = Inr es"
  then show "distinct (map fst es)" and "x \<in> set es \<Longrightarrow> env_ok b x" for x
    using env_loop_Inr [of "nullish (cb_env b) []" "[]" "[]" es] by (auto simp: request_env_def)
qed

definition port_ok :: "dev_body \<Rightarrow> new_port \<Rightarrow> bool" where
  "port_ok b p \<longleftrightarrow> np_name p \<noteq> [] \<and> np_type p \<in> set PORT_TYPES \<and> is_integer (np_containerPort p) \<and>
     1 \<le> np_containerPort p \<and> np_containerPort p \<le> 65535"

abbreviation l4_numbers :: "new_port list \<Rightarrow> rat list" where
  "l4_numbers ps \<equiv> map np_containerPort (filter (\<lambda>p. np_type p \<noteq> ''http'') ps)"

lemma ports_loop_Inr:
  assumes "ports_loop rows names l4 ps = Inr out"
  shows "\<exists>new. out = ps @ new \<and> distinct (map np_name new) \<and> set (map np_name new) \<inter> set names = {} \<and>
    distinct (l4_numbers new) \<and> set (l4_numbers new) \<inter> set l4 = {} \<and> (\<forall>p\<in>set new. port_ok b p)"
  using assms
proof (induction rows names l4 ps rule: ports_loop.induct)
  case (2 n q ty rows names l4 ps)
  let ?n = "text_field n" and ?t = "if text_field ty \<noteq> [] then text_field ty else ''http''"
  let ?p = "\<lparr>np_name = ?n, np_type = ?t, np_containerPort = the q\<rparr>"
  show ?case
  proof (cases "?n = [] \<and> q = None")
    case True
    with 2 show ?thesis by (simp add: Let_def)
  next
    case False
    define l4' where "l4' = (if ?t \<noteq> ''http'' then the q # l4 else l4)"
    from False "2.prems" have row: "?n \<noteq> []" "?n \<notin> set names" "?t \<in> set PORT_TYPES" "\<not> port_bad q"
        "\<not> (?t \<noteq> ''http'' \<and> the q \<in> set l4)"
      and rec: "ports_loop rows (?n # names) l4' (ps @ [?p]) = Inr out"
      unfolding l4'_def ports_loop.simps Let_def by (metis Inl_Inr_False)+
    then obtain new where new: "out = ps @ ?p # new" "distinct (map np_name new)"
      "set (map np_name new) \<inter> set (?n # names) = {}" "distinct (l4_numbers new)"
      "set (l4_numbers new) \<inter> set l4' = {}" "\<forall>p\<in>set new. port_ok b p"
      using "2.IH"(2) [of ?n ?t] False by (auto simp: l4'_def)
    from row have "port_ok b ?p" by (auto simp: port_ok_def port_bad_def split: option.splits)
    with row new show ?thesis by (intro exI [of _ "?p # new"]) (auto simp: l4'_def)
  qed
qed simp

lemma request_ports_Inr:
  assumes "request_ports b = Inr ps"
  shows "distinct (map np_name ps)" and "distinct (l4_numbers ps)" and "p \<in> set ps \<Longrightarrow> port_ok b p"
  using ports_loop_Inr [OF assms [unfolded request_ports_def]] by auto

interpretation port_rows: accepted_rows request_ports np_name port_ok
  by unfold_locales (auto intro: request_ports_Inr)

section \<open>Shape of a volume name\<close>

lemma hd_strip_ends_runs:
  fixes s :: string
  defines "b \<equiv> strip_ends CHR ''-'' (collapse_runs lower_alnum CHR ''-'' s)"
  assumes "b \<noteq> []"
  shows "list_all label_char b" and "lower_alnum (hd b)"
proof -
  have sub: "set b \<subseteq> set (collapse_runs lower_alnum CHR ''-'' s)"
    unfolding b_def by (rule set_strip_ends)
  then show all: "list_all label_char b"
    by (auto simp: list_all_iff label_char_def dest!: subsetD dest: set_collapse_runs)
  have "hd b \<noteq> CHR ''-''" using assms(2) strip_ends_hd_last unfolding b_def by blast
  moreover have "label_char (hd b)" using all assms(2) by (cases b) auto
  ultimately show "lower_alnum (hd b)" by (simp add: label_char_def)
qed

text \<open>A derived volume name starts with a letter or digit, has only label characters and at most 57
  of them, and is never empty, so a number can still be appended within the 63 characters of a pod
  volume name; but it can end in a dash, because the text is cut after the dashes at its ends are
  removed, and such a name is not a DNS label.\<close>

theorem volumeNameBase_shape:
  "list_all label_char (volumeNameBase p) \<and> lower_alnum (hd (volumeNameBase p)) \<and>
   volumeNameBase p \<noteq> [] \<and> length (volumeNameBase p) \<le> 57 \<and>
   last (volumeNameBase (replicate 56 CHR ''a'' @ ''-b'')) = CHR ''-''"
proof -
  define b where "b = strip_ends CHR ''-'' (collapse_runs lower_alnum CHR ''-'' (toLowerCase (trim p)))"
  have def: "volumeNameBase p = (if take 57 b \<noteq> [] then take 57 b else ''volume'')"
    by (simp add: volumeNameBase_def b_def Let_def)
  have volume: "list_all label_char ''volume''" "lower_alnum (hd ''volume'')" by code_simp+
  have "last (volumeNameBase (replicate 56 CHR ''a'' @ ''-b'')) = CHR ''-''" by code_simp
  moreover have "list_all label_char (volumeNameBase p) \<and> lower_alnum (hd (volumeNameBase p))"
  proof (cases "b = []")
    case True
    then show ?thesis using volume by (simp add: def)
  next
    case False
    note h = hd_strip_ends_runs [of "toLowerCase (trim p)", folded b_def, OF False]
    from False have "hd (take 57 b) = hd b" "take 57 b \<noteq> []" by (simp_all add: hd_take)
    moreover have "list_all label_char (take 57 b)"
      using h(1) by (auto simp: list_all_iff dest: in_set_takeD)
    ultimately show ?thesis using h(2) by (simp add: def)
  qed
  ultimately show ?thesis by (simp add: def)
qed

end
