(* ===== verification/Dev_Env_Api.thy ===== *)
theory Dev_Env_Api
  imports Dev_Env
begin

text \<open>
  Development environments, the handlers (\<open>app/api/devenvironments/route.ts\<close> and the routes
  \<open>token\<close>, \<open>ssh-key\<close> and \<open>env-values\<close> beside it): listing, creating, starting and stopping,
  deleting, and reading the credentials and variables of one environment. The Kubernetes API is a
  record of answers, and a handler returns its response with the calls it made, in their order.
\<close>

section \<open>The cluster interface\<close>

text \<open>An operation of a JSON patch: \<open>add\<close> of a truth value, or \<open>remove\<close>.\<close>

datatype dev_patch = PatchAdd string bool | PatchRemove string

text \<open>The Secret of the user's keys: its owner reference is the name and uid of the environment, and its
  data the text under the key, which is sent in base64.\<close>

record key_secret =
  ks_name :: string
  ks_namespace :: string
  ks_owner :: "(string \<times> string) option"
  ks_data :: "string \<times> string"

datatype dev_call =
    ListNamespaces | ListEnvs
  | GetEnv string string
  | CreateEnv string dev_env
  | PatchEnv string string "dev_patch list"
  | DeleteEnv string string
  | CreateSecret key_secret
  | ListSecrets string string

text \<open>A creation answers the uid of the object, a read may answer nothing, and a list of Secrets the data
  of each, in base64.\<close>

record dev_api =
  d_namespaces :: "k8s_error + string option list"
  d_list :: "k8s_error + dev_env list"
  d_get :: "string \<Rightarrow> string \<Rightarrow> k8s_error + dev_env option"
  d_create :: "string \<Rightarrow> dev_env \<Rightarrow> k8s_error + string option"
  d_patch :: "string \<Rightarrow> string \<Rightarrow> dev_patch list \<Rightarrow> k8s_error + unit"
  d_delete :: "string \<Rightarrow> string \<Rightarrow> k8s_error + unit"
  d_secret :: "key_secret \<Rightarrow> k8s_error + unit"
  d_secrets :: "string \<Rightarrow> string \<Rightarrow> k8s_error + (string \<times> string) list option list"

datatype dev_answer =
    EnvList "dev_summary list"
  | Refused dev_error
  | NameMissing string
  | Failed string
  | Created string
  | Done

section \<open>Listing\<close>

definition dev_GET :: "(string \<Rightarrow> string \<Rightarrow> int) \<Rightarrow> dev_api \<Rightarrow> dev_answer response \<times> dev_call list" where
  "dev_GET compare api =
     (case d_list api of
        Inl e \<Rightarrow> (answer 500 (Failed ''Failed to load dev environments''), [ListEnvs])
      | Inr items \<Rightarrow>
          (answer 200 (EnvList (sort_newest compare (\<lambda>s. nullish (su_createdAt s) []) (map project items))),
           [ListEnvs]))"

section \<open>Creating\<close>

text \<open>The text of a number: the digits of an integer; \<open>ftext\<close> gives the text of any other.\<close>

definition num_text :: "(rat \<Rightarrow> string) \<Rightarrow> rat \<Rightarrow> string" where
  "num_text ftext q = (if is_integer q \<and> 0 \<le> q then nat_to_string (nat \<lfloor>q\<rfloor>) else ftext q)"

definition request_image :: "dev_body \<Rightarrow> string" where
  "request_image b = text_field (cb_image b)"

definition runAsRoot :: "dev_body \<Rightarrow> bool" where
  "runAsRoot b \<longleftrightarrow> cb_runAsUser b = Some 0"

definition request_user :: "env \<Rightarrow> dev_body \<Rightarrow> string option" where
  "request_user env b =
     (if runAsRoot b then None
      else if truthy (cb_runtimeUser b) then cb_runtimeUser b
      else map_option im_user (devImageFor env (request_image b)))"

definition request_group :: "env \<Rightarrow> dev_body \<Rightarrow> rat option" where
  "request_group env b =
     (if runAsRoot b then Some 0
      else case cb_runAsGroup b of
        Some g \<Rightarrow> Some g
      | None \<Rightarrow> (case devImageFor env (request_image b) of None \<Rightarrow> None | Some i \<Rightarrow> im_runAsGroup i))"

definition request_sudo :: "dev_body \<Rightarrow> bool" where
  "request_sudo b \<longleftrightarrow> \<not> runAsRoot b \<and> cb_sudo b = Some True"

definition request_security :: "env \<Rightarrow> dev_body \<Rightarrow> security_context option" where
  "request_security env b =
     (if cb_runAsUser b = None \<and> request_group env b = None then None
      else Some \<lparr>sc_runAsUser = cb_runAsUser b, sc_runAsGroup = request_group env b\<rparr>)"

definition non_empty :: "'a list \<Rightarrow> 'a list option" where
  "non_empty xs = (if xs = [] then None else Some xs)"

definition request_runtime :: "env \<Rightarrow> dev_body \<Rightarrow> parsed \<Rightarrow> runtime_block option" where
  "request_runtime env b p =
     (if request_user env b = None \<and> request_security env b = None \<and> \<not> request_sudo b \<and>
         pr_env p = [] \<and> pr_command p = [] \<and> pr_args p = [] then None
      else Some
        \<lparr>rt_user = request_user env b, rt_security = request_security env b,
         rt_sudo = (if request_sudo b then Some True else None),
         rt_env = map_option (map (\<lambda>(n, v). \<lparr>en_name = Some n, en_value = Some v, en_valueFrom = None\<rparr>))
           (non_empty (pr_env p)),
         rt_command = non_empty (pr_command p), rt_args = non_empty (pr_args p)\<rparr>)"

definition request_gpu :: "dev_body \<Rightarrow> gpu_block option" where
  "request_gpu b =
     (if gpuEnabled b
      then Some \<lparr>gb_vendor = Some (accelerator b), gb_count = Some (gpuCount b),
        gb_model = (if text_field (cb_gpuModel b) \<noteq> [] then Some (text_field (cb_gpuModel b)) else None)\<rparr>
      else None)"

definition request_storage :: "(rat \<Rightarrow> string) \<Rightarrow> dev_body \<Rightarrow> storage_block option" where
  "request_storage ftext b =
     (case cb_storageGi b of
        None \<Rightarrow> None
      | Some gi \<Rightarrow> Some
          \<lparr>st_size = Some (num_text ftext gi @ ''Gi''),
           st_mountPath = (if workspacePath b \<noteq> [] then Some (workspacePath b) else None),
           st_pvcRetention = (if pvcRetention b = ''retain'' then Some ''retain'' else None)\<rparr>)"

definition request_network :: "dev_body \<Rightarrow> network_block option" where
  "request_network b =
     (let rdma = (cb_rdmaEnabled b = Some True); egress = (cb_egressUnrestricted b = Some True)
      in if rdma \<or> egress
         then Some \<lparr>nw_rdmaEnabled = (if rdma then Some True else None),
           nw_rdmaType = (if rdma then Some (rdmaType b) else None),
           nw_egress = (if egress then Some (Some True) else None)\<rparr>
         else None)"

definition keys_secret_name :: "dev_body \<Rightarrow> string" where
  "keys_secret_name b = nullish (cb_name b) [] @ SSH_KEYS_SECRET_SUFFIX"

definition request_ssh :: "dev_body \<Rightarrow> parsed \<Rightarrow> ssh_block option" where
  "request_ssh b p =
     (if cb_sshEnabled b = Some True
      then Some \<lparr>sh_enabled = Some True,
        sh_authorizedKeys = (if pr_keys p \<noteq> [] then Some (keys_secret_name b, SSH_KEYS_DATA_KEY) else None)\<rparr>
      else None)"

definition HOSTNAME_LABEL :: string where
  "HOSTNAME_LABEL = ''kubernetes.io/hostname''"

definition build_spec :: "(rat \<Rightarrow> string) \<Rightarrow> env \<Rightarrow> dev_body \<Rightarrow> parsed \<Rightarrow> dev_spec" where
  "build_spec ftext env b p =
     \<lparr>sp_type = cb_type b, sp_image = Some (request_image b), sp_running = Some True,
      sp_gpu = request_gpu b, sp_cpu = or_undef (cb_cpu b), sp_memory = or_undef (cb_memory b),
      sp_storage = request_storage ftext b,
      sp_volumes = map_option (map (\<lambda>v. \<lparr>vo_name = Some (nv_name v), vo_pvcName = Some (nv_pvcName v),
        vo_mountPath = Some (nv_mountPath v), vo_readOnly = None\<rparr>)) (non_empty (pr_volumes p)),
      sp_ports = map_option (map (\<lambda>q. \<lparr>po_name = Some (np_name q), po_type = Some (np_type q),
        po_containerPort = Some (np_containerPort q)\<rparr>)) (non_empty (pr_ports p)),
      sp_runtime = request_runtime env b p,
      sp_idleTimeout = Some (idleTimeout b),
      sp_nodeSelector = (if text_field (cb_nodeName b) \<noteq> []
        then Some [(HOSTNAME_LABEL, text_field (cb_nodeName b))] else None),
      sp_network = request_network b,
      sp_ssh = request_ssh b p\<rparr>"

definition build_cr :: "(rat \<Rightarrow> string) \<Rightarrow> env \<Rightarrow> dev_body \<Rightarrow> parsed \<Rightarrow> dev_env" where
  "build_cr ftext env b p =
     \<lparr>de_meta = Some \<lparr>me_name = cb_name b, me_namespace = cb_namespace b, me_created = None,
        me_annotations = None\<rparr>,
      de_spec = Some (build_spec ftext env b p), de_status = None\<rparr>"

definition build_secret :: "dev_body \<Rightarrow> parsed \<Rightarrow> string option \<Rightarrow> key_secret" where
  "build_secret b p uid =
     \<lparr>ks_name = keys_secret_name b, ks_namespace = nullish (cb_namespace b) [],
      ks_owner = (if truthy uid then Some (nullish (cb_name b) [], the uid) else None),
      ks_data = (SSH_KEYS_DATA_KEY, join [LF] (pr_keys p) @ [LF])\<rparr>"

definition create_failed :: "dev_answer response" where
  "create_failed = answer 500 (Failed ''Failed to create dev environment'')"

text \<open>The writes: the environment, then its keys; when the keys cannot be written the environment is
  deleted again, and a failure of that is only logged.\<close>

definition write_env ::
    "(rat \<Rightarrow> string) \<Rightarrow> env \<Rightarrow> dev_api \<Rightarrow> dev_body \<Rightarrow> parsed \<Rightarrow> dev_answer response \<times> dev_call list" where
  "write_env ftext env api b p =
     (let ns = nullish (cb_namespace b) []; name = nullish (cb_name b) []; cr = build_cr ftext env b p
      in case d_create api ns cr of
           Inl e \<Rightarrow> (create_failed, [CreateEnv ns cr])
         | Inr uid \<Rightarrow>
             (if pr_keys p = [] then (answer 201 (Created name), [CreateEnv ns cr])
              else case d_secret api (build_secret b p uid) of
                  Inl e \<Rightarrow> (create_failed, [CreateEnv ns cr, CreateSecret (build_secret b p uid), DeleteEnv ns name])
                | Inr _ \<Rightarrow> (answer 201 (Created name), [CreateEnv ns cr, CreateSecret (build_secret b p uid)])))"

definition named :: "string \<Rightarrow> string \<Rightarrow> dev_env \<Rightarrow> bool" where
  "named ns name e \<longleftrightarrow>
     (case de_meta e of None \<Rightarrow> False | Some m \<Rightarrow> me_namespace m = Some ns \<and> me_name m = Some name)"

definition dev_POST ::
    "(rat \<Rightarrow> string) \<Rightarrow> env \<Rightarrow> dev_api \<Rightarrow> dev_body option \<Rightarrow> dev_answer response \<times> dev_call list" where
  "dev_POST ftext env api body =
     (case body of
        None \<Rightarrow> (create_failed, [])
      | Some b \<Rightarrow>
          (case parse_request b of
             Inl e \<Rightarrow> (answer 400 (Refused e), [])
           | Inr p \<Rightarrow>
               (let ns = nullish (cb_namespace b) []; name = nullish (cb_name b) []
                in case d_namespaces api of
                     Inl e \<Rightarrow> (create_failed, [ListNamespaces])
                   | Inr nss \<Rightarrow>
                       (if Some ns \<notin> set nss
                        then (answer 400 (Refused (NamespaceMissing ns)), [ListNamespaces])
                        else case d_list api of
                            Inl e \<Rightarrow> (create_failed, [ListNamespaces, ListEnvs])
                          | Inr existing \<Rightarrow>
                              (if list_ex (named ns name) existing
                               then (answer 400 (Refused (NameTaken name)), [ListNamespaces, ListEnvs])
                               else case write_env ftext env api b p of
                                 (r, cs) \<Rightarrow> (r, [ListNamespaces, ListEnvs] @ cs))))))"

section \<open>Starting, stopping, deleting\<close>

definition AUTO_STOPPED_ANNOTATION :: string where
  "AUTO_STOPPED_ANNOTATION = ''ai.cubestack.io/auto-stopped''"

definition jsonPointerEscape :: "string \<Rightarrow> string" where
  "jsonPointerEscape key = json_pointer key"

record run_body =
  rb_namespace :: "string option"
  rb_name :: "string option"
  rb_running :: "bool option"

text \<open>\<open>current?.metadata?.annotations?.[AUTO_STOPPED_ANNOTATION]\<close>.\<close>

definition env_annotations :: "dev_env \<Rightarrow> (string \<times> string) list" where
  "env_annotations e =
     (case de_meta e of None \<Rightarrow> [] | Some m \<Rightarrow> nullish (me_annotations m) [])"

definition stop_mark :: "dev_env option \<Rightarrow> string option" where
  "stop_mark current =
     (case current of None \<Rightarrow> None | Some e \<Rightarrow> map_of (env_annotations e) AUTO_STOPPED_ANNOTATION)"

definition ANNOTATIONS_PATH :: string where
  "ANNOTATIONS_PATH = ''/metadata/annotations/''"

definition RUNNING_PATH :: string where
  "RUNNING_PATH = ''/spec/running''"

definition run_ops :: "bool \<Rightarrow> string option \<Rightarrow> dev_patch list" where
  "run_ops running mark =
     PatchAdd RUNNING_PATH running #
       (if running \<and> truthy mark
        then [PatchRemove (ANNOTATIONS_PATH @ jsonPointerEscape AUTO_STOPPED_ANNOTATION)] else [])"

text \<open>The text of the 403 answer is Chinese; it is named in English here.\<close>

definition patch_failed :: "k8s_error \<Rightarrow> dev_answer response" where
  "patch_failed e =
     (if e_statusCode e = Some (NumCode 403) then answer 403 (Failed ''no permission to patch'')
      else answer 500 (Failed ''Failed to update dev environment''))"

definition send_patch ::
    "dev_api \<Rightarrow> string \<Rightarrow> string \<Rightarrow> dev_patch list \<Rightarrow> dev_answer response \<times> dev_call list" where
  "send_patch api ns name ops =
     (case d_patch api ns name ops of
        Inl e \<Rightarrow> (patch_failed e, [PatchEnv ns name ops])
      | Inr _ \<Rightarrow> (answer 200 Done, [PatchEnv ns name ops]))"

text \<open>A body that is not JSON throws an error without a status.\<close>

definition dev_PATCH :: "dev_api \<Rightarrow> run_body option \<Rightarrow> dev_answer response \<times> dev_call list" where
  "dev_PATCH api body =
     (case body of
        None \<Rightarrow> (answer 500 (Failed ''Failed to update dev environment''), [])
      | Some b \<Rightarrow>
          (if \<not> truthy (rb_namespace b) \<or> \<not> truthy (rb_name b) \<or> rb_running b = None
           then (answer 400 (Failed ''namespace, name and running (boolean) are required''), [])
           else
             (let ns = the (rb_namespace b); name = the (rb_name b)
              in if rb_running b = Some True
                 then (case d_get api ns name of
                     Inl e \<Rightarrow> (patch_failed e, [GetEnv ns name])
                   | Inr current \<Rightarrow>
                       (case send_patch api ns name (run_ops True (stop_mark current)) of
                          (r, cs) \<Rightarrow> (r, GetEnv ns name # cs)))
                 else send_patch api ns name (run_ops False None))))"

definition delete_failed :: "string \<Rightarrow> k8s_error \<Rightarrow> dev_answer response" where
  "delete_failed name e =
     (if e_statusCode e = Some (NumCode 404) then answer 404 (NameMissing name)
      else answer 500 (Failed ''Failed to delete dev environment''))"

definition dev_DELETE ::
    "dev_api \<Rightarrow> (string option \<times> string option) option \<Rightarrow> dev_answer response \<times> dev_call list" where
  "dev_DELETE api body =
     (case body of
        None \<Rightarrow> (answer 500 (Failed ''Failed to delete dev environment''), [])
      | Some (namespace, name) \<Rightarrow>
          (if \<not> truthy namespace \<or> \<not> truthy name
           then (answer 400 (Failed ''namespace and name are required''), [])
           else case d_delete api (the namespace) (the name) of
               Inl e \<Rightarrow> (delete_failed (the name) e, [DeleteEnv (the namespace) (the name)])
             | Inr _ \<Rightarrow> (answer 200 Done, [DeleteEnv (the namespace) (the name)])))"

section \<open>Credentials and variables of one environment\<close>

text \<open>The routes \<open>token\<close> and \<open>ssh-key\<close> are the same program over another reference of the status,
  another entry of the Secret and other codes.\<close>

datatype credential = JupyterToken | SshKey

definition cred_ref :: "credential \<Rightarrow> dev_status \<Rightarrow> secret_ref option" where
  "cred_ref c st = (case c of JupyterToken \<Rightarrow> ss_jupyterTokenSecret st | SshKey \<Rightarrow> ss_sshClientKeySecret st)"

definition cred_key :: "credential \<Rightarrow> string" where
  "cred_key c = (case c of JupyterToken \<Rightarrow> ''token'' | SshKey \<Rightarrow> ''id_ed25519'')"

datatype cred_answer =
    RequestInvalid
  | EnvMissing string
  | CredMissing credential
  | CredGone credential string
  | CredUnreadable credential
  | CredBody credential string string string
  | EnvUnreadable
  | EnvValues "(string \<times> string) list"

text \<open>\<open>params\<close> are the query parameters and \<open>decode\<close> decodes base64; the value and, for the token, the Secret it came from are the body.\<close>

definition credential_GET ::
    "(string \<Rightarrow> string) \<Rightarrow> credential \<Rightarrow> dev_api \<Rightarrow> (string \<Rightarrow> string option) \<Rightarrow> cred_answer response \<times> dev_call list" where
  "credential_GET decode c api params =
     (let namespace = text_field (params ''namespace''); name = text_field (params ''name'')
      in if namespace = [] \<or> name = [] then (answer 400 RequestInvalid, [])
         else case d_get api namespace name of
             Inl e \<Rightarrow> (if isNotFound e then answer 404 (EnvMissing name) else answer 500 (CredUnreadable c),
                 [GetEnv namespace name])
           | Inr found \<Rightarrow>
               (case found of
                  None \<Rightarrow> (answer 404 (EnvMissing name), [GetEnv namespace name])
                | Some e \<Rightarrow>
               (case de_meta e of
                  None \<Rightarrow> (answer 404 (EnvMissing name), [GetEnv namespace name])
                | Some meta \<Rightarrow>
               (case (case de_status e of None \<Rightarrow> None | Some st \<Rightarrow> cred_ref c st) of
                  None \<Rightarrow> (answer 404 (CredMissing c), [GetEnv namespace name])
                | Some ref \<Rightarrow>
                    (if \<not> truthy (sr_name ref) then (answer 404 (CredMissing c), [GetEnv namespace name])
                     else
                       (let secretName = the (sr_name ref);
                            secretNamespace = nullish (sr_namespace ref) (nullish (me_namespace meta) namespace)
                        in ((case d_secrets api secretNamespace secretName of
                               Inl er \<Rightarrow> if isNotFound er then answer 404 (CredGone c secretName)
                                 else answer 500 (CredUnreadable c)
                             | Inr items \<Rightarrow>
                                 (let dat = (case items of [] \<Rightarrow> [] | d # ds \<Rightarrow> nullish d [])
                                  in if \<not> truthy (map_of dat (cred_key c)) then answer 404 (CredGone c secretName)
                                     else answer 200 (CredBody c (decode (the (map_of dat (cred_key c)))) secretName secretNamespace))),
                            [GetEnv namespace name, ListSecrets secretNamespace secretName])))))))"

definition token_GET :: "(string \<Rightarrow> string) \<Rightarrow> dev_api \<Rightarrow> (string \<Rightarrow> string option) \<Rightarrow> cred_answer response \<times> dev_call list" where
  "token_GET decode = credential_GET decode JupyterToken"

definition ssh_key_GET :: "(string \<Rightarrow> string) \<Rightarrow> dev_api \<Rightarrow> (string \<Rightarrow> string option) \<Rightarrow> cred_answer response \<times> dev_call list" where
  "ssh_key_GET decode = credential_GET decode SshKey"

fun env_values :: "env_entry list \<Rightarrow> (string \<times> string) list \<Rightarrow> (string \<times> string) list" where
  "env_values [] acc = acc"
| "env_values (e # es) acc =
     env_values es (if truthy (en_name e) \<and> en_value e \<noteq> None
       then obj_set acc (the (en_name e)) (the (en_value e)) else acc)"

definition env_entries :: "dev_env \<Rightarrow> env_entry list" where
  "env_entries e =
     (case de_spec e of
        None \<Rightarrow> []
      | Some s \<Rightarrow> (case sp_runtime s of None \<Rightarrow> [] | Some r \<Rightarrow> nullish (rt_env r) []))"

text \<open>A read that answers nothing throws on the access to its specification, outside the handler's own
  error handling.\<close>

definition env_values_GET ::
    "dev_api \<Rightarrow> (string \<Rightarrow> string option) \<Rightarrow> cred_answer response \<times> dev_call list" where
  "env_values_GET api params =
     (let namespace = text_field (params ''namespace''); name = text_field (params ''name'')
      in if namespace = [] \<or> name = [] then (answer 400 RequestInvalid, [])
         else (case d_get api namespace name of
             Inl e \<Rightarrow> if isNotFound e then answer 404 (EnvMissing name) else answer 500 EnvUnreadable
           | Inr None \<Rightarrow> \<lparr>res_status = Thrown, res_body = EnvUnreadable, res_cookie = None\<rparr>
           | Inr (Some e) \<Rightarrow> answer 200 (EnvValues (env_values (env_entries e) [])),
           [GetEnv namespace name]))"

section \<open>What is created\<close>

text \<open>The well-formedness of an environment: what the resource definition, the pod and the L4 pool
  require of it.\<close>

definition gpu_ok :: "gpu_block \<Rightarrow> bool" where
  "gpu_ok g \<longleftrightarrow> gb_vendor g \<in> {Some ''nvidia'', Some ''metax''} \<and> is_integer (num (gb_count g)) \<and>
     1 \<le> num (gb_count g) \<and> num (gb_count g) \<le> 16"

definition mount_paths :: "dev_spec \<Rightarrow> string list" where
  "mount_paths s =
     (case sp_storage s of None \<Rightarrow> [] | Some st \<Rightarrow> (case st_mountPath st of None \<Rightarrow> [] | Some m \<Rightarrow> [m])) @
     map (\<lambda>v. nullish (vo_mountPath v) []) (nullish (sp_volumes s) [])"

definition ports_ok :: "port_entry list \<Rightarrow> bool" where
  "ports_ok ps \<longleftrightarrow> distinct (map po_name ps) \<and>
     distinct (map po_containerPort (filter (\<lambda>p. po_type p \<noteq> Some ''http'') ps)) \<and>
     list_all (\<lambda>p. \<not> port_bad (po_containerPort p) \<and> nullish (po_type p) [] \<in> set PORT_TYPES) ps"

text \<open>A root container names no account, takes the root group and asks for no sudo.\<close>

definition runtime_ok :: "runtime_block \<Rightarrow> bool" where
  "runtime_ok r \<longleftrightarrow>
     distinct (map en_name (nullish (rt_env r) [])) \<and>
     (case rt_security r of
        None \<Rightarrow> True
      | Some sc \<Rightarrow> \<not> run_as_bad (sc_runAsUser sc) \<and>
          (if sc_runAsUser sc = Some 0 then rt_user r = None \<and> sc_runAsGroup sc = Some 0 \<and> rt_sudo r = None
           else rt_user r \<noteq> Some ''root''))"

definition spec_ok :: "dev_spec \<Rightarrow> bool" where
  "spec_ok s \<longleftrightarrow> nullish (sp_type s) [] \<in> set DEVENV_TYPES \<and> truthy (sp_image s) \<and>
     pred_option gpu_ok (sp_gpu s) \<and>
     distinct (mount_paths s) \<and> list_all mountable (mount_paths s) \<and>
     distinct (map vo_name (nullish (sp_volumes s) [])) \<and>
     ports_ok (nullish (sp_ports s) []) \<and> pred_option runtime_ok (sp_runtime s)"

definition cr_ok :: "dev_env \<Rightarrow> bool" where
  "cr_ok e \<longleftrightarrow>
     (case (de_meta e, de_spec e) of
        (Some m, Some s) \<Rightarrow> rx_match DNS_LABEL_RE (nullish (me_name m) []) \<and> truthy (me_namespace m) \<and> spec_ok s
      | _ \<Rightarrow> False)"

lemma and_then_Inr: "and_then r k = Inr y \<longleftrightarrow> (\<exists>x. r = Inr x \<and> k x = Inr y)"
  by (cases r) (simp_all add: and_then_def)

lemma first_error_Inr: "first_error e k = Inr y \<longleftrightarrow> e = None \<and> k = Inr y"
  by (cases e) (simp_all add: first_error_def)

lemma parse_request_Inr:
  assumes "parse_request b = Inr p"
  shows "basics_error b = None" and "identity_error b = None" and "storage_error b = None"
    and "request_volumes b = Inr (pr_volumes p)" and "request_env b = Inr (pr_env p)"
    and "request_argv CommandUnbalanced (cb_command b) = Inr (pr_command p)"
    and "request_argv ArgsUnbalanced (cb_args b) = Inr (pr_args p)"
    and "request_ports b = Inr (pr_ports p)" and "network_error b = None"
    and "request_keys b = Inr (pr_keys p)"
  using assms by (auto simp: parse_request_def and_then_Inr first_error_Inr)

lemma basics_None:
  assumes "basics_error b = None"
  shows "truthy (cb_name b)" "rx_match DNS_LABEL_RE (nullish (cb_name b) [])" "truthy (cb_namespace b)"
    "request_image b \<noteq> []" "nullish (cb_type b) [] \<in> set DEVENV_TYPES" "pred_option gpu_ok (request_gpu b)"
proof -
  have acc: "accelerator b \<in> set ACCELERATORS"
    and gpu: "gpuEnabled b \<Longrightarrow> is_integer (gpuCount b) \<and> 1 \<le> gpuCount b \<and> gpuCount b \<le> 16"
    using assms unfolding basics_error_def by (auto split: if_splits)
  show "pred_option gpu_ok (request_gpu b)"
  proof (cases "gpuEnabled b")
    case True
    with acc have "accelerator b \<in> {''nvidia'', ''metax''}" by (auto simp: ACCELERATORS_def gpuEnabled_def)
    with True gpu show ?thesis by (auto simp: request_gpu_def gpu_ok_def num_def)
  qed (simp add: request_gpu_def)
  have name: "truthy (cb_name b)" "rx_match DNS_LABEL_RE (the (cb_name b))"
    using assms unfolding basics_error_def by (auto split: if_splits)
  then show "truthy (cb_name b)" "rx_match DNS_LABEL_RE (nullish (cb_name b) [])" by (cases "cb_name b"; simp)+
  have ty: "truthy (cb_type b)" "the (cb_type b) \<in> set DEVENV_TYPES"
    using assms unfolding basics_error_def by (auto split: if_splits)
  then show "nullish (cb_type b) [] \<in> set DEVENV_TYPES" by (cases "cb_type b"; simp)
  show "truthy (cb_namespace b)" "request_image b \<noteq> []"
    using assms unfolding basics_error_def request_image_def by (auto split: if_splits)
qed

lemma nullish_non_empty: "nullish (map_option (map f) (non_empty xs)) [] = map f xs"
  by (simp add: non_empty_def)

lemma nullish_non_empty_id [simp]: "nullish (non_empty xs) [] = xs"
  by (simp add: non_empty_def)

lemma distinct_map_Some: "distinct (map (\<lambda>x. Some (f x)) xs) \<longleftrightarrow> distinct (map f xs)"
  using distinct_map [of Some "map f xs"] by (simp add: comp_def)

lemma published_user: "devImageFor env tag = Some i \<Longrightarrow> im_user i = ''ubuntu''"
proof -
  have "\<forall>j\<in>set (DEV_IMAGES env). im_user j = ''ubuntu''" by (simp add: DEV_IMAGES_def published_image_def)
  then show "im_user i = ''ubuntu''" if "devImageFor env tag = Some i"
    using find_SomeD [OF that [unfolded devImageFor_def]] by blast
qed

lemma request_user_not_root:
  assumes "identity_error b = None" and "\<not> runAsRoot b"
  shows "request_user env b \<noteq> Some ''root''"
proof -
  have "cb_runtimeUser b \<noteq> Some ''root''"
    using assms unfolding identity_error_def runAsRoot_def by (auto split: if_splits)
  then show ?thesis using published_user by (auto simp: request_user_def)
qed

lemma request_runtime_ok:
  assumes "identity_error b = None" and "request_env b = Inr (pr_env p)"
  shows "pred_option runtime_ok (request_runtime env b p)"
proof (cases "request_runtime env b p")
  case (Some r)
  let ?entry = "\<lambda>(n, v). \<lparr>en_name = Some n, en_value = Some v, en_valueFrom = None\<rparr>"
  have r: "rt_user r = request_user env b" "rt_security r = request_security env b"
    "rt_sudo r = (if request_sudo b then Some True else None)"
    "rt_env r = map_option (map ?entry) (non_empty (pr_env p))"
    using Some unfolding request_runtime_def by (auto split: if_splits)
  have "map en_name (nullish (rt_env r) []) = map (\<lambda>e. Some (fst e)) (pr_env p)"
    by (simp add: r nullish_non_empty case_prod_beta)
  then have "distinct (map en_name (nullish (rt_env r) []))"
    using env_rows.accept_distinct [OF assms(2)] by (simp add: distinct_map_Some)
  moreover have "\<not> run_as_bad (cb_runAsUser b)"
    using assms(1) unfolding identity_error_def by (auto split: if_splits)
  ultimately show ?thesis using Some request_user_not_root [OF assms(1)]
    by (auto simp: runtime_ok_def r request_security_def request_user_def request_group_def request_sudo_def
        runAsRoot_def split: option.split)
qed simp

lemma port_ok_in_range:
  "port_ok b q \<Longrightarrow> \<not> port_bad (Some (np_containerPort q)) \<and> np_type q \<in> set PORT_TYPES"
  unfolding port_ok_def port_bad_def by (simp add: not_less)

lemma request_ports_ok:
  assumes "request_ports b = Inr ps"
  shows "ports_ok (map (\<lambda>q. \<lparr>po_name = Some (np_name q), po_type = Some (np_type q),
    po_containerPort = Some (np_containerPort q)\<rparr>) ps)"
proof -
  have "\<forall>q\<in>set ps. \<not> port_bad (Some (np_containerPort q)) \<and> np_type q \<in> set PORT_TYPES"
    using request_ports_Inr(3) [OF assms] port_ok_in_range by blast
  then show ?thesis using request_ports_Inr(1,2) [OF assms]
    by (simp add: ports_ok_def comp_def filter_map distinct_map_Some list_all_iff)
qed

lemma request_mounts_ok:
  assumes "storage_error b = None" and "request_volumes b = Inr (pr_volumes p)"
  shows "distinct (mount_paths (build_spec ftext env b p))" and "list_all mountable (mount_paths (build_spec ftext env b p))"
    and "distinct (map vo_name (nullish (sp_volumes (build_spec ftext env b p)) []))"
proof -
  define w where "w = (if cb_storageGi b \<noteq> None \<and> workspacePath b \<noteq> [] then [workspacePath b] else [])"
  have "mount_paths (build_spec ftext env b p) = w @ map nv_mountPath (pr_volumes p)"
    by (simp add: mount_paths_def build_spec_def request_storage_def w_def nullish_non_empty comp_def split: option.split)
  moreover have "set w \<subseteq> {m. mountable m}" "distinct w"
    using assms(1) unfolding storage_error_def by (auto simp: w_def split: if_splits)
  moreover have "nv_mountPath v \<notin> set w" "mountable (nv_mountPath v)" if "v \<in> set (pr_volumes p)" for v
    using request_volumes_Inr(3) [OF assms(2) that] by (auto simp: volume_ok_def w_def split: if_splits)
  ultimately show "distinct (mount_paths (build_spec ftext env b p))"
      "list_all mountable (mount_paths (build_spec ftext env b p))"
    using request_volumes_Inr(2) [OF assms(2)] by (auto simp: list_all_iff)
  show "distinct (map vo_name (nullish (sp_volumes (build_spec ftext env b p)) []))"
    using request_volumes_Inr(1) [OF assms(2)]
    by (simp add: build_spec_def nullish_non_empty comp_def distinct_map_Some)
qed

lemma build_cr_ok:
  assumes "parse_request b = Inr p"
  shows "cr_ok (build_cr ftext env b p)"
proof -
  note parsed = parse_request_Inr [OF assms]
  note basics = basics_None [OF parsed(1)]
  let ?s = "build_spec ftext env b p"
  have "ports_ok (nullish (sp_ports ?s) [])"
    using request_ports_ok [OF parsed(8)] by (simp add: build_spec_def nullish_non_empty)
  moreover have "pred_option runtime_ok (sp_runtime ?s)"
    using request_runtime_ok [OF parsed(2,5)] by (simp add: build_spec_def)
  moreover have "nullish (sp_type ?s) [] \<in> set DEVENV_TYPES" "truthy (sp_image ?s)" "pred_option gpu_ok (sp_gpu ?s)"
    using basics by (simp_all add: build_spec_def)
  ultimately have "spec_ok ?s" using request_mounts_ok [OF parsed(3,4)] by (simp add: spec_ok_def)
  then show ?thesis using basics by (simp add: cr_ok_def build_cr_def)
qed

text \<open>The calls of a creation: the two reads, and then the writes for an accepted request whose namespace
  exists and whose name is free.\<close>

lemma dev_POST_cases:
  obtains (refused) "set (snd (dev_POST ftext env api body)) \<subseteq> {ListNamespaces, ListEnvs}"
      "res_status (fst (dev_POST ftext env api body)) \<noteq> Status 201"
  | (written) b p nss existing where "body = Some b" "parse_request b = Inr p" "d_namespaces api = Inr nss"
      "cb_namespace b \<in> set nss" "d_list api = Inr existing"
      "\<not> list_ex (named (nullish (cb_namespace b) []) (nullish (cb_name b) [])) existing"
      "dev_POST ftext env api body =
         (fst (write_env ftext env api b p), ListNamespaces # ListEnvs # snd (write_env ftext env api b p))"
proof (cases "\<exists>b p nss existing. body = Some b \<and> parse_request b = Inr p \<and> d_namespaces api = Inr nss \<and>
    Some (nullish (cb_namespace b) []) \<in> set nss \<and> d_list api = Inr existing \<and>
    \<not> list_ex (named (nullish (cb_namespace b) []) (nullish (cb_name b) [])) existing")
  case True
  then obtain b p nss existing where h: "body = Some b" "parse_request b = Inr p" "d_namespaces api = Inr nss"
    "Some (nullish (cb_namespace b) []) \<in> set nss" "d_list api = Inr existing"
    "\<not> list_ex (named (nullish (cb_namespace b) []) (nullish (cb_name b) [])) existing" by blast
  moreover have "cb_namespace b = Some (nullish (cb_namespace b) [])"
    using basics_None(3) [OF parse_request_Inr(1) [OF h(2)]] by (cases "cb_namespace b") auto
  ultimately show thesis by (intro written [of b p nss existing]) (simp_all add: dev_POST_def case_prod_beta)
next
  case False
  have "set (snd (dev_POST ftext env api body)) \<subseteq> {ListNamespaces, ListEnvs} \<and>
      res_status (fst (dev_POST ftext env api body)) \<noteq> Status 201"
  proof (cases body)
    case (Some b)
    show ?thesis
    proof (cases "parse_request b")
      case (Inr p)
      with False Some show ?thesis
        by (auto simp: dev_POST_def create_failed_def answer_def Let_def split: sum.splits prod.splits)
    qed (simp add: Some dev_POST_def answer_def)
  qed (simp add: dev_POST_def create_failed_def answer_def)
  then show thesis using refused by blast
qed

text \<open>C7. Only well-formed environments are created: every environment the create handler writes has a
  DNS label as name, a known type, at most 16 whole GPUs of a known vendor, absolute mount paths that
  are pairwise distinct (the workspace included), distinct volume, port and variable names, distinct L4
  ports in range and, if it runs as root, no account, the root group and no sudo; its namespace exists
  and its name was free when the handler looked.\<close>

theorem dev_POST_creates_valid:
  assumes "CreateEnv ns cr \<in> set (snd (dev_POST ftext env api body))"
  shows "cr_ok cr \<and> (\<exists>nss existing name. d_namespaces api = Inr nss \<and> Some ns \<in> set nss \<and>
    d_list api = Inr existing \<and> named ns name cr \<and> \<not> list_ex (named ns name) existing)"
proof (cases rule: dev_POST_cases [of ftext env api body])
  case refused
  with assms show ?thesis by auto
next
  case (written b p nss existing)
  have cr: "ns = nullish (cb_namespace b) []" "cr = build_cr ftext env b p"
    using assms unfolding written(7) by (auto simp: write_env_def Let_def split: sum.splits if_splits)
  note basics = basics_None [OF parse_request_Inr(1) [OF written(2)]]
  then obtain n m where "cb_name b = Some n" "cb_namespace b = Some m" by (metis not_None_eq truthy_simps(1))
  then show ?thesis using written cr build_cr_ok [OF written(2)] by (auto simp: named_def build_cr_def)
qed

definition sample_dev_body :: dev_body where
  "sample_dev_body =
     \<lparr>cb_namespace = Some ''lab'', cb_name = Some ''nb'', cb_type = Some ''jupyter'', cb_image = Some '' img '',
      cb_accelerator = Some ''nvidia'', cb_gpuCount = Some 2, cb_gpuModel = None, cb_cpu = None, cb_memory = None,
      cb_storageGi = Some 20, cb_pvcRetention = None, cb_idleTimeout = None, cb_runtimeUser = None,
      cb_runAsUser = Some 0, cb_runAsGroup = None, cb_sudo = None, cb_mountPath = Some ''/w'',
      cb_volumes = Some [(Some ''data'', Some ''/d''), (Some ''data'', Some ''/e'')],
      cb_env = Some [(Some ''A'', Some ''1'')], cb_command = Some ''run -v'', cb_args = None,
      cb_ports = Some [(Some ''web'', Some 80, None)], cb_rdmaEnabled = None, cb_rdmaType = None,
      cb_egressUnrestricted = None, cb_nodeName = None, cb_sshEnabled = Some True,
      cb_sshKeys = Some ''ssh-rsa AAAAAAAAAAAAAAAAAAAA''\<rparr>"

text \<open>A cluster with one namespace and no environment, whose writes succeed except those that
  \<open>secret_answer\<close> refuses.\<close>

definition sample_dev_api :: "(k8s_error + unit) \<Rightarrow> dev_api" where
  "sample_dev_api secret_answer =
     \<lparr>d_namespaces = Inr [Some ''default'', Some ''lab''], d_list = Inr [], d_get = (\<lambda>_ _. Inr None),
      d_create = (\<lambda>_ _. Inr (Some ''uid-1'')), d_patch = (\<lambda>_ _ _. Inr ()), d_delete = (\<lambda>_ _. Inr ()),
      d_secret = (\<lambda>_. secret_answer), d_secrets = (\<lambda>_ _. Inr [])\<rparr>"

lemma sample_dev_simps:
  "d_namespaces (sample_dev_api r) = Inr [Some ''default'', Some ''lab'']" "d_list (sample_dev_api r) = Inr []"
  "d_create (sample_dev_api r) ns cr = Inr (Some ''uid-1'')" "d_delete (sample_dev_api r) ns name = Inr ()"
  "d_secret (sample_dev_api r) s = r"
  "cb_namespace sample_dev_body = Some ''lab''" "cb_name sample_dev_body = Some ''nb''"
  by (simp_all add: sample_dev_api_def sample_dev_body_def)

definition sample_parsed :: parsed where
  "sample_parsed =
     \<lparr>pr_volumes = [\<lparr>nv_name = ''data'', nv_pvcName = ''data'', nv_mountPath = ''/d''\<rparr>,
        \<lparr>nv_name = ''data-2'', nv_pvcName = ''data'', nv_mountPath = ''/e''\<rparr>],
      pr_env = [(''A'', ''1'')], pr_command = [''run'', ''-v''], pr_args = [],
      pr_ports = [\<lparr>np_name = ''web'', np_type = ''http'', np_containerPort = 80\<rparr>],
      pr_keys = [''ssh-rsa AAAAAAAAAAAAAAAAAAAA'']\<rparr>"

lemma sample_parse: "parse_request sample_dev_body = Inr sample_parsed"
  by code_simp

lemma sample_POST:
  "dev_POST ftext env (sample_dev_api r) (Some sample_dev_body) =
     (fst (write_env ftext env (sample_dev_api r) sample_dev_body sample_parsed),
      [ListNamespaces, ListEnvs] @ snd (write_env ftext env (sample_dev_api r) sample_dev_body sample_parsed))"
  unfolding dev_POST_def option.case sample_parse sum.case
  by (simp add: sample_dev_simps case_prod_beta Let_def)

theorem dev_POST_creates_valid_witness:
  "CreateEnv ''lab'' (build_cr (\<lambda>_. []) (\<lambda>_. None) sample_dev_body sample_parsed) \<in>
     set (snd (dev_POST (\<lambda>_. []) (\<lambda>_. None) (sample_dev_api (Inr ())) (Some sample_dev_body))) \<and>
   cr_ok (build_cr (\<lambda>_. []) (\<lambda>_. None) sample_dev_body sample_parsed)"
proof -
  have "CreateEnv ''lab'' (build_cr (\<lambda>_. []) (\<lambda>_. None) sample_dev_body sample_parsed) \<in>
      set (snd (dev_POST (\<lambda>_. []) (\<lambda>_. None) (sample_dev_api (Inr ())) (Some sample_dev_body)))"
    by (simp add: sample_POST write_env_def sample_dev_simps Let_def)
  then show ?thesis using dev_POST_creates_valid by blast
qed

section \<open>All or nothing\<close>

text \<open>What the calls leave behind: the environments and the key Secrets, each with its namespace. A call
  changes them when the API answers it with success.\<close>

record store =
  stored_envs :: "(string \<times> string) set"
  stored_secrets :: "(string \<times> string) set"

definition env_name :: "dev_env \<Rightarrow> string" where
  "env_name e = (case de_meta e of None \<Rightarrow> [] | Some m \<Rightarrow> nullish (me_name m) [])"

fun apply_call :: "dev_api \<Rightarrow> store \<Rightarrow> dev_call \<Rightarrow> store" where
  "apply_call api st (CreateEnv ns cr) =
     (case d_create api ns cr of
        Inl e \<Rightarrow> st
      | Inr _ \<Rightarrow> st\<lparr>stored_envs := insert (ns, env_name cr) (stored_envs st)\<rparr>)"
| "apply_call api st (DeleteEnv ns name) =
     (case d_delete api ns name of
        Inl e \<Rightarrow> st
      | Inr _ \<Rightarrow> st\<lparr>stored_envs := stored_envs st - {(ns, name)}\<rparr>)"
| "apply_call api st (CreateSecret s) =
     (case d_secret api s of
        Inl e \<Rightarrow> st
      | Inr _ \<Rightarrow> st\<lparr>stored_secrets := insert (ks_namespace s, ks_name s) (stored_secrets st)\<rparr>)"
| "apply_call api st _ = st"

text \<open>The abstract creation: the environment and, when keys were given, their Secret.\<close>

definition created_store :: "dev_body \<Rightarrow> parsed \<Rightarrow> store \<Rightarrow> store" where
  "created_store b p st =
     st\<lparr>stored_envs := insert (nullish (cb_namespace b) [], nullish (cb_name b) []) (stored_envs st),
        stored_secrets := (if pr_keys p = [] then stored_secrets st
          else insert (nullish (cb_namespace b) [], keys_secret_name b) (stored_secrets st))\<rparr>"

lemma apply_reads:
  "set cs \<subseteq> {ListNamespaces, ListEnvs} \<Longrightarrow> foldl (apply_call api) st cs = st"
  by (induction cs) auto

lemma write_env_store:
  assumes "\<And>ns name. d_delete api ns name = Inr ()"
    and "(nullish (cb_namespace b) [], nullish (cb_name b) []) \<notin> stored_envs st"
  shows "foldl (apply_call api) st (snd (write_env ftext env api b p)) =
    (if res_status (fst (write_env ftext env api b p)) = Status 201 then created_store b p st else st)"
proof -
  have name: "env_name (build_cr ftext env b p) = nullish (cb_name b) []"
    by (simp add: env_name_def build_cr_def)
  show ?thesis
  proof (cases "d_create api (nullish (cb_namespace b) []) (build_cr ftext env b p)")
    case (Inl e)
    then show ?thesis by (simp add: write_env_def Let_def create_failed_def answer_def)
  next
    case (Inr uid)
    then show ?thesis using assms name
      by (cases "d_secret api (build_secret b p uid)")
        (auto simp: write_env_def Let_def create_failed_def answer_def created_store_def build_secret_def)
  qed
qed



section \<open>What the listing shows\<close>

lemma project_runtime:
  "su_command (project (build_cr ftext env b p)) = pr_command p"
  "su_args (project (build_cr ftext env b p)) = pr_args p"
  "su_env (project (build_cr ftext env b p)) =
     filter (\<lambda>e. ens_name e \<noteq> []) (map (\<lambda>e. \<lparr>ens_name = fst e, ens_hasValue = True, ens_valueFrom = None\<rparr>) (pr_env p))"
  by (simp_all add: project_def Let_def build_cr_def build_spec_def request_runtime_def empty_runtime_def
      nullish_non_empty comp_def project_env_def case_prod_beta)

text \<open>The listing shows an environment as it was requested: for an accepted request, the projection of
  the resource that is written has the requested name, namespace and type, is running, and has exactly
  the requested command, arguments, variables (by name), volumes, ports, GPUs, idle timeout, retention,
  ssh switch and egress.\<close>

theorem project_shows_request:
  assumes "parse_request b = Inr p"
  shows "let s = project (build_cr ftext env b p) in
    Some (su_name s) = cb_name b \<and> Some (su_namespace s) = cb_namespace b \<and>
    (su_type s = Jupyter \<longleftrightarrow> cb_type b = Some ''jupyter'') \<and> (su_type s = Vscode \<longleftrightarrow> cb_type b = Some ''vscode'') \<and>
    su_running s \<and> su_command s = pr_command p \<and> su_args s = pr_args p \<and>
    map ens_name (su_env s) = map fst (pr_env p) \<and>
    map (\<lambda>v. (vs_name v, vs_pvcName v, vs_mountPath v)) (su_volumes s) =
      map (\<lambda>v. (nv_name v, nv_pvcName v, nv_mountPath v)) (pr_volumes p) \<and>
    map (\<lambda>q. (ps_name q, ps_containerPort q)) (su_ports s) = map (\<lambda>q. (np_name q, np_containerPort q)) (pr_ports p) \<and>
    map_option gs_count (su_gpu s) = (if gpuEnabled b then Some (gpuCount b) else None) \<and>
    su_idleTimeout s = idleTimeout b \<and>
    map_option sts_pvcRetention (su_storage s) =
      map_option (\<lambda>_. if pvcRetention b = ''retain'' then Retain else Delete) (cb_storageGi b) \<and>
    su_sshEnabled s = (cb_sshEnabled b = Some True) \<and>
    su_egressUnrestricted s = (cb_egressUnrestricted b = Some True)"
proof -
  note parsed = parse_request_Inr [OF assms]
  let ?s = "project (build_cr ftext env b p)"
  have "\<forall>e\<in>set (pr_env p). fst e \<noteq> []"
    using env_rows.accept_ok [OF parsed(5)] by (simp add: env_ok_def)
  then have env: "map ens_name (su_env ?s) = map fst (pr_env p)"
    unfolding project_runtime by (simp add: filter_map comp_def)
  have cases: "truthy (cb_name b)" "truthy (cb_namespace b)" using basics_None [OF parsed(1)] by blast+
  have gpu: "gpuEnabled b \<Longrightarrow> gpuCount b \<noteq> 0"
    using basics_None(6) [OF parsed(1)] by (auto simp: request_gpu_def gpu_ok_def num_def)
  have sel: "Some (su_name ?s) = cb_name b" "Some (su_namespace ?s) = cb_namespace b"
    using cases by (auto simp: project_def Let_def build_cr_def truthy_def nullish_def split: option.splits)
  have ty: "su_type ?s = project_type (cb_type b)" "su_running ?s" "su_idleTimeout ?s = idleTimeout b"
    by (simp_all add: project_def Let_def build_cr_def build_spec_def num_def)
  have vols: "map (\<lambda>v. (vs_name v, vs_pvcName v, vs_mountPath v)) (su_volumes ?s) =
      map (\<lambda>v. (nv_name v, nv_pvcName v, nv_mountPath v)) (pr_volumes p)"
    by (simp add: project_def Let_def build_cr_def build_spec_def nullish_non_empty comp_def project_volume_def)
  have ports: "map (\<lambda>q. (ps_name q, ps_containerPort q)) (su_ports ?s) = map (\<lambda>q. (np_name q, np_containerPort q)) (pr_ports p)"
    by (simp add: project_def Let_def build_cr_def build_spec_def nullish_non_empty comp_def project_port_def num_def)
  have count: "map_option gs_count (su_gpu ?s) = (if gpuEnabled b then Some (gpuCount b) else None)"
    using gpu by (simp add: project_def Let_def build_cr_def build_spec_def request_gpu_def project_gpu_def num_def)
  have storage: "map_option sts_pvcRetention (su_storage ?s) =
      map_option (\<lambda>_. if pvcRetention b = ''retain'' then Retain else Delete) (cb_storageGi b)"
    by (cases "cb_storageGi b")
      (simp_all add: project_def Let_def build_cr_def build_spec_def request_storage_def project_storage_def)
  have rest: "su_sshEnabled ?s = (cb_sshEnabled b = Some True)" "su_egressUnrestricted ?s = (cb_egressUnrestricted b = Some True)"
    by (simp_all add: project_def Let_def build_cr_def build_spec_def request_ssh_def request_network_def)
  have types: "project_type (cb_type b) = Jupyter \<longleftrightarrow> cb_type b = Some ''jupyter''"
    "project_type (cb_type b) = Vscode \<longleftrightarrow> cb_type b = Some ''vscode''"
    by (simp_all add: project_type_def)
  show ?thesis
    using sel ty vols ports count storage rest types env project_runtime(1,2) [of ftext env b p]
    unfolding Let_def by simp
qed

theorem project_shows_request_witness:
  "su_command (project (build_cr (\<lambda>_. []) (\<lambda>_. None) sample_dev_body sample_parsed)) = [''run'', ''-v''] \<and>
   su_sshEnabled (project (build_cr (\<lambda>_. []) (\<lambda>_. None) sample_dev_body sample_parsed))"
proof -
  have "pr_command sample_parsed = [''run'', ''-v'']" "cb_sshEnabled sample_dev_body = Some True"
    by (simp_all add: sample_parsed_def sample_dev_body_def)
  with project_shows_request [OF sample_parse, of "\<lambda>_. []" "\<lambda>_. None"] show ?thesis
    unfolding Let_def by metis
qed

text \<open>The same environment with other values of its literal variables.\<close>

definition with_values :: "(string \<Rightarrow> string) \<Rightarrow> dev_env \<Rightarrow> dev_env" where
  "with_values f e =
     e\<lparr>de_spec := map_option (\<lambda>s. s\<lparr>sp_runtime := map_option (\<lambda>r. r\<lparr>rt_env :=
        map_option (map (\<lambda>v. v\<lparr>en_value := map_option f (en_value v)\<rparr>)) (rt_env r)\<rparr>) (sp_runtime s)\<rparr>) (de_spec e)\<rparr>"

lemma project_env_value: "project_env (v\<lparr>en_value := map_option f (en_value v)\<rparr>) = project_env v"
  by (simp add: project_env_def)

text \<open>C40. The listing discloses no value of a variable: whatever the literal values of the environments'
  variables are, the answer of the listing is the same.\<close>

theorem listing_hides_values:
  "fst (dev_GET compare (api\<lparr>d_list := Inr (map (with_values f) es)\<rparr>)) = fst (dev_GET compare (api\<lparr>d_list := Inr es\<rparr>))"
proof -
  have "project (with_values f e) = project e" for e
  proof (cases "de_spec e")
    case (Some s)
    then show ?thesis
      by (cases "sp_runtime s"; cases "rt_env (the (sp_runtime s))")
        (simp_all add: project_def with_values_def Let_def project_env_value comp_def)
  qed (simp add: project_def with_values_def)
  then show ?thesis by (simp add: dev_GET_def comp_def)
qed

section \<open>Waking an environment\<close>

text \<open>How the API server applies the operations the handler sends (RFC 6902): an \<open>add\<close> needs the parent
  object, a \<open>remove\<close> the value itself, and one that fails rejects the whole patch.\<close>

definition remove_annotation :: "string \<Rightarrow> dev_env \<Rightarrow> dev_env" where
  "remove_annotation k e =
     e\<lparr>de_meta := map_option (\<lambda>m. m\<lparr>me_annotations :=
        map_option (filter (\<lambda>(k', v). k' \<noteq> k)) (me_annotations m)\<rparr>) (de_meta e)\<rparr>"

fun apply_op :: "dev_patch \<Rightarrow> dev_env \<Rightarrow> dev_env option" where
  "apply_op (PatchAdd path v) e =
     (case de_spec e of
        Some s \<Rightarrow> if path = RUNNING_PATH then Some (e\<lparr>de_spec := Some (s\<lparr>sp_running := Some v\<rparr>)\<rparr>) else None
      | None \<Rightarrow> None)"
| "apply_op (PatchRemove path) e =
     (let k = pointer_unescape (drop (length ANNOTATIONS_PATH) path)
      in if startsWith path ANNOTATIONS_PATH \<and> map_of (env_annotations e) k \<noteq> None
         then Some (remove_annotation k e) else None)"

fun apply_ops :: "dev_patch list \<Rightarrow> dev_env \<Rightarrow> dev_env option" where
  "apply_ops [] e = Some e"
| "apply_ops (p # ps) e = (case apply_op p e of None \<Rightarrow> None | Some e' \<Rightarrow> apply_ops ps e')"

lemma map_of_filter_key: "map_of (filter (\<lambda>(k', v). k' \<noteq> k) as) = (map_of as)(k := None)"
  by (induction as) (auto simp: fun_eq_iff)

lemma remove_annotation_map: "map_of (env_annotations (remove_annotation k e)) = (map_of (env_annotations e))(k := None)"
proof (cases "de_meta e")
  case (Some m)
  then show ?thesis
    by (cases "me_annotations m") (auto simp: remove_annotation_def env_annotations_def map_of_filter_key)
qed (auto simp: remove_annotation_def env_annotations_def)

text \<open>A start wakes the environment: the patch the handler sends for an environment that it has just
  read is never rejected by the API server, and the result is running, no longer carries the
  auto-stopped mark, and keeps every other annotation (the controller's own record of the stop among
  them). The mark's value must not be the empty text, which the handler takes for no mark.\<close>

theorem start_wakes:
  assumes "de_spec e = Some s" and "stop_mark (Some e) \<noteq> Some []"
  shows "\<exists>e'. apply_ops (run_ops True (stop_mark (Some e))) e = Some e' \<and> su_running (project e') \<and>
    map_of (env_annotations e') = (map_of (env_annotations e))(AUTO_STOPPED_ANNOTATION := None) \<and>
    de_spec e' = Some (s\<lparr>sp_running := Some True\<rparr>) \<and> de_status e' = de_status e"
proof -
  define r where "r = e\<lparr>de_spec := Some (s\<lparr>sp_running := Some True\<rparr>)\<rparr>"
  have same: "env_annotations r = env_annotations e" by (simp add: r_def env_annotations_def)
  have add: "apply_op (PatchAdd RUNNING_PATH True) e = Some r" using assms(1) by (simp add: r_def)
  show ?thesis
  proof (cases "stop_mark (Some e)")
    case None
    then have "map_of (env_annotations e) AUTO_STOPPED_ANNOTATION = None" by (simp add: stop_mark_def)
    then have "map_of (env_annotations r) = (map_of (env_annotations e))(AUTO_STOPPED_ANNOTATION := None)"
      by (simp add: same fun_upd_idem)
    moreover have "apply_ops (run_ops True (stop_mark (Some e))) e = Some r" using None add by (simp add: run_ops_def)
    ultimately show ?thesis by (auto simp: r_def project_def Let_def)
  next
    case (Some v)
    let ?path = "ANNOTATIONS_PATH @ jsonPointerEscape AUTO_STOPPED_ANNOTATION"
    from Some have "map_of (env_annotations r) AUTO_STOPPED_ANNOTATION = Some v" by (simp add: same stop_mark_def)
    then have "apply_op (PatchRemove ?path) r = Some (remove_annotation AUTO_STOPPED_ANNOTATION r)"
      by (simp add: jsonPointerEscape_def Let_def)
    then have "apply_ops (run_ops True (stop_mark (Some e))) e = Some (remove_annotation AUTO_STOPPED_ANNOTATION r)"
      using Some assms(2) add by (simp add: run_ops_def)
    then show ?thesis using remove_annotation_map [of AUTO_STOPPED_ANNOTATION r]
      by (simp add: same) (simp add: r_def project_def Let_def remove_annotation_def)
  qed
qed

definition stopped_env :: dev_env where
  "stopped_env =
     \<lparr>de_meta = Some \<lparr>me_name = Some ''nb'', me_namespace = Some ''lab'', me_created = None,
        me_annotations = Some [(AUTO_STOPPED_ANNOTATION, ''true''), (''ai.cubestack.io/auto-stopped-at'', ''t'')]\<rparr>,
      de_spec = Some empty_spec, de_status = None\<rparr>"

theorem start_wakes_witness:
  "\<exists>e'. apply_ops (run_ops True (stop_mark (Some stopped_env))) stopped_env = Some e' \<and> su_running (project e') \<and>
    map_of (env_annotations e') AUTO_STOPPED_ANNOTATION = None"
proof -
  have "de_spec stopped_env = Some empty_spec" "stop_mark (Some stopped_env) \<noteq> Some []"
    by (simp_all add: stopped_env_def stop_mark_def env_annotations_def)
  from start_wakes [OF this] show ?thesis by auto
qed

text \<open>What the handlers answer to a failed call: a start or stop is forbidden, and a deleted
  environment missing, only when the error's \<open>statusCode\<close> says so. The client puts the status of an
  answer in \<open>code\<close>, so the deletion of an environment that is gone is answered with a failure.\<close>

theorem delete_answers_status_code:
  "(res_status (delete_failed name e) = Status 404 \<longleftrightarrow> e_statusCode e = Some (NumCode 404)) \<and>
   (res_status (patch_failed e) = Status 403 \<longleftrightarrow> e_statusCode e = Some (NumCode 403)) \<and>
   (\<exists>gone. isNotFound gone \<and> k8sErrorCode gone = Some 404 \<and>
      dev_DELETE (api\<lparr>d_delete := \<lambda>_ _. Inl gone\<rparr>) (Some (Some ''ns'', Some ''env'')) =
        (answer 500 (Failed ''Failed to delete dev environment''), [DeleteEnv ''ns'' ''env'']))"
proof -
  let ?gone = "\<lparr>e_code = Some (NumCode 404), e_statusCode = None, e_message = []\<rparr>"
  have "isNotFound ?gone" "k8sErrorCode ?gone = Some 404"
    "dev_DELETE (api\<lparr>d_delete := \<lambda>_ _. Inl ?gone\<rparr>) (Some (Some ''ns'', Some ''env'')) =
        (answer 500 (Failed ''Failed to delete dev environment''), [DeleteEnv ''ns'' ''env''])"
    by (simp_all add: isNotFound_def k8sErrorCode_def dev_DELETE_def delete_failed_def)
  then show ?thesis by (auto simp: delete_failed_def patch_failed_def answer_def)
qed

section \<open>Credentials\<close>

text \<open>C39. A credential route is no way to read a Secret of the caller's choice: every Secret it reads is
  the one that the status of the named environment refers to, in the namespace the reference, the
  environment or else the request names; and what it answers is that Secret's entry.\<close>

theorem credential_derived:
  assumes "ListSecrets secretNs secretName \<in> set (snd (credential_GET decode c api params)) \<or>
    res_body (fst (credential_GET decode c api params)) = CredBody c' v secretName secretNs"
  shows "\<exists>e meta st ref. d_get api (text_field (params ''namespace'')) (text_field (params ''name'')) = Inr (Some e) \<and>
    de_meta e = Some meta \<and> de_status e = Some st \<and> cred_ref c st = Some ref \<and> sr_name ref = Some secretName \<and>
    secretNs = nullish (sr_namespace ref) (nullish (me_namespace meta) (text_field (params ''namespace''))) \<and>
    (case res_body (fst (credential_GET decode c api params)) of
       CredBody c'' val n m \<Rightarrow> (\<exists>dat items encoded. d_secrets api secretNs secretName = Inr (Some dat # items) \<and>
         map_of dat (cred_key c) = Some encoded \<and> val = decode encoded)
     | _ \<Rightarrow> True)"
proof -
  define namespace where "namespace = text_field (params ''namespace'')"
  define name where "name = text_field (params ''name'')"
  note d = credential_GET_def [of decode c api params, folded namespace_def name_def, unfolded Let_def]
  obtain e meta st ref where h: "d_get api namespace name = Inr (Some e)" "de_meta e = Some meta"
      "de_status e = Some st" "cred_ref c st = Some ref" "truthy (sr_name ref)" "namespace \<noteq> []" "name \<noteq> []"
    using assms unfolding d
    by (auto simp: answer_def split: if_splits sum.splits option.splits)
  obtain n where n: "sr_name ref = Some n" using h(5) by (cases "sr_name ref") auto
  have secretName: "secretName = n" "secretNs = nullish (sr_namespace ref) (nullish (me_namespace meta) namespace)"
    using assms h n unfolding d by (auto simp: answer_def split: if_splits sum.splits)
  have "case res_body (fst (credential_GET decode c api params)) of
       CredBody c'' val n m \<Rightarrow> (\<exists>dat items encoded. d_secrets api secretNs secretName = Inr (Some dat # items) \<and>
         map_of dat (cred_key c) = Some encoded \<and> val = decode encoded)
     | _ \<Rightarrow> True"
    using h n secretName unfolding d
    by (auto simp: answer_def nullish_def elim!: truthyE split: if_splits sum.splits list.splits option.splits)
  then show ?thesis using h n secretName unfolding namespace_def name_def by blast
qed

definition served_env :: dev_env where
  "served_env =
     \<lparr>de_meta = Some \<lparr>me_name = Some ''nb'', me_namespace = Some ''lab'', me_created = None, me_annotations = None\<rparr>,
      de_spec = None,
      de_status = Some (empty_status\<lparr>ss_jupyterTokenSecret := Some \<lparr>sr_name = Some ''nb-token'', sr_namespace = None\<rparr>\<rparr>)\<rparr>"

definition served_api :: dev_api where
  "served_api =
     (sample_dev_api (Inr ()))\<lparr>d_get := \<lambda>_ _. Inr (Some served_env),
        d_secrets := \<lambda>_ n. Inr (if n = ''nb-token'' then [Some [(''token'', ''c2VjcmV0'')]] else [])\<rparr>"

definition served_params :: "string \<Rightarrow> string option" where
  "served_params k = (if k = ''namespace'' then Some ''lab'' else if k = ''name'' then Some ''nb'' else None)"

theorem credential_derived_witness:
  "snd (credential_GET (\<lambda>s. s) JupyterToken served_api served_params) = [GetEnv ''lab'' ''nb'', ListSecrets ''lab'' ''nb-token''] \<and>
   (\<exists>e st ref. d_get served_api ''lab'' ''nb'' = Inr (Some e) \<and> de_status e = Some st \<and>
      cred_ref JupyterToken st = Some ref \<and> sr_name ref = Some ''nb-token'')"
proof -
  have "text_field (served_params ''namespace'') = ''lab''" "text_field (served_params ''name'') = ''nb''" by code_simp+
  moreover have "snd (credential_GET (\<lambda>s. s) JupyterToken served_api served_params) =
      [GetEnv ''lab'' ''nb'', ListSecrets ''lab'' ''nb-token'']" by code_simp
  ultimately show ?thesis
    using credential_derived [of "''lab''" "''nb-token''" "\<lambda>s. s" JupyterToken served_api served_params] by auto
qed

end
