(* ===== verification/Gateway.thy ===== *)
theory Gateway
  imports Cluster Auth Llm
begin

text \<open>
  The AI gateway client (\<open>lib/cubepilot/gateway.ts\<close>): which Gateways are the platform's, their
  addresses and model catalogues with the two caches, the gateway a model is sent to, the bearer token
  and the provider names the catalogues are written under. Calls run one after the other: the sharing
  of a call in flight, logging and the TLS transport to the API server are not modelled. \<open>compare\<close> is
  \<open>localeCompare\<close>.
\<close>

section \<open>Names\<close>

definition GATEWAY_NAMESPACE :: "env \<Rightarrow> string" where
  "GATEWAY_NAMESPACE env =
     (let ns = trim (nullish (env ''CUBESTACK_GATEWAY_NAMESPACE'') [])
      in if ns \<noteq> [] then ns else ''envoy-gateway-system'')"

definition GATEWAY_NAME :: "env \<Rightarrow> string" where
  "GATEWAY_NAME env =
     (let n = trim (nullish (env ''CUBESTACK_GATEWAY_NAME'') [])
      in if n \<noteq> [] then n else ''cubestack-gateway'')"

definition isPlatformGatewayName :: "env \<Rightarrow> string \<Rightarrow> bool" where
  "isPlatformGatewayName env name =
     (let gateway = toLowerCase (trim name); base = toLowerCase (GATEWAY_NAME env)
      in gateway = base \<or> startsWith gateway (base @ ''-''))"

definition pinnedGatewayNames :: "env \<Rightarrow> string list option" where
  "pinnedGatewayNames env =
     (let names = trim (nullish (env ''CUBESTACK_GATEWAY_NAMES'') [])
      in if names = [] then None
         else Some (filter (\<lambda>n. n \<noteq> []) (map trim (split_char CHR '','' names))))"

definition byGatewayOrder :: "(string \<Rightarrow> string \<Rightarrow> int) \<Rightarrow> env \<Rightarrow> string \<Rightarrow> string \<Rightarrow> int" where
  "byGatewayOrder compare env a b =
     (let base = toLowerCase (GATEWAY_NAME env);
          aPublic = (toLowerCase a = base); bPublic = (toLowerCase b = base)
      in if aPublic \<noteq> bPublic then (if aPublic then -1 else 1) else compare a b)"

definition GATEWAY_DATAPLANE_NAME_LABEL :: string where
  "GATEWAY_DATAPLANE_NAME_LABEL = ''gateway.envoyproxy.io/owning-gateway-name''"

section \<open>Discovery\<close>

datatype via = Direct | ApiServer

record gateway_service =
  gs_name :: string
  gs_namespace :: string
  gs_port :: nat

record gateway_base =
  gw_name :: "string option"
  gw_url :: string
  gw_via :: via
  gw_configured :: bool
  gw_service :: "gateway_service option"

definition inCluster :: "env \<Rightarrow> bool" where
  "inCluster env \<longleftrightarrow> truthy (env ''KUBERNETES_SERVICE_HOST'') \<and> truthy (env ''KUBERNETES_SERVICE_PORT'')"

text \<open>A Service as listed: its name, its labels and its first port.\<close>

record k8s_service =
  sv_name :: "string option"
  sv_labels :: "(string \<times> string) list option"
  sv_port :: "nat option"

definition gateway_of :: "k8s_service \<Rightarrow> string option" where
  "gateway_of s =
     (case sv_labels s of None \<Rightarrow> None | Some ls \<Rightarrow> map_of ls GATEWAY_DATAPLANE_NAME_LABEL)"

text \<open>The first Service of each Gateway, in the order of the listing.\<close>

definition by_gateway :: "k8s_service list \<Rightarrow> k8s_service list" where
  "by_gateway services = first_by gateway_of (\<lambda>s. gateway_of s \<noteq> None) {} services"

definition sort_by :: "('a \<Rightarrow> 'a \<Rightarrow> int) \<Rightarrow> 'a list \<Rightarrow> 'a list" where
  "sort_by cmp xs = foldr (insert_by (\<lambda>y x. cmp y x < 0)) xs []"

definition gateway_names :: "(string \<Rightarrow> string \<Rightarrow> int) \<Rightarrow> env \<Rightarrow> k8s_service list \<Rightarrow> string list" where
  "gateway_names compare env services =
     (case pinnedGatewayNames env of
        Some names \<Rightarrow> names
      | None \<Rightarrow> sort_by (byGatewayOrder compare env)
          (filter (isPlatformGatewayName env) (map (\<lambda>s. the (gateway_of s)) (by_gateway services))))"

definition service_url :: "string \<Rightarrow> string \<Rightarrow> nat \<Rightarrow> string" where
  "service_url name ns port = ''http://'' @ name @ ''.'' @ ns @ ''.svc:'' @ nat_to_string port"

definition base_of :: "env \<Rightarrow> string option \<Rightarrow> string \<Rightarrow> k8s_service \<Rightarrow> gateway_base" where
  "base_of env server name svc =
     (let sn = nullish (sv_name svc) []; ns = GATEWAY_NAMESPACE env; port = nullish (sv_port svc) 8080;
          service = \<lparr>gs_name = sn, gs_namespace = ns, gs_port = port\<rparr>
      in if inCluster env
         then \<lparr>gw_name = Some name, gw_url = service_url sn ns port, gw_via = Direct, gw_configured = False,
           gw_service = Some service\<rparr>
         else \<lparr>gw_name = Some name,
           gw_url = strip_trailing CHR ''/'' (nullish server []) @ ''/api/v1/namespaces/'' @ ns @ ''/services/'' @ sn @
             '':'' @ nat_to_string port @ ''/proxy'',
           gw_via = ApiServer, gw_configured = False, gw_service = Some service\<rparr>)"

text \<open>\<open>server\<close> is the address of the API server in the kubeconfig and \<open>listed\<close> the Services, or a
  failure.\<close>

definition discoverGatewayBases ::
    "(string \<Rightarrow> string \<Rightarrow> int) \<Rightarrow> env \<Rightarrow> string option \<Rightarrow> (unit + k8s_service list) \<Rightarrow> gateway_base list" where
  "discoverGatewayBases compare env server listed =
     (case listed of
        Inl _ \<Rightarrow> []
      | Inr services \<Rightarrow>
          (if \<not> inCluster env \<and> \<not> truthy server then []
           else concat (map (\<lambda>name. case find (\<lambda>s. gateway_of s = Some name) (by_gateway services) of
               None \<Rightarrow> []
             | Some svc \<Rightarrow> [base_of env server name svc]) (gateway_names compare env services))))"

section \<open>The caches\<close>

definition BASE_TTL_MS :: int where "BASE_TTL_MS = 30000"
definition CATALOG_TTL_MS :: int where "CATALOG_TTL_MS = 30000"
definition CATALOG_ERROR_TTL_MS :: int where "CATALOG_ERROR_TTL_MS = 5000"

record gateway_model =
  gm_id :: string
  gm_ownedBy :: string

record catalog_entry =
  ce_models :: "gateway_model list option"
  ce_loadedAt :: int
  ce_ttlMs :: int

record gateway_state =
  basesCache :: "(gateway_base list \<times> int) option"
  catalogCache :: "string \<rightharpoonup> catalog_entry"

definition clearGatewayCaches :: gateway_state where
  "clearGatewayCaches = \<lparr>basesCache = None, catalogCache = Map.empty\<rparr>"

text \<open>The discovery behind its cache; an empty answer is kept as well.\<close>

definition cached_bases :: "gateway_base list \<Rightarrow> int \<Rightarrow> gateway_state \<Rightarrow> gateway_base list \<times> gateway_state" where
  "cached_bases discovered now st =
     (case basesCache st of
        Some (bases, at_ms) \<Rightarrow>
          (if now - at_ms < BASE_TTL_MS then (bases, st) else (discovered, st\<lparr>basesCache := Some (discovered, now)\<rparr>))
      | None \<Rightarrow> (discovered, st\<lparr>basesCache := Some (discovered, now)\<rparr>))"

definition resolveGatewayBases ::
    "env \<Rightarrow> gateway_base list \<Rightarrow> int \<Rightarrow> gateway_state \<Rightarrow> gateway_base list \<times> gateway_state" where
  "resolveGatewayBases env discovered now st =
     (let explicit = trim (nullish (env ''CUBESTACK_GATEWAT_URL'') [])
      in if explicit \<noteq> []
         then ([\<lparr>gw_name = None, gw_url = strip_trailing CHR ''/'' explicit, gw_via = Direct, gw_configured = True,
             gw_service = None\<rparr>], st)
         else cached_bases discovered now st)"

definition resolveGatewayBase ::
    "env \<Rightarrow> gateway_base list \<Rightarrow> int \<Rightarrow> gateway_state \<Rightarrow> gateway_base option" where
  "resolveGatewayBase env discovered now st = nth_opt (fst (resolveGatewayBases env discovered now st)) 0"

definition privateGatewayClusterEndpoint ::
    "env \<Rightarrow> gateway_base list \<Rightarrow> int \<Rightarrow> gateway_state \<Rightarrow> string option" where
  "privateGatewayClusterEndpoint env discovered now st =
     (case find (\<lambda>b. gw_name b = Some (GATEWAY_NAME env @ ''-private'')) (fst (resolveGatewayBases env discovered now st)) of
        None \<Rightarrow> None
      | Some b \<Rightarrow> map_option (\<lambda>s. service_url (gs_name s) (gs_namespace s) (gs_port s)) (gw_service b))"

section \<open>The token\<close>

definition gatewayToken :: "env \<Rightarrow> string" where
  "gatewayToken env = trim (nullish (env ''CUBESTACK_GATEWAY_TOKEN'') [])"

definition gatewayTokenHeader :: "env \<Rightarrow> (string \<times> string) list" where
  "gatewayTokenHeader env =
     (if gatewayToken env \<noteq> [] then [(''Authorization'', ''Bearer '' @ gatewayToken env)] else [])"

record outgoing =
  og_url :: string
  og_headers :: "(string \<times> string) list"
  og_via :: via

text \<open>The request a call to a gateway sends, or the refusal: the headers of the caller come after the
  token's and replace it.\<close>

definition fetchAtBase ::
    "env \<Rightarrow> gateway_base \<Rightarrow> string \<Rightarrow> (string \<times> string) list \<Rightarrow> unit + outgoing" where
  "fetchAtBase env base path headers =
     (if gw_configured base \<and> gatewayTokenHeader env \<noteq> [] \<and> \<not> startsWith (gw_url base) ''https://'' then Inl ()
      else Inr \<lparr>og_url = gw_url base @ path,
        og_headers = foldl (\<lambda>es (k, v). obj_set es k v) (gatewayTokenHeader env) headers,
        og_via = gw_via base\<rparr>)"

section \<open>Catalogues\<close>

text \<open>What a gateway answers to \<open>/v1/models\<close>: nothing (a failure, an error status, a body that is not a
  list), or entries with an id and an owner, each absent when it is not a text.\<close>

type_synonym models_answer = "(string option \<times> string option) list option"

definition chat_models :: "models_answer \<Rightarrow> gateway_model list option" where
  "chat_models a =
     map_option (\<lambda>ms. filter (\<lambda>m. isChatModel (gm_id m))
       (map (\<lambda>(i, ob). \<lparr>gm_id = the i, gm_ownedBy = nullish ob []\<rparr>) (filter (\<lambda>(i, ob). truthy i) ms))) a"

text \<open>\<open>reply\<close> is the gateway's answer to a request.\<close>

definition live_catalog :: "env \<Rightarrow> (outgoing \<Rightarrow> models_answer) \<Rightarrow> gateway_base \<Rightarrow> gateway_model list option" where
  "live_catalog env reply base =
     (case fetchAtBase env base ''/v1/models'' [] of Inl _ \<Rightarrow> None | Inr req \<Rightarrow> chat_models (reply req))"

definition gatewayCatalogAt ::
    "env \<Rightarrow> (outgoing \<Rightarrow> models_answer) \<Rightarrow> int \<Rightarrow> gateway_base \<Rightarrow> gateway_state \<Rightarrow>
     gateway_model list option \<times> gateway_state" where
  "gatewayCatalogAt env reply now base st =
     (let load = (let models = live_catalog env reply base
          in (models, st\<lparr>catalogCache := (catalogCache st)(gw_url base \<mapsto>
               \<lparr>ce_models = models, ce_loadedAt = now,
                ce_ttlMs = (if models = None then CATALOG_ERROR_TTL_MS else CATALOG_TTL_MS)\<rparr>)\<rparr>))
      in case catalogCache st (gw_url base) of
           Some c \<Rightarrow> (if now - ce_loadedAt c < ce_ttlMs c then (ce_models c, st) else load)
         | None \<Rightarrow> load)"

fun catalogs_of ::
    "env \<Rightarrow> (outgoing \<Rightarrow> models_answer) \<Rightarrow> int \<Rightarrow> gateway_base list \<Rightarrow> gateway_state \<Rightarrow>
     gateway_model list option list \<times> gateway_state" where
  "catalogs_of env reply now [] st = ([], st)"
| "catalogs_of env reply now (b # bs) st =
     (case gatewayCatalogAt env reply now b st of
        (c, st') \<Rightarrow> (case catalogs_of env reply now bs st' of (cs, st'') \<Rightarrow> (c # cs, st'')))"

fun merge_models :: "string set \<Rightarrow> gateway_model list \<Rightarrow> gateway_model list" where
  "merge_models seen [] = []"
| "merge_models seen (m # ms) =
     (if gm_id m \<in> seen then merge_models seen ms else m # merge_models (insert (gm_id m) seen) ms)"

definition union_catalog :: "gateway_model list option list \<Rightarrow> gateway_model list option" where
  "union_catalog catalogs =
     (if list_all (\<lambda>c. c = None) catalogs then None
      else Some (merge_models {} (concat (map (\<lambda>c. nullish c []) catalogs))))"

definition gatewayCatalog ::
    "env \<Rightarrow> (outgoing \<Rightarrow> models_answer) \<Rightarrow> gateway_base list \<Rightarrow> int \<Rightarrow> gateway_state \<Rightarrow>
     gateway_model list option \<times> gateway_state" where
  "gatewayCatalog env reply discovered now st =
     (case resolveGatewayBases env discovered now st of
        (bases, st') \<Rightarrow>
          (if bases = [] then (None, st')
           else case catalogs_of env reply now bases st' of (cs, st'') \<Rightarrow> (union_catalog cs, st'')))"

definition gatewayCatalogs ::
    "env \<Rightarrow> (outgoing \<Rightarrow> models_answer) \<Rightarrow> gateway_base list \<Rightarrow> int \<Rightarrow> gateway_state \<Rightarrow>
     (gateway_base \<times> gateway_model list) list \<times> gateway_state" where
  "gatewayCatalogs env reply discovered now st =
     (case resolveGatewayBases env discovered now st of
        (bases, st') \<Rightarrow> (case catalogs_of env reply now bases st' of
          (cs, st'') \<Rightarrow> (zip bases (map (\<lambda>c. nullish c []) cs), st'')))"

definition lists_model :: "string \<Rightarrow> gateway_model list option \<Rightarrow> bool" where
  "lists_model model c \<longleftrightarrow> c \<noteq> None \<and> list_ex (\<lambda>m. gm_id m = model) (the c)"

definition gatewayBaseForModel ::
    "env \<Rightarrow> (outgoing \<Rightarrow> models_answer) \<Rightarrow> gateway_base list \<Rightarrow> int \<Rightarrow> gateway_state \<Rightarrow> string \<Rightarrow>
     gateway_base option \<times> gateway_state" where
  "gatewayBaseForModel env reply discovered now st model =
     (case resolveGatewayBases env discovered now st of
        (bases, st') \<Rightarrow>
          (if bases = [] then (None, st')
           else case catalogs_of env reply now bases st' of
             (cs, st'') \<Rightarrow> (map_option (\<lambda>i. bases ! i) (find_index (lists_model model) cs), st'')))"

definition gatewayFetch ::
    "env \<Rightarrow> gateway_base list \<Rightarrow> int \<Rightarrow> gateway_state \<Rightarrow> string \<Rightarrow> (string \<times> string) list \<Rightarrow>
     (unit + outgoing) option \<times> gateway_state" where
  "gatewayFetch env discovered now st path headers =
     (case resolveGatewayBases env discovered now st of
        (bases, st') \<Rightarrow> (map_option (\<lambda>b. fetchAtBase env b path headers) (nth_opt bases 0), st'))"

definition gatewayFetchForModel ::
    "env \<Rightarrow> (outgoing \<Rightarrow> models_answer) \<Rightarrow> gateway_base list \<Rightarrow> int \<Rightarrow> gateway_state \<Rightarrow> string \<Rightarrow> string \<Rightarrow>
     (string \<times> string) list \<Rightarrow> (unit + outgoing) option \<times> gateway_state" where
  "gatewayFetchForModel env reply discovered now st model path headers =
     (case gatewayBaseForModel env reply discovered now st model of
        (found, st') \<Rightarrow>
          (case (case found of Some b \<Rightarrow> Some b | None \<Rightarrow> resolveGatewayBase env discovered now st') of
             None \<Rightarrow> (None, st')
           | Some b \<Rightarrow> (Some (fetchAtBase env b path headers), st')))"

section \<open>Provider entries\<close>

definition gatewayOpenAiBaseOf :: "gateway_base \<Rightarrow> string" where
  "gatewayOpenAiBaseOf base =
     (let url = cut_suffix (strip_trailing CHR ''/'' (trim (gw_url base)))
      in if endsWith (toLowerCase url) ''/v1'' then url else url @ ''/v1'')"

definition strip_route_prefix :: "string \<Rightarrow> string" where
  "strip_route_prefix s =
     (if startsWith s ''cubestack-ai-gateway-'' then drop (length ''cubestack-ai-gateway-'') s
      else if startsWith s ''cubestack-'' then drop (length ''cubestack-'') s
      else s)"

definition platformProviderNameOf :: "env \<Rightarrow> gateway_base \<Rightarrow> string" where
  "platformProviderNameOf env base =
     (let gateway = toLowerCase (trim (nullish (gw_name base) [])); publicName = toLowerCase (GATEWAY_NAME env)
      in if gateway = [] \<or> gateway = publicName \<or> gateway = ''cubestack-ai-gateway'' \<or> gateway = PLATFORM_MODEL_NAME
         then PLATFORM_MODEL_NAME
         else
           (let stripped = (if startsWith gateway (publicName @ ''-'') then drop (length (publicName @ ''-'')) gateway
                else strip_route_prefix gateway);
                suffix = strip_ends CHR ''-'' (collapse_runs label_char CHR ''-'' stripped)
            in if suffix \<noteq> [] then PLATFORM_MODEL_NAME @ ''-'' @ suffix else PLATFORM_MODEL_NAME))"

section \<open>The caches as memoized reads\<close>

interpretation bases: memoized cached_bases basesCache "\<lambda>_. BASE_TTL_MS" "\<lambda>discovered. discovered" "\<lambda>_. True" "\<lambda>_. True"
  by unfold_locales (auto simp: cached_bases_def split: option.split)

text \<open>The lifetime recorded with a catalogue is the one its answer calls for.\<close>

definition catalog_lifetime :: "gateway_model list option \<Rightarrow> int" where
  "catalog_lifetime models = (if models = None then CATALOG_ERROR_TTL_MS else CATALOG_TTL_MS)"

definition caches_ok :: "gateway_state \<Rightarrow> bool" where
  "caches_ok st \<longleftrightarrow> (\<forall>url c. catalogCache st url = Some c \<longrightarrow> ce_ttlMs c = catalog_lifetime (ce_models c))"

definition catalog_access ::
    "env \<Rightarrow> gateway_base \<times> (outgoing \<Rightarrow> models_answer) \<Rightarrow> int \<Rightarrow> gateway_state \<Rightarrow>
     gateway_model list option \<times> gateway_state" where
  "catalog_access env w now st = gatewayCatalogAt env (snd w) now (fst w) st"

lemma gatewayCatalogAt_cases:
  obtains (cached) c where "catalogCache st (gw_url base) = Some c" "now - ce_loadedAt c < ce_ttlMs c"
      "gatewayCatalogAt env reply now base st = (ce_models c, st)"
  | (loaded) "\<not> (\<exists>c. catalogCache st (gw_url base) = Some c \<and> now - ce_loadedAt c < ce_ttlMs c)"
      "fst (gatewayCatalogAt env reply now base st) = live_catalog env reply base"
      "catalogCache (snd (gatewayCatalogAt env reply now base st)) = (catalogCache st)(gw_url base \<mapsto>
         \<lparr>ce_models = live_catalog env reply base, ce_loadedAt = now,
          ce_ttlMs = catalog_lifetime (live_catalog env reply base)\<rparr>)"
proof (cases "\<exists>c. catalogCache st (gw_url base) = Some c \<and> now - ce_loadedAt c < ce_ttlMs c")
  case True
  then show thesis using cached by (auto simp: gatewayCatalogAt_def)
next
  case False
  then have "gatewayCatalogAt env reply now base st =
      (live_catalog env reply base, st\<lparr>catalogCache := (catalogCache st)(gw_url base \<mapsto>
         \<lparr>ce_models = live_catalog env reply base, ce_loadedAt = now,
          ce_ttlMs = catalog_lifetime (live_catalog env reply base)\<rparr>)\<rparr>)"
    by (cases "catalogCache st (gw_url base)") (auto simp: gatewayCatalogAt_def catalog_lifetime_def Let_def)
  with False show thesis using loaded by simp
qed

lemma caches_ok_access: "caches_ok st \<Longrightarrow> caches_ok (snd (gatewayCatalogAt env reply now base st))"
  by (cases rule: gatewayCatalogAt_cases [of st base now env reply]) (auto simp: caches_ok_def)

interpretation catalogs: memoized "catalog_access env"
  "\<lambda>st. map_option (\<lambda>c. (ce_models c, ce_loadedAt c)) (catalogCache st url)" catalog_lifetime
  "\<lambda>(base, reply). live_catalog env reply base" "\<lambda>(base, reply). gw_url base = url" caches_ok
  for env url
proof (unfold_locales, goal_cases)
  case (1 s w now)
  then show ?case by (simp add: catalog_access_def caches_ok_access)
next
  case (2 s w v t now)
  then have "ce_ttlMs c = catalog_lifetime v" if "catalogCache s url = Some c" for c
    using that by (auto simp: caches_ok_def)
  with 2 show ?case
    by (cases rule: gatewayCatalogAt_cases [of s "fst w" now env "snd w"])
      (auto simp: catalog_access_def split: prod.splits)
next
  case (3 s w now)
  then have "ce_ttlMs c = catalog_lifetime (ce_models c)" if "catalogCache s url = Some c" for c
    using that by (auto simp: caches_ok_def)
  with 3 show ?case
    by (cases rule: gatewayCatalogAt_cases [of s "fst w" now env "snd w"])
      (auto simp: catalog_access_def split: prod.splits)
next
  case (4 w now s)
  then show ?case
    by (cases rule: gatewayCatalogAt_cases [of s "fst w" now env "snd w"])
      (auto simp: catalog_access_def split: prod.splits)
qed

text \<open>A catalogue is never older than thirty seconds, and a failure never remembered longer than
  five: after any accesses since the start, what is reported of a gateway is what its address answers
  now, or what it answered to an access that long ago at most.\<close>

theorem catalog_age:
  assumes "fst (gatewayCatalogAt env reply now base (run_accesses (catalog_access env) accs clearGatewayCaches)) = models"
  shows "models = live_catalog env reply base \<or>
    (\<exists>t earlier earlier_reply. (t, (earlier, earlier_reply)) \<in> set accs \<and> gw_url earlier = gw_url base \<and>
       models = live_catalog env earlier_reply earlier \<and> now - t < (if models = None then 5000 else 30000))"
proof -
  have ok: "caches_ok clearGatewayCaches" by (simp add: caches_ok_def clearGatewayCaches_def)
  have none: "map_option (\<lambda>c. (ce_models c, ce_loadedAt c)) (catalogCache clearGatewayCaches (gw_url base)) = None"
    by (simp add: clearGatewayCaches_def)
  have concerns: "case (base, reply) of (b, r) \<Rightarrow> gw_url b = gw_url base" by simp
  have "fst (catalog_access env (base, reply) now (run_accesses (catalog_access env) accs clearGatewayCaches)) = models"
    using assms by (simp add: catalog_access_def)
  from catalogs.answer_age [OF ok none concerns this]
  have "models = live_catalog env reply base \<or>
    (\<exists>t w. (t, w) \<in> set accs \<and> gw_url (fst w) = gw_url base \<and> models = live_catalog env (snd w) (fst w) \<and>
      now - t < catalog_lifetime models)"
    by (simp only: case_prod_beta fst_conv snd_conv)
  then show ?thesis
  proof
    assume "\<exists>t w. (t, w) \<in> set accs \<and> gw_url (fst w) = gw_url base \<and> models = live_catalog env (snd w) (fst w) \<and>
      now - t < catalog_lifetime models"
    then obtain t e r where acc: "(t, (e, r)) \<in> set accs" "gw_url e = gw_url base" "models = live_catalog env r e"
      "now - t < catalog_lifetime models" by force
    have "catalog_lifetime models = (if models = None then 5000 else 30000)"
      by (simp add: catalog_lifetime_def CATALOG_TTL_MS_def CATALOG_ERROR_TTL_MS_def)
    with acc(4) have "now - t < (if models = None then 5000 else 30000)" by simp
    with acc(1-3) show ?thesis by blast
  qed simp
qed

definition sample_base :: "string \<Rightarrow> gateway_base" where
  "sample_base url = \<lparr>gw_name = None, gw_url = url, gw_via = Direct, gw_configured = False, gw_service = None\<rparr>"

theorem catalog_age_witness:
  "fst (gatewayCatalogAt (\<lambda>_. None) (\<lambda>_. Some []) 4999 (sample_base ''http://g'')
     (run_accesses (catalog_access (\<lambda>_. None)) [(0, (sample_base ''http://g'', \<lambda>_. None))] clearGatewayCaches)) = None \<and>
   (None = live_catalog (\<lambda>_. None) (\<lambda>_. Some []) (sample_base ''http://g'') \<or>
    (\<exists>t e r. (t, (e, r)) = (0 :: int, (sample_base ''http://g'', \<lambda>_. None)) \<and> None = live_catalog (\<lambda>_. None) r e \<and> 4999 - t < 5000))"
proof -
  have "fst (gatewayCatalogAt (\<lambda>_. None) (\<lambda>_. Some []) 4999 (sample_base ''http://g'')
     (run_accesses (catalog_access (\<lambda>_. None)) [(0, (sample_base ''http://g'', \<lambda>_. None))] clearGatewayCaches)) = None"
    by (simp add: catalog_access_def gatewayCatalogAt_def clearGatewayCaches_def live_catalog_def fetchAtBase_def
        sample_base_def chat_models_def CATALOG_ERROR_TTL_MS_def)
  with catalog_age [OF this] show ?thesis by auto
qed

section \<open>The union and the routing\<close>

lemma merge_models_first_by: "merge_models seen ms = first_by gm_id (\<lambda>_. True) seen ms"
  by (induction seen ms rule: merge_models.induct) simp_all

interpretation models: first_wins_idem "merge_models {}" "\<lambda>m. m" gm_id "\<lambda>_. True"
proof (rule first_wins_idem.intro)
  show "first_wins (merge_models {}) (\<lambda>m. m) gm_id (\<lambda>_. True)"
    by (rule first_wins_first_by) (simp add: merge_models_first_by)
qed (unfold_locales, simp)

lemma length_catalogs_of: "length (fst (catalogs_of env reply now bs st)) = length bs"
  by (induction env reply now bs st rule: catalogs_of.induct) (auto split: prod.split)

lemma union_catalog_ids:
  assumes "union_catalog cs = Some ms"
  shows "model \<in> gm_id ` set ms \<longleftrightarrow> (\<exists>c\<in>set cs. lists_model model c)" and "distinct (map gm_id ms)"
proof -
  from assms have ms: "ms = merge_models {} (concat (map (\<lambda>c. nullish c []) cs))"
    by (simp add: union_catalog_def split: if_splits)
  show "distinct (map gm_id ms)" unfolding ms by (rule models.merge_distinct)
  have "gm_id ` set ms = gm_id ` (\<Union>c\<in>set cs. set (nullish c []))"
    using models.merge_keys [of "concat (map (\<lambda>c. nullish c []) cs)"] by (simp add: ms)
  moreover have "lists_model model c \<longleftrightarrow> model \<in> gm_id ` set (nullish c [])" for c
    by (cases c) (auto simp: lists_model_def list_ex_iff)
  ultimately show "model \<in> gm_id ` set ms \<longleftrightarrow> (\<exists>c\<in>set cs. lists_model model c)" by auto
qed

text \<open>C29. The catalogue shown and the routing agree: a model is in the merged catalogue, where its id
  appears once, exactly if some gateway is found for it, and the gateway it is sent to is the first, in
  the order public first, whose own catalogue lists it.\<close>

theorem model_routing:
  assumes "fst (gatewayCatalog env reply discovered now st) = Some ms"
  shows "distinct (map gm_id ms) \<and>
    (model \<in> gm_id ` set ms \<longleftrightarrow> fst (gatewayBaseForModel env reply discovered now st model) \<noteq> None) \<and>
    (\<forall>b. fst (gatewayBaseForModel env reply discovered now st model) = Some b \<longrightarrow>
       (\<exists>i cs. cs = fst (catalogs_of env reply now (fst (resolveGatewayBases env discovered now st))
            (snd (resolveGatewayBases env discovered now st))) \<and> i < length cs \<and>
          b = fst (resolveGatewayBases env discovered now st) ! i \<and> lists_model model (cs ! i) \<and>
          (\<forall>j<i. \<not> lists_model model (cs ! j))))"
proof -
  obtain bases st' where bases: "resolveGatewayBases env discovered now st = (bases, st')" by fastforce
  obtain cs st'' where cs: "catalogs_of env reply now bases st' = (cs, st'')" by fastforce
  from assms bases cs have ms: "union_catalog cs = Some ms" and "bases \<noteq> []"
    by (auto simp: gatewayCatalog_def split: if_splits)
  then have found: "fst (gatewayBaseForModel env reply discovered now st model) =
      map_option (\<lambda>i. bases ! i) (find_index (lists_model model) cs)"
    by (simp add: gatewayBaseForModel_def bases cs)
  moreover have "(\<exists>c\<in>set cs. lists_model model c) \<longleftrightarrow> find_index (lists_model model) cs \<noteq> None"
    unfolding find_index_None by simp
  moreover have "\<exists>i. i < length cs \<and> b = bases ! i \<and> lists_model model (cs ! i) \<and> (\<forall>j<i. \<not> lists_model model (cs ! j))"
    if "map_option (\<lambda>i. bases ! i) (find_index (lists_model model) cs) = Some b" for b
    using that find_index_SomeD [of "lists_model model" cs] by auto
  ultimately show ?thesis using union_catalog_ids(1) [OF ms, of model] union_catalog_ids(2) [OF ms] by (auto simp: bases cs)
qed

section \<open>The token\<close>



theorem model_routing_witness:
  "fst (gatewayCatalog (\<lambda>_. None) (\<lambda>r. Some [(Some ''m'', None)]) [sample_base ''http://a'', sample_base ''http://b''] 0 clearGatewayCaches) =
     Some [\<lparr>gm_id = ''m'', gm_ownedBy = []\<rparr>] \<and>
   fst (gatewayBaseForModel (\<lambda>_. None) (\<lambda>r. Some [(Some ''m'', None)]) [sample_base ''http://a'', sample_base ''http://b''] 0
     clearGatewayCaches ''m'') \<noteq> None"
proof -
  have c: "fst (gatewayCatalog (\<lambda>_. None) (\<lambda>r. Some [(Some ''m'', None)]) [sample_base ''http://a'', sample_base ''http://b''] 0
      clearGatewayCaches) = Some [\<lparr>gm_id = ''m'', gm_ownedBy = []\<rparr>]"
    unfolding clearGatewayCaches_def by code_simp
  from model_routing [OF c, of "''m''"] c show ?thesis by simp
qed

section \<open>Provider names\<close>

lemma GATEWAY_NAME_shape: "GATEWAY_NAME env \<noteq> [] \<and> \<not> js_space (hd (GATEWAY_NAME env))"
proof (cases "trim (nullish (env ''CUBESTACK_GATEWAY_NAME'') []) = []")
  case True
  then show ?thesis by (simp add: GATEWAY_NAME_def js_space_def)
next
  case False
  then show ?thesis using trim_ends [of "nullish (env ''CUBESTACK_GATEWAY_NAME'') []"]
    by (simp add: GATEWAY_NAME_def Let_def)
qed

lemma suffix_chars: "list_all label_char (strip_ends CHR ''-'' (collapse_runs label_char CHR ''-'' s))"
proof -
  have "c \<in> set (collapse_runs label_char CHR ''-'' s) \<Longrightarrow> label_char c" for c
    using set_collapse_runs [of c label_char "CHR ''-''" s] by (auto simp: label_char_def)
  then show ?thesis using set_strip_ends by (fastforce simp: list_all_iff)
qed

lemma platform_name_chars: "list_all label_char PLATFORM_MODEL_NAME" "label_char CHR ''-''"
  by code_simp+

text \<open>The provider entry of a Gateway is the platform's own and a plain label, and the Gateway
  \<open><public>-s\<close> gets \<open>cubestack-s\<close> for a DNS label \<open>s\<close>, so different siblings of the public Gateway get
  different entries. (One exception, by the code: a sibling that bears the older route's name.)\<close>

theorem provider_of_gateway:
  "isPlatformProviderName (platformProviderNameOf env b) \<and> list_all label_char (platformProviderNameOf env b) \<and>
   (dns_label s \<and> gw_name b = Some (GATEWAY_NAME env @ ''-'' @ s) \<and>
      toLowerCase (GATEWAY_NAME env) @ ''-'' @ s \<noteq> ''cubestack-ai-gateway'' \<longrightarrow>
    platformProviderNameOf env b = ''cubestack-'' @ s)"
proof (intro conjI impI)
  show "isPlatformProviderName (platformProviderNameOf env b)"
    by (simp add: platformProviderNameOf_def isPlatformProviderName_def Let_def)
  show "list_all label_char (platformProviderNameOf env b)"
    using platform_name_chars suffix_chars by (simp add: platformProviderNameOf_def Let_def)
  assume h: "dns_label s \<and> gw_name b = Some (GATEWAY_NAME env @ ''-'' @ s) \<and>
      toLowerCase (GATEWAY_NAME env) @ ''-'' @ s \<noteq> ''cubestack-ai-gateway''"
  let ?p = "toLowerCase (GATEWAY_NAME env)"
  have s: "s \<noteq> []" "lower_alnum (hd s)" "lower_alnum (last s)" "\<forall>c\<in>set s. label_char c"
    using h by (auto simp: dns_label_def)
  have "trim (GATEWAY_NAME env @ ''-'' @ s) = GATEWAY_NAME env @ ''-'' @ s"
    using GATEWAY_NAME_shape [of env] s lower_alnum_not_space by (intro trim_id) auto
  moreover have "toLowerCase s = s" using s(4) by (intro toLowerCase_alnum) auto
  ultimately have g: "toLowerCase (trim (nullish (gw_name b) [])) = ?p @ ''-'' @ s"
    using h by (simp add: toLowerCase_def lower_char_def)
  have "collapse_runs label_char CHR ''-'' s = s" using s(4) by (rule collapse_runs_id)
  moreover have "strip_ends CHR ''-'' s = s" using s lower_alnum_not_dash by (intro strip_ends_id) auto
  ultimately have suffix: "strip_ends CHR ''-'' (collapse_runs label_char CHR ''-'' s) = s" by simp
  have "CHR ''-'' \<in> set (?p @ ''-'' @ s)" "CHR ''-'' \<notin> set PLATFORM_MODEL_NAME"
    by (simp_all add: PLATFORM_MODEL_NAME_def)
  then have "?p @ ''-'' @ s \<noteq> PLATFORM_MODEL_NAME" by metis
  moreover have "?p @ ''-'' @ s \<noteq> ''cubestack-ai-gateway''" using h by blast
  ultimately show "platformProviderNameOf env b = ''cubestack-'' @ s"
    unfolding platformProviderNameOf_def g Let_def using s(1) suffix by (simp add: PLATFORM_MODEL_NAME_def)
qed

theorem provider_of_gateway_witness:
  "platformProviderNameOf (\<lambda>_. None) ((sample_base ''u'')\<lparr>gw_name := Some ''cubestack-gateway-private''\<rparr>) = ''cubestack-private''"
proof -
  let ?b = "(sample_base ''u'')\<lparr>gw_name := Some ''cubestack-gateway-private''\<rparr>"
  have "dns_label ''private''" unfolding dns_label_def by code_simp
  moreover have n: "GATEWAY_NAME (\<lambda>_. None) = ''cubestack-gateway''" by code_simp
  moreover have "toLowerCase ''cubestack-gateway'' = ''cubestack-gateway''" by code_simp
  ultimately show ?thesis
    using provider_of_gateway [of "\<lambda>_. None" ?b "''private''"] by simp
qed

end
