(* ===== verification/Inference.thy ===== *)
theory Inference
  imports Dev_Env_Api Gateway
begin

text \<open>
  Inference services (\<open>app/api/inferenceservices/route.ts\<close>): the service and its runtime profile, the
  override parameters and their validation, the GPU facts of a role, and the projection for the
  listing. \<open>to_number\<close> is \<open>Number\<close> of a text. Objects are association lists whose keys are not named like
  an inherited property, except where the source looks one up by an arbitrary key. The dash the listing
  shows for an absent reference is \<open>None\<close>.
\<close>

section \<open>Resources\<close>

text \<open>A number of the language (the sign of an infinite one plays no part), and a value of an override: a number, a text, a truth value, a list of texts, or anything else.\<close>

datatype js_number = Finite rat | Infinite | NaN

fun finite_of :: "js_number \<Rightarrow> rat option" where
  "finite_of (Finite q) = Some q"
| "finite_of _ = None"

datatype override_value = ONum rat | OStr string | OBool bool | OList "string list" | OOther

type_synonym overrides = "(string \<times> override_value) list"

record isvc_condition =
  ic_type :: "string option"
  ic_status :: "string option"
  ic_reason :: "string option"
  ic_message :: "string option"
  ic_transition :: "string option"

record role_status =
  rs_name :: "string option"
  rs_kind :: "string option"
  rs_replicas :: "rat option"
  rs_readyReplicas :: "rat option"
  rs_groupSize :: "rat option"

record isvc_route =
  ir_router :: "string option"
  ir_modelName :: "string option"
  ir_paths :: "string list option"
  ir_timeout :: "rat option"
  ir_idleTimeout :: "rat option"

record isvc =
  is_name :: "string option"
  is_namespace :: "string option"
  is_created :: "string option"
  is_modelRef :: "string option"
  is_profileRef :: "string option"
  is_overrides :: "overrides option"
  is_route :: "isvc_route option"
  is_phase :: "string option"
  is_phaseReason :: "string option"
  is_conditions :: "isvc_condition list option"
  is_roles :: "role_status list option"
  is_modelName :: "string option"
  is_modelVersion :: "string option"
  is_internal :: "string option"
  is_public :: "string option"

record profile_override =
  ov_name :: "string option"
  ov_type :: "string option"
  ov_min :: "rat option"
  ov_max :: "rat option"
  ov_enum :: "(rat + string) list option"
  ov_default :: "override_value option"

record accel =
  ac_vendor :: "string option"
  ac_models :: "string list option"

text \<open>An int-or-string field.\<close>

datatype count_field = CNum rat | CStr string

record profile_role =
  ro_name :: "string option"
  ro_kind :: "string option"
  ro_replicas :: "count_field option"
  ro_group :: "count_field option option"
  ro_accel :: "accel option"
  ro_nodeSelector :: "(string \<times> string) list option"
  ro_gpuPerPod :: "count_field option"

record profile =
  pf_name :: "string option"
  pf_engine :: "string option"
  pf_engineVersion :: "string option"
  pf_accel :: "accel option"
  pf_requirements :: "(string list option \<times> string list option) option"
  pf_overrides :: "profile_override list option"
  pf_roles :: "profile_role list option"

section \<open>GPU facts of a role\<close>

definition VENDOR_PRODUCT_LABEL :: "string \<Rightarrow> string option" where
  "VENDOR_PRODUCT_LABEL v =
     (if v = ''metax'' then Some ''metax-tech.com/gpu.product''
      else if v = ''nvidia'' then Some ''nvidia.com/gpu.product'' else None)"

definition word_char :: "char \<Rightarrow> bool" where
  "word_char c \<longleftrightarrow> name_word c \<or> c = CHR ''_''"

definition OPEN_REF :: string where "OPEN_REF = ''{'' @ ''{''"
definition OVERRIDES_DOT :: string where "OVERRIDES_DOT = ''overrides.''"
definition CLOSE_REF :: string where "CLOSE_REF = ''}}''"

text \<open>\<open>OVERRIDE_REF.exec(s)\<close>: the name an override reference captures.\<close>

definition override_ref :: "string \<Rightarrow> string option" where
  "override_ref s =
     (if startsWith s OPEN_REF then
        (let s1 = dropWhile js_space (drop (length OPEN_REF) s)
         in if startsWith s1 OVERRIDES_DOT then
              (let s2 = drop (length OVERRIDES_DOT) s1; name = takeWhile word_char s2
               in if name \<noteq> [] \<and> dropWhile js_space (dropWhile word_char s2) = CLOSE_REF then Some name else None)
            else None)
      else None)"

text \<open>The effective values of the knobs that are not lists; a later entry of the same name wins.\<close>

type_synonym effective = "(string \<times> override_value option) list"

definition effective_get :: "effective \<Rightarrow> string \<Rightarrow> override_value option" where
  "effective_get eff k = (case map_of (rev eff) k of None \<Rightarrow> None | Some v \<Rightarrow> v)"

definition roleGpuModel :: "profile_role \<Rightarrow> profile \<Rightarrow> effective \<Rightarrow> string option" where
  "roleGpuModel role prof eff =
     (let accel = (case ro_accel role of Some a \<Rightarrow> Some a | None \<Rightarrow> pf_accel prof);
          label = VENDOR_PRODUCT_LABEL (nullish (case accel of None \<Rightarrow> None | Some a \<Rightarrow> ac_vendor a) []);
          val = (case label of
              None \<Rightarrow> None
            | Some l \<Rightarrow> map_option trim (case ro_nodeSelector role of None \<Rightarrow> None | Some ns \<Rightarrow> map_of ns l));
          models = nullish (case accel of None \<Rightarrow> None | Some a \<Rightarrow> ac_models a) [];
          fallback = (case models of [m] \<Rightarrow> Some m | _ \<Rightarrow> None)
      in if truthy val
         then (case override_ref (the val) of
             None \<Rightarrow> val
           | Some k \<Rightarrow> (case effective_get eff k of
               Some (OStr s) \<Rightarrow> if s \<noteq> [] then Some s else fallback
             | _ \<Rightarrow> fallback))
         else fallback)"

definition positive :: "rat \<Rightarrow> rat option" where
  "positive n = (if is_integer n \<and> 0 < n then Some n else None)"

definition roleGpuPerPod :: "(string \<Rightarrow> js_number) \<Rightarrow> profile_role \<Rightarrow> effective \<Rightarrow> rat option" where
  "roleGpuPerPod to_number role eff =
     (case ro_gpuPerPod role of
        None \<Rightarrow> None
      | Some (CNum n) \<Rightarrow> positive n
      | Some (CStr raw) \<Rightarrow>
          (case (case override_ref (trim raw) of Some k \<Rightarrow> effective_get eff k | None \<Rightarrow> Some (OStr (trim raw))) of
             Some (ONum n) \<Rightarrow> positive n
           | Some (OStr s) \<Rightarrow> (case finite_of (to_number s) of None \<Rightarrow> None | Some n \<Rightarrow> positive n)
           | _ \<Rightarrow> None))"

definition resolvedCount :: "(string \<Rightarrow> js_number) \<Rightarrow> count_field option \<Rightarrow> effective \<Rightarrow> rat option" where
  "resolvedCount to_number raw eff =
     (let resolved = (case raw of
          None \<Rightarrow> None
        | Some (CNum n) \<Rightarrow> Some (ONum n)
        | Some (CStr s) \<Rightarrow> (case override_ref (trim s) of Some k \<Rightarrow> effective_get eff k | None \<Rightarrow> Some (OStr s)));
          n = (case resolved of Some (ONum n) \<Rightarrow> Some n | Some (OStr s) \<Rightarrow> finite_of (to_number (trim s)) | _ \<Rightarrow> None)
      in case n of Some q \<Rightarrow> if is_integer q then Some q else None | None \<Rightarrow> None)"

definition non_negative :: "rat option \<Rightarrow> rat \<Rightarrow> rat" where
  "non_negative n d = (case n of Some q \<Rightarrow> if 0 \<le> q then q else d | None \<Rightarrow> d)"

definition roleReplicas :: "(string \<Rightarrow> js_number) \<Rightarrow> profile_role \<Rightarrow> effective \<Rightarrow> rat" where
  "roleReplicas to_number role eff = non_negative (resolvedCount to_number (ro_replicas role) eff) 1"

definition roleGroupSize :: "(string \<Rightarrow> js_number) \<Rightarrow> profile_role \<Rightarrow> effective \<Rightarrow> rat" where
  "roleGroupSize to_number role eff =
     (if ro_kind role \<noteq> Some ''LeaderWorkerSet'' \<or> ro_group role = None then 0
      else non_negative (resolvedCount to_number (the (ro_group role)) eff) 0)"

section \<open>Override validation\<close>

datatype override_error =
    OverrideUnknown string
  | OverrideNotStringList string
  | OverrideNotAllowed string
  | OverrideNotInteger string
  | OverrideBelowMin string rat
  | OverrideAboveMax string rat

fun enum_same :: "override_value \<Rightarrow> rat + string \<Rightarrow> bool" where
  "enum_same (ONum n) (Inl m) = (n = m)"
| "enum_same (OStr s) (Inr t) = (s = t)"
| "enum_same _ _ = False"

definition declared :: "profile_override list \<Rightarrow> string \<Rightarrow> profile_override option" where
  "declared os k = find (\<lambda>o'. nullish (ov_name o') [] = k) (rev os)"

text \<open>The kind is integer unless the type is another one of the table (or an inherited property of it).\<close>

definition integer_kind :: "profile_override \<Rightarrow> bool" where
  "integer_kind o' \<longleftrightarrow> nullish (ov_type o') ''integer'' \<notin> set ([''string'', ''boolean''] @ INHERITED_PROPERTIES)"

definition value_error :: "string \<Rightarrow> profile_override \<Rightarrow> override_value \<Rightarrow> override_error option" where
  "value_error key o' v =
     (if ov_type o' = Some ''stringList'' then
        (case v of
           OList es \<Rightarrow>
             (if \<exists>e\<in>set es. CHR '','' \<in> set e then Some (OverrideNotAllowed key)
              else if ov_enum o' \<noteq> None \<and> (\<exists>e\<in>set es. \<not> (\<exists>a\<in>set (the (ov_enum o')). a = Inr e))
                then Some (OverrideNotAllowed key)
              else None)
         | _ \<Rightarrow> Some (OverrideNotStringList key))
      else if integer_kind o' \<and> \<not> (case v of ONum n \<Rightarrow> is_integer n | _ \<Rightarrow> False) then Some (OverrideNotInteger key)
      else if ov_enum o' \<noteq> None \<and> \<not> (\<exists>a\<in>set (the (ov_enum o')). enum_same v a) then Some (OverrideNotAllowed key)
      else if integer_kind o' then
        (case v of
           ONum n \<Rightarrow>
             (if ov_min o' \<noteq> None \<and> n < the (ov_min o') then Some (OverrideBelowMin key (the (ov_min o')))
              else if ov_max o' \<noteq> None \<and> the (ov_max o') < n then Some (OverrideAboveMax key (the (ov_max o')))
              else None)
         | _ \<Rightarrow> None)
      else None)"

fun override_loop :: "profile_override list \<Rightarrow> overrides \<Rightarrow> override_error option" where
  "override_loop os [] = None"
| "override_loop os ((key, v) # rest) =
     (case declared os key of
        None \<Rightarrow> Some (OverrideUnknown key)
      | Some o' \<Rightarrow> (case value_error key o' v of Some e \<Rightarrow> Some e | None \<Rightarrow> override_loop os rest))"

definition overrideError :: "overrides \<Rightarrow> profile option \<Rightarrow> override_error option" where
  "overrideError ovs prof =
     (case prof of None \<Rightarrow> None | Some p \<Rightarrow> override_loop (nullish (pf_overrides p) []) ovs)"

section \<open>Projection\<close>

datatype knob_type = IntegerKnob | StringKnob | ListKnob | BooleanKnob

record knob =
  kn_name :: string
  kn_type :: knob_type
  kn_min :: "rat option"
  kn_max :: "rat option"
  kn_enum :: "(rat + string) list option"
  kn_current :: "override_value option"
  kn_default :: "override_value option"

definition isPrim :: "override_value option \<Rightarrow> bool" where
  "isPrim v \<longleftrightarrow> v \<noteq> None \<and> v \<noteq> Some OOther"

definition knob_type_of :: "string option \<Rightarrow> knob_type" where
  "knob_type_of t =
     (if t = Some ''string'' then StringKnob else if t = Some ''stringList'' then ListKnob
      else if t = Some ''boolean'' then BooleanKnob else IntegerKnob)"

definition knob_of :: "overrides \<Rightarrow> profile_override \<Rightarrow> knob" where
  "knob_of specOverrides o' =
     (let name = nullish (ov_name o') []; raw = map_of specOverrides name
      in \<lparr>kn_name = name, kn_type = knob_type_of (ov_type o'), kn_min = ov_min o', kn_max = ov_max o',
          kn_enum = ov_enum o',
          kn_current = (if isPrim raw then raw else if isPrim (ov_default o') then ov_default o' else None),
          kn_default = (if isPrim (ov_default o') then ov_default o' else None)\<rparr>)"

definition effective_of :: "knob list \<Rightarrow> effective" where
  "effective_of ks =
     map (\<lambda>k. (kn_name k, kn_current k))
       (filter (\<lambda>k. case kn_current k of Some (OList _) \<Rightarrow> False | _ \<Rightarrow> True) ks)"

record gpu_role =
  gr_name :: string
  gr_gpuPerPod :: rat
  gr_model :: "string option"
  gr_replicas :: rat
  gr_groupSize :: rat

definition gpu_roles :: "(string \<Rightarrow> js_number) \<Rightarrow> profile \<Rightarrow> effective \<Rightarrow> gpu_role list" where
  "gpu_roles to_number prof eff =
     map (\<lambda>(role, n). \<lparr>gr_name = nullish (ro_name role) ''?'', gr_gpuPerPod = the n,
           gr_model = roleGpuModel role prof eff, gr_replicas = roleReplicas to_number role eff,
           gr_groupSize = roleGroupSize to_number role eff\<rparr>)
       (filter (\<lambda>(role, n). n \<noteq> None)
         (map (\<lambda>role. (role, roleGpuPerPod to_number role eff)) (nullish (pf_roles prof) [])))"

text \<open>The engine metrics of a service, filled in by the queries.\<close>

record metrics =
  mt_qps :: "rat option"
  mt_p95 :: "rat option"
  mt_tps :: "rat option"
  mt_spark :: "js_number list option"

record isvc_summary =
  iv_name :: string
  iv_namespace :: string
  iv_profileRef :: "string option"
  iv_modelRef :: "string option"
  iv_published :: bool
  iv_aigatewayRouter :: "string option"
  iv_routeModelName :: "string option"
  iv_timeoutSeconds :: "rat option"
  iv_idleTimeoutSeconds :: "rat option"
  iv_createdAt :: "string option"
  iv_engine :: "string option"
  iv_engineVersion :: "string option"
  iv_vendor :: "string option"
  iv_gpuModel :: "string option"
  iv_gpuPerPod :: "rat option"
  iv_gpuRoles :: "gpu_role list"
  iv_modelName :: "string option"
  iv_modelVersion :: "string option"
  iv_overrideNums :: "(string \<times> rat) list"
  iv_overrides :: "knob list"
  iv_phase :: "string option"
  iv_phaseReason :: "string option"
  iv_conditions :: "(string \<times> string \<times> string \<times> string \<times> string option) list"
  iv_roles :: "(string \<times> string \<times> rat \<times> rat \<times> rat option) list"
  iv_internalEndpoint :: "string option"
  iv_publicEndpoint :: "string option"
  iv_privateGatewayEndpoint :: "string option"
  iv_metrics :: "metrics option"

definition override_nums :: "overrides \<Rightarrow> (string \<times> rat) list" where
  "override_nums ovs = concat (map (\<lambda>(k, v). case v of ONum n \<Rightarrow> [(k, n)] | _ \<Rightarrow> []) ovs)"

definition gpu_models :: "gpu_role list \<Rightarrow> string list" where
  "gpu_models rs = first_by (\<lambda>m. m) (\<lambda>_. True) {} (concat (map (\<lambda>r. case gr_model r of None \<Rightarrow> [] | Some m \<Rightarrow> [m]) rs))"

definition accel_of :: "profile option \<Rightarrow> accel option" where
  "accel_of prof = (case prof of None \<Rightarrow> None | Some p \<Rightarrow> pf_accel p)"

definition knobs_of :: "isvc \<Rightarrow> profile option \<Rightarrow> knob list" where
  "knobs_of s prof =
     map (knob_of (nullish (is_overrides s) [])) (case prof of None \<Rightarrow> [] | Some p \<Rightarrow> nullish (pf_overrides p) [])"

definition isvc_project ::
    "(string \<Rightarrow> js_number) \<Rightarrow> isvc \<Rightarrow> profile option \<Rightarrow> metrics option \<Rightarrow> string option \<Rightarrow> isvc_summary" where
  "isvc_project to_number s prof ms privateEndpoint =
     (let knobs = knobs_of s prof; eff = effective_of knobs;
          gpuRoles = (case prof of None \<Rightarrow> [] | Some p \<Rightarrow> gpu_roles to_number p eff);
          gpuModels = gpu_models gpuRoles;
          router = (case is_route s of None \<Rightarrow> None | Some r \<Rightarrow> ir_router r)
      in \<lparr>iv_name = nullish (is_name s) ''?'', iv_namespace = nullish (is_namespace s) [],
          iv_profileRef = is_profileRef s, iv_modelRef = is_modelRef s,
          iv_published = (nullish router [] \<noteq> []), iv_aigatewayRouter = router,
          iv_routeModelName = (case is_route s of None \<Rightarrow> None | Some r \<Rightarrow> ir_modelName r),
          iv_timeoutSeconds = (case is_route s of None \<Rightarrow> None | Some r \<Rightarrow> ir_timeout r),
          iv_idleTimeoutSeconds = (case is_route s of None \<Rightarrow> None | Some r \<Rightarrow> ir_idleTimeout r),
          iv_createdAt = is_created s,
          iv_engine = (case prof of None \<Rightarrow> None | Some p \<Rightarrow> pf_engine p),
          iv_engineVersion = (case prof of None \<Rightarrow> None | Some p \<Rightarrow> pf_engineVersion p),
          iv_vendor = (case accel_of prof of None \<Rightarrow> None | Some a \<Rightarrow> ac_vendor a),
          iv_gpuModel = (if gpuModels \<noteq> [] then Some (join '' / '' gpuModels)
            else case accel_of prof of None \<Rightarrow> None | Some a \<Rightarrow> nth_opt (nullish (ac_models a) []) 0),
          iv_gpuPerPod = (case gpuRoles of [] \<Rightarrow> None | r # rs \<Rightarrow> Some (gr_gpuPerPod r)),
          iv_gpuRoles = gpuRoles,
          iv_modelName = is_modelName s, iv_modelVersion = is_modelVersion s,
          iv_overrideNums = override_nums (nullish (is_overrides s) []),
          iv_overrides = knobs,
          iv_phase = is_phase s, iv_phaseReason = is_phaseReason s,
          iv_conditions = map (\<lambda>c. (nullish (ic_type c) ''?'', nullish (ic_status c) ''Unknown'',
            nullish (ic_reason c) [], nullish (ic_message c) [], ic_transition c)) (nullish (is_conditions s) []),
          iv_roles = map (\<lambda>r. (nullish (rs_name r) ''?'', nullish (rs_kind r) ''?'', nullish (rs_replicas r) 0,
            nullish (rs_readyReplicas r) 0, rs_groupSize r)) (nullish (is_roles s) []),
          iv_internalEndpoint = is_internal s, iv_publicEndpoint = is_public s,
          iv_privateGatewayEndpoint = privateEndpoint, iv_metrics = ms\<rparr>)"

section \<open>Override references\<close>

lemma js_space_ref: "\<not> js_space CHR ''o''" "\<not> js_space CHR ''}''" "\<not> word_char CHR ''}''"
  by code_simp+

lemma js_space_not_word: "js_space c \<Longrightarrow> \<not> word_char c"
  by (auto simp: js_space_def word_char_def name_word_def lower_alpha_def upper_alpha_def digit_def between_def)

lemma dropWhile_all_append: "list_all P xs \<Longrightarrow> ys = [] \<or> \<not> P (hd ys) \<Longrightarrow> dropWhile P (xs @ ys) = ys"
  by (induction xs) (cases ys; auto)+

lemma takeWhile_all_append: "list_all P xs \<Longrightarrow> ys = [] \<or> \<not> P (hd ys) \<Longrightarrow> takeWhile P (xs @ ys) = xs"
  by (induction xs) (cases ys; auto)+

lemma list_all_takeWhile: "list_all P (takeWhile P xs)"
  by (auto simp: list_all_iff dest: set_takeWhileD)

lemma startsWith_drop: "startsWith s p \<Longrightarrow> s = p @ drop (length p) s"
  by (auto simp: prefix_def)

lemma override_ref_read:
  assumes "override_ref s = Some n"
  obtains u w where "s = OPEN_REF @ u @ OVERRIDES_DOT @ n @ w @ CLOSE_REF" "list_all js_space u" "list_all js_space w"
    "n \<noteq> []" "list_all word_char n"
proof -
  define s0 where "s0 = drop (length OPEN_REF) s"
  define s1 where "s1 = dropWhile js_space s0"
  define s2 where "s2 = drop (length OVERRIDES_DOT) s1"
  define s3 where "s3 = dropWhile word_char s2"
  from assms have a: "startsWith s OPEN_REF" "startsWith s1 OVERRIDES_DOT" "n = takeWhile word_char s2" "n \<noteq> []"
    "dropWhile js_space s3 = CLOSE_REF"
    by (auto simp: override_ref_def Let_def s0_def s1_def s2_def s3_def split: if_splits)
  have "s = OPEN_REF @ s0" using startsWith_drop [OF a(1)] by (simp only: s0_def)
  also have "s0 = takeWhile js_space s0 @ s1" by (simp add: s1_def)
  also have "s1 = OVERRIDES_DOT @ s2" using startsWith_drop [OF a(2)] by (simp only: s2_def)
  also have "s2 = n @ s3" by (simp add: a(3) s3_def)
  also have "s3 = takeWhile js_space s3 @ CLOSE_REF"
    using takeWhile_dropWhile_id [of js_space s3] a(5) by simp
  finally have "s = OPEN_REF @ takeWhile js_space s0 @ OVERRIDES_DOT @ n @ takeWhile js_space s3 @ CLOSE_REF" by simp
  with a that show thesis using list_all_takeWhile by metis
qed

lemma override_ref_written:
  assumes "list_all js_space u" "list_all js_space w" "n \<noteq> []" "list_all word_char n"
  shows "override_ref (OPEN_REF @ u @ OVERRIDES_DOT @ n @ w @ CLOSE_REF) = Some n"
proof -
  have 1: "dropWhile js_space (u @ OVERRIDES_DOT @ n @ w @ CLOSE_REF) = OVERRIDES_DOT @ n @ w @ CLOSE_REF"
    using assms(1) js_space_ref by (intro dropWhile_all_append) (simp_all add: OVERRIDES_DOT_def)
  have rest: "w @ CLOSE_REF = [] \<or> \<not> word_char (hd (w @ CLOSE_REF))"
    using assms(2) js_space_not_word js_space_ref by (cases w) (auto simp: CLOSE_REF_def)
  have 2: "takeWhile word_char (n @ w @ CLOSE_REF) = n" "dropWhile word_char (n @ w @ CLOSE_REF) = w @ CLOSE_REF"
    using takeWhile_all_append [OF assms(4) rest] dropWhile_all_append [OF assms(4) rest] by simp_all
  have 3: "dropWhile js_space (w @ CLOSE_REF) = CLOSE_REF"
    using assms(2) js_space_ref by (intro dropWhile_all_append) (simp_all add: CLOSE_REF_def)
  show ?thesis
    by (simp add: override_ref_def Let_def 1 2 3 assms(3))
qed

text \<open>The reading of an override reference is the pattern of the source: a template is read as the
  name \<open>n\<close> exactly if it is \<open>overrides.n\<close> between double braces, with white space allowed inside them,
  and \<open>n\<close> a non-empty word.\<close>

theorem override_ref_pattern:
  "override_ref s = Some n \<longleftrightarrow>
     (\<exists>u w. s = OPEN_REF @ u @ OVERRIDES_DOT @ n @ w @ CLOSE_REF \<and> n \<noteq> [] \<and>
        list_all js_space u \<and> list_all word_char n \<and> list_all js_space w)"
  using override_ref_read override_ref_written by metis

section \<open>Validation\<close>

text \<open>What a profile allows: the value of a declared parameter fits the parameter's declaration.\<close>

definition enum_value :: "rat + string \<Rightarrow> override_value" where
  "enum_value a = (case a of Inl n \<Rightarrow> ONum n | Inr s \<Rightarrow> OStr s)"

definition in_bounds :: "profile_override \<Rightarrow> rat \<Rightarrow> bool" where
  "in_bounds o' n \<longleftrightarrow> (\<forall>m. ov_min o' = Some m \<longrightarrow> m \<le> n) \<and> (\<forall>m. ov_max o' = Some m \<longrightarrow> n \<le> m)"

definition override_ok :: "profile_override \<Rightarrow> override_value \<Rightarrow> bool" where
  "override_ok o' v \<longleftrightarrow>
     (if ov_type o' = Some ''stringList''
      then \<exists>es. v = OList es \<and>
        (\<forall>e\<in>set es. CHR '','' \<notin> set e \<and> (\<forall>as. ov_enum o' = Some as \<longrightarrow> Inr e \<in> set as))
      else (integer_kind o' \<longrightarrow> (\<exists>n. v = ONum n \<and> is_integer n \<and> in_bounds o' n)) \<and>
        (\<forall>as. ov_enum o' = Some as \<longrightarrow> v \<in> enum_value ` set as))"

definition allowed :: "profile \<Rightarrow> string \<Rightarrow> override_value \<Rightarrow> bool" where
  "allowed p k v \<longleftrightarrow> (\<exists>o'. declared (nullish (pf_overrides p) []) k = Some o' \<and> override_ok o' v)"

fun error_key :: "override_error \<Rightarrow> string" where
  "error_key (OverrideUnknown k) = k"
| "error_key (OverrideNotStringList k) = k"
| "error_key (OverrideNotAllowed k) = k"
| "error_key (OverrideNotInteger k) = k"
| "error_key (OverrideBelowMin k _) = k"
| "error_key (OverrideAboveMax k _) = k"

lemma enum_same_iff: "enum_same v a \<longleftrightarrow> v = enum_value a"
  by (cases "(v, a)" rule: enum_same.cases) (auto simp: enum_value_def split: sum.splits)

lemma value_error_None: "value_error k o' v = None \<longleftrightarrow> override_ok o' v"
proof (cases "ov_type o' = Some ''stringList''")
  case True
  then show ?thesis
    by (cases v; cases "ov_enum o'") (auto simp: value_error_def override_ok_def)
next
  case False
  then show ?thesis
    by (cases v; cases "ov_enum o'"; cases "ov_min o'"; cases "ov_max o'")
      (auto simp: value_error_def override_ok_def in_bounds_def enum_same_iff image_iff)
qed

lemma value_error_key: "value_error k o' v = Some e \<Longrightarrow> error_key e = k"
  by (auto simp: value_error_def split: if_splits override_value.splits)

lemma allowed_iff:
  "allowed p k v \<longleftrightarrow>
     (case declared (nullish (pf_overrides p) []) k of None \<Rightarrow> False | Some o' \<Rightarrow> value_error k o' v = None)"
  by (auto simp: allowed_def value_error_None split: option.splits)

lemma override_loop_None:
  "override_loop (nullish (pf_overrides p) []) ovs = None \<longleftrightarrow> (\<forall>(k, v)\<in>set ovs. allowed p k v)"
  by (induction "nullish (pf_overrides p) []" ovs rule: override_loop.induct)
    (auto simp: allowed_iff split: option.splits)

lemma overrideError_None: "overrideError ovs (Some p) = None \<longleftrightarrow> (\<forall>(k, v)\<in>set ovs. allowed p k v)"
  by (simp add: overrideError_def override_loop_None)

lemma override_loop_Some:
  assumes "override_loop (nullish (pf_overrides p) []) ovs = Some e"
  shows "\<exists>pre k v post. ovs = pre @ (k, v) # post \<and> (\<forall>(k', v')\<in>set pre. allowed p k' v') \<and>
    \<not> allowed p k v \<and> error_key e = k"
  using assms
proof (induction ovs)
  case (Cons kv rest)
  obtain k v where kv: "kv = (k, v)" by fastforce
  show ?case
  proof (cases "allowed p k v")
    case True
    then have "override_loop (nullish (pf_overrides p) []) rest = Some e"
      using Cons.prems by (auto simp: kv allowed_iff split: option.splits)
    from Cons.IH [OF this] obtain pre k' v' post where
      "rest = pre @ (k', v') # post" "\<forall>(k'', v'')\<in>set pre. allowed p k'' v''" "\<not> allowed p k' v'" "error_key e = k'"
      by blast
    with True show ?thesis by (intro exI [of _ "kv # pre"]) (auto simp: kv)
  next
    case False
    then have "error_key e = k"
      using Cons.prems value_error_key
      by (auto simp: kv allowed_iff split: option.splits)
    with False have "kv # rest = [] @ (k, v) # rest \<and> (\<forall>(k', v')\<in>set []. allowed p k' v') \<and> \<not> allowed p k v \<and> error_key e = k"
      by (simp add: kv)
    then show ?thesis by blast
  qed
qed simp


definition sample_knob :: "string \<Rightarrow> profile_override" where
  "sample_knob n = \<lparr>ov_name = Some n, ov_type = Some ''integer'', ov_min = Some 1, ov_max = Some 8, ov_enum = None,
     ov_default = Some (ONum 1)\<rparr>"

definition sample_profile :: profile where
  "sample_profile = \<lparr>pf_name = Some ''p'', pf_engine = Some ''vllm'', pf_engineVersion = None, pf_accel = None,
     pf_requirements = None, pf_overrides = Some [sample_knob ''tp''],
     pf_roles = Some [\<lparr>ro_name = Some ''decode'', ro_kind = None, ro_replicas = None, ro_group = None, ro_accel = None,
       ro_nodeSelector = None, ro_gpuPerPod = Some (CNum 2)\<rparr>]\<rparr>"

lemma sample_allowed: "allowed sample_profile ''tp'' (ONum n) \<longleftrightarrow> is_integer n \<and> 1 \<le> n \<and> n \<le> 8"
proof -
  have "integer_kind (sample_knob ''tp'')"
    by (simp add: integer_kind_def sample_knob_def INHERITED_PROPERTIES_def)
  then show ?thesis
    by (simp add: allowed_def sample_profile_def declared_def override_ok_def in_bounds_def sample_knob_def)
qed


section \<open>The GPU footprint\<close>

lemma is_integer_numerals [simp]: "is_integer 0" "is_integer 1"
  by (simp_all add: is_integer_def)

lemma positive_Some: "positive n = Some m \<Longrightarrow> is_integer m \<and> 1 \<le> m"
proof -
  assume "positive n = Some m"
  then have m: "of_int \<lfloor>m\<rfloor> = m" "0 < m" by (auto simp: positive_def is_integer_def split: if_splits)
  then have "0 < \<lfloor>m\<rfloor>" by (metis of_int_0_less_iff)
  then have "of_int 1 \<le> (of_int \<lfloor>m\<rfloor> :: rat)" by (simp only: of_int_le_iff)
  with m show ?thesis by (simp add: is_integer_def)
qed

lemma roleGpuPerPod_Some: "roleGpuPerPod to_number role eff = Some m \<Longrightarrow> is_integer m \<and> 1 \<le> m"
  by (auto simp: roleGpuPerPod_def split: option.splits count_field.splits override_value.splits dest: positive_Some)

lemma resolvedCount_integer: "resolvedCount to_number raw eff = Some m \<Longrightarrow> is_integer m"
  by (auto simp: resolvedCount_def Let_def split: option.splits if_splits)

lemma non_negative_count:
  assumes "is_integer d" "0 \<le> d"
  shows "is_integer (non_negative (resolvedCount to_number raw eff) d)"
    "0 \<le> non_negative (resolvedCount to_number raw eff) d"
  using assms resolvedCount_integer by (auto simp: non_negative_def split: option.splits)

lemma gpu_rolesE:
  assumes "r \<in> set (gpu_roles to_number p eff)"
  obtains role n where "role \<in> set (nullish (pf_roles p) [])" "roleGpuPerPod to_number role eff = Some n"
    "r = \<lparr>gr_name = nullish (ro_name role) ''?'', gr_gpuPerPod = n, gr_model = roleGpuModel role p eff,
      gr_replicas = roleReplicas to_number role eff, gr_groupSize = roleGroupSize to_number role eff\<rparr>"
proof -
  let ?g = "\<lambda>(role, n). \<lparr>gr_name = nullish (ro_name role) ''?'', gr_gpuPerPod = the n,
    gr_model = roleGpuModel role p eff, gr_replicas = roleReplicas to_number role eff,
    gr_groupSize = roleGroupSize to_number role eff\<rparr>"
  from assms obtain rn where "rn \<in> set (filter (\<lambda>(role, n). n \<noteq> None)
      (map (\<lambda>role. (role, roleGpuPerPod to_number role eff)) (nullish (pf_roles p) [])))" "r = ?g rn"
    unfolding gpu_roles_def set_map by blast
  then show thesis by (auto intro!: that) (metis option.sel)
qed

text \<open>The GPU footprint of a service is well-defined: every GPU role listed is a role of the profile,
  in its order, with a positive whole number of cards, and with whole numbers of replicas and of pods
  per replica that are not negative, whatever the templates, the overrides and the texts in them.\<close>

theorem gpu_footprint:
  assumes "r \<in> set (iv_gpuRoles (isvc_project to_number s prof ms ep))"
  shows "is_integer (gr_gpuPerPod r) \<and> 1 \<le> gr_gpuPerPod r \<and>
    is_integer (gr_replicas r) \<and> 0 \<le> gr_replicas r \<and> is_integer (gr_groupSize r) \<and> 0 \<le> gr_groupSize r \<and>
    (\<exists>p role. prof = Some p \<and> role \<in> set (nullish (pf_roles p) []) \<and> gr_name r = nullish (ro_name role) ''?'' \<and>
       roleGpuPerPod to_number role (effective_of (iv_overrides (isvc_project to_number s prof ms ep))) = Some (gr_gpuPerPod r))"
proof -
  define eff where "eff = effective_of (knobs_of s prof)"
  have knobs: "iv_overrides (isvc_project to_number s prof ms ep) = knobs_of s prof"
    by (simp add: isvc_project_def Let_def)
  from assms obtain p where p: "prof = Some p" "r \<in> set (gpu_roles to_number p eff)"
    by (auto simp: isvc_project_def Let_def eff_def split: option.splits)
  from p(2) obtain role n where role: "role \<in> set (nullish (pf_roles p) [])" "roleGpuPerPod to_number role eff = Some n"
    "gr_name r = nullish (ro_name role) ''?''" "gr_gpuPerPod r = n" "gr_replicas r = roleReplicas to_number role eff"
    "gr_groupSize r = roleGroupSize to_number role eff"
    by (rule gpu_rolesE) simp
  moreover have "is_integer (roleReplicas to_number role eff)" "0 \<le> roleReplicas to_number role eff"
    unfolding roleReplicas_def by (rule non_negative_count; simp)+
  moreover have "is_integer (roleGroupSize to_number role eff)" "0 \<le> roleGroupSize to_number role eff"
    unfolding roleGroupSize_def using non_negative_count [of 0] by simp_all
  ultimately show ?thesis using p(1) roleGpuPerPod_Some [OF role(2)] knobs eff_def by auto
qed

definition sample_isvc :: "overrides \<Rightarrow> isvc" where
  "sample_isvc ovs = \<lparr>is_name = Some ''llm'', is_namespace = Some ''ns'', is_created = None, is_modelRef = Some ''m'',
     is_profileRef = Some ''p'', is_overrides = Some ovs, is_route = None, is_phase = None, is_phaseReason = None,
     is_conditions = None, is_roles = None, is_modelName = None, is_modelVersion = None, is_internal = None,
     is_public = None\<rparr>"

theorem gpu_footprint_witness:
  "\<exists>r. r \<in> set (iv_gpuRoles (isvc_project (\<lambda>_. NaN) (sample_isvc []) (Some sample_profile) None None)) \<and> 1 \<le> gr_gpuPerPod r"
proof -
  let ?r = "\<lparr>gr_name = ''decode'', gr_gpuPerPod = 2, gr_model = None, gr_replicas = 1, gr_groupSize = 0\<rparr>"
  have "is_integer 2" "VENDOR_PRODUCT_LABEL [] = None" by (simp_all add: is_integer_def VENDOR_PRODUCT_LABEL_def)
  then have "?r \<in> set (iv_gpuRoles (isvc_project (\<lambda>_. NaN) (sample_isvc []) (Some sample_profile) None None))"
    by (simp add: isvc_project_def Let_def gpu_roles_def sample_profile_def roleGpuPerPod_def positive_def roleGpuModel_def
        roleReplicas_def roleGroupSize_def resolvedCount_def non_negative_def)
  from this gpu_footprint [OF this] show ?thesis by blast
qed

end
