(* ===== verification/Inference_Metrics.thy ===== *)
theory Inference_Metrics
  imports Inference
begin

text \<open>
  The engine metrics of an inference service (\<open>app/api/inferenceservices/route.ts\<close>): the queries, the
  reading of Prometheus' answers, and the sparkline with its gaps filled. What Prometheus answers is a
  parameter; times and samples are exact numbers, and an engine is not named like an inherited property.
\<close>

section \<open>Queries\<close>

definition SPARK_POINTS :: nat where "SPARK_POINTS = 12"
definition SPARK_STEP_SECONDS :: int where "SPARK_STEP_SECONDS = 150"

definition serviceMatcher :: "string \<Rightarrow> string \<Rightarrow> string" where
  "serviceMatcher namespace name =
     ''namespace='' @ [CHR 0x22] @ namespace @ [CHR 0x22] @ '',service=~'' @ [CHR 0x22] @ ''^'' @ name @ ''(-.*)?$'' @ [CHR 0x22]"

record family =
  fm_requests :: string
  fm_tokens :: string
  fm_latency :: string

definition ENGINE_FAMILIES :: "string \<Rightarrow> family option" where
  "ENGINE_FAMILIES engine =
     (if engine = ''vllm'' then Some \<lparr>fm_requests = ''vllm:request_success_total'',
        fm_tokens = ''vllm:generation_tokens_total'', fm_latency = ''vllm:e2e_request_latency_seconds_bucket''\<rparr>
      else if engine = ''sglang'' then Some \<lparr>fm_requests = ''sglang:num_requests_total'',
        fm_tokens = ''sglang:generation_tokens_total'', fm_latency = ''sglang:e2e_request_latency_seconds_bucket''\<rparr>
      else None)"

definition rate_of :: "string \<Rightarrow> string \<Rightarrow> string \<Rightarrow> string" where
  "rate_of fam ns name = ''sum(rate('' @ fam @ ''{'' @ serviceMatcher ns name @ ''}[5m]))''"

definition qpsQuery :: "family \<Rightarrow> string \<Rightarrow> string \<Rightarrow> string" where
  "qpsQuery f ns name = rate_of (fm_requests f) ns name"

definition p95Query :: "family \<Rightarrow> string \<Rightarrow> string \<Rightarrow> string" where
  "p95Query f ns name = ''histogram_quantile(0.95, '' @ rate_of (fm_latency f) ns name @ '' by (le))''"

definition tpsQuery :: "family \<Rightarrow> string \<Rightarrow> string \<Rightarrow> string" where
  "tpsQuery f ns name = rate_of (fm_tokens f) ns name"

section \<open>Answers\<close>

text \<open>A request that throws or times out, an answer with an error status, or a body.\<close>

datatype 'a fetched = Unreached | HttpError nat | Fetched 'a

text \<open>The value of the first result, as the texts of its elements, absent when it is not a list; \<open>Inl\<close> is
  an error thrown.\<close>

definition queryInstant :: "(string \<Rightarrow> js_number) \<Rightarrow> string list option fetched \<Rightarrow> unit + rat option" where
  "queryInstant to_number a =
     (case a of
        Fetched sample \<Rightarrow>
          Inr (case sample of None \<Rightarrow> None | Some xs \<Rightarrow> if length xs < 2 then None else finite_of (to_number (xs ! 1)))
      | _ \<Rightarrow> Inl ())"

definition range_index :: "int \<Rightarrow> int \<Rightarrow> rat \<Rightarrow> int" where
  "range_index start step ts = \<lfloor>(ts - of_int start) / of_int step + 1 / 2\<rfloor>"

definition place_sample ::
    "(string \<Rightarrow> js_number) \<Rightarrow> int \<Rightarrow> int \<Rightarrow> nat \<Rightarrow> js_number list \<Rightarrow> rat \<times> string \<Rightarrow> js_number list" where
  "place_sample to_number start step points out sample =
     (case sample of (ts, v) \<Rightarrow>
        (let i = range_index start step ts
         in if 0 \<le> i \<and> i < int points then out[nat i := to_number v] else out))"

fun fill_gaps :: "js_number \<Rightarrow> js_number list \<Rightarrow> js_number list" where
  "fill_gaps prev [] = []"
| "fill_gaps prev (x # xs) = (if x = NaN then prev # fill_gaps prev xs else x # fill_gaps x xs)"

definition queryRange ::
    "(string \<Rightarrow> js_number) \<Rightarrow> int \<Rightarrow> int \<Rightarrow> nat \<Rightarrow> (rat \<times> string) list option fetched \<Rightarrow>
     unit + js_number list option" where
  "queryRange to_number start step points a =
     (case a of
        Unreached \<Rightarrow> Inl ()
      | HttpError _ \<Rightarrow> Inr None
      | Fetched None \<Rightarrow> Inr None
      | Fetched (Some vs) \<Rightarrow>
          Inr (if vs = [] then None
               else Some (fill_gaps (Finite 0) (foldl (place_sample to_number start step points) (replicate points NaN) vs))))"

text \<open>Prometheus: the answer to an instant query, and to a query over a range given by its start, end and
  step.\<close>

record prometheus =
  pm_instant :: "string \<Rightarrow> string list option fetched"
  pm_range :: "string \<Rightarrow> int \<Rightarrow> int \<Rightarrow> int \<Rightarrow> (rat \<times> string) list option fetched"

definition loadMetrics ::
    "(string \<Rightarrow> js_number) \<Rightarrow> prometheus \<Rightarrow> int \<Rightarrow> string \<Rightarrow> string \<Rightarrow> string option \<Rightarrow> unit + metrics option" where
  "loadMetrics to_number prom now namespace name engine =
     (case ENGINE_FAMILIES (toLowerCase (nullish engine [])) of
        None \<Rightarrow> Inr None
      | Some f \<Rightarrow>
          (let start = now - int SPARK_POINTS * SPARK_STEP_SECONDS
           in case (queryInstant to_number (pm_instant prom (qpsQuery f namespace name)),
                    queryInstant to_number (pm_instant prom (p95Query f namespace name)),
                    queryInstant to_number (pm_instant prom (tpsQuery f namespace name)),
                    queryRange to_number start SPARK_STEP_SECONDS SPARK_POINTS
                      (pm_range prom (qpsQuery f namespace name) start now SPARK_STEP_SECONDS)) of
                (Inr qps, Inr p95, Inr tps, Inr spark) \<Rightarrow>
                  Inr (if qps = None \<and> p95 = None \<and> tps = None \<and> spark = None then None
                       else Some \<lparr>mt_qps = qps, mt_p95 = map_option (\<lambda>s. s * 1000) p95, mt_tps = tps, mt_spark = spark\<rparr>)
              | _ \<Rightarrow> Inl ()))"

section \<open>The sparkline\<close>

lemma length_fill_gaps [simp]: "length (fill_gaps prev xs) = length xs"
  by (induction prev xs rule: fill_gaps.induct) simp_all

text \<open>The value carried to point \<open>i\<close> of a series: the last number at or before it, or a default.\<close>

definition carried :: "(nat \<Rightarrow> js_number) \<Rightarrow> js_number \<Rightarrow> nat \<Rightarrow> js_number \<Rightarrow> bool" where
  "carried f d i y \<longleftrightarrow>
     (\<exists>j\<le>i. f j \<noteq> NaN \<and> y = f j \<and> (\<forall>k. j < k \<and> k \<le> i \<longrightarrow> f k = NaN)) \<or> (\<forall>j\<le>i. f j = NaN) \<and> y = d"

lemma carried_cong: "(\<And>j. j \<le> i \<Longrightarrow> f j = g j) \<Longrightarrow> carried f d i y \<longleftrightarrow> carried g d i y"
  by (auto simp: carried_def)

lemma carried_Suc:
  assumes "carried (\<lambda>j. f (Suc j)) (if f 0 = NaN then d else f 0) i y"
  shows "carried f d (Suc i) y"
proof -
  have all: "(\<forall>k. 0 < k \<and> k \<le> Suc i \<longrightarrow> f k = NaN) \<longleftrightarrow> (\<forall>k\<le>i. f (Suc k) = NaN)"
    by (metis Suc_le_mono Suc_pred zero_less_Suc)
  consider (sampled) j where "j \<le> i" "f (Suc j) \<noteq> NaN" "y = f (Suc j)" "\<forall>k. j < k \<and> k \<le> i \<longrightarrow> f (Suc k) = NaN"
    | (initial) "\<forall>j\<le>i. f (Suc j) = NaN" "y = (if f 0 = NaN then d else f 0)"
    using assms by (auto simp: carried_def)
  then show ?thesis
  proof cases
    case sampled
    have "f k = NaN" if "Suc j < k" "k \<le> Suc i" for k
      using sampled(4) that by (cases k) auto
    with sampled show ?thesis unfolding carried_def by (intro disjI1 exI [of _ "Suc j"]) auto
  next
    case initial
    then have later: "\<forall>k. 0 < k \<and> k \<le> Suc i \<longrightarrow> f k = NaN" using all by blast
    show ?thesis
    proof (cases "f 0 = NaN")
      case True
      have "f j = NaN" if "j \<le> Suc i" for j using that later True by (cases j) auto
      with True initial(2) show ?thesis by (simp add: carried_def)
    next
      case False
      with later initial(2) show ?thesis unfolding carried_def by (intro disjI1 exI [of _ 0]) simp
    qed
  qed
qed

lemma fill_gaps_nth: "i < length xs \<Longrightarrow> carried (\<lambda>j. xs ! j) d i (fill_gaps d xs ! i)"
proof (induction d xs arbitrary: i rule: fill_gaps.induct)
  case (2 d x xs)
  have eq: "fill_gaps d (x # xs) = (if x = NaN then d else x) # fill_gaps (if x = NaN then d else x) xs" by simp
  show ?case
  proof (cases i)
    case 0
    then show ?thesis by (auto simp: carried_def)
  next
    case (Suc m)
    with 2 have "carried (\<lambda>j. xs ! j) (if x = NaN then d else x) m (fill_gaps (if x = NaN then d else x) xs ! m)" by simp
    then have "carried (\<lambda>j. (x # xs) ! j) d (Suc m) (fill_gaps (if x = NaN then d else x) xs ! m)"
      by (intro carried_Suc) (simp split: if_splits)
    then show ?thesis by (simp only: eq Suc nth_Cons_Suc)
  qed
qed simp

text \<open>The sample of a point: the last one whose time rounds to it.\<close>

definition sample_at :: "(string \<Rightarrow> js_number) \<Rightarrow> int \<Rightarrow> int \<Rightarrow> (rat \<times> string) list \<Rightarrow> nat \<Rightarrow> js_number" where
  "sample_at to_number start step vs i =
     (case find (\<lambda>(ts, v). range_index start step ts = int i) (rev vs) of None \<Rightarrow> NaN | Some (ts, v) \<Rightarrow> to_number v)"

lemma length_place_all [simp]:
  "length (foldl (place_sample to_number start step points) out vs) = length out"
  by (induction vs arbitrary: out) (auto simp: place_sample_def Let_def split: prod.split)

lemma place_sample_pair:
  "place_sample to_number start step points out (ts, v) =
     (if 0 \<le> range_index start step ts \<and> range_index start step ts < int points
      then out[nat (range_index start step ts) := to_number v] else out)"
  by (simp add: place_sample_def Let_def)

lemma place_all_nth:
  assumes "i < points"
  shows "foldl (place_sample to_number start step points) (replicate points NaN) vs ! i = sample_at to_number start step vs i"
proof (induction vs rule: rev_induct)
  case Nil
  then show ?case using assms by (simp add: sample_at_def)
next
  case (snoc s vs)
  obtain ts v where s: "s = (ts, v)" by fastforce
  show ?case
  proof (cases "range_index start step ts = int i")
    case True
    then show ?thesis using assms by (simp add: s place_sample_pair sample_at_def)
  next
    case False
    then have "nat (range_index start step ts) \<noteq> i \<or> range_index start step ts < 0" by arith
    with False snoc.IH show ?thesis by (auto simp: s place_sample_pair sample_at_def)
  qed
qed

lemma range_index_grid: "0 < step \<Longrightarrow> range_index start step (of_int (start + int k * step)) = int k"
proof -
  assume "0 < step"
  then have "(of_int (start + int k * step) - of_int start) / of_int step = (of_nat k :: rat)" by simp
  then show ?thesis by (simp add: range_index_def floor_eq_iff)
qed

text \<open>The sparkline: it has as many points as asked for, and each is the last number sampled for that
  point or an earlier one, or zero when there is none; so no point is left without a number. The sample
  taken at the end of the range, which Prometheus includes, is beyond the last point and is never
  shown.\<close>

theorem queryRange_series:
  assumes "0 < step" and "vs \<noteq> []"
  shows "\<exists>out. queryRange to_number start step points (Fetched (Some vs)) = Inr (Some out) \<and> length out = points \<and>
    (\<forall>i<points. carried (sample_at to_number start step vs) (Finite 0) i (out ! i)) \<and>
    (\<forall>v. queryRange to_number start step points (Fetched (Some (vs @ [(of_int (start + int points * step), v)]))) =
       Inr (Some out))"
proof -
  define raw where "raw = foldl (place_sample to_number start step points) (replicate points NaN) vs"
  have series: "carried (sample_at to_number start step vs) (Finite 0) i (fill_gaps (Finite 0) raw ! i)" if "i < points" for i
  proof -
    have "carried (\<lambda>j. raw ! j) (Finite 0) i (fill_gaps (Finite 0) raw ! i)"
      using that by (intro fill_gaps_nth) (simp add: raw_def)
    moreover have "raw ! j = sample_at to_number start step vs j" if "j \<le> i" for j
      unfolding raw_def using \<open>i < points\<close> that by (intro place_all_nth) simp
    ultimately show ?thesis by (rule iffD1 [OF carried_cong, rotated])
  qed
  define last_ts :: rat where "last_ts = of_int (start + int points * step)"
  have "place_sample to_number start step points raw (last_ts, v) = raw" for v
    using range_index_grid [OF assms(1), of start points] by (simp only: place_sample_pair last_ts_def) simp
  then have "queryRange to_number start step points (Fetched (Some (vs @ [(last_ts, v)]))) =
      Inr (Some (fill_gaps (Finite 0) raw))" for v
    by (simp add: queryRange_def raw_def [symmetric])
  moreover have "queryRange to_number start step points (Fetched (Some vs)) = Inr (Some (fill_gaps (Finite 0) raw))"
    using assms(2) by (simp add: queryRange_def raw_def [symmetric])
  moreover have "length (fill_gaps (Finite 0) raw) = points" by (simp add: raw_def)
  ultimately show ?thesis unfolding last_ts_def [symmetric] using series by blast
qed

definition sample_number :: "string \<Rightarrow> js_number" where
  "sample_number s = (if s = ''3'' then Finite 3 else NaN)"

theorem queryRange_series_witness:
  "queryRange sample_number 0 150 3 (Fetched (Some [(150, ''3'')])) = Inr (Some [Finite 0, Finite 3, Finite 3]) \<and>
   queryRange sample_number 0 150 3 (Fetched (Some ([(150, ''3'')] @ [(450, ''9'')]))) =
     queryRange sample_number 0 150 3 (Fetched (Some [(150, ''3'')]))"
proof -
  have "range_index 0 150 150 = 1" using range_index_grid [of 150 0 1] by simp
  then have v: "queryRange sample_number 0 150 3 (Fetched (Some [(150, ''3'')])) = Inr (Some [Finite 0, Finite 3, Finite 3])"
    by (simp add: queryRange_def place_sample_pair sample_number_def numeral_3_eq_3)
  have "(0 :: int) < 150" "[(150 :: rat, ''3'')] \<noteq> []" by simp_all
  from queryRange_series [OF this, of sample_number 0 3] obtain out where
    "queryRange sample_number 0 150 3 (Fetched (Some [(150, ''3'')])) = Inr (Some out)"
    "\<forall>v. queryRange sample_number 0 150 3 (Fetched (Some ([(150, ''3'')] @ [(of_int (0 + int 3 * 150), v)]))) = Inr (Some out)"
    by blast
  with v show ?thesis by auto
qed

end
