(* ===== verification/Inference_Api.thy ===== *)
theory Inference_Api
  imports Inference_Metrics
begin

text \<open>
  Inference services, the handlers (\<open>app/api/inferenceservices/route.ts\<close>) and the catalogue routes a
  service can publish to (\<open>lib/inference-routes.ts\<close>): listing, creating, changing the overrides and
  deleting; then the store of services under any sequence of these requests. The Kubernetes API is a
  record of answers, and a handler returns its response with the calls it made. Where the source waits
  for several calls at once they are listed in its order, and when more than one fails the first of them
  is the one reported.
\<close>

section \<open>Catalogue routes\<close>

definition AIGATEWAY_ROUTER_PUBLIC :: string where
  "AIGATEWAY_ROUTER_PUBLIC = ''cubestack-ai-gateway''"

definition AIGATEWAY_ROUTER_PRIVATE :: string where
  "AIGATEWAY_ROUTER_PRIVATE = ''cubestack-ai-gateway-private''"

definition AIGATEWAY_ROUTERS :: "string list" where
  "AIGATEWAY_ROUTERS = [AIGATEWAY_ROUTER_PUBLIC, AIGATEWAY_ROUTER_PRIVATE]"

text \<open>An untrusted value that is a text, or is not.\<close>

definition isAIGatewayRouter :: "string option \<Rightarrow> bool" where
  "isAIGatewayRouter v \<longleftrightarrow> v = Some AIGATEWAY_ROUTER_PUBLIC \<or> v = Some AIGATEWAY_ROUTER_PRIVATE"

definition CATALOG_PATHS :: "string list" where
  "CATALOG_PATHS = [''/v1/chat/completions'', ''/v1/responses'', ''/v1/messages'', ''/v1/images'']"

definition isCatalogPath :: "string option \<Rightarrow> bool" where
  "isCatalogPath v \<longleftrightarrow> (case v of None \<Rightarrow> False | Some p \<Rightarrow> List.member CATALOG_PATHS p)"

section \<open>The cluster interface\<close>

record model_version =
  mv_name :: "string option"
  mv_architecture :: "string option"
  mv_quantization :: "string option"

text \<open>An operation of the patch adds a value at a path.\<close>

type_synonym override_patch = "(string \<times> override_value) list"

datatype isvc_call =
    ReadNamespaces | ReadProfiles | ReadModels | ReadServices
  | GetService string string
  | CreateService string isvc
  | PatchService string string override_patch
  | DeleteService string string

record isvc_api =
  i_namespaces :: "k8s_error + string option list"
  i_profiles :: "k8s_error + profile list"
  i_models :: "k8s_error + model_version list"
  i_services :: "k8s_error + isvc list"
  i_get :: "string \<Rightarrow> string \<Rightarrow> k8s_error + isvc option"
  i_create :: "string \<Rightarrow> isvc \<Rightarrow> k8s_error + unit"
  i_patch :: "string \<Rightarrow> string \<Rightarrow> override_patch \<Rightarrow> k8s_error + unit"
  i_delete :: "string \<Rightarrow> string \<Rightarrow> k8s_error + unit"

datatype isvc_error =
    IsvcNameInvalid
  | IsvcRefsRequired
  | IsvcNamespaceMissing string
  | IsvcProfileMissing string
  | IsvcModelMissing string
  | IsvcIncompatible string string
  | IsvcNameTaken string
  | IsvcOverride override_error
  | IsvcRouterInvalid
  | IsvcModelNameInvalid
  | IsvcPathsInvalid
  | IsvcPathsRequired

datatype isvc_answer =
    IsvcList "isvc_summary list"
  | IsvcRefused isvc_error
  | OverrideMalformed string
  | IsvcMissing string
  | IsvcFailed string
  | IsvcCreated string
  | IsvcDone

section \<open>Listing\<close>

definition profile_by :: "profile list \<Rightarrow> string \<Rightarrow> profile option" where
  "profile_by ps ref = find (\<lambda>p. nullish (pf_name p) [] = ref) (rev ps)"

text \<open>A failure of the queries of a service leaves it without metrics.\<close>

definition service_metrics ::
    "(string \<Rightarrow> js_number) \<Rightarrow> prometheus \<Rightarrow> int \<Rightarrow> isvc \<Rightarrow> profile option \<Rightarrow> metrics option" where
  "service_metrics to_number prom now s prof =
     (case loadMetrics to_number prom now (nullish (is_namespace s) []) (nullish (is_name s) [])
         (case prof of None \<Rightarrow> None | Some p \<Rightarrow> pf_engine p) of
        Inl _ \<Rightarrow> None
      | Inr m \<Rightarrow> m)"

text \<open>\<open>now\<close> is the time in milliseconds, \<open>discovered\<close> the gateways found and \<open>gst\<close> the state of the gateway client.\<close>

definition isvc_GET ::
    "(string \<Rightarrow> js_number) \<Rightarrow> (string \<Rightarrow> string \<Rightarrow> int) \<Rightarrow> env \<Rightarrow> gateway_base list \<Rightarrow> gateway_state \<Rightarrow> prometheus \<Rightarrow> int \<Rightarrow>
     isvc_api \<Rightarrow> isvc_answer response \<times> isvc_call list" where
  "isvc_GET to_number compare env discovered gst prom now api =
     (case (i_services api, i_profiles api) of
        (Inr isvcs, Inr profiles) \<Rightarrow>
          (let endpoint = privateGatewayClusterEndpoint env discovered now gst;
               summary = (\<lambda>s. let prof = profile_by profiles (nullish (is_profileRef s) [])
                 in isvc_project to_number s prof (service_metrics to_number prom (now div 1000) s prof) endpoint)
           in (answer 200 (IsvcList (sort_newest compare (\<lambda>i. nullish (iv_createdAt i) []) (map summary isvcs))),
               [ReadServices, ReadProfiles]))
      | _ \<Rightarrow> (answer 500 (IsvcFailed ''Failed to load inference services''), [ReadServices, ReadProfiles]))"

section \<open>Changing the overrides\<close>

definition OVERRIDES_PATH :: string where
  "OVERRIDES_PATH = ''/spec/overrides/''"

definition isvc_pointer_escape :: "string \<Rightarrow> string" where
  "isvc_pointer_escape key = json_pointer key"

record override_body =
  ob_namespace :: "string option"
  ob_name :: "string option"
  ob_overrides :: "overrides option"

definition override_ops :: "overrides \<Rightarrow> override_patch" where
  "override_ops ovs = map (\<lambda>(k, v). (OVERRIDES_PATH @ isvc_pointer_escape k, v)) ovs"

text \<open>The first profile of the name the service refers to.\<close>

definition profile_named :: "profile list \<Rightarrow> string \<Rightarrow> profile option" where
  "profile_named ps ref = find (\<lambda>p. pf_name p = Some ref) ps"

definition patch_profile :: "isvc option \<Rightarrow> profile list \<Rightarrow> profile option" where
  "patch_profile svc ps =
     (case (case svc of None \<Rightarrow> None | Some s \<Rightarrow> is_profileRef s) of
        None \<Rightarrow> None
      | Some ref \<Rightarrow> if ref = [] then None else profile_named ps ref)"

definition update_failed :: "isvc_answer response" where
  "update_failed = answer 500 (IsvcFailed ''Failed to update inference service'')"

text \<open>The text of the 403 answer is Chinese; it is named in English here.\<close>

definition send_overrides :: "isvc_api \<Rightarrow> string \<Rightarrow> string \<Rightarrow> overrides \<Rightarrow> isvc_answer response" where
  "send_overrides api ns name ovs =
     (case i_patch api ns name (override_ops ovs) of
        Inl e \<Rightarrow> (if e_statusCode e = Some (NumCode 403) then answer 403 (IsvcFailed ''no permission to patch'')
          else update_failed)
      | Inr _ \<Rightarrow> answer 200 IsvcDone)"

definition isvc_PATCH :: "isvc_api \<Rightarrow> override_body option \<Rightarrow> isvc_answer response \<times> isvc_call list" where
  "isvc_PATCH api body =
     (case body of
        None \<Rightarrow> (update_failed, [])
      | Some b \<Rightarrow>
          (case (ob_namespace b, ob_name b, ob_overrides b) of
             (Some ns, Some name, Some ovs) \<Rightarrow>
               (if ns = [] \<or> name = [] then (answer 400 (IsvcFailed ''namespace, name and overrides are required''), [])
                else case find (\<lambda>(k, v). v = OOther) ovs of
                    Some (k, _) \<Rightarrow> (answer 400 (OverrideMalformed k), [])
                  | None \<Rightarrow>
                      (case (i_get api ns name, i_profiles api) of
                         (Inr svc, Inr profiles) \<Rightarrow>
                           (case overrideError ovs (patch_profile svc profiles) of
                              Some e \<Rightarrow> (answer 400 (IsvcRefused (IsvcOverride e)), [GetService ns name, ReadProfiles])
                            | None \<Rightarrow> (send_overrides api ns name ovs,
                                [GetService ns name, ReadProfiles, PatchService ns name (override_ops ovs)]))
                       | (Inl e, _) \<Rightarrow>
                           (if e_statusCode e = Some (NumCode 404) then answer 404 (IsvcMissing name) else update_failed,
                            [GetService ns name, ReadProfiles])
                       | (Inr _, Inl e) \<Rightarrow>
                           (if e_statusCode e = Some (NumCode 404) then answer 404 (IsvcMissing name) else update_failed,
                            [GetService ns name, ReadProfiles])))
           | _ \<Rightarrow> (answer 400 (IsvcFailed ''namespace, name and overrides are required''), [])))"

section \<open>Creating\<close>

definition ISVC_NAME_RE :: rx where
  "ISVC_NAME_RE = Seq (Cls lower_alnum) (Opt (Seq (UpTo 61 (Cls label_char)) (Cls lower_alnum)))"

definition model_name_char :: "char \<Rightarrow> bool" where
  "model_name_char c \<longleftrightarrow> name_word c \<or> c = CHR ''.'' \<or> c = CHR ''_'' \<or> c = CHR ''/'' \<or> c = CHR ''-''"

definition MODEL_NAME_RE :: rx where
  "MODEL_NAME_RE = Seq (Cls name_word) (UpTo 127 (Cls model_name_char))"

text \<open>The route asked for is untrusted: the router is absent, not a text or a text, and the paths are
  absent when they are not a list, with entries that are absent when they are not texts.\<close>

record route_body =
  rq_router :: "string option option"
  rq_modelName :: "string option"
  rq_paths :: "string option list option"

record isvc_body =
  ib_namespace :: "string option"
  ib_name :: "string option"
  ib_profileRef :: "string option"
  ib_modelRef :: "string option"
  ib_overrides :: "overrides option"
  ib_route :: "route_body option"

definition request_route :: "route_body option \<Rightarrow> isvc_error + isvc_route option" where
  "request_route body =
     (case body of
        None \<Rightarrow> Inr None
      | Some q \<Rightarrow>
          (case rq_router q of
             None \<Rightarrow> Inr None
           | Some router \<Rightarrow>
               (if router = Some [] then Inr None
                else if \<not> isAIGatewayRouter router then Inl IsvcRouterInvalid
                else if \<not> truthy (rq_modelName q) \<or> \<not> rx_match MODEL_NAME_RE (the (rq_modelName q)) then Inl IsvcModelNameInvalid
                else case rq_paths q of
                    None \<Rightarrow> Inl IsvcPathsInvalid
                  | Some paths \<Rightarrow>
                      (if \<not> list_all isCatalogPath paths then Inl IsvcPathsInvalid
                       else if paths = [] then Inl IsvcPathsRequired
                       else Inr (Some \<lparr>ir_router = router, ir_modelName = rq_modelName q,
                         ir_paths = Some (filter (\<lambda>p. List.member paths (Some p)) CATALOG_PATHS),
                         ir_timeout = None, ir_idleTimeout = None\<rparr>)))))"

text \<open>\<open>list?.length && !list.includes(value ?? "")\<close>.\<close>

definition excluded :: "string list option \<Rightarrow> string option \<Rightarrow> bool" where
  "excluded req v \<longleftrightarrow> nullish req [] \<noteq> [] \<and> nullish v [] \<notin> set (nullish req [])"

definition incompatible :: "profile \<Rightarrow> model_version \<Rightarrow> bool" where
  "incompatible p m \<longleftrightarrow>
     (case pf_requirements p of
        None \<Rightarrow> False
      | Some (architectures, quantization) \<Rightarrow>
          excluded architectures (mv_architecture m) \<or> excluded quantization (mv_quantization m))"

definition service_named :: "string \<Rightarrow> string \<Rightarrow> isvc \<Rightarrow> bool" where
  "service_named ns name s \<longleftrightarrow> is_namespace s = Some ns \<and> is_name s = Some name"

definition new_isvc :: "isvc_body \<Rightarrow> isvc_route option \<Rightarrow> isvc" where
  "new_isvc b route =
     \<lparr>is_name = ib_name b, is_namespace = ib_namespace b, is_created = None, is_modelRef = ib_modelRef b,
      is_profileRef = ib_profileRef b, is_overrides = Some (nullish (ib_overrides b) []), is_route = route,
      is_phase = None, is_phaseReason = None, is_conditions = None, is_roles = None, is_modelName = None,
      is_modelVersion = None, is_internal = None, is_public = None\<rparr>"

text \<open>The checks against the cluster, in their order.\<close>

definition check_isvc ::
    "isvc_body \<Rightarrow> string option list \<Rightarrow> profile list \<Rightarrow> model_version list \<Rightarrow> isvc list \<Rightarrow> isvc_error + isvc" where
  "check_isvc b nss profiles models services =
     (let ns = the (ib_namespace b); name = the (ib_name b); pref = the (ib_profileRef b); mref = the (ib_modelRef b)
      in if Some ns \<notin> set nss then Inl (IsvcNamespaceMissing ns)
         else case profile_named profiles pref of
             None \<Rightarrow> Inl (IsvcProfileMissing pref)
           | Some p \<Rightarrow>
               (case find (\<lambda>m. mv_name m = Some mref) models of
                  None \<Rightarrow> Inl (IsvcModelMissing mref)
                | Some m \<Rightarrow>
                    (if incompatible p m then Inl (IsvcIncompatible mref pref)
                     else if list_ex (service_named ns name) services then Inl (IsvcNameTaken name)
                     else case overrideError (nullish (ib_overrides b) []) (Some p) of
                         Some e \<Rightarrow> Inl (IsvcOverride e)
                       | None \<Rightarrow>
                           (case request_route (ib_route b) of
                              Inl e \<Rightarrow> Inl e
                            | Inr route \<Rightarrow> Inr (new_isvc b route)))))"

definition POST_READS :: "isvc_call list" where
  "POST_READS = [ReadNamespaces, ReadProfiles, ReadModels, ReadServices]"

definition post_failed :: "isvc_answer response" where
  "post_failed = answer 500 (IsvcFailed ''Failed to create inference service'')"

definition isvc_POST :: "isvc_api \<Rightarrow> isvc_body option \<Rightarrow> isvc_answer response \<times> isvc_call list" where
  "isvc_POST api body =
     (case body of
        None \<Rightarrow> (post_failed, [])
      | Some b \<Rightarrow>
          (if \<not> truthy (ib_name b) \<or> \<not> rx_match ISVC_NAME_RE (the (ib_name b)) then (answer 400 (IsvcRefused IsvcNameInvalid), [])
           else if \<not> truthy (ib_namespace b) \<or> \<not> truthy (ib_profileRef b) \<or> \<not> truthy (ib_modelRef b)
             then (answer 400 (IsvcRefused IsvcRefsRequired), [])
           else case (i_namespaces api, i_profiles api, i_models api, i_services api) of
               (Inr nss, Inr profiles, Inr models, Inr services) \<Rightarrow>
                 (case check_isvc b nss profiles models services of
                    Inl e \<Rightarrow> (answer 400 (IsvcRefused e), POST_READS)
                  | Inr cr \<Rightarrow>
                      ((case i_create api (the (ib_namespace b)) cr of
                          Inl e \<Rightarrow> post_failed
                        | Inr _ \<Rightarrow> answer 201 (IsvcCreated (the (ib_name b)))),
                       POST_READS @ [CreateService (the (ib_namespace b)) cr]))
             | _ \<Rightarrow> (post_failed, POST_READS)))"

section \<open>Deleting\<close>

definition isvc_DELETE ::
    "isvc_api \<Rightarrow> (string option \<times> string option) option \<Rightarrow> isvc_answer response \<times> isvc_call list" where
  "isvc_DELETE api body =
     (case body of
        None \<Rightarrow> (answer 500 (IsvcFailed ''Failed to delete inference service''), [])
      | Some (namespace, name) \<Rightarrow>
          (if \<not> truthy namespace \<or> \<not> truthy name then (answer 400 (IsvcFailed ''namespace and name are required''), [])
           else
             ((case i_delete api (the namespace) (the name) of
                 Inl e \<Rightarrow> (if e_statusCode e = Some (NumCode 404) then answer 404 (IsvcMissing (the name))
                   else answer 500 (IsvcFailed ''Failed to delete inference service''))
               | Inr _ \<Rightarrow> answer 200 IsvcDone),
              [DeleteService (the namespace) (the name)])))"

section \<open>The API server's side of a patch\<close>

text \<open>How the API server applies an operation \<open>add\<close> on a member of the overrides (RFC 6902): the object
  must exist, and the member is set.\<close>

definition apply_op :: "string \<times> override_value \<Rightarrow> isvc \<Rightarrow> isvc option" where
  "apply_op op s =
     (case op of (path, v) \<Rightarrow>
        (let token = drop (length OVERRIDES_PATH) path
         in if startsWith path OVERRIDES_PATH \<and> CHR ''/'' \<notin> set token
            then map_option (\<lambda>os. s\<lparr>is_overrides := Some (obj_set os (pointer_unescape token) v)\<rparr>) (is_overrides s)
            else None))"

fun apply_ops :: "override_patch \<Rightarrow> isvc \<Rightarrow> isvc option" where
  "apply_ops [] s = Some s"
| "apply_ops (op # ops) s = (case apply_op op s of None \<Rightarrow> None | Some s' \<Rightarrow> apply_ops ops s')"

definition set_all :: "(string \<times> 'v) list \<Rightarrow> (string \<times> 'v) list \<Rightarrow> (string \<times> 'v) list" where
  "set_all es news = foldl (\<lambda>es (k, v). obj_set es k v) es news"

lemma set_all_simps [simp]:
  "set_all es [] = es" "set_all es ((k, v) # news) = set_all (obj_set es k v) news"
  by (simp_all add: set_all_def)

lemma set_obj_set: "set (obj_set es k v) \<subseteq> insert (k, v) (set es)"
  by (induction es k v rule: obj_set.induct) auto

lemma set_set_all: "set (set_all es news) \<subseteq> set es \<union> set news"
proof (induction news arbitrary: es)
  case (Cons kv news)
  obtain k v where "kv = (k, v)" by fastforce
  then show ?case using Cons.IH [of "obj_set es k v"] set_obj_set [of es k v] by auto
qed simp

lemma map_of_set_all: "distinct (map fst news) \<Longrightarrow> map_of (set_all es news) = map_of es ++ map_of news"
proof (induction news arbitrary: es)
  case (Cons kv news)
  obtain k v where kv: "kv = (k, v)" by fastforce
  with Cons have "map_of (set_all es (kv # news)) = (map_of es)(k \<mapsto> v) ++ map_of news"
    by (simp add: map_of_obj_set)
  moreover have "map_of news k = None" using Cons.prems kv by (simp add: map_of_eq_None_iff)
  ultimately show ?case by (auto simp: kv fun_eq_iff map_add_def split: option.splits)
qed simp

lemma apply_op_escaped:
  "is_overrides s = Some os \<Longrightarrow>
     apply_op (OVERRIDES_PATH @ isvc_pointer_escape k, v) s = Some (s\<lparr>is_overrides := Some (obj_set os k v)\<rparr>)"
  by (simp add: apply_op_def isvc_pointer_escape_def json_pointer_no_slash)

lemma apply_override_ops:
  "is_overrides s = Some os \<Longrightarrow>
     apply_ops (override_ops ovs) s = Some (s\<lparr>is_overrides := Some (set_all os ovs)\<rparr>)"
proof (induction ovs arbitrary: s os)
  case (Cons kv ovs)
  obtain k v where kv: "kv = (k, v)" by fastforce
  let ?s = "s\<lparr>is_overrides := Some (obj_set os k v)\<rparr>"
  have "apply_ops (override_ops ovs) ?s = Some (?s\<lparr>is_overrides := Some (set_all (obj_set os k v) ovs)\<rparr>)"
    by (rule Cons.IH) simp
  then show ?case using apply_op_escaped [OF Cons.prems, of k v] by (simp add: override_ops_def kv)
qed (simp add: override_ops_def)

lemma isvc_PATCH_cases:
  assumes "PatchService ns name ops \<in> set (snd (isvc_PATCH api body))"
  obtains b ovs svc profiles where "body = Some b" "ob_namespace b = Some ns" "ob_name b = Some name"
    "ob_overrides b = Some ovs" "ns \<noteq> []" "name \<noteq> []" "\<forall>(k, v)\<in>set ovs. v \<noteq> OOther" "i_get api ns name = Inr svc"
    "i_profiles api = Inr profiles" "overrideError ovs (patch_profile svc profiles) = None"
    "isvc_PATCH api body = (send_overrides api ns name ovs, [GetService ns name, ReadProfiles, PatchService ns name ops])"
    "ops = override_ops ovs"
proof -
  from assms obtain b ovs where b: "body = Some b" "ob_overrides b = Some ovs"
    by (auto simp: isvc_PATCH_def split: option.splits)
  from assms obtain svc profiles where "ob_namespace b = Some ns" "ob_name b = Some name" "ns \<noteq> []" "name \<noteq> []"
    "find (\<lambda>(k, v). v = OOther) ovs = None" "i_get api ns name = Inr svc" "i_profiles api = Inr profiles"
    "overrideError ovs (patch_profile svc profiles) = None" "ops = override_ops ovs"
    by (auto simp: isvc_PATCH_def b split: option.splits if_splits sum.splits prod.splits)
  moreover from this have "isvc_PATCH api body =
      (send_overrides api ns name ovs, [GetService ns name, ReadProfiles, PatchService ns name ops])"
    by (simp add: isvc_PATCH_def b)
  ultimately show thesis using b by (intro that [of b ovs svc profiles]) (auto simp: find_None_iff)
qed

text \<open>C10. Changing the overrides touches the keys given and nothing else: a patch is sent only for an
  existing answer of the service, at most once and as the last call, and the server, whatever the
  characters of the keys, turns the stored overrides into the stored ones updated with those of the
  request and leaves the rest of the service as it was.\<close>

theorem isvc_PATCH_updates_exactly:
  assumes "PatchService ns name ops \<in> set (snd (isvc_PATCH api (Some b)))"
    and "ob_overrides b = Some ovs" and "distinct (map fst ovs)" and "is_overrides s = Some os"
  shows "snd (isvc_PATCH api (Some b)) = [GetService ns name, ReadProfiles, PatchService ns name ops] \<and>
    ob_namespace b = Some ns \<and> ob_name b = Some name \<and>
    (\<exists>os'. apply_ops ops s = Some (s\<lparr>is_overrides := Some os'\<rparr>) \<and> map_of os' = map_of os ++ map_of ovs)"
  using assms(1)
proof (rule isvc_PATCH_cases)
  fix b' ovs'
  assume "Some b = Some b'" "ob_namespace b' = Some ns" "ob_name b' = Some name" "ob_overrides b' = Some ovs'"
    "isvc_PATCH api (Some b) = (send_overrides api ns name ovs', [GetService ns name, ReadProfiles, PatchService ns name ops])"
    "ops = override_ops ovs'"
  then show ?thesis
    using assms(2) apply_override_ops [OF assms(4), of ovs] map_of_set_all [OF assms(3), of os] by auto
qed

definition sample_isvc_api :: "isvc list \<Rightarrow> isvc_api" where
  "sample_isvc_api ss =
     \<lparr>i_namespaces = Inr [Some ''ns''], i_profiles = Inr [sample_profile],
      i_models = Inr [\<lparr>mv_name = Some ''m'', mv_architecture = None, mv_quantization = None\<rparr>], i_services = Inr ss,
      i_get = (\<lambda>ns n. Inr (find (service_named ns n) ss)), i_create = (\<lambda>_ _. Inr ()), i_patch = (\<lambda>_ _ _. Inr ()),
      i_delete = (\<lambda>_ _. Inr ())\<rparr>"

lemma sample_profile_named: "profile_named [sample_profile] ''p'' = Some sample_profile"
  by (simp add: profile_named_def sample_profile_def)

theorem isvc_PATCH_updates_exactly_witness:
  "\<exists>ops os'. PatchService ''ns'' ''llm'' ops \<in> set (snd (isvc_PATCH (sample_isvc_api [sample_isvc []])
       (Some \<lparr>ob_namespace = Some ''ns'', ob_name = Some ''llm'', ob_overrides = Some [(''tp'', ONum 4)]\<rparr>))) \<and>
     apply_ops ops (sample_isvc []) = Some ((sample_isvc [])\<lparr>is_overrides := Some os'\<rparr>) \<and> map_of os' ''tp'' = Some (ONum 4)"
proof -
  let ?b = "\<lparr>ob_namespace = Some ''ns'', ob_name = Some ''llm'', ob_overrides = Some [(''tp'', ONum 4)]\<rparr>"
  have "is_integer 4" by (simp add: is_integer_def)
  then have ok: "overrideError [(''tp'', ONum 4)] (Some sample_profile) = None"
    by (simp add: overrideError_None sample_allowed)
  have "PatchService ''ns'' ''llm'' (override_ops [(''tp'', ONum 4)]) \<in> set (snd (isvc_PATCH (sample_isvc_api [sample_isvc []]) (Some ?b)))"
    by (simp add: isvc_PATCH_def sample_isvc_api_def service_named_def sample_isvc_def patch_profile_def
        sample_profile_named ok)
  moreover from isvc_PATCH_updates_exactly [OF this, of "[(''tp'', ONum 4)]" "sample_isvc []" "[]"]
  obtain os' where "apply_ops (override_ops [(''tp'', ONum 4)]) (sample_isvc []) = Some ((sample_isvc [])\<lparr>is_overrides := Some os'\<rparr>)"
    "map_of os' ''tp'' = Some (ONum 4)"
    by (auto simp: sample_isvc_def)
  ultimately show ?thesis by blast
qed

section \<open>The store of services\<close>

definition model_name_ok :: "string \<Rightarrow> bool" where
  "model_name_ok s \<longleftrightarrow> s \<noteq> [] \<and> length s \<le> 128 \<and> name_word (hd s) \<and> (\<forall>c\<in>set s. model_name_char c)"

definition route_ok :: "isvc_route \<Rightarrow> bool" where
  "route_ok r \<longleftrightarrow>
     (\<exists>router name paths. ir_router r = Some router \<and> router \<in> set AIGATEWAY_ROUTERS \<and>
        ir_modelName r = Some name \<and> model_name_ok name \<and>
        ir_paths r = Some paths \<and> paths \<noteq> [] \<and> distinct paths \<and> set paths \<subseteq> set CATALOG_PATHS)"

definition service_ok :: "profile list \<Rightarrow> isvc \<Rightarrow> bool" where
  "service_ok profiles s \<longleftrightarrow>
     (\<exists>name ref p os. is_name s = Some name \<and> dns_label name \<and> truthy (is_namespace s) \<and> truthy (is_modelRef s) \<and>
        is_profileRef s = Some ref \<and> ref \<noteq> [] \<and> profile_named profiles ref = Some p \<and>
        is_overrides s = Some os \<and> (\<forall>(k, v)\<in>set os. allowed p k v) \<and> (\<forall>r. is_route s = Some r \<longrightarrow> route_ok r))"

definition service_key :: "isvc \<Rightarrow> string option \<times> string option" where
  "service_key s = (is_namespace s, is_name s)"

definition store_ok :: "profile list \<Rightarrow> isvc list \<Rightarrow> bool" where
  "store_ok profiles ss \<longleftrightarrow> distinct (map service_key ss) \<and> list_all (service_ok profiles) ss"

text \<open>What a call does to the store, when the API server accepts it.\<close>

fun perform :: "isvc_api \<Rightarrow> isvc list \<Rightarrow> isvc_call \<Rightarrow> isvc list" where
  "perform api ss (CreateService ns cr) = (case i_create api ns cr of Inl _ \<Rightarrow> ss | Inr _ \<Rightarrow> ss @ [cr])"
| "perform api ss (PatchService ns name ops) =
     (case i_patch api ns name ops of
        Inl _ \<Rightarrow> ss
      | Inr _ \<Rightarrow> map (\<lambda>s. if service_named ns name s then nullish (apply_ops ops s) s else s) ss)"
| "perform api ss (DeleteService ns name) =
     (case i_delete api ns name of Inl _ \<Rightarrow> ss | Inr _ \<Rightarrow> filter (\<lambda>s. \<not> service_named ns name s) ss)"
| "perform api ss _ = ss"

definition perform_all :: "isvc_api \<Rightarrow> isvc list \<Rightarrow> isvc_call list \<Rightarrow> isvc list" where
  "perform_all api ss calls = foldl (perform api) ss calls"

text \<open>Any call may fail; the reads that succeed answer the store and the installed profiles.\<close>

definition answers_from :: "profile list \<Rightarrow> isvc list \<Rightarrow> isvc_api \<Rightarrow> bool" where
  "answers_from profiles ss api \<longleftrightarrow>
     (\<forall>ps. i_profiles api = Inr ps \<longrightarrow> ps = profiles) \<and>
     (\<forall>xs. i_services api = Inr xs \<longrightarrow> xs = ss) \<and>
     (\<forall>ns name x. i_get api ns name = Inr x \<longrightarrow> x = find (service_named ns name) ss)"

inductive isvc_reachable :: "profile list \<Rightarrow> isvc list \<Rightarrow> bool" for profiles where
  empty: "isvc_reachable profiles []"
| posted: "isvc_reachable profiles ss \<Longrightarrow> answers_from profiles ss api \<Longrightarrow>
    isvc_reachable profiles (perform_all api ss (snd (isvc_POST api post)))"
| patched: "isvc_reachable profiles ss \<Longrightarrow> answers_from profiles ss api \<Longrightarrow>
    isvc_reachable profiles (perform_all api ss (snd (isvc_PATCH api patch)))"
| deleted: "isvc_reachable profiles ss \<Longrightarrow> answers_from profiles ss api \<Longrightarrow>
    isvc_reachable profiles (perform_all api ss (snd (isvc_DELETE api which)))"

lemma isvc_name_label: "rx_match ISVC_NAME_RE s \<Longrightarrow> dns_label s"
proof -
  assume "rx_match ISVC_NAME_RE s"
  then obtain c v where s: "s = c # v" "lower_alnum c"
    "v = [] \<or> (\<exists>w d. v = w @ [d] \<and> length w \<le> 61 \<and> (\<forall>x\<in>set w. label_char x) \<and> lower_alnum d)"
    by (auto simp: rx_match_lang ISVC_NAME_RE_def lang_Cls_Seq lang_Seq_Cls simp del: lang.simps)
  have "label_char x" if "lower_alnum x" for x using that by (simp add: label_char_def)
  with s show ?thesis by (auto simp: dns_label_def)
qed

lemma model_name_match: "rx_match MODEL_NAME_RE s \<Longrightarrow> model_name_ok s"
proof -
  assume "rx_match MODEL_NAME_RE s"
  then obtain c v where "s = c # v" "name_word c" "length v \<le> 127" "\<forall>x\<in>set v. model_name_char x"
    by (auto simp: rx_match_lang MODEL_NAME_RE_def lang_Cls_Seq simp del: lang.simps)
  then show ?thesis by (auto simp: model_name_ok_def model_name_char_def)
qed

lemma request_route_ok: "request_route q = Inr (Some r) \<Longrightarrow> route_ok r"
proof -
  assume "request_route q = Inr (Some r)"
  then obtain ro name paths where
    b: "isAIGatewayRouter ro" "rx_match MODEL_NAME_RE name" "list_all isCatalogPath paths" "paths \<noteq> []"
      "r = \<lparr>ir_router = ro, ir_modelName = Some name,
        ir_paths = Some (filter (\<lambda>p. List.member paths (Some p)) CATALOG_PATHS), ir_timeout = None, ir_idleTimeout = None\<rparr>"
    by (auto simp: request_route_def elim!: truthyE split: option.splits if_splits)
  from b(1) obtain router where router: "ro = Some router" "router \<in> set AIGATEWAY_ROUTERS"
    by (auto simp: isAIGatewayRouter_def AIGATEWAY_ROUTERS_def)
  from b(3,4) obtain p where "Some p \<in> set paths" "p \<in> set CATALOG_PATHS"
    by (cases paths) (auto simp: isCatalogPath_def split: option.splits)
  then have "filter (\<lambda>p. List.member paths (Some p)) CATALOG_PATHS \<noteq> []"
    by (auto simp: filter_empty_conv)
  moreover have "distinct CATALOG_PATHS" by (simp add: CATALOG_PATHS_def)
  ultimately show ?thesis using b(2,5) router model_name_match by (auto simp: route_ok_def)
qed

lemma isvc_POST_cases:
  assumes "CreateService ns cr \<in> set (snd (isvc_POST api body))"
  obtains b nss profiles models services where "body = Some b" "ib_namespace b = Some ns"
    "rx_match ISVC_NAME_RE (the (ib_name b))" "truthy (ib_name b)" "ns \<noteq> []" "truthy (ib_profileRef b)" "truthy (ib_modelRef b)"
    "i_profiles api = Inr profiles" "i_services api = Inr services" "check_isvc b nss profiles models services = Inr cr"
    "snd (isvc_POST api body) = POST_READS @ [CreateService ns cr]"
proof -
  have reads: "CreateService ns cr \<notin> set POST_READS" by (simp add: POST_READS_def)
  from assms obtain b where b: "body = Some b" by (auto simp: isvc_POST_def split: option.splits)
  with assms have v: "truthy (ib_name b)" "rx_match ISVC_NAME_RE (the (ib_name b))" "truthy (ib_namespace b)"
    "truthy (ib_profileRef b)" "truthy (ib_modelRef b)"
    by (auto simp: isvc_POST_def split: if_splits)
  from assms reads obtain nss profiles models services where
    a: "i_namespaces api = Inr nss" "i_profiles api = Inr profiles" "i_models api = Inr models" "i_services api = Inr services"
    by (cases "i_namespaces api"; cases "i_profiles api"; cases "i_models api"; cases "i_services api")
      (auto simp: isvc_POST_def b v)
  with assms reads obtain cr' where c: "check_isvc b nss profiles models services = Inr cr'"
    by (cases "check_isvc b nss profiles models services") (auto simp: isvc_POST_def b v)
  have "snd (isvc_POST api body) = POST_READS @ [CreateService (the (ib_namespace b)) cr']"
    by (simp add: isvc_POST_def b v a c)
  with assms reads v(3) have "ib_namespace b = Some ns" "cr' = cr" by (auto elim!: truthyE)
  with v a b c \<open>snd (isvc_POST api body) = _\<close> show thesis by (intro that [of b profiles services nss models]) auto
qed

lemma check_isvc_Inr:
  assumes "check_isvc b nss profiles models services = Inr cr" "rx_match ISVC_NAME_RE (the (ib_name b))" "truthy (ib_name b)"
    "truthy (ib_namespace b)" "truthy (ib_profileRef b)" "truthy (ib_modelRef b)"
  shows "service_ok profiles cr" "service_key cr \<notin> service_key ` set services"
proof -
  from assms(3-5) obtain name ns ref where n: "ib_name b = Some name" "ib_namespace b = Some ns" "ib_profileRef b = Some ref" "ref \<noteq> []"
    by (auto elim!: truthyE)
  with assms(1) obtain p route where c: "profile_named profiles ref = Some p" "\<not> list_ex (service_named ns name) services"
    "overrideError (nullish (ib_overrides b) []) (Some p) = None" "request_route (ib_route b) = Inr route" "cr = new_isvc b route"
    by (auto simp: check_isvc_def Let_def split: option.splits if_splits sum.splits)
  show "service_ok profiles cr"
    using n c(1,3,4) assms(2,4,6) isvc_name_label request_route_ok
    by (auto simp: service_ok_def c(5) new_isvc_def overrideError_None)
  show "service_key cr \<notin> service_key ` set services"
    using n c(2) by (auto simp: c(5) new_isvc_def service_key_def list_ex_iff service_named_def)
qed

lemma reads_only: "\<forall>c\<in>set cs. c \<in> {ReadNamespaces, ReadProfiles, ReadModels, ReadServices} \<union> {GetService ns n |ns n. True} \<Longrightarrow>
    perform_all api ss cs = ss"
  by (induction cs arbitrary: ss) (auto simp: perform_all_def)

lemma store_ok_POST:
  assumes "store_ok profiles ss" "answers_from profiles ss api"
  shows "store_ok profiles (perform_all api ss (snd (isvc_POST api body)))"
proof (cases "\<exists>ns cr. CreateService ns cr \<in> set (snd (isvc_POST api body))")
  case True
  then obtain ns cr where "CreateService ns cr \<in> set (snd (isvc_POST api body))" by blast
  then show ?thesis
  proof (rule isvc_POST_cases)
    fix b nss ps models services
    assume h: "ib_namespace b = Some ns" "rx_match ISVC_NAME_RE (the (ib_name b))" "truthy (ib_name b)" "ns \<noteq> []"
      "truthy (ib_profileRef b)" "truthy (ib_modelRef b)" "i_profiles api = Inr ps" "i_services api = Inr services"
      "check_isvc b nss ps models services = Inr cr" "snd (isvc_POST api body) = POST_READS @ [CreateService ns cr]"
    have "ps = profiles" "services = ss" using h(7,8) assms(2) by (simp_all add: answers_from_def)
    with check_isvc_Inr [OF h(9,2,3)] h(1,4-6) have "service_ok profiles cr" "service_key cr \<notin> service_key ` set ss"
      by simp_all
    then show ?thesis using assms(1) h(10)
      by (auto simp: perform_all_def POST_READS_def store_ok_def split: sum.splits)
  qed
next
  case False
  then have "set (snd (isvc_POST api body)) \<subseteq> set POST_READS"
    by (auto simp: isvc_POST_def split: option.splits if_splits sum.splits)
  then have "perform_all api ss (snd (isvc_POST api body)) = ss"
    by (intro reads_only) (auto simp: POST_READS_def)
  with assms(1) show ?thesis by simp
qed

lemma service_named_key: "service_named ns name s \<longleftrightarrow> service_key s = (Some ns, Some name)"
  by (auto simp: service_named_def service_key_def)

lemma store_ok_PATCH:
  assumes ok: "store_ok profiles ss" and faithful: "answers_from profiles ss api"
  shows "store_ok profiles (perform_all api ss (snd (isvc_PATCH api body)))"
proof (cases "\<exists>ns name ops. PatchService ns name ops \<in> set (snd (isvc_PATCH api body))")
  case True
  then obtain ns name ops where "PatchService ns name ops \<in> set (snd (isvc_PATCH api body))" by blast
  then show ?thesis
  proof (rule isvc_PATCH_cases)
    fix b ovs svc ps
    assume h: "i_get api ns name = Inr svc" "i_profiles api = Inr ps" "overrideError ovs (patch_profile svc ps) = None"
      "isvc_PATCH api body = (send_overrides api ns name ovs, [GetService ns name, ReadProfiles, PatchService ns name ops])"
      "ops = override_ops ovs"
    have svc: "svc = find (service_named ns name) ss" "ps = profiles" using faithful h(1,2) by (simp_all add: answers_from_def)
    define f where "f = (\<lambda>s. if service_named ns name s then nullish (apply_ops ops s) s else s)"
    have f: "service_ok profiles (f s) \<and> service_key (f s) = service_key s" if s: "s \<in> set ss" for s
    proof (cases "service_named ns name s")
      case True
      from ok s obtain ref p os where r: "service_ok profiles s" "is_profileRef s = Some ref" "ref \<noteq> []"
        "profile_named profiles ref = Some p" "is_overrides s = Some os" "\<forall>(k, v)\<in>set os. allowed p k v"
        by (auto simp: store_ok_def list_all_iff service_ok_def)
      have "svc = Some s"
        unfolding svc(1) service_named_key using ok s True find_distinct_key [of service_key ss s]
        by (simp add: store_ok_def service_named_key)
      with r svc(2) h(3) have "\<forall>(k, v)\<in>set ovs. allowed p k v" by (simp add: patch_profile_def overrideError_None)
      with r(6) have "\<forall>(k, v)\<in>set (set_all os ovs). allowed p k v" using set_set_all [of os ovs] by blast
      with r True show ?thesis
        by (auto simp: f_def h(5) apply_override_ops service_ok_def service_key_def)
    next
      case False
      with ok s show ?thesis by (simp add: f_def store_ok_def list_all_iff)
    qed
    then have "map service_key (map f ss) = map service_key ss" by simp
    with f ok have "store_ok profiles (map f ss)" by (auto simp: store_ok_def list_all_iff simp del: map_map)
    with ok show ?thesis by (simp add: h(4) perform_all_def f_def split: sum.split)
  qed
next
  case False
  then have "set (snd (isvc_PATCH api body)) \<subseteq> {ReadProfiles} \<union> {GetService ns n |ns n. True}"
    by (auto simp: isvc_PATCH_def split: option.splits if_splits sum.splits)
  then have "perform_all api ss (snd (isvc_PATCH api body)) = ss" by (intro reads_only) auto
  with ok show ?thesis by simp
qed

lemma store_ok_DELETE:
  "store_ok profiles ss \<Longrightarrow> store_ok profiles (perform_all api ss (snd (isvc_DELETE api which)))"
  by (auto simp: isvc_DELETE_def perform_all_def store_ok_def list_all_iff distinct_map_filter
      split: option.splits if_splits sum.splits)

text \<open>C9. Whatever requests arrive in whatever order, and whichever calls to the API server fail, every
  service in the store is well-formed: it is named by a DNS label, unique in its namespace, refers to an
  installed profile that allows each of its overrides, and publishes, if at all, through one of the
  platform's routes under a catalogue name and on at least one catalogue path, none repeated.\<close>

theorem services_well_formed:
  assumes "isvc_reachable profiles ss"
  shows "distinct (map service_key ss) \<and> (\<forall>s\<in>set ss. service_ok profiles s)"
proof -
  from assms have "store_ok profiles ss"
    by induction (simp add: store_ok_def, simp_all add: store_ok_POST store_ok_PATCH store_ok_DELETE)
  then show ?thesis by (simp add: store_ok_def list_all_iff)
qed

definition sample_post :: isvc_body where
  "sample_post = \<lparr>ib_namespace = Some ''ns'', ib_name = Some ''llm'', ib_profileRef = Some ''p'', ib_modelRef = Some ''m'',
     ib_overrides = Some [(''tp'', ONum 4)], ib_route = None\<rparr>"

theorem services_well_formed_witness:
  "isvc_reachable [sample_profile] [new_isvc sample_post None] \<and> service_ok [sample_profile] (new_isvc sample_post None)"
proof -
  have "is_integer 4" by (simp add: is_integer_def)
  then have ok: "overrideError [(''tp'', ONum 4)] (Some sample_profile) = None"
    by (simp add: overrideError_None sample_allowed)
  have name: "rx_match ISVC_NAME_RE ''llm''" unfolding ISVC_NAME_RE_def by code_simp
  have compatible: "\<not> incompatible sample_profile m" for m by (simp add: incompatible_def sample_profile_def)
  have "snd (isvc_POST (sample_isvc_api []) (Some sample_post)) = POST_READS @ [CreateService ''ns'' (new_isvc sample_post None)]"
    by (simp add: isvc_POST_def sample_isvc_api_def check_isvc_def Let_def sample_post_def name sample_profile_named
        compatible ok request_route_def del: rx_match.simps)
  then have "perform_all (sample_isvc_api []) [] (snd (isvc_POST (sample_isvc_api []) (Some sample_post))) = [new_isvc sample_post None]"
    by (simp add: perform_all_def POST_READS_def sample_isvc_api_def)
  moreover have "answers_from [sample_profile] [] (sample_isvc_api [])" by (simp add: answers_from_def sample_isvc_api_def)
  ultimately have "isvc_reachable [sample_profile] [new_isvc sample_post None]"
    using isvc_reachable.posted [OF isvc_reachable.empty, of "[sample_profile]" "sample_isvc_api []" "Some sample_post"] by simp
  from this services_well_formed [OF this] show ?thesis by simp
qed

section \<open>The listing\<close>

lemma loadMetrics_unreached:
  "(\<And>q. pm_instant prom q = Unreached) \<Longrightarrow> service_metrics to_number prom now s prof = None"
  by (simp add: service_metrics_def loadMetrics_def queryInstant_def split: option.split)

lemma isvc_project_identity:
  "(iv_namespace (isvc_project to_number s prof ms ep), iv_name (isvc_project to_number s prof ms ep)) =
     (nullish (is_namespace s) [], nullish (is_name s) ''?'')"
  "iv_metrics (isvc_project to_number s prof ms ep) = ms"
  by (simp_all add: isvc_project_def Let_def)

text \<open>The metrics never fail the listing: once the services and profiles are read, the answer lists every
  service, each once and newest first, whatever Prometheus answers; and when Prometheus cannot be
  reached, the services are listed without metrics.\<close>

theorem isvc_GET_lists_all:
  assumes "i_services api = Inr ss" and "i_profiles api = Inr ps" and "comparator compare"
  shows "\<exists>items. fst (isvc_GET to_number compare env discovered gst prom now api) = answer 200 (IsvcList items) \<and>
    mset (map (\<lambda>i. (iv_namespace i, iv_name i)) items) = mset (map (\<lambda>s. (nullish (is_namespace s) [], nullish (is_name s) ''?'')) ss) \<and>
    sorted_wrt (\<lambda>x y. compare (nullish (iv_createdAt y) []) (nullish (iv_createdAt x) []) \<le> 0) items \<and>
    ((\<forall>q. pm_instant prom q = Unreached) \<longrightarrow> list_all (\<lambda>i. iv_metrics i = None) items)"
proof -
  define summary where "summary = (\<lambda>s. let prof = profile_by ps (nullish (is_profileRef s) [])
    in isvc_project to_number s prof (service_metrics to_number prom (now div 1000) s prof)
      (privateGatewayClusterEndpoint env discovered now gst))"
  define items where "items = sort_newest compare (\<lambda>i. nullish (iv_createdAt i) []) (map summary ss)"
  have "fst (isvc_GET to_number compare env discovered gst prom now api) = answer 200 (IsvcList items)"
    by (simp add: isvc_GET_def assms(1,2) items_def summary_def Let_def)
  moreover have "mset (map (\<lambda>i. (iv_namespace i, iv_name i)) items) =
      mset (map (\<lambda>s. (nullish (is_namespace s) [], nullish (is_name s) ''?'')) ss)"
    unfolding items_def mset_map mset_sort_newest
    by (simp add: multiset.map_comp comp_def summary_def Let_def isvc_project_identity)
  moreover have "sorted_wrt (\<lambda>x y. compare (nullish (iv_createdAt y) []) (nullish (iv_createdAt x) []) \<le> 0) items"
    unfolding items_def by (rule sorted_sort_newest [OF assms(3)])
  moreover have "list_all (\<lambda>i. iv_metrics i = None) items" if "\<forall>q. pm_instant prom q = Unreached"
    using that by (auto simp: items_def set_sort_newest list_all_iff summary_def Let_def isvc_project_identity loadMetrics_unreached)
  ultimately show ?thesis by blast
qed

theorem isvc_GET_lists_all_witness:
  "\<exists>items. fst (isvc_GET (\<lambda>_. NaN) (\<lambda>a b. int (length a) - int (length b)) (\<lambda>_. None) [] clearGatewayCaches
       \<lparr>pm_instant = (\<lambda>_. Unreached), pm_range = (\<lambda>_ _ _ _. Unreached)\<rparr> 0 (sample_isvc_api [sample_isvc []])) =
     answer 200 (IsvcList items) \<and> length items = 1 \<and> list_all (\<lambda>i. iv_metrics i = None) items"
proof -
  define cmp :: "string \<Rightarrow> string \<Rightarrow> int" where "cmp = (\<lambda>a b. int (length a) - int (length b))"
  define prom where "prom = \<lparr>pm_instant = (\<lambda>_. Unreached), pm_range = (\<lambda>_ _ _ _. Unreached)\<rparr>"
  let ?api = "sample_isvc_api [sample_isvc []]"
  have "comparator cmp" by (simp add: comparator_def cmp_def)
  moreover have "i_services ?api = Inr [sample_isvc []]" "i_profiles ?api = Inr [sample_profile]"
    by (simp_all add: sample_isvc_api_def)
  moreover have "\<forall>q. pm_instant prom q = Unreached" by (simp add: prom_def)
  ultimately obtain items where i:
    "fst (isvc_GET (\<lambda>_. NaN) cmp (\<lambda>_. None) [] clearGatewayCaches prom 0 ?api) = answer 200 (IsvcList items)"
    "mset (map (\<lambda>i. (iv_namespace i, iv_name i)) items) = mset (map (\<lambda>s. (nullish (is_namespace s) [], nullish (is_name s) ''?'')) [sample_isvc []])"
    "list_all (\<lambda>i. iv_metrics i = None) items"
    using isvc_GET_lists_all by blast
  from arg_cong [OF i(2), of size] have "length items = 1" by simp
  with i show ?thesis unfolding cmp_def prom_def by blast
qed

end
