(* ===== verification/Calls.thy ===== *)
theory Calls
  imports Main
begin

text \<open>
  Handlers that read what they have written: actions over the stored resources of the cluster, run one
  call after the other, with \<open>await\<close> as sequencing and \<open>try ... catch\<close> as recovery. A list of faults
  says what goes wrong with the next calls: a call is refused without an effect, or it takes effect and
  its answer is lost; when the list is used up, calls go through. The rules prove what holds of the
  store whatever the faults.
\<close>

section \<open>Actions\<close>

datatype 'e fault = Clear | Refused 'e | Lost 'e

type_synonym ('s, 'e, 'a) act = "'s \<times> 'e fault list \<Rightarrow> ('e + 'a) \<times> 's \<times> 'e fault list"

definition act_return :: "'a \<Rightarrow> ('s, 'e, 'a) act" where
  "act_return x st = (Inr x, st)"

definition act_throw :: "'e \<Rightarrow> ('s, 'e, 'a) act" where
  "act_throw e st = (Inl e, st)"

definition act_bind :: "('s, 'e, 'a) act \<Rightarrow> ('a \<Rightarrow> ('s, 'e, 'b) act) \<Rightarrow> ('s, 'e, 'b) act" where
  "act_bind m k st = (case m st of (Inl e, st') \<Rightarrow> (Inl e, st') | (Inr x, st') \<Rightarrow> k x st')"

definition act_catch :: "('s, 'e, 'a) act \<Rightarrow> ('e \<Rightarrow> ('s, 'e, 'a) act) \<Rightarrow> ('s, 'e, 'a) act" where
  "act_catch m h st = (case m st of (Inl e, st') \<Rightarrow> h e st' | (Inr x, st') \<Rightarrow> (Inr x, st'))"

text \<open>Two actions started together (\<open>Promise.all\<close>): both run, and the first that failed is the failure.\<close>

definition act_both :: "('s, 'e, 'a) act \<Rightarrow> ('s, 'e, 'b) act \<Rightarrow> ('s, 'e, 'a \<times> 'b) act" where
  "act_both m n st =
     (case m st of
        (x, st') \<Rightarrow>
          (case n st' of
             (y, st'') \<Rightarrow>
               (case x of Inl e \<Rightarrow> Inl e | Inr x' \<Rightarrow> (case y of Inl e \<Rightarrow> Inl e | Inr y' \<Rightarrow> Inr (x', y')), st'')))"

text \<open>One call: \<open>op\<close> is what the API server does and answers.\<close>

definition call :: "('s \<Rightarrow> ('e + 'a) \<times> 's) \<Rightarrow> ('s, 'e, 'a) act" where
  "call op st =
     (case st of
        (s, []) \<Rightarrow> (fst (op s), snd (op s), [])
      | (s, Clear # fs) \<Rightarrow> (fst (op s), snd (op s), fs)
      | (s, Refused e # fs) \<Rightarrow> (Inl e, s, fs)
      | (s, Lost e # fs) \<Rightarrow> (Inl e, snd (op s), fs))"

lemma call_simps [simp]:
  "call op (s, []) = (fst (op s), snd (op s), [])"
  "call op (s, Clear # fs) = (fst (op s), snd (op s), fs)"
  "call op (s, Refused e # fs) = (Inl e, s, fs)"
  "call op (s, Lost e # fs) = (Inl e, snd (op s), fs)"
  by (simp_all add: call_def)

text \<open>Exactly one of the calls is refused, if there are that many.\<close>

definition one_refused :: "nat \<Rightarrow> 'e \<Rightarrow> 'e fault list" where
  "one_refused n e = replicate n Clear @ [Refused e]"

lemma call_one_refused [simp]:
  "call op (s, one_refused 0 e) = (Inl e, s, [])"
  "call op (s, one_refused (Suc n) e) = (fst (op s), snd (op s), one_refused n e)"
  by (simp_all add: one_refused_def)

section \<open>What holds after an action\<close>

definition valid :: "('s \<Rightarrow> bool) \<Rightarrow> ('s, 'e, 'a) act \<Rightarrow> ('a \<Rightarrow> 's \<Rightarrow> bool) \<Rightarrow> ('e \<Rightarrow> 's \<Rightarrow> bool) \<Rightarrow> bool" where
  "valid P m Q E \<longleftrightarrow>
     (\<forall>s fs. P s \<longrightarrow> (case m (s, fs) of (Inr x, s', _) \<Rightarrow> Q x s' | (Inl e, s', _) \<Rightarrow> E e s'))"

named_theorems act_rules \<open>what holds after the parts of an action\<close>

lemma valid_return [act_rules]: "(\<And>s. P s \<Longrightarrow> Q x s) \<Longrightarrow> valid P (act_return x) Q E"
  by (simp add: valid_def act_return_def)

lemma valid_throw [act_rules]: "(\<And>s. P s \<Longrightarrow> E e s) \<Longrightarrow> valid P (act_throw e) Q E"
  by (simp add: valid_def act_throw_def)

lemma valid_bind: "valid P m R E \<Longrightarrow> (\<And>x. valid (R x) (k x) Q E) \<Longrightarrow> valid P (act_bind m k) Q E"
  by (fastforce simp: valid_def act_bind_def split: prod.splits sum.splits)

lemma valid_catch: "valid P m Q F \<Longrightarrow> (\<And>e. valid (F e) (h e) Q E) \<Longrightarrow> valid P (act_catch m h) Q E"
  by (fastforce simp: valid_def act_catch_def split: prod.splits sum.splits)

text \<open>Two reads: what each found holds of the store they leave.\<close>

lemma valid_both:
  assumes "valid P m (\<lambda>x s. P s \<and> A x s) (\<lambda>_. P)" and "\<And>R. valid R n (\<lambda>y s. R s \<and> B y s) (\<lambda>_. R)"
  shows "valid P (act_both m n) (\<lambda>(x, y) s. P s \<and> A x s \<and> B y s) (\<lambda>_. P)"
  unfolding valid_def
proof (intro allI impI)
  fix s fs
  assume "P s"
  obtain x s' fs' where m: "m (s, fs) = (x, s', fs')" by (metis prod_cases3)
  obtain y s'' fs'' where n: "n (s', fs') = (y, s'', fs'')" by (metis prod_cases3)
  have "case x of Inl _ \<Rightarrow> P s' | Inr v \<Rightarrow> P s' \<and> A v s'"
    using assms(1) [unfolded valid_def, rule_format, OF \<open>P s\<close>, of fs] m by (cases x) simp_all
  moreover have "R s'' \<and> (case y of Inl _ \<Rightarrow> True | Inr w \<Rightarrow> B w s'')" if "R s'" for R
    using assms(2) [of R, unfolded valid_def, rule_format, OF that, of fs'] n by (cases y) simp_all
  ultimately show "case act_both m n (s, fs) of
      (Inr v, s', _) \<Rightarrow> (case v of (x, y) \<Rightarrow> \<lambda>s. P s \<and> A x s \<and> B y s) s' | (Inl e, s', _) \<Rightarrow> P s'"
    by (cases x; cases y) (auto simp: act_both_def m n)
qed

lemma valid_bind_both:
  assumes "valid P m (\<lambda>x s. P s \<and> A x s) (\<lambda>_. P)" and "\<And>R. valid R n (\<lambda>y s. R s \<and> B y s) (\<lambda>_. R)"
    and "\<And>x y. valid (\<lambda>s. P s \<and> A x s \<and> B y s) (k x y) Q (\<lambda>_. P)"
  shows "valid P (act_bind (act_both m n) (\<lambda>(x, y). k x y)) Q (\<lambda>_. P)"
  by (rule valid_bind [OF valid_both [OF assms(1,2)]]) (auto simp: assms(3))

lemma valid_call:
  assumes "\<And>s x. P s \<Longrightarrow> fst (op s) = Inr x \<Longrightarrow> Q x (snd (op s))"
    and "\<And>s e. P s \<Longrightarrow> E e s" and "\<And>s e. P s \<Longrightarrow> E e (snd (op s))"
  shows "valid P (call op) Q E"
  unfolding valid_def
proof (intro allI impI)
  fix s fs
  assume "P s"
  with assms show "case call op (s, fs) of (Inr x, s', _) \<Rightarrow> Q x s' | (Inl e, s', _) \<Rightarrow> E e s'"
    by (cases "fst (op s)"; cases fs rule: list.exhaust; cases "hd fs") (auto simp: call_def)
qed

lemma valid_pre: "valid P m Q E \<Longrightarrow> (\<And>s. P' s \<Longrightarrow> P s) \<Longrightarrow> valid P' m Q E"
  by (simp add: valid_def)

lemma valid_post:
  "valid P m Q E \<Longrightarrow> (\<And>x s. Q x s \<Longrightarrow> Q' x s) \<Longrightarrow> (\<And>e s. E e s \<Longrightarrow> E' e s) \<Longrightarrow> valid P m Q' E'"
  by (fastforce simp: valid_def split: prod.splits sum.splits)

lemma valid_if [act_rules]:
  "(b \<Longrightarrow> valid P m Q E) \<Longrightarrow> (\<not> b \<Longrightarrow> valid P n Q E) \<Longrightarrow> valid P (if b then m else n) Q E"
  by simp

lemma valid_option [act_rules]:
  "(x = None \<Longrightarrow> valid P m Q E) \<Longrightarrow> (\<And>y. x = Some y \<Longrightarrow> valid P (f y) Q E) \<Longrightarrow>
     valid P (case x of None \<Rightarrow> m | Some y \<Rightarrow> f y) Q E"
  by (cases x) simp_all

lemma valid_sum [act_rules]:
  "(\<And>a. x = Inl a \<Longrightarrow> valid P (f a) Q E) \<Longrightarrow> (\<And>b. x = Inr b \<Longrightarrow> valid P (g b) Q E) \<Longrightarrow>
     valid P (case x of Inl a \<Rightarrow> f a | Inr b \<Rightarrow> g b) Q E"
  by (cases x) simp_all

text \<open>A predicate the action keeps, however it ends.\<close>

definition keeps :: "('s \<Rightarrow> bool) \<Rightarrow> ('s, 'e, 'a) act \<Rightarrow> bool" where
  "keeps I m \<longleftrightarrow> valid I m (\<lambda>_. I) (\<lambda>_. I)"

lemma keeps_store:
  assumes "keeps I m" and "I s"
  shows "I (fst (snd (m (s, fs))))"
proof -
  obtain r s' fs' where m: "m (s, fs) = (r, s', fs')" by (metis prod_cases3)
  from assms(1) [unfolded keeps_def valid_def, rule_format, OF assms(2), of fs] m show ?thesis
    by (cases r) simp_all
qed

lemma keeps_read: "(\<And>s. snd (op s) = s) \<Longrightarrow> keeps I (call op)"
  unfolding keeps_def by (rule valid_call) simp_all

named_theorems keeps_rules \<open>what the parts of an action keep\<close>

lemma keeps_return [keeps_rules]: "keeps I (act_return x)"
  and keeps_throw [keeps_rules]: "keeps I (act_throw e)"
  by (auto simp: keeps_def intro: act_rules)

lemma keeps_bind [keeps_rules]: "keeps I m \<Longrightarrow> (\<And>x. keeps I (k x)) \<Longrightarrow> keeps I (act_bind m k)"
  unfolding keeps_def by (rule valid_bind)

lemma keeps_catch [keeps_rules]: "keeps I m \<Longrightarrow> (\<And>e. keeps I (h e)) \<Longrightarrow> keeps I (act_catch m h)"
  unfolding keeps_def by (rule valid_catch)

lemma keeps_both [keeps_rules]: "keeps I m \<Longrightarrow> keeps I n \<Longrightarrow> keeps I (act_both m n)"
  unfolding keeps_def valid_def act_both_def by (fastforce split: prod.splits sum.splits)

lemma keeps_if [keeps_rules]: "keeps I m \<Longrightarrow> keeps I n \<Longrightarrow> keeps I (if b then m else n)"
  by simp

lemma keeps_option [keeps_rules]: "keeps I m \<Longrightarrow> (\<And>y. keeps I (f y)) \<Longrightarrow> keeps I (case x of None \<Rightarrow> m | Some y \<Rightarrow> f y)"
  by (cases x) simp_all

lemma keeps_sum [keeps_rules]: "(\<And>a. keeps I (f a)) \<Longrightarrow> (\<And>b. keeps I (g b)) \<Longrightarrow> keeps I (case x of Inl a \<Rightarrow> f a | Inr b \<Rightarrow> g b)"
  by (cases x) simp_all

lemma keeps_prod [keeps_rules]: "(\<And>a b. keeps I (f a b)) \<Longrightarrow> keeps I (case x of (a, b) \<Rightarrow> f a b)"
  by (cases x) simp

lemma keeps_valid: "valid I m (\<lambda>x s. I s \<and> A x s) (\<lambda>_. I) \<Longrightarrow> keeps I m"
  unfolding keeps_def by (erule valid_post) auto

section \<open>Servers\<close>

text \<open>The requests to a server, each with the faults of its calls; an invariant every request keeps holds
  after any of them.\<close>

locale server =
  fixes serve :: "'r \<Rightarrow> ('s, 'e, 'a) act"
    and inv :: "'s \<Rightarrow> bool"
  assumes serve_keeps: "keeps inv (serve r)"
begin

lemma inv_after: "inv s \<Longrightarrow> inv (foldl (\<lambda>s (r, fs). fst (snd (serve r (s, fs)))) s rs)"
  by (induction rs arbitrary: s) (auto intro: keeps_store [OF serve_keeps])

end

end
