(* ===== verification/Agent_Crd.thy ===== *)
theory Agent_Crd
  imports Gateway Allowlist Calls
begin

text \<open>
  The assistant's resources (\<open>lib/cubepilot/agentcrd.ts\<close>): the instance of a user, the builtin template
  with its provider list, the skills and the credential Secrets, and the reads and writes of them as
  actions over a store. All of them live in one namespace, which is left out. A JSON patch is a list of
  typed operations, one constructor for each operation and path the code sends; \<open>apply_template_op\<close> and
  \<open>apply_instance_op\<close> are what the API server does with them (RFC 6902), \<open>None\<close> when it rejects the patch.
\<close>

section \<open>Resources\<close>

definition DEFAULT_AGENT_NAME :: string where
  "DEFAULT_AGENT_NAME = ''cubepilot''"

record agent_condition =
  ac_type :: "string option"
  ac_status :: "string option"
  ac_message :: "string option"

record agent_instance =
  ai_name :: "string option"
  ai_created :: "string option"
  ai_templateRef :: "string option"
  ai_owner :: "string option"
  ai_selectedModel :: "string option"
  ai_userInstructions :: "string option"
  ai_approvalPolicy :: "string option"
  ai_allowlist :: "(string option \<times> string option) list option"
  ai_enabledSkills :: "string list option"
  ai_phase :: "string option"
  ai_podName :: "string option"
  ai_pvcName :: "string option"
  ai_message :: "string option"
  ai_conditions :: "agent_condition list option"

text \<open>The resource version is a number that every write increases.\<close>

record agent_template =
  at_version :: nat
  at_defaultModel :: "string option"
  at_providers :: "template_provider list option"
  at_approvalPolicy :: "string option"

record skill =
  sk_name :: "string option"
  sk_displayName :: "string option"
  sk_description :: "string option"
  sk_visibility :: "string option"
  sk_phase :: "string option"

text \<open>A field of a request: something else than a text, or a text.\<close>

datatype raw_text = NotText | RawText string

fun sent_text :: "raw_text option \<Rightarrow> string option" where
  "sent_text (Some (RawText s)) = Some s"
| "sent_text _ = None"

section \<open>Names\<close>

definition sanitizeIdentity :: "string \<Rightarrow> string" where
  "sanitizeIdentity s =
     (let out = strip_ends CHR ''-'' (collapse_runs label_char CHR ''-'' (toLowerCase s))
      in if out = [] then ''user'' else out)"

definition agentInstanceName :: "string \<Rightarrow> string" where
  "agentInstanceName user = sanitizeIdentity user @ ''-'' @ sanitizeIdentity DEFAULT_AGENT_NAME"

section \<open>Skills\<close>

definition skillInBaseline :: "skill \<Rightarrow> bool" where
  "skillInBaseline k \<longleftrightarrow> nullish (sk_visibility k) ''Platform'' = ''Platform'' \<and> sk_phase k \<noteq> Some ''Unreachable''"

definition baselineSkillNames :: "skill list \<Rightarrow> string list" where
  "baselineSkillNames skills = filter (\<lambda>n. n \<noteq> []) (map (\<lambda>k. nullish (sk_name k) []) (filter skillInBaseline skills))"

definition enabled_skills :: "agent_instance option \<Rightarrow> string list" where
  "enabled_skills i = (case i of None \<Rightarrow> [] | Some i \<Rightarrow> nullish (ai_enabledSkills i) [])"

definition skillEnabled :: "agent_instance option \<Rightarrow> skill \<Rightarrow> bool" where
  "skillEnabled i k =
     (if enabled_skills i = [] then skillInBaseline k
      else List.member (enabled_skills i) (nullish (sk_name k) []))"

definition withSkillEnabled :: "agent_instance option \<Rightarrow> string \<Rightarrow> string list" where
  "withSkillEnabled i name =
     (if enabled_skills i = [] \<or> List.member (enabled_skills i) name then enabled_skills i
      else enabled_skills i @ [name])"

definition withSkillDisabled :: "agent_instance option \<Rightarrow> string \<Rightarrow> string list \<Rightarrow> string list" where
  "withSkillDisabled i name baseline =
     (if enabled_skills i = [] then filter (\<lambda>n. n \<noteq> name) baseline
      else filter (\<lambda>n. n \<noteq> name) (enabled_skills i))"

section \<open>Patches\<close>

text \<open>In this order: \<open>add /spec/providers/-\<close>, \<open>add /spec/providers\<close>, \<open>replace .../<i>/endpoint\<close>,
  \<open>replace .../<i>/models\<close>, \<open>remove .../<i>/credentialRef\<close>, \<open>add .../<i>/credentialRef\<close>,
  \<open>replace /spec/providers/<i>\<close>, \<open>remove /spec/providers/<i>\<close>, \<open>add /spec/defaultModel\<close>,
  \<open>test /metadata/resourceVersion\<close>.\<close>

datatype template_op =
    AppendProvider template_provider
  | SetProviders "template_provider list"
  | ReplaceEndpoint nat string
  | ReplaceModels nat "string list"
  | RemoveCredential nat
  | AddCredential nat "string option"
  | ReplaceProvider nat template_provider
  | RemoveProvider nat
  | AddDefaultModel string
  | TestVersion nat

definition on_provider ::
    "nat \<Rightarrow> (template_provider \<Rightarrow> template_provider option) \<Rightarrow> agent_template \<Rightarrow> agent_template option" where
  "on_provider i f t =
     (case at_providers t of
        None \<Rightarrow> None
      | Some ps \<Rightarrow>
          (if i < length ps
           then map_option (\<lambda>p. t\<lparr>at_providers := Some (ps[i := p])\<rparr>) (f (ps ! i)) else None))"

fun apply_template_op :: "template_op \<Rightarrow> agent_template \<Rightarrow> agent_template option" where
  "apply_template_op (AppendProvider p) t =
     map_option (\<lambda>ps. t\<lparr>at_providers := Some (ps @ [p])\<rparr>) (at_providers t)"
| "apply_template_op (SetProviders ps) t = Some (t\<lparr>at_providers := Some ps\<rparr>)"
| "apply_template_op (ReplaceEndpoint i e) t =
     on_provider i (\<lambda>p. if p_endpoint p = None then None else Some (p\<lparr>p_endpoint := Some e\<rparr>)) t"
| "apply_template_op (ReplaceModels i ms) t =
     on_provider i (\<lambda>p. if p_models p = None then None else Some (p\<lparr>p_models := Some ms\<rparr>)) t"
| "apply_template_op (RemoveCredential i) t =
     on_provider i (\<lambda>p. if p_credentialRef p = None then None else Some (p\<lparr>p_credentialRef := None\<rparr>)) t"
| "apply_template_op (AddCredential i r) t = on_provider i (\<lambda>p. Some (p\<lparr>p_credentialRef := Some r\<rparr>)) t"
| "apply_template_op (ReplaceProvider i q) t = on_provider i (\<lambda>p. Some q) t"
| "apply_template_op (RemoveProvider i) t =
     (case at_providers t of
        None \<Rightarrow> None
      | Some ps \<Rightarrow> if i < length ps then Some (t\<lparr>at_providers := Some (take i ps @ drop (Suc i) ps)\<rparr>) else None)"
| "apply_template_op (AddDefaultModel m) t = Some (t\<lparr>at_defaultModel := Some m\<rparr>)"
| "apply_template_op (TestVersion v) t = (if at_version t = v then Some t else None)"

fun apply_template_ops :: "template_op list \<Rightarrow> agent_template \<Rightarrow> agent_template option" where
  "apply_template_ops [] t = Some t"
| "apply_template_ops (op # ops) t =
     (case apply_template_op op t of None \<Rightarrow> None | Some t' \<Rightarrow> apply_template_ops ops t')"

datatype instance_field = SelectedModel | UserInstructions | ApprovalPolicy

datatype instance_op =
    AddField instance_field string
  | RemoveField instance_field
  | SetAllowlist "(string \<times> string option) list"
  | SetEnabledSkills "string list"

fun get_field :: "instance_field \<Rightarrow> agent_instance \<Rightarrow> string option" where
  "get_field SelectedModel i = ai_selectedModel i"
| "get_field UserInstructions i = ai_userInstructions i"
| "get_field ApprovalPolicy i = ai_approvalPolicy i"

fun set_field :: "instance_field \<Rightarrow> string option \<Rightarrow> agent_instance \<Rightarrow> agent_instance" where
  "set_field SelectedModel v i = i\<lparr>ai_selectedModel := v\<rparr>"
| "set_field UserInstructions v i = i\<lparr>ai_userInstructions := v\<rparr>"
| "set_field ApprovalPolicy v i = i\<lparr>ai_approvalPolicy := v\<rparr>"

fun apply_instance_op :: "instance_op \<Rightarrow> agent_instance \<Rightarrow> agent_instance option" where
  "apply_instance_op (AddField f v) i = Some (set_field f (Some v) i)"
| "apply_instance_op (RemoveField f) i = (if get_field f i = None then None else Some (set_field f None i))"
| "apply_instance_op (SetAllowlist rs) i = Some (i\<lparr>ai_allowlist := Some (map (\<lambda>(p, a). (Some p, a)) rs)\<rparr>)"
| "apply_instance_op (SetEnabledSkills ns) i = Some (i\<lparr>ai_enabledSkills := Some ns\<rparr>)"

fun apply_instance_ops :: "instance_op list \<Rightarrow> agent_instance \<Rightarrow> agent_instance option" where
  "apply_instance_ops [] i = Some i"
| "apply_instance_ops (op # ops) i =
     (case apply_instance_op op i of None \<Rightarrow> None | Some i' \<Rightarrow> apply_instance_ops ops i')"

section \<open>The provider list\<close>

definition sameModels :: "string list option \<Rightarrow> string list \<Rightarrow> bool" where
  "sameModels a b \<longleftrightarrow> nullish a [] = b"

definition platformProviderOps ::
    "template_provider list option \<Rightarrow> string \<Rightarrow> string \<Rightarrow> string list \<Rightarrow> template_op list" where
  "platformProviderOps providers name endpoint modelIds =
     (let ps = nullish providers [];
          entry = \<lparr>p_name = Some name, p_endpoint = Some endpoint, p_models = Some modelIds, p_credentialRef = None\<rparr>
      in case find_index (\<lambda>p. p_name p = Some name) ps of
           None \<Rightarrow> [if ps \<noteq> [] then AppendProvider entry else SetProviders [entry]]
         | Some index \<Rightarrow>
             (let current = ps ! index
              in (if p_endpoint current \<noteq> Some endpoint then [ReplaceEndpoint index endpoint] else []) @
                 (if \<not> sameModels (p_models current) modelIds then [ReplaceModels index modelIds] else []) @
                 (if p_credentialRef current \<noteq> None then [RemoveCredential index] else [])))"

record provider_option =
  pv_name :: string
  pv_endpoint :: "string option"
  pv_models :: "string list"
  pv_keyed :: bool
  pv_system :: bool

definition templateProviders :: "agent_template option \<Rightarrow> provider_option list" where
  "templateProviders tmpl =
     map (\<lambda>p. \<lparr>pv_name = the (p_name p), pv_endpoint = p_endpoint p, pv_models = nullish (p_models p) [],
         pv_keyed = truthy (case p_credentialRef p of None \<Rightarrow> None | Some r \<Rightarrow> r),
         pv_system = isPlatformProviderName (the (p_name p))\<rparr>)
       (filter (\<lambda>p. truthy (p_name p)) (case tmpl of None \<Rightarrow> [] | Some t \<Rightarrow> nullish (at_providers t) []))"

definition providerRefs :: "template_provider \<Rightarrow> string list" where
  "providerRefs p = map (modelKey (nullish (p_name p) [])) (nullish (p_models p) [])"

section \<open>The store and its reads\<close>

record agent_store =
  as_template :: "agent_template option"
  as_instances :: "agent_instance list"
  as_skills :: "skill list"
  as_secrets :: "string \<rightharpoonup> string"

definition providers_of :: "agent_store \<Rightarrow> template_provider list" where
  "providers_of s = (case as_template s of None \<Rightarrow> [] | Some t \<Rightarrow> nullish (at_providers t) [])"

datatype agent_error = K8s k8s_error | InstanceConflict

type_synonym 'a agent_act = "(agent_store, agent_error, 'a) act"

definition api_error :: "int \<Rightarrow> agent_error" where
  "api_error code = K8s \<lparr>e_code = Some (NumCode code), e_statusCode = None, e_message = []\<rparr>"

fun error_code :: "agent_error \<Rightarrow> int option" where
  "error_code (K8s e) = k8sErrorCode e"
| "error_code InstanceConflict = None"

definition k8s_failure :: "(string \<Rightarrow> 'b) \<Rightarrow> agent_error \<Rightarrow> 'b response" where
  "k8s_failure cluster_error e =
     (case e of
        K8s k \<Rightarrow> answer (k8s_status k) (cluster_error (e_message k))
      | InstanceConflict \<Rightarrow> answer 502 (cluster_error ''an agent instance with this name belongs to another user''))"

definition getCr :: "'a agent_act \<Rightarrow> 'a option agent_act" where
  "getCr read =
     act_catch (act_bind read (\<lambda>x. act_return (Some x)))
       (\<lambda>e. if error_code e = Some 404 then act_return None else act_throw e)"

definition listSkillCrs :: "skill list agent_act" where
  "listSkillCrs = call (\<lambda>s. (Inr (as_skills s), s))"

definition found :: "'a option \<Rightarrow> agent_error + 'a" where
  "found x = (case x of None \<Rightarrow> Inl (api_error 404) | Some y \<Rightarrow> Inr y)"

definition getAgentInstanceCr :: "string \<Rightarrow> agent_instance option agent_act" where
  "getAgentInstanceCr name = getCr (call (\<lambda>s. (found (find (\<lambda>i. ai_name i = Some name) (as_instances s)), s)))"

definition owned_by :: "string \<Rightarrow> agent_instance option \<Rightarrow> agent_instance option" where
  "owned_by user cr = (case cr of None \<Rightarrow> None | Some i \<Rightarrow> if ai_owner i \<noteq> Some user then None else Some i)"

definition getOwnedAgentInstanceCr :: "string \<Rightarrow> agent_instance option agent_act" where
  "getOwnedAgentInstanceCr user =
     act_bind (getAgentInstanceCr (agentInstanceName user)) (\<lambda>cr. act_return (owned_by user cr))"

definition getSkillCr :: "string \<Rightarrow> skill option agent_act" where
  "getSkillCr name = getCr (call (\<lambda>s. (found (find (\<lambda>k. sk_name k = Some name) (as_skills s)), s)))"

definition getAgentTemplateCr :: "agent_template option agent_act" where
  "getAgentTemplateCr = getCr (call (\<lambda>s. (found (as_template s), s)))"

definition selects :: "string list \<Rightarrow> agent_instance \<Rightarrow> bool" where
  "selects refs i \<longleftrightarrow>
     (case ai_selectedModel i of None \<Rightarrow> False | Some r \<Rightarrow> List.member refs r) \<and>
     nullish (ai_templateRef i) DEFAULT_AGENT_NAME = DEFAULT_AGENT_NAME"

definition instancesSelectingRefs :: "string list \<Rightarrow> (string \<times> string) list agent_act" where
  "instancesSelectingRefs refs =
     (if refs = [] then act_return []
      else act_bind (call (\<lambda>s. (Inr (as_instances s), s)))
        (\<lambda>is. act_return (map (\<lambda>i. (nullish (ai_name i) [], nullish (ai_owner i) [])) (filter (selects refs) is))))"

section \<open>Writes\<close>

definition patch_template :: "template_op list \<Rightarrow> agent_store \<Rightarrow> (agent_error + agent_template) \<times> agent_store" where
  "patch_template ops s =
     (case as_template s of
        None \<Rightarrow> (Inl (api_error 404), s)
      | Some t \<Rightarrow>
          (case apply_template_ops ops t of
             None \<Rightarrow> (Inl (api_error 422), s)
           | Some t' \<Rightarrow>
               (let new = t'\<lparr>at_version := Suc (at_version t)\<rparr> in (Inr new, s\<lparr>as_template := Some new\<rparr>))))"

definition patchAgentTemplateCr :: "template_op list \<Rightarrow> agent_template agent_act" where
  "patchAgentTemplateCr ops = call (patch_template ops)"

definition patch_instance ::
    "string \<Rightarrow> instance_op list \<Rightarrow> agent_store \<Rightarrow> (agent_error + agent_instance) \<times> agent_store" where
  "patch_instance name ops s =
     (case find (\<lambda>i. ai_name i = Some name) (as_instances s) of
        None \<Rightarrow> (Inl (api_error 404), s)
      | Some i \<Rightarrow>
          (case apply_instance_ops ops i of
             None \<Rightarrow> (Inl (api_error 422), s)
           | Some new \<Rightarrow>
               (Inr new, s\<lparr>as_instances := map (\<lambda>j. if ai_name j = Some name then new else j) (as_instances s)\<rparr>)))"

definition patchAgentInstanceCr :: "string \<Rightarrow> instance_op list \<Rightarrow> agent_instance agent_act" where
  "patchAgentInstanceCr name ops = call (patch_instance name ops)"

definition new_instance :: "string \<Rightarrow> string option \<Rightarrow> string option \<Rightarrow> agent_instance" where
  "new_instance user selectedModel userInstructions =
     \<lparr>ai_name = Some (agentInstanceName user), ai_created = None, ai_templateRef = Some DEFAULT_AGENT_NAME,
      ai_owner = Some user, ai_selectedModel = or_undef selectedModel,
      ai_userInstructions = or_undef userInstructions, ai_approvalPolicy = None, ai_allowlist = None,
      ai_enabledSkills = None, ai_phase = None, ai_podName = None, ai_pvcName = None, ai_message = None,
      ai_conditions = None\<rparr>"

definition create_instance :: "agent_instance \<Rightarrow> agent_store \<Rightarrow> (agent_error + agent_instance) \<times> agent_store" where
  "create_instance i s =
     (if list_ex (\<lambda>j. ai_name j = ai_name i) (as_instances s) then (Inl (api_error 409), s)
      else (Inr i, s\<lparr>as_instances := as_instances s @ [i]\<rparr>))"

definition ensureAgentInstance ::
    "string \<Rightarrow> string option \<Rightarrow> string option \<Rightarrow> (agent_instance \<times> bool) agent_act" where
  "ensureAgentInstance user selectedModel userInstructions =
     act_catch
       (act_bind (call (create_instance (new_instance user selectedModel userInstructions)))
         (\<lambda>cr. act_return (cr, False)))
       (\<lambda>e. if error_code e \<noteq> Some 409 then act_throw e
            else act_bind (getAgentInstanceCr (agentInstanceName user))
              (\<lambda>existing. case owned_by user existing of
                 Some cr \<Rightarrow> act_return (cr, True)
               | None \<Rightarrow> act_throw InstanceConflict))"

definition create_secret :: "string \<Rightarrow> string \<Rightarrow> agent_store \<Rightarrow> (agent_error + unit) \<times> agent_store" where
  "create_secret name key s =
     (if as_secrets s name \<noteq> None then (Inl (api_error 409), s)
      else (Inr (), s\<lparr>as_secrets := (as_secrets s)(name \<mapsto> key)\<rparr>))"

definition patch_secret :: "string \<Rightarrow> string \<Rightarrow> agent_store \<Rightarrow> (agent_error + unit) \<times> agent_store" where
  "patch_secret name key s =
     (if as_secrets s name = None then (Inl (api_error 404), s)
      else (Inr (), s\<lparr>as_secrets := (as_secrets s)(name \<mapsto> key)\<rparr>))"

definition upsertLlmCredential :: "string \<Rightarrow> string \<Rightarrow> unit agent_act" where
  "upsertLlmCredential secretName apiKey =
     act_catch (call (create_secret secretName apiKey))
       (\<lambda>e. if error_code e \<noteq> Some 409 then act_throw e else call (patch_secret secretName apiKey))"

definition delete_secret :: "string \<Rightarrow> agent_store \<Rightarrow> (agent_error + unit) \<times> agent_store" where
  "delete_secret name s =
     (if as_secrets s name = None then (Inl (api_error 404), s)
      else (Inr (), s\<lparr>as_secrets := (as_secrets s)(name := None)\<rparr>))"

definition deleteLlmCredential :: "string \<Rightarrow> unit agent_act" where
  "deleteLlmCredential secretName =
     act_catch (call (delete_secret secretName))
       (\<lambda>e. if error_code e \<noteq> Some 404 then act_throw e else act_return ())"

section \<open>Running the actions\<close>

lemmas run_act = act_bind_def act_catch_def act_return_def act_throw_def act_both_def

text \<open>An error that is not one of the answers the code interprets.\<close>

definition plain_error :: "agent_error \<Rightarrow> bool" where
  "plain_error e \<longleftrightarrow> error_code e \<noteq> Some 404 \<and> error_code e \<noteq> Some 409"

lemma error_code_api [simp]: "error_code (api_error c) = Some c"
  by (simp add: api_error_def k8sErrorCode_def)

lemma k8s_failure_not_ok [simp]: "res_status (k8s_failure f x) \<noteq> Status 200"
  by (simp add: k8s_failure_def answer_def k8s_status_def split: agent_error.split)

lemma run_getInstance:
  "getAgentInstanceCr name (s, []) = (Inr (find (\<lambda>i. ai_name i = Some name) (as_instances s)), s, [])"
  by (cases "find (\<lambda>i. ai_name i = Some name) (as_instances s)") (simp_all add: getAgentInstanceCr_def getCr_def run_act found_def)

lemma run_getTemplate:
  assumes "as_template s = Some t"
  shows "getAgentTemplateCr (s, []) = (Inr (Some t), s, [])"
    "getAgentTemplateCr (s, one_refused (Suc n) e) = (Inr (Some t), s, one_refused n e)"
    "plain_error e \<Longrightarrow> getAgentTemplateCr (s, one_refused 0 e) = (Inl e, s, [])"
  using assms by (simp_all add: getAgentTemplateCr_def getCr_def run_act found_def plain_error_def)

lemma run_patchTemplate:
  assumes "as_template s = Some t" and "apply_template_ops ops t = Some t'"
  shows "patchAgentTemplateCr ops (s, []) =
      (Inr (t'\<lparr>at_version := Suc (at_version t)\<rparr>), s\<lparr>as_template := Some (t'\<lparr>at_version := Suc (at_version t)\<rparr>)\<rparr>, [])"
    "patchAgentTemplateCr ops (s, one_refused (Suc n) e) =
      (Inr (t'\<lparr>at_version := Suc (at_version t)\<rparr>), s\<lparr>as_template := Some (t'\<lparr>at_version := Suc (at_version t)\<rparr>)\<rparr>, one_refused n e)"
  using assms by (simp_all add: patchAgentTemplateCr_def patch_template_def Let_def)

lemma run_patchTemplate_refused: "patchAgentTemplateCr ops (s, one_refused 0 e) = (Inl e, s, [])"
  by (simp add: patchAgentTemplateCr_def)

text \<open>A credential write that one call of is refused: either it is done, or nothing changed.\<close>

lemma run_upsert:
  assumes "plain_error e"
  obtains (written) m where "upsertLlmCredential name key (s, one_refused n e) =
      (Inr (), s\<lparr>as_secrets := (as_secrets s)(name \<mapsto> key)\<rparr>, one_refused m e)"
  | (failed) "upsertLlmCredential name key (s, one_refused n e) = (Inl e, s, [])"
proof (cases n)
  case 0
  with assms failed show thesis by (simp add: upsertLlmCredential_def run_act plain_error_def)
next
  case (Suc m)
  show thesis
  proof (cases "as_secrets s name = None")
    case True
    with Suc written show thesis by (simp add: upsertLlmCredential_def run_act create_secret_def)
  next
    case False
    with Suc written failed show thesis
      by (cases m) (auto simp: upsertLlmCredential_def run_act create_secret_def patch_secret_def)
  qed
qed

lemma run_delete:
  assumes "plain_error e"
  obtains (written) m where "deleteLlmCredential name (s, one_refused n e) =
      (Inr (), s\<lparr>as_secrets := (as_secrets s)(name := None)\<rparr>, one_refused m e)"
  | (failed) "deleteLlmCredential name (s, one_refused n e) = (Inl e, s, [])"
proof (cases n)
  case 0
  with assms failed show thesis by (simp add: deleteLlmCredential_def run_act plain_error_def)
next
  case (Suc m)
  then show thesis
    using written by (cases "as_secrets s name") (auto simp: deleteLlmCredential_def run_act delete_secret_def fun_upd_idem)
qed

section \<open>What the actions do to the store\<close>

lemma valid_getCr:
  assumes "\<And>s. snd (op s) = s" and "\<And>s x. P s \<Longrightarrow> fst (op s) = Inr x \<Longrightarrow> R x s"
  shows "valid P (getCr (call op)) (\<lambda>x s. P s \<and> (\<forall>y. x = Some y \<longrightarrow> R y s)) (\<lambda>_. P)"
  unfolding getCr_def
proof (rule valid_catch)
  show "valid P (act_bind (call op) (\<lambda>x. act_return (Some x))) (\<lambda>x s. P s \<and> (\<forall>y. x = Some y \<longrightarrow> R y s)) (\<lambda>_. P)"
  proof (rule valid_bind)
    show "valid P (call op) (\<lambda>x s. P s \<and> R x s) (\<lambda>_. P)" using assms by (intro valid_call) auto
  qed (rule valid_return, simp)
qed (intro act_rules; simp)

lemma read_template:
  "valid P getAgentTemplateCr (\<lambda>x s. P s \<and> (\<forall>t. x = Some t \<longrightarrow> as_template s = Some t)) (\<lambda>_. P)"
  unfolding getAgentTemplateCr_def by (rule valid_getCr) (auto simp: found_def split: option.splits)

lemma read_instance:
  "valid P (getAgentInstanceCr name)
     (\<lambda>x s. P s \<and> (\<forall>i. x = Some i \<longrightarrow> find (\<lambda>i. ai_name i = Some name) (as_instances s) = Some i)) (\<lambda>_. P)"
  unfolding getAgentInstanceCr_def by (rule valid_getCr) (auto simp: found_def split: option.splits)

lemma read_owned_instance:
  "valid P (getOwnedAgentInstanceCr user)
     (\<lambda>x s. P s \<and> (\<forall>i. x = Some i \<longrightarrow> i \<in> set (as_instances s) \<and> ai_owner i = Some user)) (\<lambda>_. P)"
  unfolding getOwnedAgentInstanceCr_def
  by (rule valid_bind [OF read_instance])
    (rule valid_return, auto simp: owned_by_def dest!: find_SomeD split: option.splits if_splits)

lemma read_skill:
  "valid P (getSkillCr name)
     (\<lambda>x s. P s \<and> (\<forall>k. x = Some k \<longrightarrow> find (\<lambda>k. sk_name k = Some name) (as_skills s) = Some k)) (\<lambda>_. P)"
  unfolding getSkillCr_def by (rule valid_getCr) (auto simp: found_def split: option.splits)

lemma read_skills: "valid P listSkillCrs (\<lambda>x s. P s \<and> x = as_skills s) (\<lambda>_. P)"
  unfolding listSkillCrs_def by (rule valid_call) auto

lemma read_selecting:
  "valid P (instancesSelectingRefs refs)
     (\<lambda>users s. P s \<and> (users = [] \<longrightarrow> (\<forall>i\<in>set (as_instances s). \<not> selects refs i))) (\<lambda>_. P)"
proof (cases "refs = []")
  case True
  then show ?thesis by (auto simp: instancesSelectingRefs_def selects_def intro!: valid_return split: option.splits)
next
  case False
  have "valid P (call (\<lambda>s. (Inr (as_instances s), s))) (\<lambda>x s. P s \<and> x = as_instances s) (\<lambda>_. P)"
    by (rule valid_call) auto
  then show ?thesis unfolding instancesSelectingRefs_def if_not_P [OF False]
    by (rule valid_bind) (rule valid_return, auto simp: filter_empty_conv)
qed

text \<open>A write either leaves the store or makes it the patched one; a lost answer gives the same two
  cases.\<close>

lemma write_template:
  assumes "\<And>s t t'. P s \<Longrightarrow> as_template s = Some t \<Longrightarrow> apply_template_ops ops t = Some t' \<Longrightarrow>
      R (t'\<lparr>at_version := Suc (at_version t)\<rparr>) (s\<lparr>as_template := Some (t'\<lparr>at_version := Suc (at_version t)\<rparr>)\<rparr>)"
    and "\<And>e s. P s \<Longrightarrow> E e s" and "\<And>e x s. R x s \<Longrightarrow> E e s"
  shows "valid P (patchAgentTemplateCr ops) R E"
  unfolding patchAgentTemplateCr_def
proof (rule valid_call)
  fix s x assume "P s" "fst (patch_template ops s) = Inr x"
  then show "R x (snd (patch_template ops s))"
    using assms(1) by (auto simp: patch_template_def Let_def split: option.splits)
next
  fix s e assume "P s"
  then show "E e (snd (patch_template ops s))"
    using assms by (force simp: patch_template_def Let_def split: option.splits)
qed (rule assms(2))

lemma write_instance:
  assumes "\<And>s i new. P s \<Longrightarrow> find (\<lambda>i. ai_name i = Some name) (as_instances s) = Some i \<Longrightarrow>
      apply_instance_ops ops i = Some new \<Longrightarrow>
      R new (s\<lparr>as_instances := map (\<lambda>j. if ai_name j = Some name then new else j) (as_instances s)\<rparr>)"
    and "\<And>e s. P s \<Longrightarrow> E e s" and "\<And>e x s. R x s \<Longrightarrow> E e s"
  shows "valid P (patchAgentInstanceCr name ops) R E"
  unfolding patchAgentInstanceCr_def
proof (rule valid_call)
  fix s x assume "P s" "fst (patch_instance name ops s) = Inr x"
  then show "R x (snd (patch_instance name ops s))"
    using assms(1) by (auto simp: patch_instance_def split: option.splits)
next
  fix s e assume "P s"
  then show "E e (snd (patch_instance name ops s))"
    using assms by (force simp: patch_instance_def split: option.splits)
qed (rule assms(2))

lemma write_new_instance:
  assumes "\<And>s. P s \<Longrightarrow> (\<forall>j\<in>set (as_instances s). ai_name j \<noteq> Some (agentInstanceName user)) \<Longrightarrow>
      R (s\<lparr>as_instances := as_instances s @ [new_instance user sel instr]\<rparr>)"
    and "\<And>s. P s \<Longrightarrow> R s"
  shows "valid P (ensureAgentInstance user sel instr) (\<lambda>_. R) (\<lambda>_. R)"
  unfolding ensureAgentInstance_def
proof (rule valid_catch)
  have "valid P (call (create_instance (new_instance user sel instr))) (\<lambda>_. R) (\<lambda>_. R)"
  proof (rule valid_call)
    show "R (snd (create_instance (new_instance user sel instr) s))" if "P s" for s
      using assms that by (auto simp: create_instance_def list_ex_iff new_instance_def)
    then show "R (snd (create_instance (new_instance user sel instr) s))" if "P s" for s using that by blast
  qed (rule assms(2))
  then show "valid P (act_bind (call (create_instance (new_instance user sel instr))) (\<lambda>cr. act_return (cr, False))) (\<lambda>_. R) (\<lambda>_. R)"
    by (rule valid_bind) (intro act_rules)
next
  fix e
  show "valid R (if error_code e \<noteq> Some 409 then act_throw e
      else act_bind (getAgentInstanceCr (agentInstanceName user)) (\<lambda>existing. case owned_by user existing of
        None \<Rightarrow> act_throw InstanceConflict | Some cr \<Rightarrow> act_return (cr, True))) (\<lambda>_. R) (\<lambda>_. R)"
    by (rule valid_if; (rule valid_bind [OF read_instance])?) (intro act_rules; simp)+
qed

text \<open>The credentials are written without touching anything else.\<close>

lemma write_secrets:
  assumes "\<And>s m. P s \<Longrightarrow> P (s\<lparr>as_secrets := m\<rparr>)"
  shows "keeps P (upsertLlmCredential name key)" and "keeps P (deleteLlmCredential name)"
proof -
  have "P (snd (create_secret name key s))" "P (snd (patch_secret name key s))" "P (snd (delete_secret name s))" if "P s" for s
    using that assms by (simp_all add: create_secret_def patch_secret_def delete_secret_def)
  then have c: "valid P (call (create_secret name key)) (\<lambda>_. P) (\<lambda>_. P)" "valid P (call (patch_secret name key)) (\<lambda>_. P) (\<lambda>_. P)"
    "valid P (call (delete_secret name)) (\<lambda>_. P) (\<lambda>_. P)" by (auto intro: valid_call)
  show "keeps P (upsertLlmCredential name key)" unfolding keeps_def upsertLlmCredential_def
    by (rule valid_catch [OF c(1)]) (intro act_rules c(2); simp)
  show "keeps P (deleteLlmCredential name)" unfolding keeps_def deleteLlmCredential_def
    by (rule valid_catch [OF c(3)]) (intro act_rules; simp)
qed

text \<open>A predicate on the rest of the store is kept by what writes the template and the credentials only.\<close>

lemmas reads_keep_all [keeps_rules] =
  keeps_valid [OF read_template] keeps_valid [OF read_instance] keeps_valid [OF read_owned_instance]
  keeps_valid [OF read_skill] keeps_valid [OF read_skills] keeps_valid [OF read_selecting]

lemma template_keeps:
  assumes "\<And>s t. P s \<Longrightarrow> P (s\<lparr>as_template := t\<rparr>)"
  shows "keeps P (patchAgentTemplateCr ops)"
  unfolding keeps_def by (rule write_template) (use assms in auto)

section \<open>Selections\<close>

text \<open>The references that the providers which are not the platform's define, and those of the platform's
  own providers, which follow the gateways.\<close>

definition ext_refs :: "template_provider list \<Rightarrow> string set" where
  "ext_refs ps = (\<Union>p\<in>{p \<in> set ps. \<not> isPlatformProviderName (nullish (p_name p) [])}. set (providerRefs p))"

definition platform_ref :: "string \<Rightarrow> bool" where
  "platform_ref r \<longleftrightarrow> (\<exists>n i. isPlatformProviderName n \<and> r = modelKey n i)"

definition resolves :: "template_provider list \<Rightarrow> agent_instance list \<Rightarrow> bool" where
  "resolves ps is \<longleftrightarrow> (\<forall>i\<in>set is. \<forall>r. selects [r] i \<longrightarrow> r \<in> ext_refs ps \<or> platform_ref r)"

text \<open>Every selection of an instance of the builtin template can be answered.\<close>

definition selections_resolve :: "agent_store \<Rightarrow> bool" where
  "selections_resolve s \<longleftrightarrow> (\<forall>t. as_template s = Some t \<longrightarrow> resolves (nullish (at_providers t) []) (as_instances s))"

lemma selects_iff: "selects refs i \<longleftrightarrow> (\<exists>r\<in>set refs. selects [r] i)"
  by (auto simp: selects_def split: option.splits)

lemma resolves_mono:
  assumes "resolves ps is" and "ext_refs ps \<subseteq> ext_refs qs \<union> set refs" and "\<forall>i\<in>set is. \<not> selects refs i"
  shows "resolves qs is"
  using assms selects_iff unfolding resolves_def by (metis Un_iff subsetD)

lemma ext_refs_append [simp]: "ext_refs (ps @ qs) = ext_refs ps \<union> ext_refs qs"
  by (auto simp: ext_refs_def)

lemma ext_refs_single: "ext_refs [p] = (if isPlatformProviderName (nullish (p_name p) []) then {} else set (providerRefs p))"
  by (auto simp: ext_refs_def)

lemma ext_refs_Nil [simp]: "ext_refs [] = {}"
  by (simp add: ext_refs_def)

lemma ext_refs_split: "i < length ps \<Longrightarrow> ext_refs ps = ext_refs (take i ps) \<union> ext_refs [ps ! i] \<union> ext_refs (drop (Suc i) ps)"
  using id_take_nth_drop [of i ps] ext_refs_append [of "take i ps" "[ps ! i] @ drop (Suc i) ps"]
  by (metis Un_assoc append_Cons append_Nil ext_refs_append)

lemma ext_refs_update:
  "i < length ps \<Longrightarrow> ext_refs (ps[i := p]) = ext_refs (take i ps) \<union> ext_refs [p] \<union> ext_refs (drop (Suc i) ps)"
  using ext_refs_split [of i "ps[i := p]"] by simp

lemma ext_refs_removed: "i < length ps \<Longrightarrow> ext_refs ps \<subseteq> ext_refs (take i ps @ drop (Suc i) ps) \<union> set (providerRefs (ps ! i))"
  using ext_refs_split [of i ps] by (auto simp: ext_refs_single)

lemma on_provider_Some:
  "on_provider i f t = Some t' \<longleftrightarrow>
     (\<exists>ps p. at_providers t = Some ps \<and> i < length ps \<and> f (ps ! i) = Some p \<and> t' = t\<lparr>at_providers := Some (ps[i := p])\<rparr>)"
  by (auto simp: on_provider_def split: option.splits if_splits)

text \<open>A patch all of whose operations edit one provider, as a function on that provider.\<close>

fun local_edit :: "template_op \<Rightarrow> (nat \<times> (template_provider \<Rightarrow> template_provider option)) option" where
  "local_edit (ReplaceEndpoint i e) = Some (i, \<lambda>p. if p_endpoint p = None then None else Some (p\<lparr>p_endpoint := Some e\<rparr>))"
| "local_edit (ReplaceModels i ms) = Some (i, \<lambda>p. if p_models p = None then None else Some (p\<lparr>p_models := Some ms\<rparr>))"
| "local_edit (RemoveCredential i) = Some (i, \<lambda>p. if p_credentialRef p = None then None else Some (p\<lparr>p_credentialRef := None\<rparr>))"
| "local_edit (AddCredential i r) = Some (i, \<lambda>p. Some (p\<lparr>p_credentialRef := Some r\<rparr>))"
| "local_edit (ReplaceProvider i q) = Some (i, \<lambda>p. Some q)"
| "local_edit _ = None"

fun edit_all :: "template_op list \<Rightarrow> template_provider \<Rightarrow> template_provider option" where
  "edit_all [] p = Some p"
| "edit_all (op # ops) p =
     (case local_edit op of
        None \<Rightarrow> None
      | Some (i, f) \<Rightarrow> (case f p of None \<Rightarrow> None | Some q \<Rightarrow> edit_all ops q))"

lemma edit_all_append: "edit_all (xs @ ys) p = (case edit_all xs p of None \<Rightarrow> None | Some q \<Rightarrow> edit_all ys q)"
  by (induction xs arbitrary: p) (auto split: option.splits)

lemma apply_local_op: "local_edit op = Some (i, f) \<Longrightarrow> apply_template_op op t = on_provider i f t"
  by (cases op) auto

lemma apply_local_ops:
  assumes "\<forall>op\<in>set ops. map_option fst (local_edit op) = Some i" and "at_providers t = Some ps" and "i < length ps"
  shows "apply_template_ops ops t = map_option (\<lambda>q. t\<lparr>at_providers := Some (ps[i := q])\<rparr>) (edit_all ops (ps ! i))"
  using assms
proof (induction ops arbitrary: t ps)
  case Nil
  then show ?case by simp
next
  case (Cons op ops)
  then obtain f where f: "local_edit op = Some (i, f)" by auto
  show ?case
  proof (cases "f (ps ! i)")
    case None
    with f Cons.prems show ?thesis by (simp add: apply_local_op [OF f] on_provider_def)
  next
    case (Some q)
    let ?t = "t\<lparr>at_providers := Some (ps[i := q])\<rparr>"
    have "apply_template_ops ops ?t = map_option (\<lambda>r. ?t\<lparr>at_providers := Some ((ps[i := q])[i := r])\<rparr>) (edit_all ops ((ps[i := q]) ! i))"
      using Cons.prems by (intro Cons.IH) auto
    with f Some Cons.prems show ?thesis by (simp add: apply_local_op [OF f] on_provider_def)
  qed
qed

lemma apply_local_Some:
  assumes "apply_template_ops ops t = Some t'" and "\<forall>op\<in>set ops. map_option fst (local_edit op) = Some i"
    and "at_providers t = Some ps" and "i < length ps"
  obtains q where "edit_all ops (ps ! i) = Some q" "t' = t\<lparr>at_providers := Some (ps[i := q])\<rparr>"
  using apply_local_ops [OF assms(2-4)] assms(1) that by (cases "edit_all ops (ps ! i)") auto

text \<open>The platform's entry after the operations for it: current in every part, and the other providers
  untouched.\<close>

lemma platformProviderOps_applied:
  assumes "apply_template_ops (platformProviderOps (at_providers t) name endpoint ms) t = Some t'"
    and "isPlatformProviderName name"
  shows "ext_refs (nullish (at_providers t') []) = ext_refs (nullish (at_providers t) [])" (is ?ext)
    and "\<exists>p\<in>set (nullish (at_providers t') []). p_name p = Some name \<and> p_endpoint p = Some endpoint \<and>
      nullish (p_models p) [] = ms \<and> p_credentialRef p = None" (is ?entry)
proof -
  have "?ext \<and> ?entry"
  proof (cases "find_index (\<lambda>p. p_name p = Some name) (nullish (at_providers t) [])")
    case None
    then show ?thesis using assms
      by (cases "at_providers t") (auto simp: platformProviderOps_def Let_def ext_refs_single split: if_splits)
  next
    case (Some i)
    then obtain ps where ps: "at_providers t = Some ps" "i < length ps" "p_name (ps ! i) = Some name"
      using find_index_SomeD [of _ "nullish (at_providers t) []" i] by (cases "at_providers t") auto
    let ?ops = "platformProviderOps (at_providers t) name endpoint ms"
    have "\<forall>op\<in>set ?ops. map_option fst (local_edit op) = Some i" using ps Some by (auto simp: platformProviderOps_def Let_def)
    from apply_local_Some [OF assms(1) this ps(1,2)] obtain q where "edit_all ?ops (ps ! i) = Some q"
      "t' = t\<lparr>at_providers := Some (ps[i := q])\<rparr>" .
    moreover from this(1) have "p_name q = Some name \<and> p_endpoint q = Some endpoint \<and> nullish (p_models q) [] = ms \<and> p_credentialRef q = None"
      using ps Some by (auto simp: platformProviderOps_def Let_def edit_all_append sameModels_def split: if_splits)
    ultimately have "\<exists>q. t' = t\<lparr>at_providers := Some (ps[i := q])\<rparr> \<and> p_name q = Some name \<and> p_endpoint q = Some endpoint \<and>
        nullish (p_models q) [] = ms \<and> p_credentialRef q = None" by blast
    then obtain q where q: "t' = t\<lparr>at_providers := Some (ps[i := q])\<rparr>" "p_name q = Some name"
        "p_endpoint q = Some endpoint" "nullish (p_models q) [] = ms" "p_credentialRef q = None" by blast
    moreover have "q \<in> set (ps[i := q])" using ps(2) by (rule set_update_memI)
    ultimately show ?thesis
      using assms(2) ps ext_refs_split [of i ps] ext_refs_update [of i ps q] by (auto simp: ext_refs_single)
  qed
  then show ?ext ?entry by blast+
qed

section \<open>Whose instance is written\<close>

lemma apply_instance_ops_frame:
  "apply_instance_ops ops i = Some new \<Longrightarrow> ai_name new = ai_name i \<and> ai_owner new = ai_owner i \<and> ai_templateRef new = ai_templateRef i"
proof (induction ops arbitrary: i)
  case (Cons op ops)
  then obtain j where j: "apply_instance_op op i = Some j" "apply_instance_ops ops j = Some new" by (auto split: option.splits)
  have "ai_name j = ai_name i \<and> ai_owner j = ai_owner i \<and> ai_templateRef j = ai_templateRef i"
  proof (cases op)
    case (AddField f v)
    with j(1) show ?thesis by (cases f) auto
  next
    case (RemoveField f)
    with j(1) show ?thesis by (cases f) (auto split: if_splits)
  qed (use j(1) in auto)
  with Cons.IH [OF j(2)] show ?case by simp
qed simp

text \<open>The names of instances are unique, and those of a user are as given.\<close>

definition instances_of :: "string \<Rightarrow> agent_store \<Rightarrow> agent_instance list" where
  "instances_of user s = filter (\<lambda>i. ai_owner i = Some user) (as_instances s)"

definition holds_instances :: "string \<Rightarrow> agent_instance list \<Rightarrow> agent_store \<Rightarrow> bool" where
  "holds_instances user mine s \<longleftrightarrow> distinct (map ai_name (as_instances s)) \<and> instances_of user s = mine"

lemma holds_instances_frame [simp]:
  "holds_instances user mine (s\<lparr>as_template := t\<rparr>) = holds_instances user mine s"
  "holds_instances user mine (s\<lparr>as_secrets := m\<rparr>) = holds_instances user mine s"
  by (simp_all add: holds_instances_def instances_of_def)

lemma filter_map_same:
  "(\<And>x. x \<in> set xs \<Longrightarrow> (P (f x) \<longleftrightarrow> P x) \<and> (P x \<longrightarrow> f x = x)) \<Longrightarrow> filter P (map f xs) = filter P xs"
  by (induction xs) auto

text \<open>A patch of an instance that was read as another user's leaves the user's instances alone.\<close>

lemma patch_other_user:
  assumes "ai_owner i = Some other" and "other \<noteq> user"
  shows "valid (\<lambda>s. holds_instances user mine s \<and> find (\<lambda>i. ai_name i = Some name) (as_instances s) = Some i)
    (patchAgentInstanceCr name ops) (\<lambda>_. holds_instances user mine) (\<lambda>_. holds_instances user mine)"
proof (rule write_instance)
  fix s j new
  assume s: "holds_instances user mine s \<and> find (\<lambda>i. ai_name i = Some name) (as_instances s) = Some i"
    and j: "find (\<lambda>i. ai_name i = Some name) (as_instances s) = Some j" and new: "apply_instance_ops ops j = Some new"
  let ?f = "\<lambda>j. if ai_name j = Some name then new else j"
  from s j have i: "j = i" "i \<in> set (as_instances s)" "ai_name i = Some name" using find_SomeD [of _ "as_instances s" i] by auto
  have dist: "distinct (map ai_name (as_instances s))" using s by (simp add: holds_instances_def)
  have only: "k = i" if "k \<in> set (as_instances s)" "ai_name k = Some name" for k
    using that i(2,3) dist inj_onD [of ai_name "set (as_instances s)" k i] by (simp add: distinct_map)
  have frame: "ai_name new = ai_name i" "ai_owner new = ai_owner i" using apply_instance_ops_frame [OF new] i(1) by auto
  have "map ai_name (map ?f (as_instances s)) = map ai_name (as_instances s)" using only frame by auto
  moreover have "filter (\<lambda>i. ai_owner i = Some user) (map ?f (as_instances s)) = filter (\<lambda>i. ai_owner i = Some user) (as_instances s)"
    by (rule filter_map_same) (use only frame assms in auto)
  ultimately show "holds_instances user mine (s\<lparr>as_instances := map ?f (as_instances s)\<rparr>)"
    using s dist by (simp add: holds_instances_def instances_of_def del: map_map)
qed auto

lemma create_other_user:
  assumes "other \<noteq> user"
  shows "valid (holds_instances user mine) (ensureAgentInstance other sel ins) (\<lambda>_. holds_instances user mine) (\<lambda>_. holds_instances user mine)"
  by (rule write_new_instance)
    (use assms in \<open>auto simp: holds_instances_def instances_of_def new_instance_def\<close>)

text \<open>A patch that leaves the selection alone keeps every selection answerable.\<close>

definition selects_model :: "instance_op \<Rightarrow> bool" where
  "selects_model op \<longleftrightarrow> (case op of AddField f _ \<Rightarrow> f = SelectedModel | RemoveField f \<Rightarrow> f = SelectedModel | _ \<Rightarrow> False)"

lemma apply_instance_ops_selected:
  "apply_instance_ops ops i = Some new \<Longrightarrow> list_all (\<lambda>op. \<not> selects_model op) ops \<Longrightarrow> ai_selectedModel new = ai_selectedModel i"
proof (induction ops arbitrary: i)
  case (Cons op ops)
  then obtain j where j: "apply_instance_op op i = Some j" "apply_instance_ops ops j = Some new" by (auto split: option.splits)
  have "ai_selectedModel j = ai_selectedModel i"
  proof (cases op)
    case (AddField f v)
    with j(1) Cons.prems(2) show ?thesis by (cases f) (auto simp: selects_model_def)
  next
    case (RemoveField f)
    with j(1) Cons.prems(2) show ?thesis by (cases f) (auto simp: selects_model_def split: if_splits)
  qed (use j(1) in auto)
  with Cons.IH [OF j(2)] Cons.prems(2) show ?case by simp
qed simp

lemma patch_no_selection:
  assumes "list_all (\<lambda>op. \<not> selects_model op) ops"
  shows "valid selections_resolve (patchAgentInstanceCr name ops) (\<lambda>_. selections_resolve) (\<lambda>_. selections_resolve)"
proof (rule write_instance)
  fix s i new
  assume s: "selections_resolve s" "find (\<lambda>i. ai_name i = Some name) (as_instances s) = Some i" "apply_instance_ops ops i = Some new"
  from find_SomeD [OF s(2)] have i: "i \<in> set (as_instances s)" by simp
  have "selects [r] new = selects [r] i" for r
    using apply_instance_ops_selected [OF s(3) assms] apply_instance_ops_frame [OF s(3)] by (simp add: selects_def)
  with s(1) i show "selections_resolve (s\<lparr>as_instances := map (\<lambda>j. if ai_name j = Some name then new else j) (as_instances s)\<rparr>)"
    by (fastforce simp: selections_resolve_def resolves_def)
qed auto

section \<open>A sample store\<close>

definition sample_template :: agent_template where
  "sample_template =
     \<lparr>at_version = 1, at_defaultModel = None,
      at_providers = Some [\<lparr>p_name = Some ''acme'', p_endpoint = Some ''https://a/v1'', p_models = Some [''m''], p_credentialRef = None\<rparr>],
      at_approvalPolicy = None\<rparr>"

definition sample_skill :: "string \<Rightarrow> skill" where
  "sample_skill n =
     \<lparr>sk_name = Some n, sk_displayName = None, sk_description = None, sk_visibility = Some ''Platform'', sk_phase = Some ''Ready''\<rparr>"

definition sample_store :: agent_store where
  "sample_store =
     \<lparr>as_template = Some sample_template, as_instances = [new_instance ''ann'' (Some ''acme/m'') None],
      as_skills = [sample_skill ''gpu'', sample_skill ''logs''], as_secrets = (\<lambda>_. None)\<rparr>"

definition sample_error :: agent_error where
  "sample_error = api_error 500"

lemma sample_error_plain: "plain_error sample_error"
  by (simp add: plain_error_def sample_error_def)

lemma sample_resolves: "selections_resolve sample_store"
proof -
  have "modelKey ''acme'' ''m'' = ''acme/m''" "\<not> isPlatformProviderName ''acme''" by code_simp+
  then have "''acme/m'' \<in> ext_refs (nullish (at_providers sample_template) [])"
    by (simp add: sample_template_def ext_refs_single providerRefs_def)
  then show ?thesis
    by (auto simp: selections_resolve_def resolves_def sample_store_def selects_def new_instance_def or_undef_def)
qed

end
