(* ===== verification/Agent_Llms.thy ===== *)
theory Agent_Llms
  imports Agent_Crd
begin

text \<open>
  External providers of the assistant (\<open>app/api/cubepilot/agent/llms/route.ts\<close> and
  \<open>llms/[name]/route.ts\<close>): adding, editing and removing a provider of the builtin template together with
  the Secret of its key, and undoing the first write when the second fails. \<open>parse_url\<close> is the URL
  constructor. The key and the flag of a request are of their declared types.
\<close>

section \<open>Requests and answers\<close>

text \<open>The model list of a request: absent, something else than a list of texts, or a list of texts.\<close>

datatype raw_models = AbsentModels | MalformedModels | ModelList "string list"

record llm_request =
  lr_name :: "string option"
  lr_endpoint :: "string option"
  lr_models :: raw_models
  lr_apiKey :: "string option"
  lr_public :: "bool option"

datatype llm_warning = NoWarning | LeftInPlace string string | NotRemoved string string

datatype llm_body =
    LlmCluster string
  | LlmBadJson
  | LlmNameRequired
  | LlmBadName name_error
  | LlmNameImmutable
  | LlmBadEndpoint endpoint_error
  | LlmModelsNotList
  | LlmBadModels model_error
  | LlmBadCredential credential_error
  | LlmTemplateMissing
  | LlmExists string
  | LlmMissing string
  | LlmTooMany
  | LlmModelsInUse string "string list" "(string \<times> string) list"
  | LlmInUse string "(string \<times> string) list"
  | LlmProvider template_provider llm_warning
  | LlmDeleted string llm_warning

definition MAX_PROVIDERS :: nat where "MAX_PROVIDERS = 32"

section \<open>Fields\<close>

definition request_endpoint ::
    "(string \<Rightarrow> (string \<times> string) option) \<Rightarrow> llm_request \<Rightarrow> llm_body + string" where
  "request_endpoint parse_url b =
     (case normalizeEndpoint parse_url (Some (nullish (lr_endpoint b) [])) of
        Inl e \<Rightarrow> Inl (LlmBadEndpoint e)
      | Inr endpoint \<Rightarrow> Inr endpoint)"

definition request_models :: "llm_request \<Rightarrow> llm_body + string list" where
  "request_models b =
     (case lr_models b of
        MalformedModels \<Rightarrow> Inl LlmModelsNotList
      | raw \<Rightarrow>
          (let models = normalizeModelIds (map Some (case raw of ModelList ms \<Rightarrow> ms | _ \<Rightarrow> []))
           in case modelIdsError models of Some e \<Rightarrow> Inl (LlmBadModels e) | None \<Rightarrow> Inr models))"

definition request_key :: "llm_request \<Rightarrow> string" where
  "request_key b = trim (nullish (lr_apiKey b) [])"

definition request_public :: "llm_request \<Rightarrow> bool" where
  "request_public b \<longleftrightarrow> lr_public b = Some True"

section \<open>Adding\<close>

text \<open>Best effort: whatever fails here is dropped.\<close>

definition rollbackAddedProvider :: "string \<Rightarrow> nat \<Rightarrow> unit agent_act" where
  "rollbackAddedProvider name version =
     act_catch
       (act_bind getAgentTemplateCr (\<lambda>tmpl.
          case providerIndex (case tmpl of None \<Rightarrow> None | Some t \<Rightarrow> at_providers t) name of
            None \<Rightarrow> act_return ()
          | Some index \<Rightarrow> act_bind (patchAgentTemplateCr [TestVersion version, RemoveProvider index]) (\<lambda>_. act_return ())))
       (\<lambda>_. act_return ())"

definition new_provider :: "string \<Rightarrow> string \<Rightarrow> string list \<Rightarrow> bool \<Rightarrow> template_provider" where
  "new_provider name endpoint models isPublic =
     \<lparr>p_name = Some name, p_endpoint = Some endpoint, p_models = Some models,
      p_credentialRef = (if isPublic then None else Some (Some (llmCredentialName name)))\<rparr>"

definition add_provider :: "string \<Rightarrow> string \<Rightarrow> string list \<Rightarrow> string \<Rightarrow> bool \<Rightarrow> llm_body response agent_act" where
  "add_provider name endpoint models apiKey isPublic =
     act_catch
       (act_bind getAgentTemplateCr (\<lambda>tmpl.
          case tmpl of
            None \<Rightarrow> act_return (answer 503 LlmTemplateMissing)
          | Some t \<Rightarrow>
              (let providers = nullish (at_providers t) []; provider = new_provider name endpoint models isPublic
               in if providerIndex (Some providers) name \<noteq> None then act_return (answer 409 (LlmExists name))
                  else if MAX_PROVIDERS \<le> length providers then act_return (answer 400 LlmTooMany)
                  else act_bind (patchAgentTemplateCr [if providers \<noteq> [] then AppendProvider provider else SetProviders [provider]])
                    (\<lambda>patched. act_bind
                       (if isPublic then act_return ()
                        else act_catch (upsertLlmCredential (llmCredentialName name) apiKey)
                          (\<lambda>e. act_bind (rollbackAddedProvider name (at_version patched)) (\<lambda>_. act_throw e)))
                       (\<lambda>_. act_return (answer 200 (LlmProvider provider NoWarning)))))))
       (\<lambda>e. act_return (k8s_failure LlmCluster e))"

definition llms_POST ::
    "(string \<Rightarrow> (string \<times> string) option) \<Rightarrow> llm_request option \<Rightarrow> llm_body response agent_act" where
  "llms_POST parse_url body =
     (case body of
        None \<Rightarrow> act_return (answer 400 LlmBadJson)
      | Some b \<Rightarrow>
          (let name = sanitizeProviderName (nullish (lr_name b) [])
           in if name = [] then act_return (answer 400 LlmNameRequired)
              else case providerNameError name of
                Some e \<Rightarrow> act_return (answer 400 (LlmBadName e))
              | None \<Rightarrow>
              (case request_endpoint parse_url b of
                Inl e \<Rightarrow> act_return (answer 400 e)
              | Inr endpoint \<Rightarrow>
              (case request_models b of
                Inl e \<Rightarrow> act_return (answer 400 e)
              | Inr models \<Rightarrow>
              (case credentialChoiceError (request_key b) (request_public b) of
                Some e \<Rightarrow> act_return (answer 400 (LlmBadCredential e))
              | None \<Rightarrow> add_provider name endpoint models (request_key b) (request_public b))))))"

section \<open>Editing\<close>

text \<open>The provider's place in the template, or the answer.\<close>

definition locate :: "string \<Rightarrow> (llm_body response + template_provider list \<times> nat) agent_act" where
  "locate name =
     act_bind getAgentTemplateCr (\<lambda>tmpl.
       case tmpl of
         None \<Rightarrow> act_return (Inl (answer 503 LlmTemplateMissing))
       | Some t \<Rightarrow>
           (let providers = nullish (at_providers t) []
            in case providerIndex (Some providers) name of
                 None \<Rightarrow> act_return (Inl (answer 404 (LlmMissing name)))
               | Some index \<Rightarrow> act_return (Inr (providers, index))))"

definition restoreProvider :: "nat \<Rightarrow> template_provider \<Rightarrow> nat \<Rightarrow> unit agent_act" where
  "restoreProvider index previous version =
     act_catch
       (act_bind (patchAgentTemplateCr [TestVersion version, ReplaceProvider index previous]) (\<lambda>_. act_return ()))
       (\<lambda>_. act_return ())"

definition ref_name :: "template_provider \<Rightarrow> string option" where
  "ref_name p = (case p_credentialRef p of None \<Rightarrow> None | Some r \<Rightarrow> r)"

definition edited_ref :: "template_provider \<Rightarrow> string \<Rightarrow> string \<Rightarrow> bool \<Rightarrow> string option option" where
  "edited_ref existing owned apiKey isPublic =
     (if isPublic then None else if apiKey \<noteq> [] then Some (Some owned) else p_credentialRef existing)"

definition edit_ops ::
    "nat \<Rightarrow> template_provider \<Rightarrow> string \<Rightarrow> string list \<Rightarrow> string option option \<Rightarrow> bool \<Rightarrow> template_op list" where
  "edit_ops index existing endpoint models credentialRef isPublic =
     [ReplaceEndpoint index endpoint] @
     (if sameModels (p_models existing) models then [] else [ReplaceModels index models]) @
     (if isPublic then (if p_credentialRef existing \<noteq> None then [RemoveCredential index] else [])
      else case credentialRef of
          Some r \<Rightarrow> (if r \<noteq> ref_name existing then [AddCredential index r] else [])
        | None \<Rightarrow> [])"

text \<open>The Secret after an edit; the warning names one that is not the platform's.\<close>

definition edit_secret :: "template_provider \<Rightarrow> string \<Rightarrow> string \<Rightarrow> bool \<Rightarrow> llm_warning agent_act" where
  "edit_secret existing owned apiKey isPublic =
     act_bind
       (if isPublic \<and> truthy (ref_name existing)
        then (if ref_name existing = Some owned then act_bind (deleteLlmCredential owned) (\<lambda>_. act_return NoWarning)
          else act_return (LeftInPlace (the (ref_name existing)) owned))
        else act_return NoWarning)
       (\<lambda>warning. if \<not> isPublic \<and> apiKey \<noteq> [] then act_bind (upsertLlmCredential owned apiKey) (\<lambda>_. act_return warning)
          else act_return warning)"

definition edit_provider ::
    "string \<Rightarrow> string \<Rightarrow> string list \<Rightarrow> string \<Rightarrow> bool \<Rightarrow> template_provider \<Rightarrow> nat \<Rightarrow> llm_body response agent_act" where
  "edit_provider name endpoint models apiKey isPublic existing index =
     (let owned = llmCredentialName name; credentialRef = edited_ref existing owned apiKey isPublic
      in act_bind (patchAgentTemplateCr (edit_ops index existing endpoint models credentialRef isPublic)) (\<lambda>patched.
           act_bind
             (act_catch (edit_secret existing owned apiKey isPublic)
               (\<lambda>e. act_bind (restoreProvider index existing (at_version patched)) (\<lambda>_. act_throw e)))
             (\<lambda>warning. act_return (answer 200 (LlmProvider
                \<lparr>p_name = Some name, p_endpoint = Some endpoint, p_models = Some models, p_credentialRef = credentialRef\<rparr> warning)))))"

definition change_provider :: "string \<Rightarrow> string \<Rightarrow> string list \<Rightarrow> string \<Rightarrow> bool \<Rightarrow> llm_body response agent_act" where
  "change_provider name endpoint models apiKey isPublic =
     act_catch
       (act_bind (locate name) (\<lambda>located.
          case located of
            Inl response \<Rightarrow> act_return response
          | Inr at_place \<Rightarrow>
              (let existing = fst at_place ! snd at_place;
                   removedIds = filter (\<lambda>i. \<not> List.member models i) (nullish (p_models existing) [])
               in act_bind
                    (if removedIds \<noteq> []
                     then instancesSelectingRefs (providerRefs (existing\<lparr>p_models := Some removedIds\<rparr>))
                     else act_return [])
                    (\<lambda>users. if users \<noteq> [] then act_return (answer 409 (LlmModelsInUse name removedIds users))
                       else edit_provider name endpoint models apiKey isPublic existing (snd at_place)))))
       (\<lambda>e. act_return (k8s_failure LlmCluster e))"

definition llms_PUT ::
    "(string \<Rightarrow> (string \<times> string) option) \<Rightarrow> string \<Rightarrow> llm_request option \<Rightarrow> llm_body response agent_act" where
  "llms_PUT parse_url param body =
     (let name = sanitizeProviderName param
      in case providerNameError name of
           Some e \<Rightarrow> act_return (answer 400 (LlmBadName e))
         | None \<Rightarrow>
         (case body of
            None \<Rightarrow> act_return (answer 400 LlmBadJson)
          | Some b \<Rightarrow>
              (if lr_name b \<noteq> None \<and> sanitizeProviderName (the (lr_name b)) \<noteq> name
               then act_return (answer 400 LlmNameImmutable)
               else case request_endpoint parse_url b of
                 Inl e \<Rightarrow> act_return (answer 400 e)
               | Inr endpoint \<Rightarrow>
               (case request_models b of
                 Inl e \<Rightarrow> act_return (answer 400 e)
               | Inr models \<Rightarrow>
                 (if request_public b \<and> request_key b \<noteq> []
                  then act_return (answer 400 (LlmBadCredential ExclusiveChoice))
                  else change_provider name endpoint models (request_key b) (request_public b))))))"

section \<open>Removing\<close>

definition removed_secret :: "template_provider \<Rightarrow> string \<Rightarrow> llm_warning agent_act" where
  "removed_secret existing owned =
     (if truthy (ref_name existing) \<and> ref_name existing \<noteq> Some owned
      then act_return (LeftInPlace (the (ref_name existing)) owned)
      else if truthy (ref_name existing)
      then act_catch (act_bind (deleteLlmCredential owned) (\<lambda>_. act_return NoWarning))
        (\<lambda>e. act_return (NotRemoved owned (case e of K8s k \<Rightarrow> e_message k | InstanceConflict \<Rightarrow> [])))
      else act_return NoWarning)"

definition llms_DELETE :: "string \<Rightarrow> llm_body response agent_act" where
  "llms_DELETE param =
     (let name = sanitizeProviderName param
      in act_catch
           (act_bind (locate name) (\<lambda>located.
              case located of
                Inl response \<Rightarrow> act_return response
              | Inr at_place \<Rightarrow>
                  (let existing = fst at_place ! snd at_place
                   in act_bind (instancesSelectingRefs (providerRefs existing)) (\<lambda>users.
                        if users \<noteq> [] then act_return (answer 409 (LlmInUse name users))
                        else act_bind (patchAgentTemplateCr [RemoveProvider (snd at_place)]) (\<lambda>_.
                          act_bind (removed_secret existing (llmCredentialName name)) (\<lambda>warning.
                            act_return (answer 200 (LlmDeleted name warning))))))))
           (\<lambda>e. act_return (k8s_failure LlmCluster e)))"

section \<open>Selections stay answerable\<close>

lemma selections_resolve_frame:
  assumes "selections_resolve s" and "as_template s' = Some t'" and "as_template s = Some t"
    and "as_instances s' = as_instances s"
    and "ext_refs (nullish (at_providers t) []) \<subseteq> ext_refs (nullish (at_providers t') []) \<union> set refs"
    and "\<forall>i\<in>set (as_instances s). \<not> selects refs i"
  shows "selections_resolve s'"
  using assms resolves_mono unfolding selections_resolve_def by (metis option.inject)

lemma selects_Nil [simp]: "\<not> selects [] i"
  by (simp add: selects_def split: option.splits)

lemma providerIndex_append:
  "providerIndex (Some ps) name = None \<Longrightarrow> p_name p = Some name \<Longrightarrow> providerIndex (Some (ps @ [p])) name = Some (length ps)"
  by (simp add: providerIndex_def find_index_append)

text \<open>The store after the provider was added: the one before resolves without it.\<close>

definition provider_added :: "template_provider \<Rightarrow> agent_template \<Rightarrow> agent_store \<Rightarrow> bool" where
  "provider_added p t s \<longleftrightarrow>
     as_template s = Some t \<and>
     (\<exists>ps. at_providers t = Some (ps @ [p]) \<and> resolves ps (as_instances s) \<and> providerIndex (Some ps) (the (p_name p)) = None)"

lemma provider_added_resolves: "provider_added p t s \<Longrightarrow> selections_resolve s"
  using resolves_mono [where refs = "[]"] by (fastforce simp: provider_added_def selections_resolve_def)

lemma rollback_keeps:
  assumes "p_name p = Some name"
  shows "valid (provider_added p t) (rollbackAddedProvider name v) (\<lambda>_. selections_resolve) (\<lambda>_. selections_resolve)"
  unfolding rollbackAddedProvider_def
proof (rule valid_catch [where F = "\<lambda>_. selections_resolve"], rule valid_bind)
  show "valid (provider_added p t) getAgentTemplateCr
      (\<lambda>x s. provider_added p t s \<and> (\<forall>u. x = Some u \<longrightarrow> as_template s = Some u)) (\<lambda>_. selections_resolve)"
    by (rule valid_post [OF read_template]) (auto intro: provider_added_resolves)
next
  fix tmpl
  show "valid (\<lambda>s. provider_added p t s \<and> (\<forall>u. tmpl = Some u \<longrightarrow> as_template s = Some u))
      (case providerIndex (case tmpl of None \<Rightarrow> None | Some t \<Rightarrow> at_providers t) name of None \<Rightarrow> act_return ()
       | Some index \<Rightarrow> act_bind (patchAgentTemplateCr [TestVersion v, RemoveProvider index]) (\<lambda>_. act_return ()))
      (\<lambda>_. selections_resolve) (\<lambda>_. selections_resolve)"
  proof (rule valid_option)
    fix index
    assume index: "providerIndex (case tmpl of None \<Rightarrow> None | Some t \<Rightarrow> at_providers t) name = Some index"
    show "valid (\<lambda>s. provider_added p t s \<and> (\<forall>u. tmpl = Some u \<longrightarrow> as_template s = Some u))
      (act_bind (patchAgentTemplateCr [TestVersion v, RemoveProvider index]) (\<lambda>_. act_return ()))
      (\<lambda>_. selections_resolve) (\<lambda>_. selections_resolve)"
    proof (rule valid_bind [where R = "\<lambda>_. selections_resolve"], rule write_template)
      fix s u u'
      assume s: "provider_added p t s \<and> (\<forall>u. tmpl = Some u \<longrightarrow> as_template s = Some u)" "as_template s = Some u"
        and u': "apply_template_ops [TestVersion v, RemoveProvider index] u = Some u'"
      then obtain ps where ps: "at_providers u = Some (ps @ [p])" "resolves ps (as_instances s)" "providerIndex (Some ps) name = None"
        using assms by (auto simp: provider_added_def)
      have "tmpl = Some u" using index s by (cases tmpl) (auto simp: providerIndex_def)
      then have "index = length ps" using index ps providerIndex_append [OF ps(3) assms] by simp
      then have "at_providers u' = Some ps" using u' ps(1) by (auto split: if_splits)
      with ps(2) show "selections_resolve (s\<lparr>as_template := Some (u'\<lparr>at_version := Suc (at_version u)\<rparr>)\<rparr>)"
        by (simp add: selections_resolve_def)
    qed (auto intro: provider_added_resolves act_rules)
  qed (auto intro: provider_added_resolves act_rules)
qed (rule valid_return)

lemma add_provider_keeps: "keeps selections_resolve (add_provider name endpoint models apiKey isPublic)"
  unfolding add_provider_def keeps_def
proof (rule valid_catch [where F = "\<lambda>_. selections_resolve"], rule valid_bind [OF read_template])
  fix tmpl
  let ?p = "new_provider name endpoint models isPublic"
  have name: "p_name ?p = Some name" by (simp add: new_provider_def)
  show "valid (\<lambda>s. selections_resolve s \<and> (\<forall>t. tmpl = Some t \<longrightarrow> as_template s = Some t))
      (case tmpl of None \<Rightarrow> act_return (answer 503 LlmTemplateMissing)
       | Some t \<Rightarrow>
           (let providers = nullish (at_providers t) []; provider = ?p
            in if providerIndex (Some providers) name \<noteq> None then act_return (answer 409 (LlmExists name))
               else if MAX_PROVIDERS \<le> length providers then act_return (answer 400 LlmTooMany)
               else act_bind (patchAgentTemplateCr [if providers \<noteq> [] then AppendProvider provider else SetProviders [provider]])
                 (\<lambda>patched. act_bind
                    (if isPublic then act_return ()
                     else act_catch (upsertLlmCredential (llmCredentialName name) apiKey)
                       (\<lambda>e. act_bind (rollbackAddedProvider name (at_version patched)) (\<lambda>_. act_throw e)))
                    (\<lambda>_. act_return (answer 200 (LlmProvider provider NoWarning))))))
      (\<lambda>_. selections_resolve) (\<lambda>_. selections_resolve)"
    unfolding Let_def
  proof (intro valid_option valid_if, goal_cases)
    case (4 t)
    show ?case
    proof (rule valid_bind [where R = "provider_added ?p"], rule write_template)
      fix s u u'
      assume s: "selections_resolve s \<and> (\<forall>t. tmpl = Some t \<longrightarrow> as_template s = Some t)" "as_template s = Some u"
        and u': "apply_template_ops [if nullish (at_providers t) [] \<noteq> [] then AppendProvider ?p else SetProviders [?p]] u = Some u'"
      then have "u = t" using 4(1) by simp
      moreover have "resolves (nullish (at_providers u) []) (as_instances s)" using s by (simp add: selections_resolve_def)
      ultimately show "provider_added ?p (u'\<lparr>at_version := Suc (at_version u)\<rparr>)
          (s\<lparr>as_template := Some (u'\<lparr>at_version := Suc (at_version u)\<rparr>)\<rparr>)"
        using u' 4(2) name by (cases "at_providers t") (auto simp: provider_added_def split: if_splits)
    next
      fix patched
      have "valid (provider_added ?p patched) (upsertLlmCredential (llmCredentialName name) apiKey)
          (\<lambda>_. provider_added ?p patched) (\<lambda>_. provider_added ?p patched)"
        using write_secrets(1) [of "provider_added ?p patched"] by (simp add: keeps_def provider_added_def)
      then have "valid (provider_added ?p patched) (act_catch (upsertLlmCredential (llmCredentialName name) apiKey)
          (\<lambda>e. act_bind (rollbackAddedProvider name (at_version patched)) (\<lambda>_. act_throw e)))
          (\<lambda>_. selections_resolve) (\<lambda>_. selections_resolve)"
        by (rule valid_catch [OF valid_post, where F = "\<lambda>_. provider_added ?p patched"])
          (auto intro: provider_added_resolves valid_bind [OF rollback_keeps [OF name]] act_rules)
      then show "valid (provider_added ?p patched) (act_bind
          (if isPublic then act_return ()
           else act_catch (upsertLlmCredential (llmCredentialName name) apiKey)
             (\<lambda>e. act_bind (rollbackAddedProvider name (at_version patched)) (\<lambda>_. act_throw e)))
          (\<lambda>_. act_return (answer 200 (LlmProvider ?p NoWarning)))) (\<lambda>_. selections_resolve) (\<lambda>_. selections_resolve)"
        by (intro valid_bind [where R = "\<lambda>_. selections_resolve"]) (auto intro: provider_added_resolves act_rules)
    qed (auto intro: provider_added_resolves)
  qed (auto intro: act_rules)
qed (rule valid_return)

definition located_at :: "string \<Rightarrow> template_provider list \<times> nat \<Rightarrow> agent_store \<Rightarrow> bool" where
  "located_at name place s \<longleftrightarrow>
     (\<exists>t. as_template s = Some t \<and> at_providers t = Some (fst place)) \<and> snd place < length (fst place) \<and>
     p_name (fst place ! snd place) = Some name"

lemma locate_valid:
  "valid P (locate name) (\<lambda>x s. P s \<and> (\<forall>place. x = Inr place \<longrightarrow> located_at name place s)) (\<lambda>_. P)"
  unfolding locate_def Let_def
proof (rule valid_bind [OF read_template], intro act_rules, goal_cases)
  case (3 tmpl t i s)
  then have "find_index (\<lambda>p. p_name p = Some name) (nullish (at_providers t) []) = Some i" by (simp add: providerIndex_def)
  with find_index_SomeD [OF this] 3 show ?case by (cases "at_providers t") (auto simp: located_at_def)
qed auto

lemma edit_ops_applied:
  assumes "apply_template_ops (edit_ops i (ps ! i) endpoint models (edited_ref (ps ! i) owned key isPublic) isPublic) t = Some t'"
    and "at_providers t = Some ps" and "i < length ps"
  shows "\<exists>q. t' = t\<lparr>at_providers := Some (ps[i := q])\<rparr> \<and> p_name q = p_name (ps ! i) \<and> p_endpoint q = Some endpoint \<and>
    nullish (p_models q) [] = models \<and> (isPublic \<longrightarrow> p_credentialRef q = None) \<and> (\<not> isPublic \<and> key \<noteq> [] \<longrightarrow> ref_name q = Some owned)"
proof -
  let ?ops = "edit_ops i (ps ! i) endpoint models (edited_ref (ps ! i) owned key isPublic) isPublic"
  have "\<forall>op\<in>set ?ops. map_option fst (local_edit op) = Some i"
    by (auto simp: edit_ops_def split: option.splits)
  from apply_local_Some [OF assms(1) this assms(2,3)] obtain q where q: "edit_all ?ops (ps ! i) = Some q"
    "t' = t\<lparr>at_providers := Some (ps[i := q])\<rparr>" .
  from q(1) have "p_name q = p_name (ps ! i) \<and> p_endpoint q = Some endpoint \<and> nullish (p_models q) [] = models \<and>
      (isPublic \<longrightarrow> p_credentialRef q = None) \<and> (\<not> isPublic \<and> key \<noteq> [] \<longrightarrow> ref_name q = Some owned)"
    by (auto simp: edit_ops_def edit_all_append sameModels_def edited_ref_def ref_name_def split: if_splits option.splits)
  with q(2) show ?thesis by auto
qed

text \<open>An edit loses only the references of the model ids it drops.\<close>

lemma ext_refs_edit:
  assumes "i < length ps" and "p_name q = p_name (ps ! i)"
  shows "ext_refs ps \<subseteq> ext_refs (ps[i := q]) \<union>
    set (providerRefs ((ps ! i)\<lparr>p_models := Some (filter (\<lambda>m. \<not> List.member (nullish (p_models q) []) m) (nullish (p_models (ps ! i)) []))\<rparr>))"
  using ext_refs_split [OF assms(1)] ext_refs_update [OF assms(1), of q] assms(2)
  by (auto simp: ext_refs_single providerRefs_def)

text \<open>The store after an edit: it resolves, and would with the provider as it was.\<close>

definition provider_edited :: "template_provider \<Rightarrow> nat \<Rightarrow> agent_template \<Rightarrow> agent_store \<Rightarrow> bool" where
  "provider_edited previous i t s \<longleftrightarrow>
     as_template s = Some t \<and>
     (\<exists>ps. at_providers t = Some ps \<and> i < length ps \<and> resolves ps (as_instances s) \<and>
        resolves (ps[i := previous]) (as_instances s))"

lemma provider_edited_resolves: "provider_edited p i t s \<Longrightarrow> selections_resolve s"
  by (auto simp: provider_edited_def selections_resolve_def)

lemma restore_keeps:
  "valid (provider_edited p i t) (restoreProvider i p v) (\<lambda>_. selections_resolve) (\<lambda>_. selections_resolve)"
  unfolding restoreProvider_def
proof (rule valid_catch [where F = "\<lambda>_. selections_resolve"], rule valid_bind [where R = "\<lambda>_. selections_resolve"], rule write_template)
  fix s u u'
  assume "provider_edited p i t s" "as_template s = Some u"
    "apply_template_ops [TestVersion v, ReplaceProvider i p] u = Some u'"
  then show "selections_resolve (s\<lparr>as_template := Some (u'\<lparr>at_version := Suc (at_version u)\<rparr>)\<rparr>)"
    by (auto simp: provider_edited_def selections_resolve_def on_provider_Some split: if_splits option.splits)
qed (auto intro: provider_edited_resolves act_rules)

lemma edit_secret_keeps:
  "valid (provider_edited p i t) (edit_secret existing owned key pub) (\<lambda>_. provider_edited p i t) (\<lambda>_. provider_edited p i t)"
proof -
  have w: "valid (provider_edited p i t) (upsertLlmCredential owned key) (\<lambda>_. provider_edited p i t) (\<lambda>_. provider_edited p i t)"
    "valid (provider_edited p i t) (deleteLlmCredential owned) (\<lambda>_. provider_edited p i t) (\<lambda>_. provider_edited p i t)"
    using write_secrets [of "provider_edited p i t"] by (simp_all add: keeps_def provider_edited_def)
  show ?thesis unfolding edit_secret_def
    by (rule valid_bind [where R = "\<lambda>_. provider_edited p i t"]; intro act_rules; (rule valid_bind [OF w(1)] valid_bind [OF w(2)])?)
      (auto intro: act_rules)
qed

lemma edit_provider_keeps:
  "valid (\<lambda>s. selections_resolve s \<and> located_at name place s \<and>
      (\<forall>j\<in>set (as_instances s). \<not> selects (providerRefs ((fst place ! snd place)\<lparr>p_models :=
         Some (filter (\<lambda>m. \<not> List.member models m) (nullish (p_models (fst place ! snd place)) []))\<rparr>)) j))
    (edit_provider name endpoint models apiKey isPublic (fst place ! snd place) (snd place))
    (\<lambda>_. selections_resolve) (\<lambda>_. selections_resolve)"
  unfolding edit_provider_def Let_def
proof (rule valid_bind [where R = "provider_edited (fst place ! snd place) (snd place)"], rule write_template)
  fix s u u'
  let ?ps = "fst place" and ?i = "snd place"
  assume s: "selections_resolve s \<and> located_at name place s \<and>
      (\<forall>j\<in>set (as_instances s). \<not> selects (providerRefs ((?ps ! ?i)\<lparr>p_models :=
         Some (filter (\<lambda>m. \<not> List.member models m) (nullish (p_models (?ps ! ?i)) []))\<rparr>)) j)" and u: "as_template s = Some u"
    and u': "apply_template_ops (edit_ops ?i (?ps ! ?i) endpoint models
      (edited_ref (?ps ! ?i) (llmCredentialName name) apiKey isPublic) isPublic) u = Some u'"
  from s u have ps: "at_providers u = Some ?ps" "?i < length ?ps" by (auto simp: located_at_def)
  from edit_ops_applied [OF u' ps] obtain q where "u' = u\<lparr>at_providers := Some (?ps[?i := q])\<rparr>" "p_name q = p_name (?ps ! ?i)"
    "nullish (p_models q) [] = models" by blast
  then have q: "at_providers u' = Some (?ps[?i := q])" "p_name q = p_name (?ps ! ?i)" "nullish (p_models q) [] = models"
    by simp_all
  have old: "resolves ?ps (as_instances s)" using s u ps by (simp add: selections_resolve_def)
  then have "resolves (?ps[?i := q]) (as_instances s)"
    using resolves_mono [OF old ext_refs_edit [OF ps(2) q(2), unfolded q(3)]] s by blast
  with old ps q(1) show "provider_edited (?ps ! ?i) ?i (u'\<lparr>at_version := Suc (at_version u)\<rparr>)
      (s\<lparr>as_template := Some (u'\<lparr>at_version := Suc (at_version u)\<rparr>)\<rparr>)"
    by (simp add: provider_edited_def)
next
  fix patched
  show "valid (provider_edited (fst place ! snd place) (snd place) patched)
    (act_bind (act_catch (edit_secret (fst place ! snd place) (llmCredentialName name) apiKey isPublic)
        (\<lambda>e. act_bind (restoreProvider (snd place) (fst place ! snd place) (at_version patched)) (\<lambda>_. act_throw e)))
      (\<lambda>warning. act_return (answer 200 (LlmProvider \<lparr>p_name = Some name, p_endpoint = Some endpoint, p_models = Some models,
          p_credentialRef = edited_ref (fst place ! snd place) (llmCredentialName name) apiKey isPublic\<rparr> warning))))
    (\<lambda>_. selections_resolve) (\<lambda>_. selections_resolve)"
    by (rule valid_bind [where R = "\<lambda>_. selections_resolve"], rule valid_catch [OF valid_post [OF edit_secret_keeps],
        where F = "\<lambda>_. provider_edited (fst place ! snd place) (snd place) patched"])
      (auto intro: provider_edited_resolves valid_bind [OF restore_keeps] act_rules)
qed (auto intro: provider_edited_resolves)

lemma change_provider_keeps: "keeps selections_resolve (change_provider name endpoint models apiKey isPublic)"
  unfolding change_provider_def keeps_def
proof (rule valid_catch [where F = "\<lambda>_. selections_resolve"], rule valid_bind [OF locate_valid], rule valid_sum)
  fix located :: "llm_body response + template_provider list \<times> nat" and place :: "template_provider list \<times> nat"
  let ?existing = "fst place ! snd place"
  let ?removed = "filter (\<lambda>m. \<not> List.member models m) (nullish (p_models ?existing) [])"
  assume located: "located = Inr place"
  let ?P = "\<lambda>s. selections_resolve s \<and> (\<forall>place. located = Inr place \<longrightarrow> located_at name place s)"
  have sel: "valid ?P (if ?removed \<noteq> [] then instancesSelectingRefs (providerRefs (?existing\<lparr>p_models := Some ?removed\<rparr>)) else act_return [])
      (\<lambda>users s. ?P s \<and> (users = [] \<longrightarrow> (\<forall>j\<in>set (as_instances s). \<not> selects (providerRefs (?existing\<lparr>p_models := Some ?removed\<rparr>)) j)))
      (\<lambda>_. selections_resolve)"
    by (intro valid_if valid_post [OF read_selecting] valid_return) (auto simp: providerRefs_def)
  show "valid ?P
      (let existing = ?existing; removedIds = filter (\<lambda>i. \<not> List.member models i) (nullish (p_models existing) [])
       in act_bind (if removedIds \<noteq> [] then instancesSelectingRefs (providerRefs (existing\<lparr>p_models := Some removedIds\<rparr>)) else act_return [])
         (\<lambda>users. if users \<noteq> [] then act_return (answer 409 (LlmModelsInUse name removedIds users))
            else edit_provider name endpoint models apiKey isPublic existing (snd place)))
      (\<lambda>_. selections_resolve) (\<lambda>_. selections_resolve)"
    unfolding Let_def
    by (rule valid_bind [OF sel], rule valid_if, rule valid_return, simp, rule valid_pre [OF edit_provider_keeps])
      (simp add: located)
qed (auto intro: act_rules)

lemma llms_DELETE_keeps: "keeps selections_resolve (llms_DELETE param)"
  unfolding llms_DELETE_def Let_def keeps_def
proof (rule valid_catch [where F = "\<lambda>_. selections_resolve"], rule valid_bind [OF locate_valid], rule valid_sum)
  fix located :: "llm_body response + template_provider list \<times> nat" and place :: "template_provider list \<times> nat"
  let ?name = "sanitizeProviderName param"
  let ?existing = "fst place ! snd place"
  assume located: "located = Inr place"
  let ?P = "\<lambda>s. selections_resolve s \<and> (\<forall>place. located = Inr place \<longrightarrow> located_at ?name place s)"
  have secret: "valid selections_resolve (removed_secret ?existing owned) (\<lambda>_. selections_resolve) (\<lambda>_. selections_resolve)" for owned
  proof -
    have "valid selections_resolve (deleteLlmCredential owned) (\<lambda>_. selections_resolve) (\<lambda>_. selections_resolve)"
      using write_secrets(2) [of selections_resolve] by (simp add: keeps_def selections_resolve_def)
    then have "valid selections_resolve (act_bind (deleteLlmCredential owned) (\<lambda>_. act_return NoWarning))
        (\<lambda>_. selections_resolve) (\<lambda>_. selections_resolve)" by (rule valid_bind) (rule valid_return)
    then show ?thesis unfolding removed_secret_def by (intro valid_if valid_return valid_catch)
  qed
  show "valid ?P (act_bind (instancesSelectingRefs (providerRefs ?existing)) (\<lambda>users.
        if users \<noteq> [] then act_return (answer 409 (LlmInUse ?name users))
        else act_bind (patchAgentTemplateCr [RemoveProvider (snd place)]) (\<lambda>_.
          act_bind (removed_secret ?existing (llmCredentialName ?name)) (\<lambda>warning. act_return (answer 200 (LlmDeleted ?name warning))))))
      (\<lambda>_. selections_resolve) (\<lambda>_. selections_resolve)"
  proof (rule valid_bind [OF valid_post [OF read_selecting]], assumption, simp, rule valid_if, rule valid_return, simp, rule valid_bind)
    fix users :: "(string \<times> string) list"
    assume users: "\<not> users \<noteq> []"
    show "valid (\<lambda>s. ?P s \<and> (users = [] \<longrightarrow> (\<forall>i\<in>set (as_instances s). \<not> selects (providerRefs ?existing) i)))
        (patchAgentTemplateCr [RemoveProvider (snd place)]) (\<lambda>_. selections_resolve) (\<lambda>_. selections_resolve)"
    proof (rule write_template)
      fix s u u'
      assume s: "?P s \<and> (users = [] \<longrightarrow> (\<forall>i\<in>set (as_instances s). \<not> selects (providerRefs ?existing) i))"
        and u: "as_template s = Some u" and u': "apply_template_ops [RemoveProvider (snd place)] u = Some u'"
      then have ps: "at_providers u = Some (fst place)" "snd place < length (fst place)" by (auto simp: located located_at_def)
      then have "at_providers u' = Some (take (snd place) (fst place) @ drop (Suc (snd place)) (fst place))" using u' by auto
      moreover have "resolves (take (snd place) (fst place) @ drop (Suc (snd place)) (fst place)) (as_instances s)"
        using s u ps users by (intro resolves_mono [OF _ ext_refs_removed]) (auto simp: selections_resolve_def)
      ultimately show "selections_resolve (s\<lparr>as_template := Some (u'\<lparr>at_version := Suc (at_version u)\<rparr>)\<rparr>)"
        by (simp add: selections_resolve_def)
    qed auto
  qed (auto intro: act_rules valid_bind [OF secret])
qed (auto intro: act_rules)

lemma llms_POST_keeps: "keeps selections_resolve (llms_POST parse_url body)"
  unfolding llms_POST_def Let_def keeps_def
  by (intro valid_option valid_sum valid_if valid_return add_provider_keeps [unfolded keeps_def])

lemma llms_PUT_keeps: "keeps selections_resolve (llms_PUT parse_url param body)"
  unfolding llms_PUT_def Let_def keeps_def
  by (intro valid_option valid_sum valid_if valid_return change_provider_keeps [unfolded keeps_def])

text \<open>None of the three writes anything but the template and the Secrets.\<close>

lemma llms_write_no_instance:
  assumes "\<And>s t. P s \<Longrightarrow> P (s\<lparr>as_template := t\<rparr>)" and "\<And>s m. P s \<Longrightarrow> P (s\<lparr>as_secrets := m\<rparr>)"
  shows "keeps P (llms_POST parse_url body)" "keeps P (llms_PUT parse_url param body)" "keeps P (llms_DELETE param)"
proof -
  note w = template_keeps [where P = P, OF assms(1)] write_secrets [where P = P, OF assms(2)]
  show "keeps P (llms_POST parse_url body)"
    unfolding llms_POST_def add_provider_def rollbackAddedProvider_def Let_def by (intro keeps_rules w)
  show "keeps P (llms_PUT parse_url param body)"
    unfolding llms_PUT_def change_provider_def locate_def edit_provider_def edit_secret_def restoreProvider_def Let_def
    by (intro keeps_rules w)
  show "keeps P (llms_DELETE param)"
    unfolding llms_DELETE_def locate_def removed_secret_def Let_def by (intro keeps_rules w)
qed

section \<open>All or nothing\<close>

text \<open>Nothing but the version of the template has changed (and an absent provider list may be empty).\<close>

definition unchanged :: "agent_store \<Rightarrow> agent_store \<Rightarrow> bool" where
  "unchanged s s' \<longleftrightarrow>
     providers_of s' = providers_of s \<and>
     (\<exists>v ps. s' = s\<lparr>as_template := map_option (\<lambda>t. t\<lparr>at_providers := ps t, at_version := v t\<rparr>) (as_template s)\<rparr>)"

lemma unchanged_refl [simp]: "unchanged s s"
proof -
  have "s = s\<lparr>as_template := map_option (\<lambda>t. t\<lparr>at_providers := at_providers t, at_version := at_version t\<rparr>) (as_template s)\<rparr>"
    by (simp add: option.map_ident)
  then show ?thesis unfolding unchanged_def by blast
qed

lemma unchangedI:
  assumes "as_template s = Some t" and "s' = s\<lparr>as_template := Some (t\<lparr>at_providers := qs, at_version := v\<rparr>)\<rparr>"
    and "nullish qs [] = nullish (at_providers t) []"
  shows "unchanged s s'"
proof -
  have "s' = s\<lparr>as_template := map_option (\<lambda>t. t\<lparr>at_providers := qs, at_version := v\<rparr>) (as_template s)\<rparr>"
    using assms by simp
  with assms show ?thesis unfolding unchanged_def providers_of_def by auto
qed

lemma run_rollback:
  assumes "as_template s = Some t" and "at_providers t = Some (ps @ [p])" and "providerIndex (Some ps) name = None"
    and "p_name p = Some name"
  shows "rollbackAddedProvider name (at_version t) (s, []) =
    (Inr (), s\<lparr>as_template := Some (t\<lparr>at_providers := Some ps, at_version := Suc (at_version t)\<rparr>)\<rparr>, [])"
  using assms providerIndex_append [OF assms(3,4)]
  by (simp add: rollbackAddedProvider_def run_act run_getTemplate run_patchTemplate)

text \<open>What an added provider comes with.\<close>

definition provider_in_place :: "template_provider \<Rightarrow> string \<Rightarrow> agent_store \<Rightarrow> bool" where
  "provider_in_place p key s \<longleftrightarrow>
     p \<in> set (providers_of s) \<and>
     (p_credentialRef p = None \<or> (\<exists>secret. p_credentialRef p = Some (Some secret) \<and> as_secrets s secret = Some key))"

definition added :: "string \<Rightarrow> string \<Rightarrow> agent_store \<Rightarrow> agent_store \<Rightarrow> bool" where
  "added name key s s' \<longleftrightarrow>
     (\<exists>p. p_name p = Some name \<and> providers_of s' = providers_of s @ [p] \<and> provider_in_place p key s')"

lemma add_provider_atomic:
  assumes e: "plain_error e" and t: "as_template s = Some t"
  shows "\<exists>r s' fs. add_provider name endpoint models key isPublic (s, one_refused n e) = (Inr r, s', fs) \<and>
    (if res_status r = Status 200 then added name key s s' else unchanged s s')"
proof -
  let ?ps = "nullish (at_providers t) []" and ?p = "new_provider name endpoint models isPublic"
  let ?ops = "[if ?ps \<noteq> [] then AppendProvider ?p else SetProviders [?p]]"
  note run = add_provider_def run_act k8s_failure_def answer_def
  have p: "p_name ?p = Some name" by (simp add: new_provider_def)
  have ops: "apply_template_ops ?ops t = Some (t\<lparr>at_providers := Some (?ps @ [?p])\<rparr>)"
    by (cases "at_providers t") auto
  have fail: "res_status (k8s_failure LlmCluster x) \<noteq> Status 200" for x by (rule k8s_failure_not_ok)
  consider (first) "n = 0" | (present) m where "n = Suc m" "providerIndex (Some ?ps) name \<noteq> None \<or> MAX_PROVIDERS \<le> length ?ps"
    | (second) "n = 1" "providerIndex (Some ?ps) name = None" "\<not> MAX_PROVIDERS \<le> length ?ps"
    | (later) m where "n = Suc (Suc m)" "providerIndex (Some ?ps) name = None" "\<not> MAX_PROVIDERS \<le> length ?ps"
    by (cases n rule: nat.exhaust; cases "n - 1") auto
  then show ?thesis
  proof cases
    case first
    with e t fail show ?thesis by (simp add: add_provider_def run_act run_getTemplate)
  next
    case (present m)
    with t show ?thesis by (auto simp: add_provider_def run_act run_getTemplate Let_def answer_def)
  next
    case second
    with t fail show ?thesis
      by (simp add: add_provider_def run_act run_getTemplate Let_def run_patchTemplate_refused)
  next
    case (later m)
    let ?t = "t\<lparr>at_providers := Some (?ps @ [?p]), at_version := Suc (at_version t)\<rparr>"
    let ?s = "s\<lparr>as_template := Some ?t\<rparr>"
    have start: "add_provider name endpoint models key isPublic (s, one_refused n e) =
        act_catch (\<lambda>st. act_bind
          (if isPublic then act_return () else act_catch (upsertLlmCredential (llmCredentialName name) key)
             (\<lambda>e. act_bind (rollbackAddedProvider name (at_version ?t)) (\<lambda>_. act_throw e)))
          (\<lambda>_. act_return (answer 200 (LlmProvider ?p NoWarning))) st) (\<lambda>e. act_return (k8s_failure LlmCluster e)) (?s, one_refused m e)"
      using later t ops by (simp add: add_provider_def run_act run_getTemplate Let_def run_patchTemplate(2) [OF t ops])
    show ?thesis
    proof (cases isPublic)
      case True
      then have "add_provider name endpoint models key isPublic (s, one_refused n e) =
          (Inr (answer 200 (LlmProvider ?p NoWarning)), ?s, one_refused m e)"
        unfolding start by (simp add: run_act)
      moreover have "added name key s ?s"
        using p t True by (auto simp: added_def provider_in_place_def providers_of_def new_provider_def)
      ultimately show ?thesis by (simp add: answer_def)
    next
      case False
      from e show ?thesis
      proof (cases rule: run_upsert [where name = "llmCredentialName name" and key = key and s = ?s and n = m])
        case (written k)
        let ?s' = "?s\<lparr>as_secrets := (as_secrets ?s)(llmCredentialName name \<mapsto> key)\<rparr>"
        have "add_provider name endpoint models key isPublic (s, one_refused n e) =
            (Inr (answer 200 (LlmProvider ?p NoWarning)), ?s', one_refused k e)"
          unfolding start using False written by (simp add: run_act)
        moreover have "added name key s ?s'"
          using p t False by (auto simp: added_def provider_in_place_def providers_of_def new_provider_def)
        ultimately show ?thesis by (simp add: answer_def)
      next
        case failed
        have "rollbackAddedProvider name (at_version ?t) (?s, []) =
            (Inr (), ?s\<lparr>as_template := Some (?t\<lparr>at_providers := Some ?ps, at_version := Suc (at_version ?t)\<rparr>)\<rparr>, [])"
          using later(2) p by (intro run_rollback) auto
        then have "add_provider name endpoint models key isPublic (s, one_refused n e) =
            (Inr (k8s_failure LlmCluster e), s\<lparr>as_template := Some (t\<lparr>at_providers := Some ?ps, at_version := Suc (Suc (at_version t))\<rparr>)\<rparr>, [])"
          unfolding start using False failed by (simp add: run_act)
        moreover have "unchanged s (s\<lparr>as_template := Some (t\<lparr>at_providers := Some ?ps, at_version := Suc (Suc (at_version t))\<rparr>)\<rparr>)"
          by (rule unchangedI [OF t refl]) simp
        ultimately show ?thesis using fail by simp
      qed
    qed
  qed
qed

text \<open>What an edited provider comes with.\<close>

definition changed :: "string \<Rightarrow> string \<Rightarrow> string list \<Rightarrow> string \<Rightarrow> bool \<Rightarrow> agent_store \<Rightarrow> agent_store \<Rightarrow> bool" where
  "changed name endpoint models key isPublic s s' \<longleftrightarrow>
     (\<exists>i q. i < length (providers_of s) \<and> p_name (providers_of s ! i) = Some name \<and>
        providers_of s' = (providers_of s)[i := q] \<and> p_name q = Some name \<and> p_endpoint q = Some endpoint \<and>
        nullish (p_models q) [] = models \<and>
        (isPublic \<longrightarrow> p_credentialRef q = None \<and>
           (ref_name (providers_of s ! i) = Some (llmCredentialName name) \<longrightarrow> as_secrets s' (llmCredentialName name) = None)) \<and>
        (\<not> isPublic \<and> key \<noteq> [] \<longrightarrow> ref_name q = Some (llmCredentialName name) \<and>
           as_secrets s' (llmCredentialName name) = Some key))"

lemma run_edit_secret:
  assumes "plain_error e"
  obtains (written) m k w where "edit_secret existing owned key isPublic (s, one_refused n e) = (Inr w, s\<lparr>as_secrets := k\<rparr>, one_refused m e)"
      "isPublic \<and> owned \<noteq> [] \<and> ref_name existing = Some owned \<longrightarrow> k owned = None" "\<not> isPublic \<and> key \<noteq> [] \<longrightarrow> k owned = Some key"
  | (failed) "edit_secret existing owned key isPublic (s, one_refused n e) = (Inl e, s, [])"
proof -
  have same: "s\<lparr>as_secrets := as_secrets s\<rparr> = s" by simp
  consider (remove) "isPublic" "truthy (ref_name existing)" "ref_name existing = Some owned"
    | (store) "\<not> isPublic" "key \<noteq> []"
    | (idle) "\<not> (isPublic \<and> truthy (ref_name existing) \<and> ref_name existing = Some owned)" "isPublic \<or> key = []" by blast
  then show thesis
  proof cases
    case remove
    from assms show thesis
    proof (cases rule: run_delete [where name = owned and s = s and n = n])
      case (written m)
      with remove that(1) show thesis by (simp add: edit_secret_def run_act)
    next
      case failed
      with remove that(2) show thesis by (simp add: edit_secret_def run_act)
    qed
  next
    case store
    from assms show thesis
    proof (cases rule: run_upsert [where name = owned and key = key and s = s and n = n])
      case (written m)
      with store that(1) show thesis by (simp add: edit_secret_def run_act)
    next
      case failed
      with store that(2) show thesis by (simp add: edit_secret_def run_act)
    qed
  next
    case idle
    then have "\<exists>w. edit_secret existing owned key isPublic (s, one_refused n e) = (Inr w, s\<lparr>as_secrets := as_secrets s\<rparr>, one_refused n e)"
      unfolding same edit_secret_def
      by (cases isPublic; cases "truthy (ref_name existing)"; cases "ref_name existing = Some owned") (simp_all add: run_act)
    then obtain w where w: "edit_secret existing owned key isPublic (s, one_refused n e) =
        (Inr w, s\<lparr>as_secrets := as_secrets s\<rparr>, one_refused n e)" ..
    show thesis
    proof (rule that(1) [OF w])
      show "isPublic \<and> owned \<noteq> [] \<and> ref_name existing = Some owned \<longrightarrow> as_secrets s owned = None"
        using idle(1) by (auto simp: truthy_def)
      show "\<not> isPublic \<and> key \<noteq> [] \<longrightarrow> as_secrets s owned = Some key" using idle(2) by blast
    qed
  qed
qed

lemma edit_provider_atomic:
  assumes e: "plain_error e" and t: "as_template s = Some t" "at_providers t = Some ps" "i < length ps" "p_name (ps ! i) = Some name"
  shows "(\<exists>r s' fs. edit_provider name endpoint models key isPublic (ps ! i) i (s, one_refused n e) = (Inr r, s', fs) \<and>
      res_status r = Status 200 \<and> changed name endpoint models key isPublic s s') \<or>
    (\<exists>x s' fs. edit_provider name endpoint models key isPublic (ps ! i) i (s, one_refused n e) = (Inl x, s', fs) \<and> unchanged s s')"
proof -
  let ?owned = "llmCredentialName name"
  let ?ops = "edit_ops i (ps ! i) endpoint models (edited_ref (ps ! i) ?owned key isPublic) isPublic"
  consider (first) "n = 0" | (rejected) m where "n = Suc m" "apply_template_ops ?ops t = None"
    | (applied) m t' where "n = Suc m" "apply_template_ops ?ops t = Some t'"
    by (cases n; cases "apply_template_ops ?ops t") auto
  then show ?thesis
  proof cases
    case first
    then show ?thesis by (simp add: edit_provider_def run_act Let_def run_patchTemplate_refused)
  next
    case (rejected m)
    then show ?thesis using t by (simp add: edit_provider_def run_act Let_def patchAgentTemplateCr_def patch_template_def)
  next
    case (applied m t')
    from edit_ops_applied [OF applied(2) t(2,3)] obtain q where q: "t' = t\<lparr>at_providers := Some (ps[i := q])\<rparr>"
      "p_name q = Some name" "p_endpoint q = Some endpoint" "nullish (p_models q) [] = models"
      "isPublic \<longrightarrow> p_credentialRef q = None" "\<not> isPublic \<and> key \<noteq> [] \<longrightarrow> ref_name q = Some ?owned"
      using t(4) by auto
    let ?t = "t'\<lparr>at_version := Suc (at_version t)\<rparr>"
    let ?s = "s\<lparr>as_template := Some ?t\<rparr>"
    note patch = run_patchTemplate(2) [OF t(1) applied(2)]
    from e show ?thesis
    proof (cases rule: run_edit_secret [where existing = "ps ! i" and owned = ?owned and key = key and isPublic = isPublic and s = ?s and n = m])
      case (written k m' w)
      have "?owned \<noteq> []" by (simp add: llmCredentialName_def)
      with written q t have "changed name endpoint models key isPublic s (?s\<lparr>as_secrets := m'\<rparr>)"
        unfolding changed_def by (intro exI [of _ i] exI [of _ q]) (auto simp: providers_of_def)
      then show ?thesis using written(1) applied(1) patch
        by (intro disjI1) (simp add: edit_provider_def run_act Let_def answer_def)
    next
      case failed
      have "apply_template_ops [TestVersion (at_version ?t), ReplaceProvider i (ps ! i)] ?t = Some (t\<lparr>at_providers := Some ps, at_version := Suc (at_version t)\<rparr>)"
        using t(3) q(1) by (simp add: on_provider_def)
      then have "restoreProvider i (ps ! i) (at_version ?t) (?s, []) =
          (Inr (), s\<lparr>as_template := Some (t\<lparr>at_providers := Some ps, at_version := Suc (Suc (at_version t))\<rparr>)\<rparr>, [])"
        unfolding restoreProvider_def by (simp add: run_act run_patchTemplate(1) [of ?s ?t])
      then have "edit_provider name endpoint models key isPublic (ps ! i) i (s, one_refused n e) =
          (Inl e, s\<lparr>as_template := Some (t\<lparr>at_providers := Some ps, at_version := Suc (Suc (at_version t))\<rparr>)\<rparr>, [])"
        using failed applied(1) patch by (simp add: edit_provider_def run_act Let_def)
      moreover have "unchanged s (s\<lparr>as_template := Some (t\<lparr>at_providers := Some ps, at_version := Suc (Suc (at_version t))\<rparr>)\<rparr>)"
        by (rule unchangedI [OF t(1) refl]) (simp add: t)
      ultimately show ?thesis by blast
    qed
  qed
qed

lemma run_selecting:
  obtains (read) us m where "instancesSelectingRefs refs (s, one_refused n e) = (Inr us, s, one_refused m e)"
  | (refused) "instancesSelectingRefs refs (s, one_refused n e) = (Inl e, s, [])"
  by (cases n; cases "refs = []") (auto simp: instancesSelectingRefs_def run_act)

text \<open>A request that ends in an answer, with its effect when that is 200 and without one otherwise.\<close>

definition settles :: "'b response agent_act \<Rightarrow> agent_store \<times> agent_error fault list \<Rightarrow> (agent_store \<Rightarrow> bool) \<Rightarrow> bool" where
  "settles m st Q \<longleftrightarrow>
     (\<exists>r s' fs. m st = (Inr r, s', fs) \<and> (if res_status r = Status 200 then Q s' else unchanged (fst st) s'))"

lemma settles_failure: "m (s, fs) = (Inr (k8s_failure f e), s', fs') \<Longrightarrow> unchanged s s' \<Longrightarrow> settles m (s, fs) Q"
  unfolding settles_def by (intro exI) auto

lemma settles_answer: "m (s, fs) = (Inr (answer c b), s, fs') \<Longrightarrow> c \<noteq> 200 \<Longrightarrow> settles m (s, fs) Q"
  unfolding settles_def by (intro exI) (auto simp: answer_def)

lemma settles_refuse: "c \<noteq> 200 \<Longrightarrow> settles (act_return (answer c b)) st Q"
  by (cases st) (simp add: settles_def act_return_def answer_def)

lemma settles_option:
  "(x = None \<Longrightarrow> settles m st Q) \<Longrightarrow> (\<And>y. x = Some y \<Longrightarrow> settles (f y) st Q) \<Longrightarrow>
     settles (case x of None \<Rightarrow> m | Some y \<Rightarrow> f y) st Q"
  by (cases x) simp_all

lemma settles_sum:
  "(\<And>a. x = Inl a \<Longrightarrow> settles (f a) st Q) \<Longrightarrow> (\<And>b. x = Inr b \<Longrightarrow> settles (g b) st Q) \<Longrightarrow>
     settles (case x of Inl a \<Rightarrow> f a | Inr b \<Rightarrow> g b) st Q"
  by (cases x) simp_all

lemma settles_if: "(c \<Longrightarrow> settles m st Q) \<Longrightarrow> (\<not> c \<Longrightarrow> settles n st Q) \<Longrightarrow> settles (if c then m else n) st Q"
  by simp

lemma settles_mono: "settles m st Q \<Longrightarrow> (\<And>s. Q s \<Longrightarrow> R s) \<Longrightarrow> settles m st R"
  unfolding settles_def by metis

lemmas settles_rules = settles_refuse settles_option settles_sum settles_if

lemma change_provider_settles:
  assumes e: "plain_error e" and t: "as_template s = Some t"
  shows "settles (change_provider name endpoint models key isPublic) (s, one_refused n e) (changed name endpoint models key isPublic s)"
proof -
  let ?ps = "nullish (at_providers t) []"
  let ?removed = "\<lambda>i. filter (\<lambda>m. \<not> List.member models m) (nullish (p_models (?ps ! i)) [])"
  let ?refs = "\<lambda>i. providerRefs ((?ps ! i)\<lparr>p_models := Some (?removed i)\<rparr>)"
  let ?read = "\<lambda>i. if ?removed i \<noteq> [] then instancesSelectingRefs (?refs i) else act_return []"
  note run = change_provider_def locate_def run_act run_getTemplate [OF t] Let_def
  consider (first) "n = 0" | (absent) m where "n = Suc m" "providerIndex (Some ?ps) name = None"
    | (located) m i where "n = Suc m" "providerIndex (Some ?ps) name = Some i"
    by (cases n; cases "providerIndex (Some ?ps) name") auto
  then show ?thesis
  proof cases
    case first
    with e show ?thesis by (intro settles_failure [where s' = s]) (simp_all add: run)
  next
    case (absent m)
    then show ?thesis by (intro settles_answer [where c = 404]) (simp_all add: run)
  next
    case (located m i)
    then have i: "i < length ?ps" "p_name (?ps ! i) = Some name"
      using find_index_SomeD [of _ ?ps i] by (auto simp: providerIndex_def)
    then have ps: "at_providers t = Some ?ps" by (cases "at_providers t") auto
    consider (refused) "?read i (s, one_refused m e) = (Inl e, s, [])"
      | (read) us k where "?read i (s, one_refused m e) = (Inr us, s, one_refused k e)"
      by (cases rule: run_selecting [of "?refs i" s m e]; cases "?removed i = []") (auto simp: act_return_def)
    then show ?thesis
    proof cases
      case refused
      with located show ?thesis by (intro settles_failure [where s' = s]) (auto simp: run split: if_splits)
    next
      case (read us k)
      show ?thesis
      proof (cases "us = []")
        case False
        with located read show ?thesis by (intro settles_answer [where c = 409]) (auto simp: run split: if_splits)
      next
        case True
        let ?edit = "edit_provider name endpoint models key isPublic (?ps ! i) i (s, one_refused k e)"
        have run: "change_provider name endpoint models key isPublic (s, one_refused n e) =
            act_catch (edit_provider name endpoint models key isPublic (?ps ! i) i) (\<lambda>e. act_return (k8s_failure LlmCluster e)) (s, one_refused k e)"
          using located read True by (simp add: run split: if_splits)
        from edit_provider_atomic [OF e t ps i, of endpoint models key isPublic k] consider
            (ok) r s' fs where "?edit = (Inr r, s', fs)" "res_status r = Status 200" "changed name endpoint models key isPublic s s'"
          | (failed) x s' fs where "?edit = (Inl x, s', fs)" "unchanged s s'" by blast
        then show ?thesis
        proof cases
          case ok
          then show ?thesis by (simp add: settles_def run act_catch_def)
        next
          case failed
          then show ?thesis by (intro settles_failure) (auto simp: run act_catch_def act_return_def)
        qed
      qed
    qed
  qed
qed

lemma add_provider_settles:
  assumes "plain_error e" and "as_template s = Some t"
  shows "settles (add_provider name endpoint models key isPublic) (s, one_refused n e) (added name key s)"
  unfolding settles_def fst_conv by (rule add_provider_atomic [OF assms])

section \<open>Properties\<close>



definition sample_llm :: llm_request where
  "sample_llm = \<lparr>lr_name = Some ''beta'', lr_endpoint = Some ''https://b/v1'', lr_models = ModelList [''x''], lr_apiKey = Some ''key'', lr_public = None\<rparr>"



end
