(* ===== verification/Agent_Config.thy ===== *)
theory Agent_Config
  imports Agent_Crd
begin

text \<open>
  The caller's selections (\<open>app/api/cubepilot/agent/config/route.ts\<close>): which model the assistant runs and
  the instructions it is given. A save writes the provider entry of the Gateway that serves the selection
  into the shared template first, then the caller's instance. \<open>catalogs\<close> is the answer of
  \<open>gatewayCatalogs\<close> during the request (theory \<open>Gateway\<close>).
\<close>

section \<open>The platform's entries\<close>

record platform_entry =
  pe_name :: string
  pe_endpoint :: string
  pe_models :: "string list"

definition platformEntries :: "env \<Rightarrow> (gateway_base \<times> gateway_model list) list \<Rightarrow> platform_entry list" where
  "platformEntries env catalogs =
     concat (map (\<lambda>(base, models).
       if models \<noteq> []
       then [\<lparr>pe_name = platformProviderNameOf env base, pe_endpoint = gatewayOpenAiBaseOf base,
              pe_models = map gm_id models\<rparr>]
       else []) catalogs)"

definition servedModels :: "platform_entry list \<Rightarrow> string list" where
  "servedModels es = first_by (\<lambda>i. i) (\<lambda>_. True) {} (concat (map pe_models es))"

section \<open>The view\<close>

record agent_config =
  cf_exists :: bool
  cf_selectedModel :: string
  cf_userInstructions :: string
  cf_providers :: "provider_option list"
  cf_gatewayModels :: "string list"
  cf_gatewayProviders :: "platform_entry list"
  cf_templateMissing :: bool

definition configFromCr :: "agent_instance option \<Rightarrow> agent_template option \<Rightarrow> platform_entry list \<Rightarrow> agent_config" where
  "configFromCr cr tmpl es =
     \<lparr>cf_exists = (cr \<noteq> None),
      cf_selectedModel = (case cr of None \<Rightarrow> [] | Some i \<Rightarrow> nullish (ai_selectedModel i) []),
      cf_userInstructions = (case cr of None \<Rightarrow> [] | Some i \<Rightarrow> nullish (ai_userInstructions i) []),
      cf_providers = templateProviders tmpl, cf_gatewayModels = servedModels es,
      cf_gatewayProviders = es, cf_templateMissing = (tmpl = None)\<rparr>"

datatype config_body =
    ConfigCluster string
  | ConfigBadJson
  | ModelNotText
  | InstructionsNotText
  | BadInstructions instructions_error
  | ConfigTemplateMissing
  | GatewayUnavailable string "string list"
  | UnknownModel string "string list"
  | NameTaken
  | NameConflict
  | ConfigView agent_config

definition config_GET ::
    "env \<Rightarrow> (gateway_base \<times> gateway_model list) list \<Rightarrow> string \<Rightarrow> config_body response agent_act" where
  "config_GET env catalogs user =
     act_catch
       (act_bind (act_both (getOwnedAgentInstanceCr user) getAgentTemplateCr) (\<lambda>(cr, tmpl).
          act_return (answer 200 (ConfigView (configFromCr cr tmpl (platformEntries env catalogs))))))
       (\<lambda>e. act_return (k8s_failure ConfigCluster e))"

section \<open>The selection of a save\<close>

text \<open>The references that can be selected, in the order they are offered.\<close>

definition selectable :: "template_provider list \<Rightarrow> platform_entry list \<Rightarrow> string list" where
  "selectable providers es =
     first_by (\<lambda>r. r) (\<lambda>_. True) {}
       (concat (map providerRefs (filter (\<lambda>p. \<not> isPlatformProviderName (nullish (p_name p) [])) providers)) @
        concat (map (\<lambda>e. map (modelKey (pe_name e)) (pe_models e)) es))"

definition requestedRef :: "platform_entry list \<Rightarrow> string \<Rightarrow> string" where
  "requestedRef es requested =
     (if requested = [] then []
      else case find (\<lambda>e. List.member (pe_models e) requested) es of
          Some serving \<Rightarrow> modelKey (pe_name serving) requested
        | None \<Rightarrow> (if str_includes requested ''/'' then requested else modelKey PLATFORM_MODEL_NAME requested))"

text \<open>Why a reference cannot be selected.\<close>

definition refusal :: "template_provider list \<Rightarrow> platform_entry list \<Rightarrow> string \<Rightarrow> config_body response option" where
  "refusal providers es requested =
     (let ref = requestedRef es requested; options = selectable providers es;
          refProvider = (case find_index ((=) CHR ''/'') ref of None \<Rightarrow> [] | Some i \<Rightarrow> take i ref)
      in if ref \<noteq> [] \<and> \<not> List.member options ref
         then Some (if isPlatformProviderName refProvider \<and> \<not> list_ex (\<lambda>e. pe_name e = refProvider) es
            then answer 503 (GatewayUnavailable requested options) else answer 400 (UnknownModel requested options))
         else None)"

text \<open>The default of a first save that selects nothing; an entry has a model (\<open>platformEntries\<close>).\<close>

definition derived :: "template_provider list \<Rightarrow> platform_entry list \<Rightarrow> string option \<Rightarrow> agent_instance option \<Rightarrow> string" where
  "derived providers es selected existing =
     (if selected = None \<and> existing = None
      then (case es of
          e # _ \<Rightarrow> modelKey (pe_name e) (nullish (nth_opt (pe_models e) 0) [])
        | [] \<Rightarrow> nullish (nth_opt (selectable providers es) 0) [])
      else [])"

definition target :: "platform_entry list \<Rightarrow> string \<Rightarrow> string \<Rightarrow> platform_entry option" where
  "target es ref derived_ref =
     (case find (\<lambda>e. startsWith ref (pe_name e @ ''/'')) es of
        Some e \<Rightarrow> Some e
      | None \<Rightarrow> find (\<lambda>e. derived_ref \<noteq> [] \<and> startsWith derived_ref (pe_name e @ ''/'')) es)"

definition config_template_ops ::
    "agent_template \<Rightarrow> platform_entry list \<Rightarrow> string \<Rightarrow> string \<Rightarrow> template_op list" where
  "config_template_ops tmpl es ref derived_ref =
     (let selectedModel = (if ref \<noteq> [] then ref else derived_ref)
      in (case target es ref derived_ref of
            None \<Rightarrow> []
          | Some e \<Rightarrow> platformProviderOps (at_providers tmpl) (pe_name e) (pe_endpoint e) (pe_models e)) @
         (if selectedModel = [] \<or> at_defaultModel tmpl = Some selectedModel \<or> (ref = [] \<and> es = []) then []
          else [AddDefaultModel selectedModel]))"

definition clearOrAdd :: "string option \<Rightarrow> instance_field \<Rightarrow> string option \<Rightarrow> instance_op list" where
  "clearOrAdd v path current =
     (case v of
        None \<Rightarrow> []
      | Some w \<Rightarrow> (if w \<noteq> [] then [AddField path w] else if current \<noteq> None then [RemoveField path] else []))"

section \<open>A save\<close>

text \<open>The caller's instance, once the template is written.\<close>

definition save_instance ::
    "platform_entry list \<Rightarrow> string \<Rightarrow> string option \<Rightarrow> string option \<Rightarrow> string \<Rightarrow> agent_instance option \<Rightarrow>
     agent_template \<Rightarrow> config_body response agent_act" where
  "save_instance es user selected instructions selectedModel existing updatedTmpl =
     (case existing of
        None \<Rightarrow>
          act_bind (ensureAgentInstance user (Some selectedModel) instructions) (\<lambda>(cr, existed).
            act_return (answer 200 (ConfigView (configFromCr (Some cr) (Some updatedTmpl) es))))
      | Some i \<Rightarrow>
          (if ai_owner i \<noteq> Some user then act_return (answer 409 NameTaken)
           else
             (let ops = clearOrAdd (map_option (\<lambda>_. selectedModel) selected) SelectedModel (ai_selectedModel i) @
                    clearOrAdd instructions UserInstructions (ai_userInstructions i)
              in act_bind (if ops \<noteq> [] then patchAgentInstanceCr (agentInstanceName user) ops else act_return i) (\<lambda>cr.
                   act_return (answer 200 (ConfigView (configFromCr (Some cr) (Some updatedTmpl) es)))))))"

definition save_selection ::
    "platform_entry list \<Rightarrow> string \<Rightarrow> string option \<Rightarrow> string option \<Rightarrow> agent_instance option \<Rightarrow>
     agent_template \<Rightarrow> config_body response agent_act" where
  "save_selection es user selected instructions existing tmpl =
     (let providers = nullish (at_providers tmpl) []; requested = nullish selected []
      in case refusal providers es requested of
           Some r \<Rightarrow> act_return r
         | None \<Rightarrow>
             (let ref = requestedRef es requested; default_ref = derived providers es selected existing;
                  ops = config_template_ops tmpl es ref default_ref
              in act_bind (if ops \<noteq> [] then patchAgentTemplateCr ops else act_return tmpl)
                   (save_instance es user selected instructions (if ref \<noteq> [] then ref else default_ref) existing)))"

definition save_config ::
    "env \<Rightarrow> (gateway_base \<times> gateway_model list) list \<Rightarrow> string \<Rightarrow> string option \<Rightarrow> string option \<Rightarrow>
     config_body response agent_act" where
  "save_config env catalogs user selected instructions =
     act_catch
       (act_bind (act_both (getAgentInstanceCr (agentInstanceName user)) getAgentTemplateCr) (\<lambda>(existing, tmpl).
          case tmpl of
            None \<Rightarrow> act_return (answer 503 ConfigTemplateMissing)
          | Some t \<Rightarrow> save_selection (platformEntries env catalogs) user selected instructions existing t))
       (\<lambda>e. act_return (if e = InstanceConflict then answer 409 NameConflict else k8s_failure ConfigCluster e))"

record config_request =
  cr_selectedModel :: "raw_text option"
  cr_userInstructions :: "raw_text option"

definition config_PUT ::
    "env \<Rightarrow> (gateway_base \<times> gateway_model list) list \<Rightarrow> string \<Rightarrow> config_request option option \<Rightarrow>
     config_body response agent_act" where
  "config_PUT env catalogs user body =
     (case body of
        None \<Rightarrow> act_return (answer 400 ConfigBadJson)
      | Some config \<Rightarrow>
          (let patch = nullish config \<lparr>cr_selectedModel = None, cr_userInstructions = None\<rparr>
           in if cr_selectedModel patch = Some NotText then act_return (answer 400 ModelNotText)
              else if cr_userInstructions patch = Some NotText then act_return (answer 400 InstructionsNotText)
              else case (case sent_text (cr_userInstructions patch) of None \<Rightarrow> None | Some v \<Rightarrow> validateInstructions v) of
                  Some reason \<Rightarrow> act_return (answer 400 (BadInstructions reason))
                | None \<Rightarrow>
                    save_config env catalogs user (sent_text (cr_selectedModel patch)) (sent_text (cr_userInstructions patch))))"

section \<open>What can be selected\<close>

lemma platformProviderNameOf_platform: "isPlatformProviderName (platformProviderNameOf env b)"
  by (simp add: platformProviderNameOf_def isPlatformProviderName_def Let_def)

definition platform_entry_ok :: "platform_entry \<Rightarrow> bool" where
  "platform_entry_ok e \<longleftrightarrow> isPlatformProviderName (pe_name e) \<and> pe_models e \<noteq> []"

lemma platformEntries_ok: "list_all platform_entry_ok (platformEntries env catalogs)"
  by (auto simp: platformEntries_def platform_entry_ok_def list_all_iff platformProviderNameOf_platform split: if_splits)

definition entry_refs :: "platform_entry list \<Rightarrow> string set" where
  "entry_refs es = (\<Union>e\<in>set es. modelKey (pe_name e) ` set (pe_models e))"

lemma set_first_by_id: "set (first_by (\<lambda>r. r) (\<lambda>_. True) {} xs) = set xs"
  using first_by_keys [where key = "\<lambda>r. r" and keep = "\<lambda>_. True" and seen = "{}" and xs = xs] by simp

lemma set_selectable: "set (selectable ps es) = ext_refs ps \<union> entry_refs es"
  by (simp add: selectable_def set_first_by_id ext_refs_def entry_refs_def)

lemma entry_refs_platform: "list_all platform_entry_ok es \<Longrightarrow> r \<in> entry_refs es \<Longrightarrow> platform_ref r"
  by (auto simp: entry_refs_def platform_ref_def platform_entry_ok_def list_all_iff)

text \<open>What a save selects, when it selects something, is one of the references offered.\<close>

lemma selected_offered:
  assumes "refusal ps es (nullish selected []) = None" and "list_all platform_entry_ok es"
    and "ref = requestedRef es (nullish selected [])"
    and "r = (if ref \<noteq> [] then ref else derived ps es selected existing)" and "r \<noteq> []"
  shows "r \<in> ext_refs ps \<union> entry_refs es"
proof (cases "ref = []")
  case False
  with assms show ?thesis by (auto simp: refusal_def Let_def set_selectable [symmetric] split: if_splits)
next
  case True
  then have r: "r = derived ps es selected existing" using assms(4) by simp
  show ?thesis
  proof (cases es)
    case Nil
    then have "r \<in> set (selectable ps es)" using r assms(5)
      by (cases "selectable ps es") (auto simp: derived_def nth_opt_def split: if_splits)
    then show ?thesis by (simp add: set_selectable)
  next
    case (Cons e rest)
    with assms(2) obtain i rest_ids where "pe_models e = i # rest_ids" by (cases "pe_models e") (auto simp: platform_entry_ok_def)
    with Cons r assms(5) show ?thesis by (auto simp: derived_def nth_opt_def entry_refs_def split: if_splits)
  qed
qed

section \<open>A save keeps the selections answerable\<close>

lemma apply_template_ops_append:
  "apply_template_ops (xs @ ys) t = (case apply_template_ops xs t of None \<Rightarrow> None | Some u \<Rightarrow> apply_template_ops ys u)"
  by (induction xs arbitrary: t) (auto split: option.splits)

lemma target_in: "target es ref d = Some e \<Longrightarrow> e \<in> set es"
  unfolding target_def by (auto dest!: find_SomeD split: option.splits)

lemma config_ops_ext_refs:
  assumes "apply_template_ops (config_template_ops t es ref d) t = Some t'" and "list_all platform_entry_ok es"
  shows "ext_refs (nullish (at_providers t') []) = ext_refs (nullish (at_providers t) [])"
proof -
  let ?ops = "case target es ref d of None \<Rightarrow> []
    | Some e \<Rightarrow> platformProviderOps (at_providers t) (pe_name e) (pe_endpoint e) (pe_models e)"
  from assms(1) obtain u where u: "apply_template_ops ?ops t = Some u" "at_providers t' = at_providers u"
    by (auto simp: config_template_ops_def Let_def apply_template_ops_append split: option.splits if_splits)
  show ?thesis
  proof (cases "target es ref d")
    case None
    with u show ?thesis by simp
  next
    case (Some e)
    then have "isPlatformProviderName (pe_name e)" using target_in assms(2) by (auto simp: list_all_iff platform_entry_ok_def)
    with platformProviderOps_applied(1) [of t "pe_name e"] u Some show ?thesis by simp
  qed
qed

text \<open>The store during a save: what the template offers beside the platform's entries is what was read.\<close>

definition saving :: "agent_template \<Rightarrow> agent_store \<Rightarrow> bool" where
  "saving t s \<longleftrightarrow> selections_resolve s \<and>
     (\<exists>u. as_template s = Some u \<and> ext_refs (nullish (at_providers u) []) = ext_refs (nullish (at_providers t) []))"

lemma saving_resolves: "saving t s \<Longrightarrow> selections_resolve s"
  by (simp add: saving_def)

lemma saving_instances:
  assumes "saving t s"
    and "\<And>i r. i \<in> set new \<Longrightarrow> selects [r] i \<Longrightarrow>
      (\<exists>j\<in>set (as_instances s). selects [r] j) \<or> r \<in> ext_refs (nullish (at_providers t) []) \<or> platform_ref r"
  shows "selections_resolve (s\<lparr>as_instances := new\<rparr>)"
proof -
  from assms(1) obtain u where u: "as_template s = Some u" "resolves (nullish (at_providers u) []) (as_instances s)"
    "ext_refs (nullish (at_providers u) []) = ext_refs (nullish (at_providers t) [])"
    by (auto simp: saving_def selections_resolve_def)
  then have "resolves (nullish (at_providers u) []) new" using assms(2) unfolding resolves_def by metis
  with u(1) show ?thesis by (simp add: selections_resolve_def)
qed

lemma save_template:
  assumes "list_all platform_entry_ok es"
  shows "valid (\<lambda>s. selections_resolve s \<and> as_template s = Some t)
    (if config_template_ops t es ref d \<noteq> [] then patchAgentTemplateCr (config_template_ops t es ref d) else act_return t)
    (\<lambda>_. saving t) (\<lambda>_. selections_resolve)"
proof (rule valid_if, rule write_template)
  fix s u u'
  assume s: "selections_resolve s \<and> as_template s = Some t" "as_template s = Some u"
    "apply_template_ops (config_template_ops t es ref d) u = Some u'"
  then have "ext_refs (nullish (at_providers u') []) = ext_refs (nullish (at_providers t) [])"
    using config_ops_ext_refs assms by auto
  with s show "saving t (s\<lparr>as_template := Some (u'\<lparr>at_version := Suc (at_version u)\<rparr>)\<rparr>)"
    by (auto simp: saving_def selections_resolve_def resolves_def)
qed (auto intro: act_rules saving_resolves simp: saving_def)

lemma selected_of_ops:
  assumes "apply_instance_ops (clearOrAdd (map_option (\<lambda>_. m) selected) SelectedModel c @ clearOrAdd instructions UserInstructions d) i = Some new"
  shows "ai_templateRef new = ai_templateRef i"
    and "ai_selectedModel new = ai_selectedModel i \<or> ai_selectedModel new = None \<or> ai_selectedModel new = Some m \<and> m \<noteq> []"
  using assms by (auto simp: clearOrAdd_def split: option.splits if_splits)

lemma selects_single:
  "selects [r] i \<longleftrightarrow> ai_selectedModel i = Some r \<and> nullish (ai_templateRef i) DEFAULT_AGENT_NAME = DEFAULT_AGENT_NAME"
  by (auto simp: selects_def split: option.splits)

lemma save_instance_keeps:
  assumes m: "m = [] \<or> m \<in> ext_refs (nullish (at_providers t) []) \<or> platform_ref m"
  shows "valid (saving t) (save_instance es user selected instructions m existing u) (\<lambda>_. selections_resolve) (\<lambda>_. selections_resolve)"
  unfolding save_instance_def Let_def
proof (intro valid_option valid_if)
  have "valid (saving t) (ensureAgentInstance user (Some m) instructions) (\<lambda>_. selections_resolve) (\<lambda>_. selections_resolve)"
  proof (rule write_new_instance)
    fix s
    assume "saving t s"
    then show "selections_resolve (s\<lparr>as_instances := as_instances s @ [new_instance user (Some m) instructions]\<rparr>)"
      by (rule saving_instances) (use m in \<open>auto simp: selects_def new_instance_def or_undef_def split: if_splits\<close>)
  qed (rule saving_resolves)
  then show "valid (saving t) (act_bind (ensureAgentInstance user (Some m) instructions) (\<lambda>(cr, existed).
      act_return (answer 200 (ConfigView (configFromCr (Some cr) (Some u) es))))) (\<lambda>_. selections_resolve) (\<lambda>_. selections_resolve)"
    by (rule valid_bind) (auto intro: act_rules)
next
  fix i :: agent_instance
  let ?ops = "clearOrAdd (map_option (\<lambda>_. m) selected) SelectedModel (ai_selectedModel i) @
    clearOrAdd instructions UserInstructions (ai_userInstructions i)"
  have "valid (saving t) (patchAgentInstanceCr (agentInstanceName user) ?ops) (\<lambda>_. selections_resolve) (\<lambda>_. selections_resolve)"
  proof (rule write_instance)
    fix s j new
    assume s: "saving t s" "find (\<lambda>i. ai_name i = Some (agentInstanceName user)) (as_instances s) = Some j"
      "apply_instance_ops ?ops j = Some new"
    from find_SomeD [OF s(2)] have j: "j \<in> set (as_instances s)" by simp
    show "selections_resolve (s\<lparr>as_instances := map (\<lambda>j. if ai_name j = Some (agentInstanceName user) then new else j) (as_instances s)\<rparr>)"
      using s(1)
    proof (rule saving_instances)
      fix k r
      assume "k \<in> set (map (\<lambda>j. if ai_name j = Some (agentInstanceName user) then new else j) (as_instances s))" "selects [r] k"
      then consider "k \<in> set (as_instances s)" "selects [r] k" | "selects [r] new" by (auto split: if_splits)
      then show "(\<exists>j\<in>set (as_instances s). selects [r] j) \<or> r \<in> ext_refs (nullish (at_providers t) []) \<or> platform_ref r"
        by cases (use selected_of_ops [OF s(3)] j m in \<open>auto simp: selects_single\<close>)
    qed
  qed (auto intro: saving_resolves)
  then show "valid (saving t) (act_bind (if ?ops \<noteq> [] then patchAgentInstanceCr (agentInstanceName user) ?ops else act_return i)
      (\<lambda>cr. act_return (answer 200 (ConfigView (configFromCr (Some cr) (Some u) es))))) (\<lambda>_. selections_resolve) (\<lambda>_. selections_resolve)"
    by (intro valid_bind [where R = "\<lambda>_. selections_resolve"]) (auto intro: act_rules saving_resolves)
qed (auto intro: act_rules saving_resolves)

lemma config_PUT_keeps: "keeps selections_resolve (config_PUT env catalogs user body)"
proof -
  let ?es = "platformEntries env catalogs"
  have sel: "valid (\<lambda>s. selections_resolve s \<and> as_template s = Some t) (save_selection ?es user selected instructions existing t)
      (\<lambda>_. selections_resolve) (\<lambda>_. selections_resolve)" for t selected instructions existing
    unfolding save_selection_def Let_def
    using selected_offered [OF _ platformEntries_ok refl refl] entry_refs_platform [OF platformEntries_ok]
    by (intro valid_option valid_return valid_bind [OF save_template [OF platformEntries_ok]] save_instance_keeps) blast+
  have "keeps selections_resolve (save_config env catalogs user selected instructions)" for selected instructions
    unfolding keeps_def save_config_def
    by (rule valid_catch [where F = "\<lambda>_. selections_resolve"], rule valid_bind_both [OF read_instance read_template])
      (auto intro: act_rules valid_pre [OF sel] intro!: valid_option)
  then show ?thesis unfolding config_PUT_def Let_def keeps_def
    by (intro valid_option valid_if valid_return) auto
qed

lemma config_GET_keeps: "keeps P (config_GET env catalogs user)"
  unfolding config_GET_def by (intro keeps_rules)

text \<open>A save writes no instance but one of the caller's own.\<close>

lemma config_PUT_other_user:
  assumes "other \<noteq> user"
  shows "keeps (holds_instances user mine) (config_PUT env catalogs other body)"
proof -
  let ?P = "holds_instances user mine" and ?name = "agentInstanceName other"
  let ?R = "\<lambda>existing s. ?P s \<and> (\<forall>i. existing = Some i \<longrightarrow> find (\<lambda>i. ai_name i = Some ?name) (as_instances s) = Some i)"
  have inst: "valid (?R existing) (save_instance es other selected instructions m existing u) (\<lambda>_. ?P) (\<lambda>_. ?P)"
    for es selected instructions m existing u
    unfolding save_instance_def Let_def
    by (intro valid_option valid_if; (intro valid_bind [where R = "\<lambda>_. ?P"] valid_if)?)
      (auto intro!: valid_return valid_pre [OF create_other_user [OF assms]] valid_pre [OF patch_other_user [OF _ assms]])
  have patch: "valid (?R existing) (if ops \<noteq> [] then patchAgentTemplateCr ops else act_return t) (\<lambda>_. ?R existing) (\<lambda>_. ?P)" for existing ops t
    by (intro valid_if write_template valid_return) auto
  have sel: "valid (?R existing) (save_selection es other selected instructions existing t) (\<lambda>_. ?P) (\<lambda>_. ?P)"
    for es selected instructions existing t
    unfolding save_selection_def Let_def by (intro valid_option valid_return valid_bind [OF patch inst]) auto
  have "keeps ?P (save_config env catalogs other selected instructions)" for selected instructions
    unfolding keeps_def save_config_def
    by (rule valid_catch [where F = "\<lambda>_. ?P"], rule valid_bind_both [OF read_instance read_template])
      (auto intro!: valid_option valid_return valid_pre [OF sel])
  then show ?thesis unfolding config_PUT_def Let_def by (intro keeps_rules)
qed

section \<open>A saved selection is one the template lists\<close>

text \<open>Each Gateway has an entry of its own, and the reference of each model it serves begins with the
  entry's name.\<close>

definition well_keyed :: "platform_entry list \<Rightarrow> bool" where
  "well_keyed es \<longleftrightarrow>
     distinct (map pe_name es) \<and>
     list_all (\<lambda>e. list_all (\<lambda>i. startsWith (modelKey (pe_name e) i) (pe_name e @ ''/'')) (pe_models e)) es"

lemma platformEntries_label: "e \<in> set (platformEntries env catalogs) \<Longrightarrow> CHR ''/'' \<notin> set (pe_name e)"
proof -
  have "list_all label_char (platformProviderNameOf env b)" for b
    using platform_name_chars suffix_chars by (simp add: platformProviderNameOf_def Let_def)
  moreover have "\<not> label_char CHR ''/''" by code_simp
  ultimately have "CHR ''/'' \<notin> set (platformProviderNameOf env b)" for b by (auto simp: list_all_iff)
  then show "e \<in> set (platformEntries env catalogs) \<Longrightarrow> CHR ''/'' \<notin> set (pe_name e)"
    by (auto simp: platformEntries_def split: if_splits)
qed

lemma slash_prefix_unique:
  assumes "startsWith r (a @ ''/'')" and "startsWith r (b @ ''/'')" and "CHR ''/'' \<notin> set a" and "CHR ''/'' \<notin> set b"
  shows "a = b"
proof -
  have w: "takeWhile ((\<noteq>) CHR ''/'') (c @ CHR ''/'' # zs) = c" if "CHR ''/'' \<notin> set c" for c zs
    using that by (induction c) auto
  have "takeWhile ((\<noteq>) CHR ''/'') r = c" if "startsWith r (c @ ''/'')" "CHR ''/'' \<notin> set c" for c
    using that w by (auto simp: prefix_def)
  with assms show ?thesis by metis
qed

lemma op_default: "apply_template_op op t = Some u \<Longrightarrow> (\<And>m. op \<noteq> AddDefaultModel m) \<Longrightarrow> at_defaultModel u = at_defaultModel t"
  by (cases op) (auto simp: on_provider_Some split: option.splits if_splits)

lemma ops_default:
  "apply_template_ops ops t = Some u \<Longrightarrow> (\<And>m. AddDefaultModel m \<notin> set ops) \<Longrightarrow> at_defaultModel u = at_defaultModel t"
  by (induction ops arbitrary: t) (auto dest!: op_default split: option.splits)

lemma platform_ops_default: "AddDefaultModel m \<notin> set (platformProviderOps ps name endpoint ms)"
  by (auto simp: platformProviderOps_def Let_def split: option.splits)

lemma selection_in_template:
  assumes applied: "apply_template_ops (config_template_ops t es ref d) t = Some t'"
    and ok: "list_all platform_entry_ok es" "well_keyed es" "\<And>e. e \<in> set es \<Longrightarrow> CHR ''/'' \<notin> set (pe_name e)"
    and ref: "ref \<in> ext_refs (nullish (at_providers t) []) \<union> entry_refs es" "ref \<noteq> []"
  shows "\<exists>p\<in>set (nullish (at_providers t') []). ref \<in> set (providerRefs p)" and "at_defaultModel t' = Some ref"
proof -
  let ?ops = "case target es ref d of None \<Rightarrow> []
    | Some e \<Rightarrow> platformProviderOps (at_providers t) (pe_name e) (pe_endpoint e) (pe_models e)"
  from applied ref(2) obtain u where u: "apply_template_ops ?ops t = Some u" "at_providers t' = at_providers u"
      "at_defaultModel t' = (if at_defaultModel t = Some ref then at_defaultModel u else Some ref)"
    by (auto simp: config_template_ops_def Let_def apply_template_ops_append split: option.splits if_splits)
  have "at_defaultModel u = at_defaultModel t"
    using u(1) by (rule ops_default) (auto simp: platform_ops_default split: option.splits)
  with u(3) show "at_defaultModel t' = Some ref" by simp
  from ref(1) show "\<exists>p\<in>set (nullish (at_providers t') []). ref \<in> set (providerRefs p)"
  proof
    assume "ref \<in> ext_refs (nullish (at_providers t) [])"
    then have "ref \<in> ext_refs (nullish (at_providers t') [])" by (simp add: config_ops_ext_refs [OF applied ok(1)])
    then show ?thesis by (auto simp: ext_refs_def)
  next
    assume "ref \<in> entry_refs es"
    then obtain e i where e: "e \<in> set es" "i \<in> set (pe_models e)" "ref = modelKey (pe_name e) i" by (auto simp: entry_refs_def)
    then have pre: "startsWith ref (pe_name e @ ''/'')" using ok(2) by (auto simp: well_keyed_def list_all_iff)
    then have "find (\<lambda>e. startsWith ref (pe_name e @ ''/'')) es \<noteq> None" using e(1) by (auto simp: find_None_iff)
    then obtain e' where e': "find (\<lambda>e. startsWith ref (pe_name e @ ''/'')) es = Some e'" by auto
    from find_SomeD [OF e'] have e'_in: "e' \<in> set es" and pre': "startsWith ref (pe_name e' @ ''/'')" by blast+
    have "pe_name e' = pe_name e" by (rule slash_prefix_unique [OF pre' pre ok(3) [OF e'_in] ok(3) [OF e(1)]])
    moreover have "inj_on pe_name (set es)" using ok(2) by (simp add: well_keyed_def distinct_map)
    ultimately have "e' = e" using e(1) e'_in by (auto dest: inj_onD)
    then have "target es ref d = Some e" using e' by (simp add: target_def)
    moreover have "isPlatformProviderName (pe_name e)" using ok(1) e(1) by (auto simp: list_all_iff platform_entry_ok_def)
    ultimately obtain p where "p \<in> set (nullish (at_providers u) [])" "p_name p = Some (pe_name e)" "nullish (p_models p) [] = pe_models e"
      using u(1) platformProviderOps_applied(2) [of t "pe_name e" "pe_endpoint e" "pe_models e" u] by auto
    with e have "p \<in> set (nullish (at_providers t') [])" "ref \<in> set (providerRefs p)" by (simp_all add: providerRefs_def u(2))
    then show ?thesis ..
  qed
qed

lemma requestedRef_nonempty:
  assumes "well_keyed es" and "m \<noteq> []"
  shows "requestedRef es m \<noteq> []"
proof (cases "find (\<lambda>e. List.member (pe_models e) m) es")
  case None
  have "trim PLATFORM_MODEL_NAME \<noteq> []" by code_simp
  then have "modelKey PLATFORM_MODEL_NAME m \<noteq> []" by (auto simp: modelKey_def Let_def)
  with None assms(2) show ?thesis by (simp add: requestedRef_def)
next
  case (Some e)
  then have "startsWith (modelKey (pe_name e) m) (pe_name e @ ''/'')"
    using assms(1) find_SomeD [OF Some] by (auto simp: well_keyed_def list_all_iff)
  with Some assms(2) show ?thesis by (auto simp: requestedRef_def)
qed

text \<open>The instance part of a save of a named selection.\<close>

lemma run_save_instance:
  assumes run: "save_instance es user (Some v) instructions m (find (\<lambda>i. ai_name i = Some (agentInstanceName user)) (as_instances s)) u (s, [])
      = (Inr r, s', fs)" and "res_status r = Status 200" and "m \<noteq> []"
  shows "as_template s' = as_template s \<and>
    (\<exists>i\<in>set (as_instances s'). ai_name i = Some (agentInstanceName user) \<and> ai_owner i = Some user \<and> ai_selectedModel i = Some m)"
proof (cases "find (\<lambda>i. ai_name i = Some (agentInstanceName user)) (as_instances s)")
  case None
  then have "\<not> list_ex (\<lambda>j. ai_name j = Some (agentInstanceName user)) (as_instances s)"
    by (auto simp: find_None_iff list_ex_iff)
  with run None assms(2,3) show ?thesis
    by (auto simp: save_instance_def ensureAgentInstance_def create_instance_def run_act new_instance_def or_undef_def)
next
  case (Some i)
  let ?ops = "clearOrAdd (Some m) SelectedModel (ai_selectedModel i) @ clearOrAdd instructions UserInstructions (ai_userInstructions i)"
  obtain new where new: "apply_instance_ops ?ops i = Some new" "ai_name new = ai_name i" "ai_owner new = ai_owner i"
      "ai_selectedModel new = Some m"
    using assms(3) by (cases instructions; cases "instructions = Some []"; cases "ai_userInstructions i = None")
      (auto simp: clearOrAdd_def)
  have i: "i \<in> set (as_instances s)" "ai_name i = Some (agentInstanceName user)" using find_SomeD [OF Some] by auto
  have ops: "?ops \<noteq> []" using assms(3) by (simp add: clearOrAdd_def)
  have "ai_owner i = Some user" using run assms(2) Some by (auto simp: save_instance_def run_act answer_def split: if_splits)
  moreover from this have "s' = s\<lparr>as_instances := map (\<lambda>j. if ai_name j = Some (agentInstanceName user) then new else j) (as_instances s)\<rparr>"
    using run Some new ops by (simp add: save_instance_def Let_def run_act patchAgentInstanceCr_def patch_instance_def)
  ultimately show ?thesis using i new by force
qed

lemma run_patch_or_keep:
  assumes "(if ops \<noteq> [] then patchAgentTemplateCr ops else act_return t) (s, []) = (Inr u, s1, [])" and "as_template s = Some t"
  obtains t' where "apply_template_ops ops t = Some t'" "as_instances s1 = as_instances s"
    "\<exists>v. as_template s1 = Some (t'\<lparr>at_version := v\<rparr>)"
proof (cases "ops = []")
  case True
  have "\<exists>v. t = t\<lparr>at_version := v\<rparr>" by (rule exI [of _ "at_version t"]) simp
  with True assms show thesis by (intro that [of t]) (auto simp: act_return_def)
next
  case False
  with assms obtain t' where "apply_template_ops ops t = Some t'" "s1 = s\<lparr>as_template := Some (t'\<lparr>at_version := Suc (at_version t)\<rparr>)\<rparr>"
    by (auto simp: patchAgentTemplateCr_def patch_template_def Let_def split: option.splits)
  then show thesis by (intro that [of t']) auto
qed



end
