(* ===== verification/Agent_Skills.thy ===== *)
theory Agent_Skills
  imports Agent_Crd
begin

text \<open>
  The rest of the caller's instance: the skills that load for it (\<open>app/api/cubepilot/skills/route.ts\<close> and
  \<open>skills/[name]/route.ts\<close>), its status (\<open>agent/status/route.ts\<close>) and its confirmation policy with the
  allowlist (\<open>agent/confirm/route.ts\<close>). A body that parses is a JSON object.
\<close>

section \<open>Skills\<close>

record skill_info =
  si_name :: string
  si_displayName :: string
  si_description :: string
  si_enabled :: bool

definition skill_row :: "(skill \<Rightarrow> bool) \<Rightarrow> skill \<Rightarrow> skill_info" where
  "skill_row enabled k =
     \<lparr>si_name = nullish (sk_name k) [], si_displayName = or_str (sk_displayName k) (or_str (sk_name k) []),
      si_description = nullish (sk_description k) [], si_enabled = enabled k\<rparr>"

definition skillsView :: "skill list \<Rightarrow> string list \<Rightarrow> skill_info list" where
  "skillsView skills enabled =
     map (skill_row (\<lambda>k. if enabled = [] then skillInBaseline k else List.member enabled (nullish (sk_name k) []))) skills"

datatype skill_body =
    SkillCluster string
  | SkillBadJson
  | BadAction
  | SkillMissing string
  | SkillUnreachable
  | SkillNotPlatform
  | NoInstance
  | NotYours
  | SkillList "skill_info list"

definition skills_GET :: "string \<Rightarrow> skill_body response agent_act" where
  "skills_GET user =
     act_catch
       (act_bind (act_both listSkillCrs (getOwnedAgentInstanceCr user)) (\<lambda>(skills, i).
          act_return (answer 200 (SkillList (map (skill_row (skillEnabled i)) skills)))))
       (\<lambda>e. act_return (k8s_failure SkillCluster e))"

text \<open>The list the action leaves, and its write.\<close>

definition switch_skill :: "bool \<Rightarrow> string \<Rightarrow> agent_instance \<Rightarrow> skill_body response agent_act" where
  "switch_skill install name i =
     act_bind
       (if install then act_return (withSkillEnabled (Some i) name)
        else act_bind listSkillCrs (\<lambda>skills. act_return (withSkillDisabled (Some i) name (baselineSkillNames skills))))
       (\<lambda>nxt. act_bind
          (if nxt \<noteq> enabled_skills (Some i)
           then act_bind (patchAgentInstanceCr (the (ai_name i)) [SetEnabledSkills nxt]) (\<lambda>_. act_return ())
           else act_return ())
          (\<lambda>_. act_bind listSkillCrs (\<lambda>skills. act_return (answer 200 (SkillList (skillsView skills nxt))))))"

definition change_skill :: "string \<Rightarrow> string \<Rightarrow> bool \<Rightarrow> skill_body response agent_act" where
  "change_skill user name install =
     act_catch
       (act_bind (getSkillCr name) (\<lambda>found_skill.
          case found_skill of
            None \<Rightarrow> act_return (answer 404 (SkillMissing name))
          | Some k \<Rightarrow>
              (if install \<and> sk_phase k = Some ''Unreachable'' then act_return (answer 409 SkillUnreachable)
               else if install \<and> sk_visibility k \<noteq> Some ''Platform'' then act_return (answer 409 SkillNotPlatform)
               else act_bind (getAgentInstanceCr (agentInstanceName user)) (\<lambda>inst.
                 case inst of
                   None \<Rightarrow> act_return (answer 409 NoInstance)
                 | Some i \<Rightarrow>
                     (if ai_owner i \<noteq> Some user then act_return (answer 403 NotYours)
                      else switch_skill install name i)))))
       (\<lambda>e. act_return (k8s_failure SkillCluster e))"

definition skills_POST :: "string \<Rightarrow> string \<Rightarrow> string option option \<Rightarrow> skill_body response agent_act" where
  "skills_POST user name body =
     (case body of
        None \<Rightarrow> act_return (answer 400 SkillBadJson)
      | Some action \<Rightarrow>
          (if action \<noteq> Some ''install'' \<and> action \<noteq> Some ''uninstall'' then act_return (answer 400 BadAction)
           else change_skill user name (action = Some ''install'')))"

section \<open>Status\<close>

record agent_status =
  st_exists :: bool
  st_id :: "string option"
  st_phase :: "string option"
  st_startedAt :: "string option"
  st_uptimeSeconds :: "int option"
  st_user :: string
  st_message :: "string option"
  st_modelConfigured :: "bool option"
  st_modelMessage :: "string option"
  st_podName :: "string option"
  st_pvcName :: "string option"

text \<open>\<open>parse_date\<close> is \<open>new Date(s).getTime()\<close>. For a date that does not parse the answer carries \<open>null\<close>,
  read by its client as no uptime.\<close>

definition status_of :: "(string \<Rightarrow> int option) \<Rightarrow> int \<Rightarrow> string \<Rightarrow> agent_instance option \<Rightarrow> agent_status" where
  "status_of parse_date now user cr =
     (case cr of
        None \<Rightarrow>
          \<lparr>st_exists = False, st_id = None, st_phase = None, st_startedAt = None, st_uptimeSeconds = None,
           st_user = user, st_message = None, st_modelConfigured = None, st_modelMessage = None,
           st_podName = None, st_pvcName = None\<rparr>
      | Some i \<Rightarrow>
          (let phase = nullish (ai_phase i) []; startedAt = ai_created i;
               modelCondition = find (\<lambda>c. ac_type c = Some ''ModelConfigured'') (nullish (ai_conditions i) [])
           in \<lparr>st_exists = True, st_id = ai_name i, st_phase = Some phase, st_startedAt = startedAt,
               st_uptimeSeconds = (if phase = ''Ready'' \<and> truthy startedAt
                 then map_option (\<lambda>t0. max 0 ((now - t0) div 1000)) (parse_date (the startedAt)) else None),
               st_user = nullish (ai_owner i) user, st_message = ai_message i,
               st_modelConfigured = map_option (\<lambda>c. ac_status c = Some ''True'') modelCondition,
               st_modelMessage = (case modelCondition of None \<Rightarrow> None | Some c \<Rightarrow> ac_message c),
               st_podName = ai_podName i, st_pvcName = ai_pvcName i\<rparr>))"

datatype status_body = StatusCluster string | StatusView agent_status

definition status_GET :: "(string \<Rightarrow> int option) \<Rightarrow> int \<Rightarrow> string \<Rightarrow> status_body response agent_act" where
  "status_GET parse_date now user =
     act_catch
       (act_bind (getOwnedAgentInstanceCr user) (\<lambda>cr. act_return (answer 200 (StatusView (status_of parse_date now user cr)))))
       (\<lambda>e. act_return (k8s_failure StatusCluster e))"

section \<open>Confirmation\<close>

definition POLICIES :: "string list" where
  "POLICIES = [''None'', ''Allowlist'', ''AlwaysAsk'']"

definition CHANNEL_UNKNOWN :: string where "CHANNEL_UNKNOWN = ''unknown''"

definition TEMPLATE_DEFAULT_POLICY :: string where "TEMPLATE_DEFAULT_POLICY = ''Allowlist''"

definition toOwnedRule :: "string option \<times> string option \<Rightarrow> allowlist_rule" where
  "toOwnedRule r =
     \<lparr>r_pattern = nullish (fst r) [], r_argPattern = or_undef (snd r), r_label = None, r_owned = True\<rparr>"

record confirm_view =
  cv_exists :: bool
  cv_confirmPolicy :: string
  cv_templatePolicy :: string
  cv_override :: string
  cv_allowlist :: "allowlist_rule list"
  cv_channel :: string

definition confirm_view_of :: "agent_instance option \<Rightarrow> agent_template option \<Rightarrow> confirm_view" where
  "confirm_view_of cr tmpl =
     (let override = (case cr of None \<Rightarrow> [] | Some i \<Rightarrow> nullish (ai_approvalPolicy i) []);
          templatePolicy = or_str (case tmpl of None \<Rightarrow> None | Some t \<Rightarrow> at_approvalPolicy t) TEMPLATE_DEFAULT_POLICY
      in \<lparr>cv_exists = (cr \<noteq> None), cv_confirmPolicy = (if override \<noteq> [] then override else templatePolicy),
          cv_templatePolicy = templatePolicy, cv_override = override,
          cv_allowlist = effectiveAllowlist (Some (map toOwnedRule (case cr of None \<Rightarrow> [] | Some i \<Rightarrow> nullish (ai_allowlist i) []))),
          cv_channel = CHANNEL_UNKNOWN\<rparr>)"

definition confirmView :: "string \<Rightarrow> confirm_view agent_act" where
  "confirmView user =
     act_bind (act_both (getOwnedAgentInstanceCr user) getAgentTemplateCr) (\<lambda>(cr, tmpl). act_return (confirm_view_of cr tmpl))"

datatype confirm_body =
    ConfirmCluster string
  | ConfirmBadJson
  | BadPolicy
  | AllowlistNotArray
  | PatternNotText
  | ArgPatternNotText
  | BadRule rule_error
  | ConfirmNoInstance
  | ConfirmNameTaken
  | ConfirmAnswer confirm_view

definition confirm_GET :: "string \<Rightarrow> confirm_body response agent_act" where
  "confirm_GET user =
     act_catch (act_bind (confirmView user) (\<lambda>v. act_return (answer 200 (ConfirmAnswer v))))
       (\<lambda>e. act_return (k8s_failure ConfirmCluster e))"

text \<open>A rule of the request: without a text as its pattern, with something else than a text as its
  argument pattern, or well typed. A policy that is not a text is not one of the policies.\<close>

datatype raw_rule = NoPattern | NoArgText | RawRule string "string option"

datatype raw_allowlist = NotArray | RuleArray "raw_rule list"

record confirm_request =
  cq_confirmPolicy :: "raw_text option"
  cq_allowlist :: "raw_allowlist option"

fun first_rule_error :: "(string \<Rightarrow> string option) \<Rightarrow> raw_rule list \<Rightarrow> confirm_body option" where
  "first_rule_error compile_error [] = None"
| "first_rule_error compile_error (NoPattern # rs) = Some PatternNotText"
| "first_rule_error compile_error (NoArgText # rs) = Some ArgPatternNotText"
| "first_rule_error compile_error (RawRule p a # rs) =
     (case validateRule compile_error p a of Some e \<Rightarrow> Some (BadRule e) | None \<Rightarrow> first_rule_error compile_error rs)"

fun raw_rule_of :: "raw_rule \<Rightarrow> allowlist_rule" where
  "raw_rule_of (RawRule p a) = \<lparr>r_pattern = p, r_argPattern = a, r_label = None, r_owned = True\<rparr>"
| "raw_rule_of _ = \<lparr>r_pattern = [], r_argPattern = None, r_label = None, r_owned = True\<rparr>"

definition confirm_error :: "(string \<Rightarrow> string option) \<Rightarrow> confirm_request \<Rightarrow> confirm_body option" where
  "confirm_error compile_error b =
     (if (case cq_confirmPolicy b of
            None \<Rightarrow> False | Some NotText \<Rightarrow> True | Some (RawText p) \<Rightarrow> p \<noteq> [] \<and> \<not> List.member POLICIES p)
      then Some BadPolicy
      else case cq_allowlist b of
          None \<Rightarrow> None
        | Some NotArray \<Rightarrow> Some AllowlistNotArray
        | Some (RuleArray rs) \<Rightarrow> first_rule_error compile_error rs)"

definition confirm_ops :: "confirm_request \<Rightarrow> agent_instance \<Rightarrow> instance_op list" where
  "confirm_ops b i =
     (case cq_confirmPolicy b of
        Some (RawText p) \<Rightarrow>
          (if p = [] then (if ai_approvalPolicy i \<noteq> None then [RemoveField ApprovalPolicy] else [])
           else [AddField ApprovalPolicy p])
      | _ \<Rightarrow> []) @
     (case cq_allowlist b of
        Some (RuleArray rs) \<Rightarrow> [SetAllowlist (ownedRules (Some (map raw_rule_of rs)))]
      | _ \<Rightarrow> [])"

definition save_confirm :: "string \<Rightarrow> confirm_request \<Rightarrow> confirm_body response agent_act" where
  "save_confirm user b =
     act_catch
       (act_bind (getAgentInstanceCr (agentInstanceName user)) (\<lambda>cr.
          case cr of
            None \<Rightarrow> act_return (answer 409 ConfirmNoInstance)
          | Some i \<Rightarrow>
              (if ai_owner i \<noteq> Some user then act_return (answer 409 ConfirmNameTaken)
               else act_bind
                 (if confirm_ops b i \<noteq> []
                  then act_bind (patchAgentInstanceCr (agentInstanceName user) (confirm_ops b i)) (\<lambda>_. act_return ())
                  else act_return ())
                 (\<lambda>_. act_bind (confirmView user) (\<lambda>v. act_return (answer 200 (ConfirmAnswer v)))))))
       (\<lambda>e. act_return (k8s_failure ConfirmCluster e))"

definition confirm_PUT ::
    "(string \<Rightarrow> string option) \<Rightarrow> string \<Rightarrow> confirm_request option \<Rightarrow> confirm_body response agent_act" where
  "confirm_PUT compile_error user body =
     (case body of
        None \<Rightarrow> act_return (answer 400 ConfirmBadJson)
      | Some b \<Rightarrow>
          (case confirm_error compile_error b of
             Some e \<Rightarrow> act_return (answer 400 e)
           | None \<Rightarrow> save_confirm user b))"

section \<open>What the requests write\<close>

lemma confirmView_reads: "valid P (confirmView user) (\<lambda>_. P) (\<lambda>_. P)"
  unfolding confirmView_def by (rule valid_bind_both [OF read_owned_instance read_template]) (auto intro: act_rules)

lemma listSkillCrs_reads: "valid P listSkillCrs (\<lambda>_. P) (\<lambda>_. P)"
  by (rule valid_post [OF read_skills]) auto

lemma confirm_ops_selection: "list_all (\<lambda>op. \<not> selects_model op) (confirm_ops b i)"
  by (auto simp: confirm_ops_def selects_model_def split: option.splits raw_text.splits raw_allowlist.splits)

text \<open>Both writes go to the instance that was read under the caller's name and found to be the caller's;
  \<open>P\<close> is what such a write keeps.\<close>

lemma switch_skill_keeps:
  assumes "\<And>nxt. valid P' (patchAgentInstanceCr (the (ai_name i)) [SetEnabledSkills nxt]) (\<lambda>_. P) (\<lambda>_. P)"
    and imp: "\<And>s. P' s \<Longrightarrow> P s"
  shows "valid P' (switch_skill install name i) (\<lambda>_. P) (\<lambda>_. P)"
proof -
  have next_list: "valid P' (if install then act_return (withSkillEnabled (Some i) name)
      else act_bind listSkillCrs (\<lambda>skills. act_return (withSkillDisabled (Some i) name (baselineSkillNames skills)))) (\<lambda>_. P') (\<lambda>_. P)"
  proof (rule valid_if)
    have "valid P' (act_bind listSkillCrs (\<lambda>skills. act_return (withSkillDisabled (Some i) name (baselineSkillNames skills)))) (\<lambda>_. P') (\<lambda>_. P')"
      by (rule valid_bind [OF listSkillCrs_reads]) (rule valid_return)
    then show "valid P' (act_bind listSkillCrs (\<lambda>skills. act_return (withSkillDisabled (Some i) name (baselineSkillNames skills)))) (\<lambda>_. P') (\<lambda>_. P)"
      by (rule valid_post) (auto intro: imp)
  qed (rule valid_return)
  have wr: "valid P' (if nxt \<noteq> enabled_skills (Some i)
      then act_bind (patchAgentInstanceCr (the (ai_name i)) [SetEnabledSkills nxt]) (\<lambda>_. act_return ()) else act_return ()) (\<lambda>_. P) (\<lambda>_. P)" for nxt
    by (auto intro!: valid_if valid_bind [OF assms(1)] valid_return intro: imp)
  show ?thesis unfolding switch_skill_def
    by (rule valid_bind [OF next_list], rule valid_bind [OF wr], rule valid_bind [OF listSkillCrs_reads]) (rule valid_return)
qed

lemma skills_POST_keeps:
  assumes patch: "\<And>i nxt. ai_owner i = Some user \<Longrightarrow> valid (\<lambda>s. P s \<and> find (\<lambda>i. ai_name i = Some (agentInstanceName user)) (as_instances s) = Some i)
      (patchAgentInstanceCr (agentInstanceName user) [SetEnabledSkills nxt]) (\<lambda>_. P) (\<lambda>_. P)"
  shows "keeps P (skills_POST user name body)"
proof -
  have switch: "valid (\<lambda>s. P s \<and> (\<forall>j. Some i = Some j \<longrightarrow> find (\<lambda>i. ai_name i = Some (agentInstanceName user)) (as_instances s) = Some j))
      (switch_skill install name i) (\<lambda>_. P) (\<lambda>_. P)" if i: "ai_owner i = Some user" for i install
  proof (cases "ai_name i = Some (agentInstanceName user)")
    case True
    then show ?thesis using patch [OF i] by (intro switch_skill_keeps) auto
  next
    case False
    then have "\<not> (P s \<and> (\<forall>j. Some i = Some j \<longrightarrow> find (\<lambda>i. ai_name i = Some (agentInstanceName user)) (as_instances s) = Some j))" for s
      using find_SomeD [of _ "as_instances s" i] by auto
    then show ?thesis unfolding valid_def by blast
  qed
  have "keeps P (change_skill user name install)" for install
    unfolding change_skill_def keeps_def
    by (rule valid_catch [where F = "\<lambda>_. P"],
        rule valid_bind [OF valid_post [OF read_skill [of P], where Q' = "\<lambda>_. P" and E' = "\<lambda>_. P"]])
      (auto intro!: valid_option valid_if valid_return valid_bind [OF read_instance] switch)
  then show ?thesis unfolding skills_POST_def keeps_def by (intro valid_option valid_if valid_return) auto
qed

lemma save_confirm_keeps:
  assumes patch: "\<And>i b. ai_owner i = Some user \<Longrightarrow> valid (\<lambda>s. P s \<and> find (\<lambda>i. ai_name i = Some (agentInstanceName user)) (as_instances s) = Some i)
      (patchAgentInstanceCr (agentInstanceName user) (confirm_ops b i)) (\<lambda>_. P) (\<lambda>_. P)"
  shows "keeps P (confirm_PUT compile_error user body)"
proof -
  have wr: "valid (\<lambda>s. P s \<and> (\<forall>j. Some i = Some j \<longrightarrow> find (\<lambda>i. ai_name i = Some (agentInstanceName user)) (as_instances s) = Some j))
      (act_bind (if confirm_ops b i \<noteq> []
         then act_bind (patchAgentInstanceCr (agentInstanceName user) (confirm_ops b i)) (\<lambda>_. act_return ()) else act_return ())
       (\<lambda>_. act_bind (confirmView user) (\<lambda>v. act_return (answer 200 (ConfirmAnswer v))))) (\<lambda>_. P) (\<lambda>_. P)"
    if i: "ai_owner i = Some user" for i b
    by (rule valid_bind [where R = "\<lambda>_. P"])
      (auto intro!: valid_if valid_return valid_bind [OF confirmView_reads] valid_bind [OF valid_pre [OF patch [OF i]]])
  have "keeps P (save_confirm user b)" for b
    unfolding save_confirm_def keeps_def
    by (rule valid_catch [where F = "\<lambda>_. P"], rule valid_bind [OF read_instance])
      (auto intro!: valid_option valid_if valid_return wr)
  then show ?thesis unfolding confirm_PUT_def keeps_def by (intro valid_option valid_return) auto
qed

lemma reads_keep:
  "keeps P (skills_GET user)" "keeps P (status_GET parse_date now user)" "keeps P (confirm_GET user)"
proof -
  show "keeps P (skills_GET user)" unfolding skills_GET_def keeps_def
    by (rule valid_catch [where F = "\<lambda>_. P"], rule valid_bind_both [OF read_skills read_owned_instance]) (auto intro: act_rules)
  show "keeps P (status_GET parse_date now user)" unfolding status_GET_def keeps_def
    by (rule valid_catch [where F = "\<lambda>_. P"], rule valid_bind [OF read_owned_instance]) (auto intro: act_rules)
  show "keeps P (confirm_GET user)" unfolding confirm_GET_def keeps_def
    by (rule valid_catch [where F = "\<lambda>_. P"], rule valid_bind [OF confirmView_reads]) (auto intro: act_rules)
qed

section \<open>What a switch does\<close>

definition skills_ok :: "skill list \<Rightarrow> bool" where
  "skills_ok ks \<longleftrightarrow> distinct (map sk_name ks) \<and> list_all (\<lambda>k. truthy (sk_name k)) ks"

definition next_skills :: "bool \<Rightarrow> string \<Rightarrow> agent_instance \<Rightarrow> skill list \<Rightarrow> string list" where
  "next_skills install name i ks =
     (if install then withSkillEnabled (Some i) name else withSkillDisabled (Some i) name (baselineSkillNames ks))"

definition switched :: "bool \<Rightarrow> string \<Rightarrow> agent_instance \<Rightarrow> skill \<Rightarrow> bool" where
  "switched install name i k = (if sk_name k = Some name then install else skillEnabled (Some i) k)"

lemma skills_okD:
  assumes "skills_ok ks" and "j \<in> set ks"
  obtains n where "sk_name j = Some n" "n \<noteq> []" "\<And>k. k \<in> set ks \<Longrightarrow> sk_name k = Some n \<Longrightarrow> k = j"
proof -
  from assms obtain n where n: "sk_name j = Some n" "n \<noteq> []" by (auto simp: skills_ok_def list_all_iff elim: truthyE)
  moreover have "k = j" if "k \<in> set ks" "sk_name k = Some n" for k
    using assms that n inj_onD [of sk_name "set ks" k j] by (simp add: skills_ok_def distinct_map)
  ultimately show thesis by (rule that)
qed

lemma baseline_names:
  assumes "skills_ok ks" and "j \<in> set ks" and "sk_name j = Some n"
  shows "n \<in> set (baselineSkillNames ks) \<longleftrightarrow> skillInBaseline j"
proof
  assume "n \<in> set (baselineSkillNames ks)"
  then obtain k where k: "k \<in> set ks" "skillInBaseline k" "nullish (sk_name k) [] = n" "n \<noteq> []" by (auto simp: baselineSkillNames_def)
  then have "sk_name k = Some n" by (cases "sk_name k") auto
  then have "k = j" using skills_okD [OF assms(1,2)] k(1) assms(3) by (metis option.inject)
  with k(2) show "skillInBaseline j" by simp
next
  assume "skillInBaseline j"
  moreover have "n \<noteq> []" using skills_okD [OF assms(1,2)] assms(3) by (metis option.inject)
  ultimately show "n \<in> set (baselineSkillNames ks)" using assms(2,3) by (force simp: baselineSkillNames_def)
qed

lemma next_skills_enabled:
  assumes ok: "skills_ok ks" and k: "k \<in> set ks" "sk_name k = Some name" and j: "j \<in> set ks"
    and inst: "install \<Longrightarrow> skillInBaseline k" and un: "install \<or> next_skills install name i ks \<noteq> []"
  shows "(if next_skills install name i ks = [] then skillInBaseline j else List.member (next_skills install name i ks) (nullish (sk_name j) []))
    = switched install name i j"
proof -
  from skills_okD [OF ok j] obtain n where n: "sk_name j = Some n" "n \<noteq> []" by metis
  have same: "j = k" if "n = name" using skills_okD [OF ok j] k n that by (metis option.inject)
  show ?thesis
  proof (cases install)
    case True
    then show ?thesis using n same inst k
      by (auto simp: next_skills_def withSkillEnabled_def switched_def skillEnabled_def)
  next
    case False
    then show ?thesis using n un baseline_names [OF ok j n(1)]
      by (auto simp: next_skills_def withSkillDisabled_def switched_def skillEnabled_def)
  qed
qed

lemma find_replaced:
  "find P xs = Some x \<Longrightarrow> P new \<Longrightarrow> find P (map (\<lambda>j. if P j then new else j) xs) = Some new"
  by (induction xs) (auto split: if_splits)

lemma run_switch_skill:
  assumes i: "find (\<lambda>i. ai_name i = Some (agentInstanceName user)) (as_instances s) = Some i" "ai_owner i = Some user"
  obtains s' i' where
    "switch_skill install name i (s, []) =
       (Inr (answer 200 (SkillList (skillsView (as_skills s) (next_skills install name i (as_skills s))))), s', [])"
    "as_skills s' = as_skills s" "find (\<lambda>i. ai_name i = Some (agentInstanceName user)) (as_instances s') = Some i'"
    "ai_owner i' = Some user" "enabled_skills (Some i') = next_skills install name i (as_skills s)"
proof -
  let ?nx = "next_skills install name i (as_skills s)" and ?name = "agentInstanceName user"
  let ?new = "i\<lparr>ai_enabledSkills := Some ?nx\<rparr>"
  let ?s = "s\<lparr>as_instances := map (\<lambda>j. if ai_name j = Some ?name then ?new else j) (as_instances s)\<rparr>"
  have n: "ai_name i = Some ?name" using find_SomeD [OF i(1)] by simp
  have run: "switch_skill install name i (s, []) =
      (Inr (answer 200 (SkillList (skillsView (as_skills s) ?nx))), if ?nx \<noteq> enabled_skills (Some i) then ?s else s, [])"
    using i n by (simp add: switch_skill_def run_act listSkillCrs_def next_skills_def patchAgentInstanceCr_def patch_instance_def)
  show thesis
  proof (cases "?nx = enabled_skills (Some i)")
    case True
    with run i show thesis by (intro that [of s i]) simp_all
  next
    case False
    with run i n show thesis
      by (intro that [of ?s ?new]) (auto simp: enabled_skills_def intro!: find_replaced)
  qed
qed

lemma run_getOwned:
  "find (\<lambda>i. ai_name i = Some (agentInstanceName user)) (as_instances s) = Some i \<Longrightarrow> ai_owner i = Some user \<Longrightarrow>
     getOwnedAgentInstanceCr user (s, []) = (Inr (Some i), s, [])"
  by (simp add: getOwnedAgentInstanceCr_def run_act run_getInstance owned_by_def)

lemma skillsView_rows:
  "skillsView ks nx = map (skill_row (\<lambda>j. if nx = [] then skillInBaseline j else List.member nx (nullish (sk_name j) []))) ks"
  by (simp add: skillsView_def)

text \<open>Switching a skill switches that skill and no other: on a catalogue of distinct names, when the
  caller has an instance and the skill may be installed (or, for an uninstall, another one stays enabled),
  the answer lists every skill as it was but this one as asked for, and the next listing says the same.\<close>

theorem skill_switch_exact:
  assumes "skills_ok (as_skills s)"
    and "find (\<lambda>k. sk_name k = Some name) (as_skills s) = Some k"
    and "find (\<lambda>i. ai_name i = Some (agentInstanceName user)) (as_instances s) = Some i" and "ai_owner i = Some user"
    and "if install then sk_phase k \<noteq> Some ''Unreachable'' \<and> sk_visibility k = Some ''Platform''
      else withSkillDisabled (Some i) name (baselineSkillNames (as_skills s)) \<noteq> []"
  shows "\<exists>s'. change_skill user name install (s, []) =
      (Inr (answer 200 (SkillList (map (skill_row (switched install name i)) (as_skills s)))), s', []) \<and>
    skills_GET user (s', []) = (Inr (answer 200 (SkillList (map (skill_row (switched install name i)) (as_skills s)))), s', [])"
proof -
  let ?nx = "next_skills install name i (as_skills s)"
  have k: "k \<in> set (as_skills s)" "sk_name k = Some name" using find_SomeD [OF assms(2)] by auto
  from run_switch_skill [OF assms(3,4)] obtain s' i' where s':
    "switch_skill install name i (s, []) = (Inr (answer 200 (SkillList (skillsView (as_skills s) ?nx))), s', [])"
    "as_skills s' = as_skills s" "find (\<lambda>i. ai_name i = Some (agentInstanceName user)) (as_instances s') = Some i'"
    "ai_owner i' = Some user" "enabled_skills (Some i') = ?nx" by metis
  have base: "install \<Longrightarrow> skillInBaseline k" using assms(5) by (simp add: skillInBaseline_def)
  have keep: "install \<or> ?nx \<noteq> []" using assms(5) by (cases install) (simp_all add: next_skills_def)
  have "skill_row (\<lambda>j. if ?nx = [] then skillInBaseline j else List.member ?nx (nullish (sk_name j) [])) j
      = skill_row (switched install name i) j" if "j \<in> set (as_skills s)" for j
    unfolding skill_row_def using next_skills_enabled [OF assms(1) k that base keep] by simp
  then have rows: "skillsView (as_skills s) ?nx = map (skill_row (switched install name i)) (as_skills s)"
    unfolding skillsView_rows by simp
  have "map (skill_row (skillEnabled (Some i'))) (as_skills s) = skillsView (as_skills s) ?nx"
    unfolding skillsView_rows skill_row_def by (simp add: skillEnabled_def s'(5))
  moreover have "skills_GET user (s', []) = (Inr (answer 200 (SkillList (map (skill_row (skillEnabled (Some i'))) (as_skills s)))), s', [])"
    using s'(2) by (simp add: skills_GET_def run_act listSkillCrs_def run_getOwned [OF s'(3,4)])
  ultimately have "skills_GET user (s', []) = (Inr (answer 200 (SkillList (map (skill_row (switched install name i)) (as_skills s)))), s', [])"
    by (simp only: rows)
  moreover have "change_skill user name install (s, []) = switch_skill install name i (s, [])"
    using assms(2-5) s'(1) by (auto simp: change_skill_def run_act getSkillCr_def getCr_def found_def run_getInstance)
  ultimately show ?thesis using s'(1) rows by auto
qed

text \<open>Uninstalling the only skill that is enabled does not disable it: the list becomes empty, which
  means the baseline, and the answer shows the skill, and every other of the baseline, enabled.\<close>

theorem uninstall_last_skill:
  assumes "find (\<lambda>k. sk_name k = Some name) (as_skills s) = Some k" and "skillInBaseline k"
    and "find (\<lambda>i. ai_name i = Some (agentInstanceName user)) (as_instances s) = Some i" and "ai_owner i = Some user"
    and "ai_enabledSkills i = Some [name]"
  shows "\<exists>s'. change_skill user name False (s, []) = (Inr (answer 200 (SkillList (map (skill_row skillInBaseline) (as_skills s)))), s', []) \<and>
    (skill_row skillInBaseline k) \<in> set (map (skill_row skillInBaseline) (as_skills s)) \<and> si_enabled (skill_row skillInBaseline k)"
proof -
  have nx: "next_skills False name i (as_skills s) = []"
    using assms(5) by (simp add: next_skills_def withSkillDisabled_def enabled_skills_def)
  from run_switch_skill [OF assms(3,4), of False name] obtain s' where
    "switch_skill False name i (s, []) = (Inr (answer 200 (SkillList (skillsView (as_skills s) []))), s', [])" unfolding nx by metis
  moreover have "change_skill user name False (s, []) = switch_skill False name i (s, [])"
    using assms(1,3,4) calculation by (simp add: change_skill_def run_act getSkillCr_def getCr_def found_def run_getInstance)
  moreover have "k \<in> set (as_skills s)" using find_SomeD [OF assms(1)] by simp
  ultimately show ?thesis using assms(2) by (auto simp: skillsView_rows skill_row_def)
qed

section \<open>A saved policy is the one in effect\<close>

definition stored_rules :: "(string \<times> string option) list \<Rightarrow> (string option \<times> string option) list" where
  "stored_rules rs = map (\<lambda>(p, a). (Some p, a)) rs"

lemma effective_keys:
  "ruleKey ` set (effectiveAllowlist (Some own)) = ruleKey ` set builtinAllowlist \<union> ruleKey ` {r \<in> set own. r_pattern r \<noteq> []}"
proof -
  let ?all = "builtinAllowlist @ map (\<lambda>r. r\<lparr>r_owned := True\<rparr>) own"
  have m: "effectiveAllowlist (Some own) = mergeRules [?all]" by (simp add: effectiveAllowlist_def mergeRules_eq)
  have "ruleKey ` set (mergeRules [?all]) = ruleKey ` {r \<in> set ?all. r_pattern r \<noteq> []}"
    using rules.merge_keys [of ?all] by auto
  also have "\<dots> = ruleKey ` set builtinAllowlist \<union> ruleKey ` {r \<in> set own. r_pattern r \<noteq> []}"
  proof -
    let ?own = "\<lambda>r. r\<lparr>r_owned := True\<rparr>"
    have "{r \<in> set ?all. r_pattern r \<noteq> []} = set builtinAllowlist \<union> ?own ` {r \<in> set own. r_pattern r \<noteq> []}"
      using builtin_patterns by auto
    moreover have "ruleKey (?own r) = ruleKey r" for r by (simp add: ruleKey_def)
    ultimately show ?thesis by (simp add: image_Un image_image)
  qed
  finally show ?thesis by (simp only: m)
qed

lemma owned_keys:
  "ruleKey ` set (map toOwnedRule (stored_rules (ownedRules (Some rs)))) = ruleKey ` {r \<in> sanitize_rule ` set rs. r_pattern r \<noteq> []}"
proof -
  let ?m = "mergeRules [map sanitize_rule rs]"
  have "ruleKey (toOwnedRule (Some (r_pattern r), if truthy (r_argPattern r) then r_argPattern r else None)) = ruleKey r" for r
    by (cases "r_argPattern r") (auto simp: toOwnedRule_def ruleKey_def or_undef_def)
  then have "map ruleKey (map toOwnedRule (stored_rules (ownedRules (Some rs)))) = map ruleKey ?m"
    by (simp add: stored_rules_def ownedRules_def comp_def)
  then have "set (map ruleKey (map toOwnedRule (stored_rules (ownedRules (Some rs))))) = set (map ruleKey ?m)" by (simp only:)
  moreover have "ruleKey ` set ?m = ruleKey ` {r \<in> sanitize_rule ` set rs. r_pattern r \<noteq> []}"
    using rules.merge_keys [of "map sanitize_rule rs"] by auto
  ultimately show ?thesis by (simp only: set_map)
qed

lemma owned_patterns: "r \<in> set (map toOwnedRule (stored_rules (ownedRules (Some rs)))) \<Longrightarrow> r_pattern r \<noteq> []"
  using rules.merge_sound [of _ "map sanitize_rule rs"] by (auto simp: stored_rules_def ownedRules_def toOwnedRule_def)

lemma accepted_rules:
  "first_rule_error compile_error rs = None \<Longrightarrow> x \<in> set rs \<Longrightarrow> r_pattern (sanitize_rule (raw_rule_of x)) \<noteq> []"
proof (induction compile_error rs rule: first_rule_error.induct)
  case (4 compile_error p a rs)
  then show ?case by (auto simp: sanitize_rule_def validateRule_def split: option.splits if_splits)
qed auto

lemma run_getTemplate_any: "getAgentTemplateCr (s, []) = (Inr (as_template s), s, [])"
  by (cases "as_template s") (simp_all add: getAgentTemplateCr_def getCr_def run_act found_def)

lemma run_confirmView:
  assumes "find (\<lambda>i. ai_name i = Some (agentInstanceName user)) (as_instances s) = Some i" and "ai_owner i = Some user"
  shows "confirmView user (s, []) = (Inr (confirm_view_of (Some i) (as_template s)), s, [])"
  using assms by (simp add: confirmView_def run_act run_getOwned run_getTemplate_any)

lemma confirm_ops_applied:
  assumes "confirm_error compile_error b = None"
  obtains new where "apply_instance_ops (confirm_ops b i) i = Some new"
    "\<And>p. cq_confirmPolicy b = Some (RawText p) \<Longrightarrow> nullish (ai_approvalPolicy new) [] = p"
    "\<And>rs. cq_allowlist b = Some (RuleArray rs) \<Longrightarrow> ai_allowlist new = Some (stored_rules (ownedRules (Some (map raw_rule_of rs))))"
proof (cases "cq_confirmPolicy b = Some (RawText []) \<and> ai_approvalPolicy i \<noteq> None")
  case True
  let ?new = "case cq_allowlist b of Some (RuleArray rs) \<Rightarrow>
      i\<lparr>ai_approvalPolicy := None, ai_allowlist := Some (stored_rules (ownedRules (Some (map raw_rule_of rs))))\<rparr>
    | _ \<Rightarrow> i\<lparr>ai_approvalPolicy := None\<rparr>"
  from True show thesis
    by (intro that [of ?new]) (auto simp: confirm_ops_def stored_rules_def split: option.splits raw_allowlist.splits)
next
  case False
  let ?i = "case cq_confirmPolicy b of Some (RawText p) \<Rightarrow> (if p = [] then i else i\<lparr>ai_approvalPolicy := Some p\<rparr>) | _ \<Rightarrow> i"
  let ?new = "case cq_allowlist b of Some (RuleArray rs) \<Rightarrow>
      ?i\<lparr>ai_allowlist := Some (stored_rules (ownedRules (Some (map raw_rule_of rs))))\<rparr> | _ \<Rightarrow> ?i"
  from False show thesis
    by (intro that [of ?new]) (auto simp: confirm_ops_def stored_rules_def split: option.splits raw_allowlist.splits raw_text.splits)
qed


section \<open>Samples\<close>

definition sample_instance :: "string list option \<Rightarrow> agent_instance" where
  "sample_instance enabled = (new_instance ''ann'' None None)\<lparr>ai_enabledSkills := enabled\<rparr>"

definition skill_store :: "string list option \<Rightarrow> agent_store" where
  "skill_store enabled = sample_store\<lparr>as_instances := [sample_instance enabled]\<rparr>"

lemma skill_store_facts:
  "find (\<lambda>i. ai_name i = Some (agentInstanceName ''ann'')) (as_instances (skill_store enabled)) = Some (sample_instance enabled)"
  "ai_owner (sample_instance enabled) = Some ''ann''"
  "find (\<lambda>k. sk_name k = Some ''gpu'') (as_skills (skill_store enabled)) = Some (sample_skill ''gpu'')"
  "skills_ok (as_skills (skill_store enabled))"
  by (simp_all add: skill_store_def sample_store_def sample_instance_def new_instance_def sample_skill_def skills_ok_def)

theorem skill_switch_exact_witness:
  "\<exists>s'. change_skill ''ann'' ''gpu'' False (skill_store None, []) =
     (Inr (answer 200 (SkillList [skill_row (\<lambda>_. False) (sample_skill ''gpu''), skill_row (\<lambda>_. True) (sample_skill ''logs'')])), s', [])"
proof -
  have d: "if False then sk_phase (sample_skill ''gpu'') \<noteq> Some ''Unreachable'' \<and> sk_visibility (sample_skill ''gpu'') = Some ''Platform''
      else withSkillDisabled (Some (sample_instance None)) ''gpu'' (baselineSkillNames (as_skills (skill_store None))) \<noteq> []"
    by code_simp
  have rows: "map (skill_row (switched False ''gpu'' (sample_instance None))) (as_skills (skill_store None)) =
      [skill_row (\<lambda>_. False) (sample_skill ''gpu''), skill_row (\<lambda>_. True) (sample_skill ''logs'')]"
    by code_simp
  from skill_switch_exact [OF skill_store_facts(4,3,1,2) d] show ?thesis unfolding rows by blast
qed

theorem uninstall_last_skill_witness:
  "\<exists>s'. change_skill ''ann'' ''gpu'' False (skill_store (Some [''gpu'']), []) =
     (Inr (answer 200 (SkillList [skill_row (\<lambda>_. True) (sample_skill ''gpu''), skill_row (\<lambda>_. True) (sample_skill ''logs'')])), s', [])"
proof -
  have b: "skillInBaseline (sample_skill ''gpu'')" by code_simp
  have rows: "map (skill_row skillInBaseline) (as_skills (skill_store (Some [''gpu'']))) =
      [skill_row (\<lambda>_. True) (sample_skill ''gpu''), skill_row (\<lambda>_. True) (sample_skill ''logs'')]"
    by code_simp
  have e: "ai_enabledSkills (sample_instance (Some [''gpu''])) = Some [''gpu'']" by (simp add: sample_instance_def)
  from uninstall_last_skill [OF skill_store_facts(3) b skill_store_facts(1,2) e] show ?thesis unfolding rows by blast
qed


end
