(* ===== verification/Agent_Api.thy ===== *)
theory Agent_Api
  imports Agent_Llms Agent_Config Agent_Skills
begin

text \<open>
  The routes of the assistant's configuration taken together: a request is one of theirs, by a signed-in
  user, and a server answers requests one after the other, each with the faults its calls meet. Two
  invariants of the shared store follow from what each handler keeps: every selection of a model can be
  answered, and no user's instance is written by another.
\<close>

section \<open>Requests\<close>

datatype agent_request =
    LlmsPost "llm_request option"
  | LlmsPut string "llm_request option"
  | LlmsDelete string
  | ConfigGet "(gateway_base \<times> gateway_model list) list"
  | ConfigPut "(gateway_base \<times> gateway_model list) list" "config_request option option"
  | SkillsGet
  | SkillsPost string "string option option"
  | StatusGet int
  | ConfirmGet
  | ConfirmPut "confirm_request option"

record runtime =
  rt_env :: env
  rt_parse_url :: "string \<Rightarrow> (string \<times> string) option"
  rt_parse_date :: "string \<Rightarrow> int option"
  rt_compile_error :: "string \<Rightarrow> string option"

definition discard :: "'a agent_act \<Rightarrow> unit agent_act" where
  "discard m = act_bind m (\<lambda>_. act_return ())"

fun serve :: "runtime \<Rightarrow> string \<times> agent_request \<Rightarrow> unit agent_act" where
  "serve rt (user, LlmsPost body) = discard (llms_POST (rt_parse_url rt) body)"
| "serve rt (user, LlmsPut name body) = discard (llms_PUT (rt_parse_url rt) name body)"
| "serve rt (user, LlmsDelete name) = discard (llms_DELETE name)"
| "serve rt (user, ConfigGet catalogs) = discard (config_GET (rt_env rt) catalogs user)"
| "serve rt (user, ConfigPut catalogs body) = discard (config_PUT (rt_env rt) catalogs user body)"
| "serve rt (user, SkillsGet) = discard (skills_GET user)"
| "serve rt (user, SkillsPost name body) = discard (skills_POST user name body)"
| "serve rt (user, StatusGet now) = discard (status_GET (rt_parse_date rt) now user)"
| "serve rt (user, ConfirmGet) = discard (confirm_GET user)"
| "serve rt (user, ConfirmPut body) = discard (confirm_PUT (rt_compile_error rt) user body)"

text \<open>The store after the requests, each given with the faults of its calls.\<close>

definition after_requests ::
    "runtime \<Rightarrow> agent_store \<Rightarrow> ((string \<times> agent_request) \<times> agent_error fault list) list \<Rightarrow> agent_store" where
  "after_requests rt s rs = foldl (\<lambda>s (r, fs). fst (snd (serve rt r (s, fs)))) s rs"

section \<open>What each request keeps\<close>

lemma keeps_discard [keeps_rules]: "keeps P m \<Longrightarrow> keeps P (discard m)"
  unfolding discard_def by (intro keeps_rules)

lemma serve_selections: "keeps selections_resolve (serve rt (user, q))"
proof -
  have "keeps selections_resolve (skills_POST user name body)" for name body
    by (rule skills_POST_keeps) (rule valid_pre [OF patch_no_selection], auto simp: selects_model_def)
  moreover have "keeps selections_resolve (confirm_PUT (rt_compile_error rt) user body)" for body
    by (rule save_confirm_keeps) (rule valid_pre [OF patch_no_selection [OF confirm_ops_selection]], auto)
  ultimately show ?thesis
    by (cases q) (simp_all add: keeps_discard llms_POST_keeps llms_PUT_keeps llms_DELETE_keeps config_PUT_keeps config_GET_keeps reads_keep)
qed

lemma serve_other_user:
  assumes "other \<noteq> user"
  shows "keeps (holds_instances user mine) (serve rt (other, q))"
proof -
  have "keeps (holds_instances user mine) (skills_POST other name body)" for name body
    using patch_other_user [OF _ assms] by (intro skills_POST_keeps) auto
  moreover have "keeps (holds_instances user mine) (confirm_PUT (rt_compile_error rt) other body)" for body
    using patch_other_user [OF _ assms] by (intro save_confirm_keeps) auto
  moreover note llms_write_no_instance [where P = "holds_instances user mine"]
  ultimately show ?thesis
    by (cases q) (simp_all add: keeps_discard config_PUT_other_user [OF assms] config_GET_keeps reads_keep)
qed

interpretation selections: server "serve rt" selections_resolve for rt
  by unfold_locales (metis serve_selections surj_pair)

text \<open>The server as another user sees it: a request of the user himself is not served.\<close>

definition serve_others :: "runtime \<Rightarrow> string \<Rightarrow> string \<times> agent_request \<Rightarrow> unit agent_act" where
  "serve_others rt user r = (if fst r = user then act_return () else serve rt r)"

interpretation ownership: server "serve_others rt user" "holds_instances user mine" for rt user mine
proof unfold_locales
  show "keeps (holds_instances user mine) (serve_others rt user r)" for r
    unfolding serve_others_def using serve_other_user [of "fst r" user mine rt "snd r"] by (auto intro: keeps_rules)
qed

section \<open>Invariants\<close>

text \<open>C5. Every selection stays answerable: from a store in which each instance of the builtin template that
  selects a model of an external provider selects one the template lists, any sequence of requests by any
  users, with calls refused or their answers lost anywhere, leads to such a store. (A selection of one of the
  platform's own models follows the gateways instead.)\<close>

theorem selections_stay_answerable:
  assumes "selections_resolve s"
  shows "selections_resolve (after_requests rt s rs)"
  unfolding after_requests_def by (rule selections.inv_after [OF assms])

text \<open>C6. A user's instances are the user's alone: whatever requests other users make, in any order and with
  any faults, the instances a user owns are what they were.\<close>

theorem instances_are_private:
  assumes "distinct (map ai_name (as_instances s))" and "list_all (\<lambda>(r, fs). fst r \<noteq> user) rs"
  shows "instances_of user (after_requests rt s rs) = instances_of user s"
proof -
  have "foldl (\<lambda>s (r, fs). fst (snd (serve rt r (s, fs)))) s' rs = foldl (\<lambda>s (r, fs). fst (snd (serve_others rt user r (s, fs)))) s' rs" for s'
    using assms(2) by (induction rs arbitrary: s') (auto simp: serve_others_def)
  then have "after_requests rt s rs = foldl (\<lambda>s (r, fs). fst (snd (serve_others rt user r (s, fs)))) s rs"
    by (simp add: after_requests_def)
  moreover have "holds_instances user (instances_of user s) s" using assms(1) by (simp add: holds_instances_def)
  ultimately have "holds_instances user (instances_of user s) (after_requests rt s rs)"
    using ownership.inv_after [of user "instances_of user s" s rt rs] by simp
  then show ?thesis by (simp add: holds_instances_def)
qed

definition sample_runtime :: runtime where
  "sample_runtime = \<lparr>rt_env = (\<lambda>_. None), rt_parse_url = sample_parse_url, rt_parse_date = (\<lambda>_. None), rt_compile_error = (\<lambda>_. None)\<rparr>"

theorem selections_stay_answerable_witness:
  "selections_resolve sample_store \<and>
   selections_resolve (after_requests sample_runtime sample_store [((''bob'', LlmsDelete ''acme''), [Clear, Lost sample_error]), ((''bob'', LlmsDelete ''acme''), [])])"
  using sample_resolves selections_stay_answerable [OF sample_resolves] by blast

theorem instances_are_private_witness:
  "instances_of ''ann'' (after_requests sample_runtime sample_store
     [((''bob'', ConfirmPut (Some \<lparr>cq_confirmPolicy = Some (RawText ''None''), cq_allowlist = None\<rparr>)), []), ((''bob'', ConfigPut [] (Some None)), [])]) =
   [new_instance ''ann'' (Some ''acme/m'') None]"
proof -
  have "instances_of ''ann'' sample_store = [new_instance ''ann'' (Some ''acme/m'') None]"
    by (simp add: instances_of_def sample_store_def new_instance_def)
  moreover have "distinct (map ai_name (as_instances sample_store))" by (simp add: sample_store_def)
  ultimately show ?thesis
    using instances_are_private [of sample_store "''ann''" "[((''bob'', ConfirmPut (Some \<lparr>cq_confirmPolicy = Some (RawText ''None''), cq_allowlist = None\<rparr>)), []), ((''bob'', ConfigPut [] (Some None)), [])]" sample_runtime]
    by simp
qed

end
