(* ===== verification/Agent_Models.thy ===== *)
theory Agent_Models
  imports Agent_Crd Json "HOL-Library.Char_ord" "HOL-Library.List_Lexorder"
begin

text \<open>
  The models an external endpoint serves (\<open>app/api/cubepilot/agent/llm-models/route.ts\<close>): which endpoints
  are asked, the bounded read of the answer and the list made of it. \<open>parse_url\<close> and \<open>hostname\<close> are the URL
  constructor, \<open>decode\<close> is UTF-8 decoding and \<open>parse\<close> is \<open>JSON.parse\<close>; the endpoint's answer is an argument.
\<close>

section \<open>Which endpoints are asked\<close>

definition BODY_MAX_BYTES :: nat where "BODY_MAX_BYTES = 16 * 1024 * 1024"

definition BLOCKED_HOSTS :: "string list" where
  "BLOCKED_HOSTS = [''metadata.google.internal'', ''metadata'', ''169.254.169.254'', ''fd00:ec2::254'']"

definition strip_brackets :: "string \<Rightarrow> string" where
  "strip_brackets s =
     (let t = (if startsWith s ''['' then tl s else s) in if endsWith t '']'' then butlast t else t)"

definition blockedHost :: "string \<Rightarrow> bool" where
  "blockedHost hostname =
     (let host = strip_brackets (toLowerCase hostname)
      in List.member BLOCKED_HOSTS host \<or> host = ''localhost'' \<or> startsWith host ''127.'' \<or> host = ''::1'' \<or>
         startsWith host ''169.254.'' \<or> startsWith host ''fe80:'')"

record models_query =
  mq_endpoint :: "raw_text option"
  mq_apiKey :: "raw_text option"
  mq_public :: "bool option"

datatype models_body =
    ModelsBadJson
  | EndpointNotText
  | KeyNotText
  | ModelsBadEndpoint endpoint_error
  | NotHttp
  | HostBlocked
  | ModelsBadCredential credential_error
  | Unreachable
  | Redirects
  | UpstreamStatus nat
  | Unreadable
  | AnswerTooLarge
  | NotAModelList
  | ModelsFound "string list" bool

record models_fetch =
  mf_url :: string
  mf_headers :: "(string \<times> string) list"
  mf_warning :: bool

text \<open>The request that goes out, or the answer without one. The warning is the one about a key over plain
  http.\<close>

definition models_request ::
    "(string \<Rightarrow> (string \<times> string) option) \<Rightarrow> (string \<Rightarrow> string) \<Rightarrow> models_query option \<Rightarrow> models_body response + models_fetch" where
  "models_request parse_url hostname body =
     (case body of
        None \<Rightarrow> Inl (answer 400 ModelsBadJson)
      | Some b \<Rightarrow>
          (if mq_endpoint b = Some NotText then Inl (answer 400 EndpointNotText)
           else if mq_apiKey b = Some NotText then Inl (answer 400 KeyNotText)
           else case normalizeEndpoint parse_url (Some (nullish (sent_text (mq_endpoint b)) [])) of
               Inl e \<Rightarrow> Inl (answer 400 (ModelsBadEndpoint e))
             | Inr endpoint \<Rightarrow>
                 (let protocol = (case parse_url endpoint of None \<Rightarrow> [] | Some (p, h) \<Rightarrow> p);
                      apiKey = trim (nullish (sent_text (mq_apiKey b)) []); isPublic = (mq_public b = Some True)
                  in if protocol \<noteq> ''http:'' \<and> protocol \<noteq> ''https:'' then Inl (answer 400 NotHttp)
                     else if blockedHost (hostname endpoint) then Inl (answer 400 HostBlocked)
                     else case credentialChoiceError apiKey isPublic of
                         Some e \<Rightarrow> Inl (answer 400 (ModelsBadCredential e))
                       | None \<Rightarrow> Inr \<lparr>mf_url = endpoint @ ''/models'',
                           mf_headers = (''Accept'', ''application/json'') #
                             (if isPublic then [] else [(''Authorization'', ''Bearer '' @ apiKey)]),
                           mf_warning = (\<not> isPublic \<and> protocol = ''http:'')\<rparr>)))"

section \<open>The bounded read\<close>

datatype read_event = Chunk string | Finished | Failure

datatype capped = Whole string | TooBig | Broken

text \<open>The reads of a stream, one event each; a stream may go on for ever. Strings are sequences of bytes
  here.\<close>

partial_function (option) read_loop :: "(nat \<Rightarrow> read_event) \<Rightarrow> nat \<Rightarrow> nat \<Rightarrow> string \<Rightarrow> capped option" where
  "read_loop stream k sz chunks =
     (case stream k of
        Finished \<Rightarrow> Some (Whole chunks)
      | Failure \<Rightarrow> Some Broken
      | Chunk c \<Rightarrow>
          (if sz + length c > BODY_MAX_BYTES then Some TooBig
           else read_loop stream (Suc k) (sz + length c) (chunks @ c)))"

text \<open>\<open>declared\<close> is the declared length, \<^const>\<open>None\<close> when it is not a finite number.\<close>

definition readCapped :: "int option \<Rightarrow> (nat \<Rightarrow> read_event) option \<Rightarrow> capped option" where
  "readCapped declared body =
     (if (case declared of None \<Rightarrow> False | Some n \<Rightarrow> int BODY_MAX_BYTES < n) then Some TooBig
      else case body of None \<Rightarrow> Some (Whole []) | Some stream \<Rightarrow> read_loop stream 0 0 [])"

section \<open>The list\<close>

record models_reply =
  mp_status :: nat
  mp_declared :: "int option"
  mp_body :: "(nat \<Rightarrow> read_event) option"

definition entry_id :: "json \<Rightarrow> string" where
  "entry_id m = (case m of JObj es \<Rightarrow> (case map_of es ''id'' of Some (JStr i) \<Rightarrow> trim i | _ \<Rightarrow> []) | _ \<Rightarrow> [])"

definition model_ids :: "json list \<Rightarrow> string list" where
  "model_ids data = sort (remdups (filter (\<lambda>i. i \<noteq> []) (map entry_id data)))"

definition listing_answer :: "(string \<Rightarrow> string) \<Rightarrow> (string \<Rightarrow> json option) \<Rightarrow> bool \<Rightarrow> capped \<Rightarrow> models_body response" where
  "listing_answer decode parse warning text =
     (case text of
        Broken \<Rightarrow> answer 502 Unreadable
      | TooBig \<Rightarrow> answer 502 AnswerTooLarge
      | Whole bytes \<Rightarrow>
          (case parse (decode bytes) of
             Some (JObj es) \<Rightarrow>
               (case map_of es ''data'' of
                  Some (JArr data) \<Rightarrow> answer 200 (ModelsFound (model_ids data) warning)
                | _ \<Rightarrow> answer 502 NotAModelList)
           | _ \<Rightarrow> answer 502 NotAModelList))"

text \<open>\<open>reply\<close> is the endpoint's answer, \<^const>\<open>None\<close> when it is not reached in time. The result is
  \<^const>\<open>None\<close> when the read does not return.\<close>

definition models_POST ::
    "(string \<Rightarrow> (string \<times> string) option) \<Rightarrow> (string \<Rightarrow> string) \<Rightarrow> (string \<Rightarrow> string) \<Rightarrow> (string \<Rightarrow> json option) \<Rightarrow>
     (models_fetch \<Rightarrow> models_reply option) \<Rightarrow> models_query option \<Rightarrow> models_body response option" where
  "models_POST parse_url hostname decode parse reply body =
     (case models_request parse_url hostname body of
        Inl r \<Rightarrow> Some r
      | Inr req \<Rightarrow>
          (case reply req of
             None \<Rightarrow> Some (answer 502 Unreachable)
           | Some res \<Rightarrow>
               (if 300 \<le> mp_status res \<and> mp_status res < 400 then Some (answer 400 Redirects)
                else if \<not> (200 \<le> mp_status res \<and> mp_status res < 300) then Some (answer 502 (UpstreamStatus (mp_status res)))
                else map_option (listing_answer decode parse (mf_warning req)) (readCapped (mp_declared res) (mp_body res)))))"

section \<open>The read returns\<close>

text \<open>The stream brings something again and again: not only empty chunks from some point on.\<close>

definition progresses :: "(nat \<Rightarrow> read_event) \<Rightarrow> bool" where
  "progresses stream \<longleftrightarrow> (\<forall>k. \<exists>j\<ge>k. stream j \<noteq> Chunk [])"

text \<open>The bytes of the first \<open>n\<close> reads.\<close>

fun received :: "(nat \<Rightarrow> read_event) \<Rightarrow> nat \<Rightarrow> string" where
  "received stream 0 = []"
| "received stream (Suc n) = received stream n @ (case stream n of Chunk c \<Rightarrow> c | _ \<Rightarrow> [])"

lemma read_empty: "(\<And>i. k \<le> i \<Longrightarrow> i < k + d \<Longrightarrow> stream i = Chunk []) \<Longrightarrow> sz \<le> BODY_MAX_BYTES \<Longrightarrow>
    read_loop stream k sz chunks = read_loop stream (k + d) sz chunks \<and> received stream (k + d) = received stream k"
  by (induction d) (simp_all add: read_loop.simps [of stream "k + _"])

lemma read_returns:
  assumes "progresses stream" and "sz \<le> BODY_MAX_BYTES" and "chunks = received stream k" and "sz = length chunks"
  shows "\<exists>r n. read_loop stream k sz chunks = Some r \<and>
    (\<forall>t. r = Whole t \<longrightarrow> stream n = Finished \<and> t = received stream n \<and> length t \<le> BODY_MAX_BYTES)"
  using assms(2-4)
proof (induction "BODY_MAX_BYTES - sz" arbitrary: k sz chunks rule: less_induct)
  case less
  define j where "j = (LEAST j. k \<le> j \<and> stream j \<noteq> Chunk [])"
  from assms(1) have ex: "\<exists>j. k \<le> j \<and> stream j \<noteq> Chunk []" by (auto simp: progresses_def)
  have j: "k \<le> j" "stream j \<noteq> Chunk []" using LeastI_ex [OF ex] by (simp_all add: j_def)
  have gap: "stream i = Chunk []" if "k \<le> i" "i < k + (j - k)" for i
    using that j(1) not_less_Least [of i "\<lambda>j. k \<le> j \<and> stream j \<noteq> Chunk []"] by (auto simp: j_def)
  have "read_loop stream k sz chunks = read_loop stream (k + (j - k)) sz chunks \<and> received stream (k + (j - k)) = received stream k"
    by (rule read_empty [OF gap less.prems(1)])
  then have skip: "read_loop stream k sz chunks = read_loop stream j sz chunks" "received stream j = chunks"
    using j(1) less.prems(2) by auto
  show ?case
  proof (cases "stream j")
    case Finished
    with skip less.prems show ?thesis by (auto simp: read_loop.simps [of stream j])
  next
    case Failure
    with skip show ?thesis by (auto simp: read_loop.simps [of stream j])
  next
    case (Chunk c)
    show ?thesis
    proof (cases "sz + length c > BODY_MAX_BYTES")
      case True
      with skip Chunk show ?thesis by (auto simp: read_loop.simps [of stream j])
    next
      case False
      have "c \<noteq> []" using j(2) Chunk by simp
      then have "BODY_MAX_BYTES - (sz + length c) < BODY_MAX_BYTES - sz" using False by (cases c) auto
      moreover have "read_loop stream k sz chunks = read_loop stream (Suc j) (sz + length c) (chunks @ c)"
        using False skip Chunk by (simp add: read_loop.simps [of stream j])
      ultimately show ?thesis using less.hyps [of "sz + length c" "chunks @ c" "Suc j"] False less.prems skip Chunk by auto
    qed
  qed
qed

text \<open>C32. Listing the models of an endpoint always ends: whatever the endpoint sends, declared or not, in
  however many pieces and even without end, if it does not send empty pieces for ever, the request is
  answered; and a body that is read as a whole has at most 16 MiB and is all that was sent.\<close>

theorem models_listing_returns:
  assumes "\<And>req res stream. reply req = Some res \<Longrightarrow> mp_body res = Some stream \<Longrightarrow> progresses stream"
  shows "(\<exists>r. models_POST parse_url hostname decode parse reply body = Some r) \<and>
    (progresses stream \<and> readCapped declared (Some stream) = Some (Whole t) \<longrightarrow>
       length t \<le> 16777216 \<and> (\<exists>n. stream n = Finished \<and> t = received stream n))"
proof
  have "\<exists>r. readCapped (mp_declared res) (mp_body res) = Some r" if res: "reply req = Some res" for req res
  proof (cases "mp_body res")
    case (Some stream)
    from read_returns [OF assms [OF res Some], of 0 "[]" 0] Some show ?thesis by (auto simp: readCapped_def)
  qed (auto simp: readCapped_def)
  then show "\<exists>r. models_POST parse_url hostname decode parse reply body = Some r"
    by (auto simp: models_POST_def split: sum.split option.split)
  show "progresses stream \<and> readCapped declared (Some stream) = Some (Whole t) \<longrightarrow>
      length t \<le> 16777216 \<and> (\<exists>n. stream n = Finished \<and> t = received stream n)"
    using read_returns [of stream 0 "[]" 0] by (auto simp: readCapped_def BODY_MAX_BYTES_def split: if_splits)
qed

text \<open>The list is the non-empty ids of the answer, each once, in order.\<close>

lemma model_ids_sorted: "set (model_ids data) = entry_id ` set data - {[]}" "sorted_wrt (<) (model_ids data)"
  by (auto simp: model_ids_def strict_sorted_iff)

text \<open>An endpoint that never stops sending.\<close>

definition endless :: "models_fetch \<Rightarrow> models_reply option" where
  "endless req = Some \<lparr>mp_status = 200, mp_declared = None, mp_body = Some (\<lambda>_. Chunk ''x'')\<rparr>"

theorem models_listing_returns_witness:
  "\<exists>r. models_POST sample_parse_url (drop 8) (\<lambda>b. b) (\<lambda>_. None) endless
     (Some \<lparr>mq_endpoint = Some (RawText ''https://b''), mq_apiKey = None, mq_public = Some True\<rparr>) = Some r"
proof -
  have "progresses stream" if "endless req = Some res" "mp_body res = Some stream" for req res stream
    using that by (auto simp: endless_def progresses_def)
  then show ?thesis by (intro models_listing_returns [THEN conjunct1])
qed

end
