(* ===== verification/Options.thy ===== *)
theory Options
  imports Inference_Api "HOL-Library.Char_ord" "HOL-Library.List_Lexorder"
begin

text \<open>
  What the create wizards are offered: the namespaces (\<open>lib/namespaces.ts\<close>, \<open>app/api/namespaces/route.ts\<close>)
  and the catalogues of the two wizards (\<open>app/api/inferenceservices/options/route.ts\<close>,
  \<open>app/api/devenvironments/options/route.ts\<close>). \<open>to_number\<close> is \<open>Number\<close> of a text and \<open>compare\<close> is
  \<open>localeCompare\<close>. \<open>sort()\<close> is the order of the code units.
\<close>

section \<open>Namespaces\<close>

definition DEFAULT_NAMESPACE :: string where "DEFAULT_NAMESPACE = ''default''"

definition configured_namespace :: "env \<Rightarrow> string" where
  "configured_namespace env = trim (nullish (env ''CUBESTACK_DEFAULT_NAMESPACE'') [])"

definition offeredNamespaces :: "env \<Rightarrow> string list \<Rightarrow> string list" where
  "offeredNamespaces env names =
     (let configured = configured_namespace env;
          offered = DEFAULT_NAMESPACE # (if configured \<noteq> [] then [configured] else [])
      in sort (filter (\<lambda>n. List.member offered n) names))"

definition defaultNamespaceOf :: "env \<Rightarrow> string list \<Rightarrow> string option" where
  "defaultNamespaceOf env names =
     (let configured = configured_namespace env
      in if configured \<noteq> [] \<and> List.member names configured then Some configured
         else if List.member names DEFAULT_NAMESPACE then Some DEFAULT_NAMESPACE
         else nth_opt names 0)"

subsection \<open>Creating one\<close>

definition NAMESPACE_RE :: rx where
  "NAMESPACE_RE = Seq (Cls lower_alnum) (Opt (Seq (UpTo 61 (Cls label_char)) (Cls lower_alnum)))"

definition isConflict :: "k8s_error \<Rightarrow> bool" where
  "isConflict e \<longleftrightarrow> e_code e = Some (NumCode 409) \<or> e_statusCode e = Some (NumCode 409)"

record namespace_meta =
  nm_name :: "string option"
  nm_labels :: "(string \<times> string) list"
  nm_annotations :: "(string \<times> string) list"
  nm_owners :: nat

definition managed_namespace :: "string \<Rightarrow> namespace_meta \<Rightarrow> bool" where
  "managed_namespace name m \<longleftrightarrow>
     startsWith name ''kube-'' \<or>
     truthy (map_of (nm_labels m) ''app.kubernetes.io/managed-by'') \<or>
     truthy (map_of (nm_labels m) ''ai.cubestack.io/managed-by'') \<or>
     truthy (map_of (nm_annotations m) ''meta.helm.sh/release-name'') \<or>
     truthy (map_of (nm_annotations m) ''meta.helm.sh/release-namespace'') \<or>
     nm_owners m \<noteq> 0"

datatype namespace_body = NamespaceInvalid | NamespaceManaged string | NamespaceFailed string | NamespaceReady string

record namespace_api =
  na_create :: "string \<Rightarrow> k8s_error + unit"
  na_list :: "string \<Rightarrow> k8s_error + namespace_meta list"

text \<open>The body is the name it carries when that is a text. The calls are the creation and the listing.\<close>

definition namespaces_POST :: "namespace_api \<Rightarrow> string option \<Rightarrow> namespace_body response" where
  "namespaces_POST api body =
     (let name = (case body of None \<Rightarrow> [] | Some n \<Rightarrow> trim n)
      in if \<not> rx_match NAMESPACE_RE name then answer 400 NamespaceInvalid
         else case na_create api name of
             Inr _ \<Rightarrow> answer 200 (NamespaceReady name)
           | Inl e \<Rightarrow>
               (if isConflict e
                then (case na_list api name of
                    Inl e' \<Rightarrow> answer 500 (NamespaceFailed (e_message e'))
                  | Inr nss \<Rightarrow>
                      (case find (\<lambda>m. nm_name m = Some name) nss of
                         None \<Rightarrow> answer 500 (NamespaceFailed (''Namespace metadata unavailable: '' @ name))
                       | Some m \<Rightarrow>
                           (if managed_namespace name m then answer 409 (NamespaceManaged name)
                            else answer 200 (NamespaceReady name))))
                else answer 500 (NamespaceFailed (e_message e))))"

section \<open>Nodes\<close>

record k8s_node =
  nd_name :: "string option"
  nd_labels :: "(string \<times> string) list"
  nd_unschedulable :: bool
  nd_taints :: "string option list"
  nd_conditions :: "(string option \<times> string option) list"
  nd_allocatable :: "(string \<times> string) list"
  nd_capacity :: "(string \<times> string) list"
  nd_kubelet :: "string option"

definition schedulable :: "k8s_node \<Rightarrow> bool" where
  "schedulable n =
     (if nd_unschedulable n then False
      else if list_ex (\<lambda>t. t = Some ''NoSchedule'' \<or> t = Some ''NoExecute'') (nd_taints n) then False
      else list_ex (\<lambda>c. fst c = Some ''Ready'' \<and> snd c = Some ''True'') (nd_conditions n))"

text \<open>A number above zero; infinity is taken as positive.\<close>

fun positive_number :: "js_number \<Rightarrow> bool" where
  "positive_number (Finite q) = (0 < q)"
| "positive_number Infinite = True"
| "positive_number NaN = False"

definition by_name :: "(string \<Rightarrow> string \<Rightarrow> int) \<Rightarrow> ('a \<Rightarrow> string) \<Rightarrow> 'a list \<Rightarrow> 'a list" where
  "by_name compare name xs = sort_by (\<lambda>a b. compare (name a) (name b)) xs"

section \<open>The development-environment wizard\<close>

definition GPU_VENDORS :: "gpu_vendor list" where "GPU_VENDORS = [Nvidia, Metax]"

fun gpu_label :: "gpu_vendor \<Rightarrow> string" where
  "gpu_label Nvidia = ''nvidia.com/gpu.product''"
| "gpu_label Metax = ''metax-tech.com/gpu.product''"

fun gpu_resource :: "gpu_vendor \<Rightarrow> string" where
  "gpu_resource Nvidia = ''nvidia.com/gpu''"
| "gpu_resource Metax = ''metax-tech.com/gpu''"

definition has_device :: "(string \<Rightarrow> js_number) \<Rightarrow> k8s_node \<Rightarrow> gpu_vendor \<Rightarrow> bool" where
  "has_device to_number n v =
     (case map_of (nd_allocatable n) (gpu_resource v) of None \<Rightarrow> False | Some q \<Rightarrow> positive_number (to_number q))"

definition hostable :: "(string \<Rightarrow> js_number) \<Rightarrow> k8s_node \<Rightarrow> gpu_vendor \<Rightarrow> bool" where
  "hostable to_number n v \<longleftrightarrow> schedulable n \<and> has_device to_number n v"

definition advertisedModels :: "(string \<Rightarrow> js_number) \<Rightarrow> k8s_node list \<Rightarrow> gpu_vendor \<Rightarrow> string list" where
  "advertisedModels to_number nodes v =
     sort (remdups (map the (filter truthy (map (\<lambda>n. map_of (nd_labels n) (gpu_label v)) (filter (\<lambda>n. hostable to_number n v) nodes)))))"

record dev_node =
  dn_name :: string
  dn_vendors :: "gpu_vendor list"

definition dev_offeredNodes :: "(string \<Rightarrow> js_number) \<Rightarrow> (string \<Rightarrow> string \<Rightarrow> int) \<Rightarrow> k8s_node list \<Rightarrow> dev_node list" where
  "dev_offeredNodes to_number compare nodes =
     by_name compare dn_name (filter (\<lambda>n. dn_name n \<noteq> [])
       (map (\<lambda>n. \<lparr>dn_name = nullish (nd_name n) [], dn_vendors = filter (has_device to_number n) GPU_VENDORS\<rparr>)
         (filter schedulable nodes)))"

record dev_options =
  do_namespaces :: "string list"
  do_defaultNamespace :: "string option"
  do_images :: "dev_image list"
  do_models :: "gpu_vendor \<Rightarrow> string list"
  do_nodes :: "dev_node list"

text \<open>The answers of the cluster: \<open>None\<close> when a read fails.\<close>

record options_api =
  oa_namespaces :: "string option list option"
  oa_nodes :: "k8s_node list option"

definition namespace_names :: "string option list \<Rightarrow> string list" where
  "namespace_names nss = map the (filter truthy nss)"

definition dev_options_GET ::
    "(string \<Rightarrow> js_number) \<Rightarrow> (string \<Rightarrow> string \<Rightarrow> int) \<Rightarrow> env \<Rightarrow> options_api \<Rightarrow> dev_options option response" where
  "dev_options_GET to_number compare env api =
     (case oa_namespaces api of
        None \<Rightarrow> answer 500 None
      | Some nss \<Rightarrow>
          (let names = offeredNamespaces env (namespace_names nss); nodes = nullish (oa_nodes api) []
           in answer 200 (Some
             \<lparr>do_namespaces = names, do_defaultNamespace = defaultNamespaceOf env names, do_images = DEV_IMAGES env,
              do_models = advertisedModels to_number nodes, do_nodes = dev_offeredNodes to_number compare nodes\<rparr>)))"

section \<open>The inference wizard\<close>

fun RDMA_RESOURCE_NAMES :: "bool \<Rightarrow> string" where
  "RDMA_RESOURCE_NAMES True = ''rdma/roce_shared_devices''"
| "RDMA_RESOURCE_NAMES False = ''rdma/ib_shared_devices''"

definition allocatableCount :: "(string \<Rightarrow> js_number) \<Rightarrow> k8s_node \<Rightarrow> string \<Rightarrow> rat" where
  "allocatableCount to_number n resource =
     (case map_of (nd_allocatable n) resource of
        None \<Rightarrow> 0
      | Some raw \<Rightarrow> (case to_number raw of Finite q \<Rightarrow> if 0 < q then q else 0 | _ \<Rightarrow> 0))"

record node_option =
  no_name :: string
  no_gpuModels :: "(gpu_vendor \<times> string) list"
  no_gpu :: "(gpu_vendor \<times> rat) list"
  no_roce :: rat
  no_infiniband :: rat

text \<open>The two tables list MetaX first.\<close>

definition node_option_of :: "(string \<Rightarrow> js_number) \<Rightarrow> k8s_node \<Rightarrow> node_option" where
  "node_option_of to_number n =
     \<lparr>no_name = nullish (nd_name n) [],
      no_gpuModels = concat (map (\<lambda>v. case map_of (nd_labels n) (gpu_label v) of
          None \<Rightarrow> [] | Some m \<Rightarrow> if m \<noteq> [] then [(v, m)] else []) [Metax, Nvidia]),
      no_gpu = concat (map (\<lambda>v. let c = allocatableCount to_number n (gpu_resource v) in if 0 < c then [(v, c)] else []) [Metax, Nvidia]),
      no_roce = allocatableCount to_number n (RDMA_RESOURCE_NAMES True),
      no_infiniband = allocatableCount to_number n (RDMA_RESOURCE_NAMES False)\<rparr>"

definition offeredNodes :: "(string \<Rightarrow> js_number) \<Rightarrow> (string \<Rightarrow> string \<Rightarrow> int) \<Rightarrow> k8s_node list \<Rightarrow> node_option list" where
  "offeredNodes to_number compare nodes =
     by_name compare no_name (filter (\<lambda>n. no_name n \<noteq> []) (map (node_option_of to_number) (filter schedulable nodes)))"

definition SERVING_MODE_LABEL :: string where
  "SERVING_MODE_LABEL = ''inference.ai.cubestack.io/serving-mode''"

text \<open>A profile with what the wizard reads besides: its labels and the descriptions of its overrides, in
  their order.\<close>

record option_profile = profile +
  pf_labels :: "(string \<times> string) list"
  pf_descriptions :: "string option list"

record role_option =
  rp_name :: string
  rp_vendor :: "string option"
  rp_models :: "string list"
  rp_gpuPerPod :: "count_field option"

record override_option =
  oo_name :: string
  oo_type :: string
  oo_min :: "rat option"
  oo_max :: "rat option"
  oo_enum :: "(rat + string) list option"
  oo_default :: "override_value option"
  oo_description :: "string option"

record profile_option =
  po_name :: string
  po_engine :: "string option"
  po_engineVersion :: "string option"
  po_vendor :: "string option"
  po_models :: "string list"
  po_architectures :: "string list"
  po_quantizations :: "string list"
  po_servingMode :: "string option"
  po_gpuPerPod :: rat
  po_roles :: "role_option list"
  po_overrides :: "override_option list"

definition count_number :: "(string \<Rightarrow> js_number) \<Rightarrow> count_field option \<Rightarrow> js_number" where
  "count_number to_number c = (case c of None \<Rightarrow> Finite 0 | Some (CNum q) \<Rightarrow> Finite q | Some (CStr s) \<Rightarrow> to_number s)"

fun js_max :: "js_number \<Rightarrow> js_number \<Rightarrow> js_number" where
  "js_max (Finite a) (Finite b) = Finite (max a b)"
| "js_max NaN _ = NaN"
| "js_max _ NaN = NaN"
| "js_max _ _ = Infinite"

definition max_gpu :: "(string \<Rightarrow> js_number) \<Rightarrow> profile_role list option \<Rightarrow> rat" where
  "max_gpu to_number roles =
     (case foldl (\<lambda>acc r. js_max acc (count_number to_number (ro_gpuPerPod r))) (Finite 0) (nullish roles []) of
        Finite q \<Rightarrow> q
      | _ \<Rightarrow> 0)"

definition role_option_of :: "accel option \<Rightarrow> profile_role \<Rightarrow> role_option" where
  "role_option_of profile_accel r =
     \<lparr>rp_name = nullish (ro_name r) [],
      rp_vendor = (case (case ro_accel r of None \<Rightarrow> None | Some a \<Rightarrow> ac_vendor a) of
          Some v \<Rightarrow> Some v | None \<Rightarrow> (case profile_accel of None \<Rightarrow> None | Some a \<Rightarrow> ac_vendor a)),
      rp_models = (case (case ro_accel r of None \<Rightarrow> None | Some a \<Rightarrow> ac_models a) of
          Some m \<Rightarrow> m | None \<Rightarrow> nullish (case profile_accel of None \<Rightarrow> None | Some a \<Rightarrow> ac_models a) []),
      rp_gpuPerPod = ro_gpuPerPod r\<rparr>"

definition override_option_of :: "profile_override \<times> string option \<Rightarrow> override_option" where
  "override_option_of o' =
     (case o' of (ov, description) \<Rightarrow>
        \<lparr>oo_name = nullish (ov_name ov) [], oo_type = nullish (ov_type ov) ''integer'', oo_min = ov_min ov, oo_max = ov_max ov,
         oo_enum = ov_enum ov, oo_default = ov_default ov, oo_description = description\<rparr>)"

definition profile_option_of :: "(string \<Rightarrow> js_number) \<Rightarrow> option_profile \<Rightarrow> profile_option" where
  "profile_option_of to_number p =
     \<lparr>po_name = nullish (pf_name p) ''?'', po_engine = pf_engine p, po_engineVersion = pf_engineVersion p,
      po_vendor = (case pf_accel p of None \<Rightarrow> None | Some a \<Rightarrow> ac_vendor a),
      po_models = nullish (case pf_accel p of None \<Rightarrow> None | Some a \<Rightarrow> ac_models a) [],
      po_architectures = nullish (case pf_requirements p of None \<Rightarrow> None | Some r \<Rightarrow> fst r) [],
      po_quantizations = nullish (case pf_requirements p of None \<Rightarrow> None | Some r \<Rightarrow> snd r) [],
      po_servingMode = map_of (pf_labels p) SERVING_MODE_LABEL,
      po_gpuPerPod = max_gpu to_number (pf_roles p),
      po_roles = map (role_option_of (pf_accel p)) (nullish (pf_roles p) []),
      po_overrides = map override_option_of (zip (nullish (pf_overrides p) []) (pf_descriptions p))\<rparr>"

record version_option =
  vo_name :: string
  vo_model :: "string option"
  vo_version :: "string option"
  vo_architecture :: "string option"
  vo_quantization :: "string option"

record listed_version =
  lv_name :: "string option"
  lv_model :: "string option"
  lv_version :: "string option"
  lv_architecture :: "string option"
  lv_quantization :: "string option"

definition version_option_of :: "listed_version \<Rightarrow> version_option" where
  "version_option_of v =
     \<lparr>vo_name = nullish (lv_name v) ''?'', vo_model = lv_model v, vo_version = lv_version v,
      vo_architecture = lv_architecture v, vo_quantization = lv_quantization v\<rparr>"

record create_options =
  co_namespaces :: "string list"
  co_defaultNamespace :: "string option"
  co_nodes :: "node_option list"
  co_profiles :: "profile_option list"
  co_versions :: "version_option list"

record isvc_options_api = options_api +
  oa_profiles :: "option_profile list option"
  oa_versions :: "listed_version list option"

definition isvc_options_GET ::
    "(string \<Rightarrow> js_number) \<Rightarrow> (string \<Rightarrow> string \<Rightarrow> int) \<Rightarrow> env \<Rightarrow> isvc_options_api \<Rightarrow> create_options option response" where
  "isvc_options_GET to_number compare env api =
     (case (oa_namespaces api, oa_profiles api, oa_versions api) of
        (Some nss, Some profiles, Some versions) \<Rightarrow>
          (let names = offeredNamespaces env (namespace_names nss); nodes = nullish (oa_nodes api) []
           in answer 200 (Some
             \<lparr>co_namespaces = names, co_defaultNamespace = defaultNamespaceOf env names,
              co_nodes = offeredNodes to_number compare nodes, co_profiles = map (profile_option_of to_number) profiles,
              co_versions = map version_option_of versions\<rparr>))
      | _ \<Rightarrow> answer 500 None)"

section \<open>What is offered\<close>

lemma offeredNamespaces_set:
  "set (offeredNamespaces env names) = {n \<in> set names. n = DEFAULT_NAMESPACE \<or> configured_namespace env \<noteq> [] \<and> n = configured_namespace env}"
  by (auto simp: offeredNamespaces_def Let_def)

lemma defaultNamespaceOf_offered: "defaultNamespaceOf env names = Some d \<Longrightarrow> d \<in> set names"
  by (auto simp: defaultNamespaceOf_def Let_def nth_opt_def split: if_splits)

lemma defaultNamespaceOf_None: "defaultNamespaceOf env names = None \<longleftrightarrow> names = []"
  by (auto simp: defaultNamespaceOf_def Let_def nth_opt_def)

lemma advertisedModels_iff:
  "m \<in> set (advertisedModels to_number nodes v) \<longleftrightarrow>
     m \<noteq> [] \<and> (\<exists>n\<in>set nodes. schedulable n \<and> has_device to_number n v \<and> map_of (nd_labels n) (gpu_label v) = Some m)"
  by (force simp: advertisedModels_def hostable_def elim: truthyE)

lemma map_insert_by: "map f (insert_by (\<lambda>y x. p (f y) (f x)) x ys) = insert_by p (f x) (map f ys)"
  by (induction ys) auto

lemma map_by_name: "map name (by_name compare name xs) = sort_by compare (map name xs)"
  by (induction xs) (simp_all add: by_name_def sort_by_def map_insert_by [of name "\<lambda>a b. compare a b < 0"])

lemma set_by_name: "set (by_name compare name xs) = set xs"
  by (induction xs) (simp_all add: by_name_def sort_by_def set_insert_by)

text \<open>Cluster facts the wizards rely on: nodes have names, and what they can allocate is a finite number.\<close>

definition nodes_ok :: "(string \<Rightarrow> js_number) \<Rightarrow> k8s_node list \<Rightarrow> bool" where
  "nodes_ok to_number nodes \<longleftrightarrow>
     list_all (\<lambda>n. truthy (nd_name n) \<and> list_all (\<lambda>(_, q). finite_of (to_number q) \<noteq> None) (nd_allocatable n)) nodes"

lemma has_device_count:
  assumes "list_all (\<lambda>(_, q). finite_of (to_number q) \<noteq> None) (nd_allocatable n)"
  shows "has_device to_number n v \<longleftrightarrow> 0 < allocatableCount to_number n (gpu_resource v)"
proof (cases "map_of (nd_allocatable n) (gpu_resource v)")
  case None
  then show ?thesis by (simp add: has_device_def allocatableCount_def)
next
  case (Some q)
  then have "finite_of (to_number q) \<noteq> None" using assms map_of_SomeD [OF Some] by (auto simp: list_all_iff)
  then obtain x where "to_number q = Finite x" by (cases "to_number q") auto
  with Some show ?thesis by (simp add: has_device_def allocatableCount_def)
qed

lemma option_models: "(v, m) \<in> set (no_gpuModels (node_option_of to_number n)) \<longleftrightarrow> m \<noteq> [] \<and> map_of (nd_labels n) (gpu_label v) = Some m"
  by (cases v) (auto simp: node_option_of_def split: option.splits)

lemma option_counts: "(\<exists>k. (v, k) \<in> set (no_gpu (node_option_of to_number n))) \<longleftrightarrow> 0 < allocatableCount to_number n (gpu_resource v)"
  by (cases v) (auto simp: node_option_of_def Let_def)


definition sample_node :: k8s_node where
  "sample_node =
     \<lparr>nd_name = Some ''n1'', nd_labels = [(''nvidia.com/gpu.product'', ''H20'')], nd_unschedulable = False, nd_taints = [],
      nd_conditions = [(Some ''Ready'', Some ''True'')], nd_allocatable = [(''nvidia.com/gpu'', ''3'')], nd_capacity = [], nd_kubelet = None\<rparr>"

definition sample_options :: isvc_options_api where
  "sample_options = \<lparr>oa_namespaces = Some [Some ''monitoring'', Some ''default''], oa_nodes = Some [sample_node], oa_profiles = Some [], oa_versions = Some []\<rparr>"


end
