(* ===== verification/Overview.thy ===== *)
theory Overview
  imports Options
begin

text \<open>
  The overview of the cluster (\<open>app/api/overview/route.ts\<close>): nodes and GPU capacity, what the inference
  services and development environments have committed of it, and the trend of the last day. A number is
  one of the language: what does not read as a number is \<open>NaN\<close> and spreads.
\<close>

section \<open>Numbers\<close>

fun js_add :: "js_number \<Rightarrow> js_number \<Rightarrow> js_number" where
  "js_add (Finite a) (Finite b) = Finite (a + b)"
| "js_add NaN _ = NaN"
| "js_add _ NaN = NaN"
| "js_add _ _ = Infinite"

fun js_mul :: "js_number \<Rightarrow> js_number \<Rightarrow> js_number" where
  "js_mul (Finite a) (Finite b) = Finite (a * b)"
| "js_mul NaN _ = NaN"
| "js_mul _ NaN = NaN"
| "js_mul (Finite a) Infinite = (if a = 0 then NaN else Infinite)"
| "js_mul Infinite (Finite b) = (if b = 0 then NaN else Infinite)"
| "js_mul Infinite Infinite = Infinite"

text \<open>\<open>parseInt(s, 10) || 0\<close>.\<close>

definition parse_int :: "string \<Rightarrow> int" where
  "parse_int s =
     (let t = dropWhile js_space s; neg = startsWith t ''-''; u = (if startsWith t ''-'' \<or> startsWith t ''+'' then tl t else t)
      in (if neg then - int (string_to_nat (takeWhile digit u)) else int (string_to_nat (takeWhile digit u))))"

section \<open>Capacity\<close>

definition gpuVendor :: "string \<Rightarrow> string option" where
  "gpuVendor name =
     (case find_index ((=) CHR ''/'') (rev name) of
        None \<Rightarrow> (if name = ''gpu'' then Some ''gpu'' else None)
      | Some i \<Rightarrow> (let slash = length name - 1 - i
          in if drop (slash + 1) name = ''gpu'' then Some (take slash name) else None))"

definition conditionTrue :: "(string option \<times> string option) list \<Rightarrow> string \<Rightarrow> bool" where
  "conditionTrue cs type \<longleftrightarrow> list_ex (\<lambda>c. fst c = Some type \<and> snd c = Some ''True'') cs"

text \<open>The capacity laid over what is allocatable.\<close>

definition node_resources :: "k8s_node \<Rightarrow> (string \<times> string) list" where
  "node_resources n = foldl (\<lambda>es (k, v). obj_set es k v) [] (nd_allocatable n @ nd_capacity n)"

definition gpu_entries :: "k8s_node \<Rightarrow> (string \<times> int) list" where
  "gpu_entries n =
     concat (map (\<lambda>(name, value). case gpuVendor name of
         None \<Rightarrow> [] | Some v \<Rightarrow> if v \<noteq> [] then [(v, parse_int value)] else []) (node_resources n))"

definition gpuCapacity :: "k8s_node list \<Rightarrow> int \<times> nat" where
  "gpuCapacity nodes =
     (let found = concat (map gpu_entries nodes) in (sum_list (map snd found), length (remdups (map fst found))))"

definition clusterVersion :: "k8s_node list \<Rightarrow> string option" where
  "clusterVersion nodes =
     (case nodes of
        [] \<Rightarrow> None
      | n # _ \<Rightarrow>
          (if \<not> truthy (nd_kubelet n) then None
           else
             (let raw = the (nd_kubelet n);
                  parts = split_char CHR ''.'' (if startsWith raw ''v'' then tl raw else raw)
              in case parts of
                   major # minor # _ \<Rightarrow> (if major = [] \<or> minor = [] then None else Some (''v'' @ major @ ''.'' @ minor))
                 | _ \<Rightarrow> None)))"

section \<open>What is committed\<close>

record overview_role =
  or_name :: "string option"
  or_replicas :: "rat option"
  or_groupSize :: "rat option"

record overview_isvc =
  oi_profileRef :: "string option"
  oi_phase :: "string option"
  oi_roles :: "overview_role list"

text \<open>The outer option is the GPU block, the inner one its count.\<close>

record overview_env =
  oe_gpu :: "rat option option"
  oe_phase :: "string option"

text \<open>A profile: its name and, for each role, its name and GPUs per pod.\<close>

record overview_profile =
  op_name :: "string option"
  op_roles :: "(string option \<times> count_field option) list"

definition profileRoleGpu :: "overview_profile list \<Rightarrow> string \<Rightarrow> string \<Rightarrow> count_field option" where
  "profileRoleGpu profiles ref role =
     (case find (\<lambda>p. nullish (op_name p) [] = ref) (rev profiles) of
        None \<Rightarrow> None
      | Some p \<Rightarrow> (case find (\<lambda>r. nullish (fst r) [] = role) (rev (op_roles p)) of None \<Rightarrow> None | Some r \<Rightarrow> snd r))"

definition role_gpus :: "(string \<Rightarrow> js_number) \<Rightarrow> overview_profile list \<Rightarrow> overview_isvc \<Rightarrow> overview_role \<Rightarrow> js_number" where
  "role_gpus to_number profiles s r =
     js_mul (js_mul (Finite (nullish (or_replicas r) 0)) (Finite (nullish (or_groupSize r) 1)))
       (count_number to_number (profileRoleGpu profiles (nullish (oi_profileRef s) []) (nullish (or_name r) [])))"

definition inferenceGpus :: "(string \<Rightarrow> js_number) \<Rightarrow> overview_profile list \<Rightarrow> overview_isvc list \<Rightarrow> js_number" where
  "inferenceGpus to_number profiles isvcs =
     foldl (\<lambda>acc s. foldl (\<lambda>acc r. js_add acc (role_gpus to_number profiles s r)) acc (oi_roles s)) (Finite 0) isvcs"

definition env_gpus :: "overview_env \<Rightarrow> rat" where
  "env_gpus e = (case oe_gpu e of None \<Rightarrow> 0 | Some n \<Rightarrow> nullish n 1)"

definition computeGpus :: "overview_env list \<Rightarrow> rat" where
  "computeGpus envs = sum_list (map env_gpus envs)"

section \<open>The trend\<close>

definition TREND_POINTS :: nat where "TREND_POINTS = 48"
definition TREND_STEP_SECONDS :: int where "TREND_STEP_SECONDS = 1800"

definition padSeries :: "(string \<Rightarrow> js_number) \<Rightarrow> (rat \<times> string) list \<Rightarrow> int \<Rightarrow> int \<Rightarrow> nat \<Rightarrow> js_number list" where
  "padSeries to_number values start step points =
     fill_gaps (Finite 0) (foldl (place_sample to_number start step points) (replicate points NaN) values)"

definition trend_range :: "(string \<Rightarrow> js_number) \<Rightarrow> int \<Rightarrow> (rat \<times> string) list option fetched \<Rightarrow> unit + js_number list option" where
  "trend_range to_number start a =
     (case a of
        Fetched None \<Rightarrow> Inr None
      | Fetched (Some values) \<Rightarrow>
          Inr (if values = [] then None else Some (padSeries to_number values start TREND_STEP_SECONDS TREND_POINTS))
      | _ \<Rightarrow> Inl ())"

text \<open>\<open>util\<close> and \<open>mem\<close> are Prometheus' answers to the two queries, for a range given by its start and end.\<close>

definition loadTrend ::
    "(string \<Rightarrow> js_number) \<Rightarrow> int \<Rightarrow> (int \<Rightarrow> int \<Rightarrow> (rat \<times> string) list option fetched) \<Rightarrow>
     (int \<Rightarrow> int \<Rightarrow> (rat \<times> string) list option fetched) \<Rightarrow> unit + (js_number list \<times> js_number list) option" where
  "loadTrend to_number now util mem =
     (let start = now - int TREND_POINTS * TREND_STEP_SECONDS
      in case (trend_range to_number start (util start now), trend_range to_number start (mem start now)) of
           (Inr (Some u), Inr (Some m)) \<Rightarrow> Inr (Some (u, m))
         | (Inr _, Inr _) \<Rightarrow> Inr None
         | _ \<Rightarrow> Inl ())"

section \<open>The summary\<close>

record overview_summary =
  sm_nodes :: nat
  sm_readyNodes :: nat
  sm_version :: "string option"
  sm_vendors :: nat
  sm_totalCards :: int
  sm_compute :: rat
  sm_inference :: js_number
  sm_allocated :: js_number
  sm_free :: js_number
  sm_isvcs :: nat
  sm_isvcReady :: nat
  sm_isvcProgressing :: nat
  sm_envs :: nat
  sm_envRunning :: nat
  sm_envStopped :: nat
  sm_trend :: "(js_number list \<times> js_number list) option"

record overview_api =
  ow_nodes :: "k8s_node list option"
  ow_isvcs :: "overview_isvc list option"
  ow_envs :: "overview_env list option"
  ow_profiles :: "overview_profile list option"

definition phase_count :: "('a \<Rightarrow> string option) \<Rightarrow> string \<Rightarrow> 'a list \<Rightarrow> nat" where
  "phase_count phase p xs = length (filter (\<lambda>x. phase x = Some p) xs)"

definition free_cards :: "int \<Rightarrow> js_number \<Rightarrow> js_number" where
  "free_cards cards allocated =
     (case allocated of Finite a \<Rightarrow> Finite (max 0 (of_int cards - a)) | Infinite \<Rightarrow> Finite 0 | NaN \<Rightarrow> NaN)"

definition overview_GET ::
    "(string \<Rightarrow> js_number) \<Rightarrow> int \<Rightarrow> (int \<Rightarrow> int \<Rightarrow> (rat \<times> string) list option fetched) \<Rightarrow>
     (int \<Rightarrow> int \<Rightarrow> (rat \<times> string) list option fetched) \<Rightarrow> overview_api \<Rightarrow> overview_summary option response" where
  "overview_GET to_number now util mem api =
     (case (ow_nodes api, ow_isvcs api, ow_envs api, ow_profiles api) of
        (Some nodes, Some isvcs, Some envs, Some profiles) \<Rightarrow>
          (let inference = inferenceGpus to_number profiles isvcs; compute = computeGpus envs;
               allocated = js_add (Finite compute) inference; (totalCards, vendors) = gpuCapacity nodes
           in answer 200 (Some
             \<lparr>sm_nodes = length nodes, sm_readyNodes = length (filter (\<lambda>n. conditionTrue (nd_conditions n) ''Ready'') nodes),
              sm_version = clusterVersion nodes, sm_vendors = vendors, sm_totalCards = totalCards, sm_compute = compute,
              sm_inference = inference, sm_allocated = allocated, sm_free = free_cards totalCards allocated,
              sm_isvcs = length isvcs, sm_isvcReady = phase_count oi_phase ''Ready'' isvcs,
              sm_isvcProgressing = phase_count oi_phase ''Progressing'' isvcs, sm_envs = length envs,
              sm_envRunning = phase_count oe_phase ''Running'' envs, sm_envStopped = phase_count oe_phase ''Stopped'' envs,
              sm_trend = (case loadTrend to_number now util mem of Inl _ \<Rightarrow> None | Inr t \<Rightarrow> t)\<rparr>))
      | _ \<Rightarrow> answer 500 None)"

section \<open>The accounts\<close>

lemma js_add_NaN [simp]: "js_add x NaN = NaN"
  by (cases x) simp_all

lemma js_mul_NaN [simp]: "js_mul x NaN = NaN"
  by (cases x) simp_all

text \<open>All the roles of the services, each with its service.\<close>

definition running_roles :: "overview_isvc list \<Rightarrow> (overview_isvc \<times> overview_role) list" where
  "running_roles isvcs = concat (map (\<lambda>s. map (Pair s) (oi_roles s)) isvcs)"

lemma inferenceGpus_roles:
  "inferenceGpus to_number profiles isvcs = foldl js_add (Finite 0) (map (\<lambda>(s, r). role_gpus to_number profiles s r) (running_roles isvcs))"
proof -
  have "foldl (\<lambda>acc r. js_add acc (role_gpus to_number profiles s r)) a rs = foldl js_add a (map (role_gpus to_number profiles s) rs)" for a s rs
    by (induction rs arbitrary: a) simp_all
  then have "foldl (\<lambda>acc s. foldl (\<lambda>acc r. js_add acc (role_gpus to_number profiles s r)) acc (oi_roles s)) a isvcs =
      foldl js_add a (map (\<lambda>(s, r). role_gpus to_number profiles s r) (running_roles isvcs))" for a
    by (induction isvcs arbitrary: a) (simp_all add: running_roles_def comp_def)
  then show ?thesis by (simp add: inferenceGpus_def)
qed

lemma sum_finite: "foldl js_add (Finite a) (map (\<lambda>x. Finite (f x)) xs) = Finite (a + sum_list (map f xs))"
  by (induction xs arbitrary: a) (simp_all add: add.assoc)

lemma sum_NaN: "foldl js_add NaN xs = NaN"
  by (induction xs) simp_all

lemma sum_any_NaN: "NaN \<in> set xs \<Longrightarrow> foldl js_add a xs = NaN"
  by (induction xs arbitrary: a) (auto simp: sum_NaN)

text \<open>GPUs per pod of a role, when its profile gives a number.\<close>

definition pod_gpus :: "(string \<Rightarrow> js_number) \<Rightarrow> overview_profile list \<Rightarrow> overview_isvc \<times> overview_role \<Rightarrow> js_number" where
  "pod_gpus to_number profiles sr =
     count_number to_number (profileRoleGpu profiles (nullish (oi_profileRef (fst sr)) []) (nullish (or_name (snd sr)) []))"

definition role_cards :: "(string \<Rightarrow> js_number) \<Rightarrow> overview_profile list \<Rightarrow> overview_isvc \<times> overview_role \<Rightarrow> rat" where
  "role_cards to_number profiles sr =
     nullish (or_replicas (snd sr)) 0 * nullish (or_groupSize (snd sr)) 1 * the (finite_of (pod_gpus to_number profiles sr))"

lemma role_gpus_finite:
  "finite_of (pod_gpus to_number profiles (s, r)) \<noteq> None \<Longrightarrow> role_gpus to_number profiles s r = Finite (role_cards to_number profiles (s, r))"
  by (cases "pod_gpus to_number profiles (s, r)") (auto simp: role_gpus_def role_cards_def pod_gpus_def)

lemma length_padSeries: "length (padSeries to_number vs start step points) = points"
  by (simp add: padSeries_def)

lemma padSeries_no_NaN: "NaN \<notin> set (padSeries to_number vs start step points)"
proof -
  have "NaN \<notin> set (fill_gaps d xs)" if "d \<noteq> NaN" for d xs using that by (induction d xs rule: fill_gaps.induct) auto
  then show ?thesis by (simp add: padSeries_def)
qed

lemma trend_shape:
  "loadTrend to_number now util mem = Inr (Some (u, m)) \<Longrightarrow> length u = 48 \<and> length m = 48 \<and> NaN \<notin> set u \<union> set m"
  by (auto simp: loadTrend_def trend_range_def Let_def TREND_POINTS_def length_padSeries padSeries_no_NaN
      split: sum.splits option.splits fetched.splits if_splits)

lemma phase_counts: "p \<noteq> q \<Longrightarrow> phase_count f p xs + phase_count f q xs \<le> length xs"
  by (induction xs) (auto simp: phase_count_def)


definition sample_overview :: "count_field \<Rightarrow> overview_api" where
  "sample_overview gpus =
     \<lparr>ow_nodes = Some [sample_node\<lparr>nd_capacity := [(''nvidia.com/gpu'', ''8'')]\<rparr>],
      ow_isvcs = Some [\<lparr>oi_profileRef = Some ''p'', oi_phase = Some ''Ready'', oi_roles = [\<lparr>or_name = Some ''w'', or_replicas = Some 2, or_groupSize = None\<rparr>]\<rparr>],
      ow_envs = Some [\<lparr>oe_gpu = Some None, oe_phase = Some ''Running''\<rparr>],
      ow_profiles = Some [\<lparr>op_name = Some ''p'', op_roles = [(Some ''w'', Some gpus)]\<rparr>]\<rparr>"


end
