(* ===== verification/Instance_Poll.thy ===== *)
theory Instance_Poll
  imports Prelude
begin

text \<open>
  The poll for the caller's instance (\<open>components/cubepilot/useInstancePoll.ts\<close>): a chain of asks, each
  armed by a timer after the answer to the one before. The effect's variables are the state, timers that
  have neither fired nor been cleared are a set of their handles, and the step relation has one rule for
  each thing that can happen to it.
\<close>

section \<open>The effect\<close>

definition INSTANCE_POLL_MS :: nat where "INSTANCE_POLL_MS = 5000"
definition INSTANCE_POLL_MAX_MS :: nat where "INSTANCE_POLL_MAX_MS = 15000"

record poll =
  pl_wait :: nat
  pl_timer :: "nat option"
  pl_stopped :: bool
  pl_asking :: bool
  pl_askAgain :: bool
  pl_live :: "nat set"
  pl_asks :: nat

text \<open>Handles are never used twice; \<open>fresh\<close> is the one the runtime gives out.\<close>

definition arm :: "nat \<Rightarrow> poll \<Rightarrow> poll" where
  "arm fresh p = p\<lparr>pl_timer := Some fresh, pl_live := insert fresh (pl_live p)\<rparr>"

definition clear_timer :: "poll \<Rightarrow> poll" where
  "clear_timer p = (case pl_timer p of None \<Rightarrow> p | Some t \<Rightarrow> p\<lparr>pl_live := pl_live p - {t}\<rparr>)"

text \<open>The part of \<open>tick\<close> up to the await; the number of asks in flight is kept.\<close>

definition tick :: "poll \<Rightarrow> poll" where
  "tick p = (if pl_stopped p \<or> pl_asking p then p else p\<lparr>pl_asking := True, pl_asks := Suc (pl_asks p)\<rparr>)"

text \<open>The part after it: \<open>exists\<close> is the answer, \<^const>\<open>None\<close> when it could not be told.\<close>

definition answered :: "nat \<Rightarrow> bool option \<Rightarrow> poll \<Rightarrow> poll" where
  "answered fresh exists p =
     (let p = p\<lparr>pl_asking := False, pl_asks := pl_asks p - 1\<rparr>
      in if pl_stopped p then p
         else
           (let p = p\<lparr>pl_wait := (if exists = Some False then min (pl_wait p * 2) INSTANCE_POLL_MAX_MS else INSTANCE_POLL_MS)\<rparr>
            in if pl_askAgain p then tick (p\<lparr>pl_askAgain := False\<rparr>) else arm fresh p))"

definition onVisibilityChange :: "bool \<Rightarrow> poll \<Rightarrow> poll" where
  "onVisibilityChange hidden p =
     (if hidden \<or> pl_stopped p then p
      else if pl_asking p then p\<lparr>pl_askAgain := True\<rparr>
      else tick (clear_timer p))"

definition stop_poll :: "poll \<Rightarrow> poll" where
  "stop_poll p = clear_timer (p\<lparr>pl_stopped := True\<rparr>)"

definition start_poll :: "nat \<Rightarrow> poll" where
  "start_poll fresh =
     arm fresh \<lparr>pl_wait = INSTANCE_POLL_MS, pl_timer = None, pl_stopped = False, pl_asking = False, pl_askAgain = False,
       pl_live = {}, pl_asks = 0\<rparr>"

inductive poll_step :: "poll \<Rightarrow> poll \<Rightarrow> bool" where
  fires: "t \<in> pl_live p \<Longrightarrow> poll_step p (tick (p\<lparr>pl_live := pl_live p - {t}\<rparr>))"
| answers: "0 < pl_asks p \<Longrightarrow> fresh \<notin> pl_live p \<Longrightarrow> poll_step p (answered fresh exists p)"
| visibility: "poll_step p (onVisibilityChange hidden p)"
| stops: "poll_step p (stop_poll p)"

inductive_cases poll_stepE: "poll_step p q"

section \<open>One chain\<close>

definition one_chain :: "poll \<Rightarrow> bool" where
  "one_chain p \<longleftrightarrow>
     pl_wait p \<in> {5000, 10000, 15000} \<and>
     pl_asks p = (if pl_asking p then 1 else 0) \<and>
     (if pl_stopped p then pl_live p = {}
      else if pl_asking p then pl_live p = {} else pl_timer p \<noteq> None \<and> pl_live p = {the (pl_timer p)} \<and> \<not> pl_askAgain p)"

lemmas poll_defs = tick_def answered_def onVisibilityChange_def stop_poll_def clear_timer_def arm_def Let_def
  INSTANCE_POLL_MS_def INSTANCE_POLL_MAX_MS_def

lemma one_chain_start: "one_chain (start_poll fresh)"
  by (simp add: one_chain_def start_poll_def poll_defs)

lemma one_chain_step: "poll_step p q \<Longrightarrow> one_chain p \<Longrightarrow> one_chain q"
  by (erule poll_stepE) (auto simp: one_chain_def poll_defs split: if_splits option.splits)

inductive reachable :: "poll \<Rightarrow> bool" where
  initial: "reachable (start_poll fresh)"
| later: "reachable p \<Longrightarrow> poll_step p q \<Longrightarrow> reachable q"

lemma reachable_one_chain: "reachable p \<Longrightarrow> one_chain p"
  by (induction rule: reachable.induct) (auto intro: one_chain_start one_chain_step)

text \<open>C34. There is one chain of asks, whatever order timers, answers, visibility changes and the unmount come
  in: there is never more than one ask in flight or one timer armed; while the poll is on there is exactly
  one of the two, so it neither doubles nor dies, and when it is off nothing is armed; and the wait is
  five, ten or fifteen seconds.\<close>

theorem poll_one_chain:
  assumes "reachable p"
  shows "pl_asks p + card (pl_live p) = (if pl_stopped p then pl_asks p else 1) \<and> pl_asks p \<le> 1 \<and>
    pl_wait p \<in> {5000, 10000, 15000}"
  using reachable_one_chain [OF assms] by (auto simp: one_chain_def split: if_splits)

theorem poll_one_chain_witness:
  "let p = onVisibilityChange False (answered 1 (Some False) (tick ((start_poll 0)\<lparr>pl_live := {}\<rparr>))) in
     pl_asks p + card (pl_live p) = 1 \<and> pl_wait p = 10000"
proof -
  let ?a = "tick ((start_poll 0)\<lparr>pl_live := {}\<rparr>)"
  have "poll_step (start_poll 0) (tick ((start_poll 0)\<lparr>pl_live := pl_live (start_poll 0) - {0}\<rparr>))"
    by (rule fires) (simp add: start_poll_def arm_def)
  moreover have "pl_live (start_poll 0) - {0} = {}" by (simp add: start_poll_def arm_def)
  ultimately have "reachable ?a" using later [OF initial] by simp
  moreover have "poll_step ?a (answered 1 (Some False) ?a)"
    by (rule answers) (simp_all add: start_poll_def poll_defs)
  ultimately have "reachable (answered 1 (Some False) ?a)" by (rule later)
  then have "reachable (onVisibilityChange False (answered 1 (Some False) ?a))" by (rule later) (rule visibility)
  from poll_one_chain [OF this] show ?thesis by (simp add: start_poll_def poll_defs)
qed

end
