(* ===== verification/Dev_Wizard.thy ===== *)
theory Dev_Wizard
  imports Options
begin

text \<open>
  The creation wizard of development environments (\<open>CreateWizard\<close> in \<open>app/dev-environments/page.tsx\<close>): the
  draft it holds, the handlers of its fields, the rules of its steps and the request it sends. The form is a
  machine whose events are what a reader can do to it; \<open>offered\<close> says which of them the page shows. The
  rules mirror those of the create route (\<open>Dev_Env\<close>), and the theorems compare the two.
\<close>

section \<open>The draft\<close>

record pvc_row =
  vr_id :: nat
  vr_pvcName :: string
  vr_mountPath :: string

record env_row =
  er_id :: nat
  er_name :: string
  er_value :: string

record port_row =
  qr_id :: nat
  qr_name :: string
  qr_port :: string
  qr_type :: port_type

datatype fabric = Roce | Infiniband

text \<open>The accelerator \<open>none\<close> is \<^const>\<open>None\<close>.\<close>

record draft =
  dr_name :: string
  dr_namespace :: string
  dr_type :: env_type
  dr_image :: string
  dr_accelerator :: "gpu_vendor option"
  dr_gpuCount :: js_number
  dr_gpuModel :: string
  dr_cpu :: string
  dr_memory :: string
  dr_storageGi :: js_number
  dr_pvcRetention :: retention
  dr_idle :: nat
  dr_idleCustom :: bool
  dr_idleMinutes :: string
  dr_runAsRoot :: bool
  dr_sudo :: bool
  dr_runtimeUser :: string
  dr_runAsUser :: string
  dr_runAsGroup :: string
  dr_mountPath :: string
  dr_pvcs :: "pvc_row list"
  dr_envs :: "env_row list"
  dr_args :: string
  dr_command :: string
  dr_ports :: "port_row list"
  dr_rdmaEnabled :: bool
  dr_rdmaType :: fabric
  dr_egressUnrestricted :: bool
  dr_nodeName :: string
  dr_sshEnabled :: bool
  dr_sshKeys :: string

definition PLATFORM_USER :: string where "PLATFORM_USER = ''user''"
definition PLATFORM_UID :: nat where "PLATFORM_UID = 1000"
definition PLATFORM_GID :: nat where "PLATFORM_GID = 1000"
definition WIZARD_TYPES :: "env_type list" where "WIZARD_TYPES = [Jupyter, Ssh]"
definition CPU_OPTIONS :: "string list" where "CPU_OPTIONS = [''1'', ''2'', ''4'', ''8'', ''16'']"
definition MEM_TIER :: "nat list" where "MEM_TIER = [1, 2, 4]"
definition IDLE_PRESETS :: "nat list" where "IDLE_PRESETS = [0, 1800, 3600, 14400]"
definition NEW_NAMESPACE :: string where "NEW_NAMESPACE = ''__new__''"

definition gibibytes :: "string \<Rightarrow> nat \<Rightarrow> string" where
  "gibibytes cpu tier = nat_to_string (string_to_nat cpu * tier) @ ''Gi''"

definition memoryOptions :: "string \<Rightarrow> string list" where
  "memoryOptions cpu = map (gibibytes cpu) MEM_TIER"

text \<open>The account, user and group an image states; \<open>ftext\<close> is the text of a number that is no integer.\<close>

definition identityOf :: "(rat \<Rightarrow> string) \<Rightarrow> dev_image option \<Rightarrow> draft \<Rightarrow> draft" where
  "identityOf ftext img d =
     d\<lparr>dr_runtimeUser := (case img of None \<Rightarrow> PLATFORM_USER | Some i \<Rightarrow> im_user i),
       dr_runAsUser := nat_to_string PLATFORM_UID,
       dr_runAsGroup :=
         (case img of None \<Rightarrow> nat_to_string PLATFORM_GID
          | Some i \<Rightarrow> (case im_runAsGroup i of None \<Rightarrow> nat_to_string PLATFORM_GID | Some g \<Rightarrow> num_text ftext g))\<rparr>"

definition initial_draft :: draft where
  "initial_draft =
     \<lparr>dr_name = [], dr_namespace = [], dr_type = Jupyter, dr_image = [], dr_accelerator = None, dr_gpuCount = Finite 1,
      dr_gpuModel = [], dr_cpu = ''2'', dr_memory = ''4Gi'', dr_storageGi = Finite 20, dr_pvcRetention = Delete, dr_idle = 0,
      dr_idleCustom = False, dr_idleMinutes = [], dr_runAsRoot = False, dr_sudo = False, dr_runtimeUser = [],
      dr_runAsUser = nat_to_string PLATFORM_UID, dr_runAsGroup = nat_to_string PLATFORM_GID, dr_mountPath = [],
      dr_pvcs = [], dr_envs = [], dr_args = [], dr_command = [], dr_ports = [], dr_rdmaEnabled = False, dr_rdmaType = Roce,
      dr_egressUnrestricted = False, dr_nodeName = [], dr_sshEnabled = False, dr_sshKeys = []\<rparr>"

datatype wizard_field =
    NameField | ImageField | NamespaceField | GpuField | StorageField | IdleField | AccountField | UidGidField
  | MountPathField | PvcField | EnvField | PortField | NodeField

record wizard =
  wz_step :: nat
  wz_options :: "dev_options option"
  wz_draft :: draft
  wz_newNamespace :: bool
  wz_newNamespaceName :: string
  wz_rowSeq :: nat
  wz_marked :: "wizard_field set"
  wz_busy :: bool
  wz_error :: "string option"

definition initial_wizard :: wizard where
  "initial_wizard =
     \<lparr>wz_step = 1, wz_options = None, wz_draft = initial_draft, wz_newNamespace = False, wz_newNamespaceName = [],
      wz_rowSeq = 0, wz_marked = {}, wz_busy = False, wz_error = None\<rparr>"

section \<open>The rules of the steps\<close>

definition effectiveNamespace :: "wizard \<Rightarrow> string" where
  "effectiveNamespace w = (if wz_newNamespace w then trim (wz_newNamespaceName w) else dr_namespace (wz_draft w))"

definition newNamespaceValid :: "wizard \<Rightarrow> bool" where
  "newNamespaceValid w \<longleftrightarrow> \<not> wz_newNamespace w \<or> rx_match NAMESPACE_RE (trim (wz_newNamespaceName w))"

definition nameTaken :: "dev_summary list \<Rightarrow> wizard \<Rightarrow> bool" where
  "nameTaken environments w \<longleftrightarrow>
     list_ex (\<lambda>e. su_namespace e = effectiveNamespace w \<and> su_name e = trim (dr_name (wz_draft w))) environments"

definition nameValid :: "draft \<Rightarrow> bool" where
  "nameValid d \<longleftrightarrow> rx_match DNS_LABEL_RE (trim (dr_name d)) \<and> trim (dr_name d) \<noteq> []"

definition step1Valid :: "dev_summary list \<Rightarrow> wizard \<Rightarrow> bool" where
  "step1Valid environments w \<longleftrightarrow>
     nameValid (wz_draft w) \<and> \<not> nameTaken environments w \<and> effectiveNamespace w \<noteq> [] \<and> newNamespaceValid w \<and>
     dr_image (wz_draft w) \<noteq> []"

text \<open>\<open>Number.isInteger\<close> and bounds; the text of a whole number.\<close>

definition integer_within :: "js_number \<Rightarrow> rat \<Rightarrow> rat \<Rightarrow> bool" where
  "integer_within n lo hi = (case n of Finite q \<Rightarrow> is_integer q \<and> lo \<le> q \<and> q \<le> hi | _ \<Rightarrow> False)"

definition digit_text :: "string \<Rightarrow> bool" where
  "digit_text s = rx_match (Plus (Cls digit)) s"

definition gpuRequested :: "draft \<Rightarrow> bool" where
  "gpuRequested d \<longleftrightarrow> dr_accelerator d \<noteq> None"

definition gpuValid :: "draft \<Rightarrow> bool" where
  "gpuValid d \<longleftrightarrow> \<not> gpuRequested d \<or> integer_within (dr_gpuCount d) 1 16"

definition storageValid :: "draft \<Rightarrow> bool" where
  "storageValid d = integer_within (dr_storageGi d) 20 800"

definition idleCustomValid :: "draft \<Rightarrow> bool" where
  "idleCustomValid d \<longleftrightarrow>
     digit_text (trim (dr_idleMinutes d)) \<and> of_nat (string_to_nat (trim (dr_idleMinutes d)) * 60) \<le> IDLE_TIMEOUT_MAX"

definition idleValid :: "draft \<Rightarrow> bool" where
  "idleValid d \<longleftrightarrow> \<not> dr_idleCustom d \<or> idleCustomValid d"

definition idleTimeoutSeconds :: "draft \<Rightarrow> nat" where
  "idleTimeoutSeconds d = (if dr_idleCustom d then string_to_nat (trim (dr_idleMinutes d)) * 60 else dr_idle d)"

definition step2Valid :: "draft \<Rightarrow> bool" where
  "step2Valid d \<longleftrightarrow> gpuValid d \<and> storageValid d \<and> idleValid d"

definition effectiveUser :: "draft \<Rightarrow> string" where
  "effectiveUser d = (if dr_runAsRoot d then ''root'' else trim (dr_runtimeUser d))"

definition effectiveUid :: "draft \<Rightarrow> string" where
  "effectiveUid d = (if dr_runAsRoot d then ''0'' else trim (dr_runAsUser d))"

definition effectiveGid :: "draft \<Rightarrow> string" where
  "effectiveGid d = (if dr_runAsRoot d then ''0'' else trim (dr_runAsGroup d))"

definition accountValid :: "draft \<Rightarrow> bool" where
  "accountValid d \<longleftrightarrow> rx_match RUNTIME_USER_RE (effectiveUser d) \<and> length (effectiveUser d) \<le> RUNTIME_USER_MAX"

definition idValid :: "string \<Rightarrow> bool" where
  "idValid v \<longleftrightarrow> digit_text v \<and> of_nat (string_to_nat v) \<le> RUN_AS_ID_MAX"

definition uidGidValid :: "draft \<Rightarrow> bool" where
  "uidGidValid d \<longleftrightarrow> idValid (effectiveUid d) \<and> idValid (effectiveGid d)"

definition filledPvcs :: "draft \<Rightarrow> pvc_row list" where
  "filledPvcs d = filter (\<lambda>r. trim (vr_pvcName r) \<noteq> [] \<or> trim (vr_mountPath r) \<noteq> []) (dr_pvcs d)"

definition filledEnvs :: "draft \<Rightarrow> env_row list" where
  "filledEnvs d = filter (\<lambda>r. trim (er_name r) \<noteq> [] \<or> trim (er_value r) \<noteq> []) (dr_envs d)"

definition filledPorts :: "draft \<Rightarrow> port_row list" where
  "filledPorts d = filter (\<lambda>r. trim (qr_name r) \<noteq> [] \<or> trim (qr_port r) \<noteq> []) (dr_ports d)"

definition pathOk :: "string \<Rightarrow> bool" where
  "pathOk p \<longleftrightarrow> startsWith p ''/'' \<and> p \<noteq> ''/''"

definition mountPathValid :: "draft \<Rightarrow> bool" where
  "mountPathValid d \<longleftrightarrow> trim (dr_mountPath d) = [] \<or> pathOk (trim (dr_mountPath d))"

text \<open>A \<open>Set\<close> is as large as the list it is made of when the list has no duplicates.\<close>

definition pvcRowsValid :: "draft \<Rightarrow> bool" where
  "pvcRowsValid d \<longleftrightarrow>
     list_all (\<lambda>r. trim (vr_pvcName r) \<noteq> [] \<and> pathOk (trim (vr_mountPath r))) (filledPvcs d) \<and>
     (let m = trim (dr_mountPath d)
      in card (set ((if m \<noteq> [] then [m] else []) @ map (\<lambda>r. trim (vr_mountPath r)) (filledPvcs d))) =
           (if m \<noteq> [] then 1 else 0) + length (filledPvcs d))"

definition envRowsValid :: "draft \<Rightarrow> bool" where
  "envRowsValid d \<longleftrightarrow>
     list_all (\<lambda>r. rx_match ENV_NAME_RE (trim (er_name r)) \<and>
       (trim (er_name r) \<noteq> ''HOME'' \<or> startsWith (er_value r) ''/'')) (filledEnvs d) \<and>
     card (set (map (\<lambda>r. trim (er_name r)) (filledEnvs d))) = length (filledEnvs d)"

definition l4Ports :: "draft \<Rightarrow> port_row list" where
  "l4Ports d = filter (\<lambda>r. qr_type r \<noteq> Http) (filledPorts d)"

definition portRowsValid :: "draft \<Rightarrow> bool" where
  "portRowsValid d \<longleftrightarrow>
     list_all (\<lambda>r. trim (qr_name r) \<noteq> [] \<and> digit_text (trim (qr_port r)) \<and> 1 \<le> string_to_nat (trim (qr_port r)) \<and>
       string_to_nat (trim (qr_port r)) \<le> 65535) (filledPorts d) \<and>
     card (set (map (\<lambda>r. trim (qr_name r)) (filledPorts d))) = length (filledPorts d) \<and>
     card (set (map (\<lambda>r. trim (qr_port r)) (l4Ports d))) = length (l4Ports d)"

definition nodeNameValid :: "draft \<Rightarrow> bool" where
  "nodeNameValid d \<longleftrightarrow>
     dr_nodeName d = [] \<or> length (dr_nodeName d) \<le> NODE_NAME_MAX \<and> rx_match NODE_NAME_RE (dr_nodeName d)"

definition step3Valid :: "draft \<Rightarrow> bool" where
  "step3Valid d \<longleftrightarrow>
     accountValid d \<and> uidGidValid d \<and> mountPathValid d \<and> pvcRowsValid d \<and> envRowsValid d \<and> portRowsValid d \<and>
     nodeNameValid d"

definition derivedMountPath :: "draft \<Rightarrow> string" where
  "derivedMountPath d =
     (case find (\<lambda>r. trim (er_name r) = ''HOME'' \<and> startsWith (er_value r) ''/'') (filledEnvs d) of
        Some r \<Rightarrow> er_value r
      | None \<Rightarrow>
          (if dr_runAsRoot d then ''/root''
           else if effectiveUser d \<noteq> [] then ''/home/'' @ effectiveUser d else ''/workspace''))"

section \<open>The handlers\<close>

definition set_draft :: "(draft \<Rightarrow> draft) \<Rightarrow> wizard \<Rightarrow> wizard" where
  "set_draft f w = w\<lparr>wz_draft := f (wz_draft w)\<rparr>"

definition image_of :: "wizard \<Rightarrow> string \<Rightarrow> dev_image option" where
  "image_of w tag = (case wz_options w of None \<Rightarrow> None | Some opts \<Rightarrow> find (\<lambda>i. im_tag i = tag) (do_images opts))"

definition loaded :: "(rat \<Rightarrow> string) \<Rightarrow> dev_options \<Rightarrow> wizard \<Rightarrow> wizard" where
  "loaded ftext opts w =
     (let first = (case do_images opts of [] \<Rightarrow> None | i # _ \<Rightarrow> Some i)
      in set_draft (\<lambda>d. identityOf ftext first
           (d\<lparr>dr_namespace := nullish (do_defaultNamespace opts) [],
              dr_image := (case first of None \<Rightarrow> [] | Some i \<Rightarrow> im_tag i)\<rparr>)) (w\<lparr>wz_options := Some opts\<rparr>))"

definition changeNamespace :: "string \<Rightarrow> wizard \<Rightarrow> wizard" where
  "changeNamespace namespace w =
     (if namespace = NEW_NAMESPACE then w\<lparr>wz_newNamespace := True\<rparr>
      else set_draft (\<lambda>d. d\<lparr>dr_namespace := namespace\<rparr>)
        (w\<lparr>wz_newNamespace := False, wz_marked := wz_marked w - {NamespaceField}\<rparr>))"

definition toggleSsh :: "bool \<Rightarrow> draft \<Rightarrow> draft" where
  "toggleSsh enabled d = d\<lparr>dr_sshEnabled := enabled, dr_sshKeys := (if enabled then dr_sshKeys d else [])\<rparr>"

definition next_id :: "wizard \<Rightarrow> wizard" where
  "next_id w = w\<lparr>wz_rowSeq := Suc (wz_rowSeq w)\<rparr>"

definition addRow :: "(nat \<Rightarrow> draft \<Rightarrow> draft) \<Rightarrow> wizard \<Rightarrow> wizard" where
  "addRow push w = set_draft (push (wz_rowSeq (next_id w))) (next_id w)"

definition patchRow :: "('r \<Rightarrow> nat) \<Rightarrow> nat \<Rightarrow> ('r \<Rightarrow> 'r) \<Rightarrow> 'r list \<Rightarrow> 'r list" where
  "patchRow ident i patch rows = map (\<lambda>r. if ident r = i then patch r else r) rows"

definition removeRow :: "('r \<Rightarrow> nat) \<Rightarrow> nat \<Rightarrow> 'r list \<Rightarrow> 'r list" where
  "removeRow ident i rows = filter (\<lambda>r. ident r \<noteq> i) rows"

definition setCpu :: "string \<Rightarrow> draft \<Rightarrow> draft" where
  "setCpu cpu d =
     (let tier = nullish (find (\<lambda>k. gibibytes (dr_cpu d) k = dr_memory d) MEM_TIER) 2
      in d\<lparr>dr_cpu := cpu, dr_memory := gibibytes cpu tier\<rparr>)"

definition setAccelerator :: "gpu_vendor option \<Rightarrow> draft \<Rightarrow> draft" where
  "setAccelerator a d = (if dr_accelerator d = a then d else d\<lparr>dr_accelerator := a, dr_gpuModel := []\<rparr>)"

definition setImageTag :: "(rat \<Rightarrow> string) \<Rightarrow> string \<Rightarrow> wizard \<Rightarrow> wizard" where
  "setImageTag ftext tag w =
     set_draft (\<lambda>d. if tag = dr_image d then d else identityOf ftext (image_of w tag) (d\<lparr>dr_image := tag\<rparr>)) w"

definition switchType :: "(rat \<Rightarrow> string) \<Rightarrow> env_type \<Rightarrow> wizard \<Rightarrow> wizard" where
  "switchType ftext tp w =
     set_draft (\<lambda>d.
       case image_of w (dr_image d) of
         None \<Rightarrow> d\<lparr>dr_type := tp\<rparr>
       | Some current \<Rightarrow>
           (if im_interface current = tp then d\<lparr>dr_type := tp\<rparr>
            else
              (let images = (case wz_options w of None \<Rightarrow> [] | Some opts \<Rightarrow> do_images opts)
               in case (case find (\<lambda>i. im_vendor i = im_vendor current \<and> im_interface i = tp) images of
                          Some i \<Rightarrow> Some i
                        | None \<Rightarrow> find (\<lambda>i. im_interface i = tp) images) of
                    None \<Rightarrow> d\<lparr>dr_type := tp\<rparr>
                  | Some pair \<Rightarrow> identityOf ftext (Some pair) (d\<lparr>dr_type := tp, dr_image := im_tag pair\<rparr>)))) w"

text \<open>The select of the idle time: a preset, or \<^const>\<open>None\<close> for the custom entry.\<close>

definition select_idle :: "nat option \<Rightarrow> draft \<Rightarrow> draft" where
  "select_idle v d =
     (case v of
        None \<Rightarrow> d\<lparr>dr_idleCustom := True,
          dr_idleMinutes := (if dr_idleMinutes d \<noteq> [] then dr_idleMinutes d
            else if dr_idle d \<noteq> 0 then nat_to_string (dr_idle d div 60) else [])\<rparr>
      | Some s \<Rightarrow> d\<lparr>dr_idleCustom := False, dr_idle := s\<rparr>)"

definition mark :: "(wizard_field \<times> bool) list \<Rightarrow> wizard \<Rightarrow> wizard" where
  "mark flags w = w\<lparr>wz_marked := foldl (\<lambda>s (f, bad). if bad then insert f s else s - {f}) (wz_marked w) flags\<rparr>"

definition namespace_flag :: "wizard \<Rightarrow> wizard_field \<times> bool" where
  "namespace_flag w = (NamespaceField, effectiveNamespace w = [] \<or> \<not> newNamespaceValid w)"

definition step2_flags :: "draft \<Rightarrow> (wizard_field \<times> bool) list" where
  "step2_flags d = [(GpuField, \<not> gpuValid d), (StorageField, \<not> storageValid d), (IdleField, \<not> idleValid d)]"

definition step3_flags :: "draft \<Rightarrow> (wizard_field \<times> bool) list" where
  "step3_flags d =
     [(AccountField, \<not> accountValid d), (UidGidField, \<not> uidGidValid d), (MountPathField, \<not> mountPathValid d),
      (PvcField, \<not> pvcRowsValid d), (EnvField, \<not> envRowsValid d), (PortField, \<not> portRowsValid d),
      (NodeField, \<not> nodeNameValid d)]"

definition advance :: "wizard \<Rightarrow> wizard" where
  "advance w = w\<lparr>wz_step := min 4 (wz_step w + 1)\<rparr>"

definition wizard_next :: "dev_summary list \<Rightarrow> wizard \<Rightarrow> wizard" where
  "wizard_next environments w =
     (let d = wz_draft w
      in if wz_step w = 1
         then (if \<not> step1Valid environments w
               then mark [(NameField, \<not> nameValid d \<or> nameTaken environments w), (ImageField, dr_image d = []), namespace_flag w] w
               else advance (mark [(NameField, False), (ImageField, False), (NamespaceField, False)] w))
         else if wz_step w = 2
         then (let w = mark (step2_flags d) w in if \<not> step2Valid d then w else advance w)
         else if wz_step w = 3
         then (let w = mark (step3_flags d) w in if \<not> step3Valid d then w else advance w)
         else advance w)"

text \<open>The interface the form takes the chosen image to have, and the images it offers for the chosen type.\<close>

definition imageInterface :: "wizard \<Rightarrow> env_type option" where
  "imageInterface w = map_option im_interface (image_of w (dr_image (wz_draft w)))"

definition imageOptions :: "wizard \<Rightarrow> dev_image list" where
  "imageOptions w =
     (case wz_options w of None \<Rightarrow> [] | Some opts \<Rightarrow> filter (\<lambda>i. im_interface i = dr_type (wz_draft w)) (do_images opts))"

text \<open>The published images come in pairs of one tag, so the interface found by tag is that of the first of a pair: an
  image offered for SSH is always taken to be one for Jupyter.\<close>

lemma offered_interface:
  assumes "wz_options w = Some opts" and "do_images opts = DEV_IMAGES env" and "i \<in> set (imageOptions w)" and "dr_image (wz_draft w) = im_tag i"
  shows "imageInterface w = Some Jupyter"
proof -
  have "i \<in> set (DEV_IMAGES env)" using assms by (simp add: imageOptions_def)
  then have "\<exists>j. find (\<lambda>j. im_tag j = im_tag i) (DEV_IMAGES env) = Some j \<and> im_interface j = Jupyter"
    by (auto simp: DEV_IMAGES_def published_image_def)
  then show ?thesis using assms by (auto simp: imageInterface_def image_of_def)
qed

section \<open>The request\<close>

fun type_text :: "env_type \<Rightarrow> string" where
  "type_text Jupyter = ''jupyter''"
| "type_text Ssh = ''ssh''"
| "type_text Vscode = ''vscode''"

fun accelerator_text :: "gpu_vendor option \<Rightarrow> string" where
  "accelerator_text None = ''none''"
| "accelerator_text (Some Nvidia) = ''nvidia''"
| "accelerator_text (Some Metax) = ''metax''"

fun port_type_text :: "port_type \<Rightarrow> string" where
  "port_type_text Http = ''http''"
| "port_type_text Tcp = ''tcp''"
| "port_type_text Udp = ''udp''"

fun fabric_text :: "fabric \<Rightarrow> string" where
  "fabric_text Roce = ''roce''"
| "fabric_text Infiniband = ''infiniband''"

text \<open>A field that is spread in only under a condition.\<close>

definition sent_if :: "bool \<Rightarrow> 'a \<Rightarrow> 'a option" where
  "sent_if b x = (if b then Some x else None)"

definition wizard_body :: "wizard \<Rightarrow> dev_body" where
  "wizard_body w =
     (let d = wz_draft w; root = dr_runAsRoot d; m = trim (dr_mountPath d)
      in \<lparr>cb_namespace = Some (effectiveNamespace w), cb_name = Some (trim (dr_name d)), cb_type = Some (type_text (dr_type d)),
          cb_image = Some (trim (dr_image d)), cb_accelerator = Some (accelerator_text (dr_accelerator d)),
          cb_gpuCount = (if gpuRequested d then finite_of (dr_gpuCount d) else None),
          cb_gpuModel = sent_if (gpuRequested d \<and> dr_gpuModel d \<noteq> []) (dr_gpuModel d),
          cb_cpu = Some (dr_cpu d), cb_memory = Some (dr_memory d), cb_storageGi = finite_of (dr_storageGi d),
          cb_pvcRetention = sent_if (dr_pvcRetention d = Retain) ''retain'',
          cb_idleTimeout = Some (of_nat (idleTimeoutSeconds d)),
          cb_runtimeUser = sent_if (\<not> root) (effectiveUser d),
          cb_runAsUser = Some (if root then 0 else of_nat (string_to_nat (effectiveUid d))),
          cb_runAsGroup = Some (if root then 0 else of_nat (string_to_nat (effectiveGid d))),
          cb_sudo = sent_if (\<not> root \<and> dr_sudo d) True, cb_mountPath = sent_if (m \<noteq> []) m,
          cb_volumes = sent_if (filledPvcs d \<noteq> [])
            (map (\<lambda>r. (Some (trim (vr_pvcName r)), Some (trim (vr_mountPath r)))) (filledPvcs d)),
          cb_env = sent_if (filledEnvs d \<noteq> []) (map (\<lambda>r. (Some (trim (er_name r)), Some (er_value r))) (filledEnvs d)),
          cb_command = sent_if (trim (dr_command d) \<noteq> []) (trim (dr_command d)),
          cb_args = sent_if (trim (dr_args d) \<noteq> []) (trim (dr_args d)),
          cb_ports = sent_if (filledPorts d \<noteq> [])
            (map (\<lambda>r. (Some (trim (qr_name r)), Some (of_nat (string_to_nat (trim (qr_port r)))), Some (port_type_text (qr_type r))))
              (filledPorts d)),
          cb_rdmaEnabled = sent_if (dr_rdmaEnabled d) True, cb_rdmaType = sent_if (dr_rdmaEnabled d) (fabric_text (dr_rdmaType d)),
          cb_egressUnrestricted = sent_if (dr_egressUnrestricted d) True,
          cb_nodeName = sent_if (dr_nodeName d \<noteq> []) (dr_nodeName d), cb_sshEnabled = sent_if (dr_sshEnabled d) True,
          cb_sshKeys = sent_if (dr_sshEnabled d \<and> trim (dr_sshKeys d) \<noteq> []) (trim (dr_sshKeys d))\<rparr>)"

definition may_create :: "dev_summary list \<Rightarrow> wizard \<Rightarrow> bool" where
  "may_create environments w \<longleftrightarrow> step1Valid environments w \<and> step2Valid (wz_draft w) \<and> step3Valid (wz_draft w)"

definition wizard_create :: "dev_summary list \<Rightarrow> wizard \<Rightarrow> wizard" where
  "wizard_create environments w =
     (let w = mark (step2_flags (wz_draft w) @ step3_flags (wz_draft w) @ [namespace_flag w]) w
      in if may_create environments w then w\<lparr>wz_busy := True, wz_error := None\<rparr> else w)"

text \<open>What is then sent: the namespace to create, if it is a new one, and the environment.\<close>

definition create_request :: "dev_summary list \<Rightarrow> wizard \<Rightarrow> (string option \<times> dev_body) option" where
  "create_request environments w =
     sent_if (may_create environments w) (sent_if (wz_newNamespace w) (effectiveNamespace w), wizard_body w)"

definition create_failed_with :: "string \<Rightarrow> wizard \<Rightarrow> wizard" where
  "create_failed_with message w = w\<lparr>wz_error := Some message, wz_busy := False\<rparr>"

section \<open>The form\<close>

datatype wizard_event =
    Loaded dev_options | Next "dev_summary list" | Back | Create "dev_summary list" | CreateFailed string
  | SetName string | ChangeNamespace string | SetNewNamespaceName string | SwitchType env_type | SetImageTag string
  | SetAccelerator "gpu_vendor option" | SetGpuCount js_number | SetGpuModel string | SetCpu string | SetMemory string
  | SetStorageGi js_number | SelectIdle "nat option" | SetIdleMinutes string
  | SetMountPath string | SetPvcRetention retention | AddPvc | PatchPvcName nat string | PatchPvcPath nat string | RemovePvc nat
  | SetRunAsRoot bool | SetRuntimeUser string | SetRunAsUser string | SetRunAsGroup string | SetSudo bool
  | AddEnv | PatchEnvName nat string | PatchEnvValue nat string | RemoveEnv nat | SetArgs string | SetCommand string
  | AddPort | PatchPortName nat string | PatchPortNumber nat string | PatchPortType nat port_type | RemovePort nat
  | SetRdmaEnabled bool | SetRdmaType fabric | SetEgress bool | SetNodeName string | ToggleSsh bool | SetSshKeys string

text \<open>The step an event's control is on; events of the frame have none.\<close>

definition event_step :: "wizard_event \<Rightarrow> nat option" where
  "event_step e =
     (case e of
        Loaded _ \<Rightarrow> None | Next _ \<Rightarrow> None | Back \<Rightarrow> None | Create _ \<Rightarrow> None | CreateFailed _ \<Rightarrow> None
      | SetName _ \<Rightarrow> Some 1 | ChangeNamespace _ \<Rightarrow> Some 1 | SetNewNamespaceName _ \<Rightarrow> Some 1 | SwitchType _ \<Rightarrow> Some 1
      | SetImageTag _ \<Rightarrow> Some 1
      | SetAccelerator _ \<Rightarrow> Some 2 | SetGpuCount _ \<Rightarrow> Some 2 | SetGpuModel _ \<Rightarrow> Some 2 | SetCpu _ \<Rightarrow> Some 2 | SetMemory _ \<Rightarrow> Some 2
      | SetStorageGi _ \<Rightarrow> Some 2 | SelectIdle _ \<Rightarrow> Some 2 | SetIdleMinutes _ \<Rightarrow> Some 2
      | _ \<Rightarrow> Some 3)"

definition models_offered :: "dev_options option \<Rightarrow> gpu_vendor option \<Rightarrow> string list" where
  "models_offered opts a = (case (a, opts) of (Some v, Some os) \<Rightarrow> do_models os v | _ \<Rightarrow> [])"

definition nodes_offered :: "dev_options option \<Rightarrow> string list" where
  "nodes_offered opts = (case opts of None \<Rightarrow> [] | Some os \<Rightarrow> map dn_name (do_nodes os))"

text \<open>What the page shows: the controls of the current step once the options are there, the choices of its
  selects, and no control that is disabled.\<close>

definition offered :: "wizard \<Rightarrow> wizard_event \<Rightarrow> bool" where
  "offered w e \<longleftrightarrow>
     (case event_step e of None \<Rightarrow> True | Some s \<Rightarrow> wz_step w = s \<and> wz_options w \<noteq> None) \<and>
     (case e of
        Loaded _ \<Rightarrow> wz_options w = None
      | Next _ \<Rightarrow> wz_step w < 4
      | Back \<Rightarrow> 1 < wz_step w \<and> \<not> wz_busy w
      | Create _ \<Rightarrow> wz_step w = 4 \<and> step3Valid (wz_draft w) \<and> \<not> wz_busy w
      | CreateFailed _ \<Rightarrow> wz_busy w
      | ChangeNamespace n \<Rightarrow> n \<in> set (NEW_NAMESPACE # (case wz_options w of None \<Rightarrow> [] | Some os \<Rightarrow> do_namespaces os))
      | SetNewNamespaceName _ \<Rightarrow> wz_newNamespace w
      | SwitchType tp \<Rightarrow> tp \<in> set WIZARD_TYPES
      | SetGpuCount _ \<Rightarrow> gpuRequested (wz_draft w)
      | SetGpuModel m \<Rightarrow> gpuRequested (wz_draft w) \<and> m \<in> set ([] # models_offered (wz_options w) (dr_accelerator (wz_draft w)))
      | SetCpu c \<Rightarrow> c \<in> set CPU_OPTIONS
      | SetMemory m \<Rightarrow> m \<in> set (memoryOptions (dr_cpu (wz_draft w)))
      | SelectIdle v \<Rightarrow> (case v of None \<Rightarrow> True | Some s \<Rightarrow> s \<in> set IDLE_PRESETS)
      | SetIdleMinutes _ \<Rightarrow> dr_idleCustom (wz_draft w)
      | SetRuntimeUser _ \<Rightarrow> \<not> dr_runAsRoot (wz_draft w)
      | SetRunAsUser _ \<Rightarrow> \<not> dr_runAsRoot (wz_draft w)
      | SetRunAsGroup _ \<Rightarrow> \<not> dr_runAsRoot (wz_draft w)
      | SetSudo _ \<Rightarrow> \<not> dr_runAsRoot (wz_draft w)
      | SetRdmaType _ \<Rightarrow> dr_rdmaEnabled (wz_draft w)
      | SetNodeName n \<Rightarrow> n \<in> set ([] # nodes_offered (wz_options w))
      | SetSshKeys _ \<Rightarrow> dr_sshEnabled (wz_draft w)
      | _ \<Rightarrow> True)"

fun on_event :: "(rat \<Rightarrow> string) \<Rightarrow> wizard_event \<Rightarrow> wizard \<Rightarrow> wizard" where
  "on_event ftext (Loaded opts) w = loaded ftext opts w"
| "on_event ftext (Next environments) w = wizard_next environments w"
| "on_event ftext Back w = w\<lparr>wz_step := wz_step w - 1\<rparr>"
| "on_event ftext (Create environments) w = wizard_create environments w"
| "on_event ftext (CreateFailed message) w = create_failed_with message w"
| "on_event ftext (SetName s) w = set_draft (\<lambda>d. d\<lparr>dr_name := s\<rparr>) w"
| "on_event ftext (ChangeNamespace n) w = changeNamespace n w"
| "on_event ftext (SetNewNamespaceName s) w = w\<lparr>wz_newNamespaceName := s\<rparr>"
| "on_event ftext (SwitchType tp) w = switchType ftext tp w"
| "on_event ftext (SetImageTag tag) w = setImageTag ftext tag w"
| "on_event ftext (SetAccelerator a) w = set_draft (setAccelerator a) w"
| "on_event ftext (SetGpuCount n) w = set_draft (\<lambda>d. d\<lparr>dr_gpuCount := n\<rparr>) w"
| "on_event ftext (SetGpuModel m) w = set_draft (\<lambda>d. d\<lparr>dr_gpuModel := m\<rparr>) w"
| "on_event ftext (SetCpu c) w = set_draft (setCpu c) w"
| "on_event ftext (SetMemory m) w = set_draft (\<lambda>d. d\<lparr>dr_memory := m\<rparr>) w"
| "on_event ftext (SetStorageGi n) w = set_draft (\<lambda>d. d\<lparr>dr_storageGi := n\<rparr>) w"
| "on_event ftext (SelectIdle v) w = set_draft (select_idle v) w"
| "on_event ftext (SetIdleMinutes s) w = set_draft (\<lambda>d. d\<lparr>dr_idleMinutes := s\<rparr>) w"
| "on_event ftext (SetMountPath s) w = set_draft (\<lambda>d. d\<lparr>dr_mountPath := s\<rparr>) w"
| "on_event ftext (SetPvcRetention v) w = set_draft (\<lambda>d. d\<lparr>dr_pvcRetention := v\<rparr>) w"
| "on_event ftext AddPvc w =
     addRow (\<lambda>i d. d\<lparr>dr_pvcs := dr_pvcs d @ [\<lparr>vr_id = i, vr_pvcName = [], vr_mountPath = []\<rparr>]\<rparr>) w"
| "on_event ftext (PatchPvcName i s) w =
     set_draft (\<lambda>d. d\<lparr>dr_pvcs := patchRow vr_id i (\<lambda>r. r\<lparr>vr_pvcName := s\<rparr>) (dr_pvcs d)\<rparr>) w"
| "on_event ftext (PatchPvcPath i s) w =
     set_draft (\<lambda>d. d\<lparr>dr_pvcs := patchRow vr_id i (\<lambda>r. r\<lparr>vr_mountPath := s\<rparr>) (dr_pvcs d)\<rparr>) w"
| "on_event ftext (RemovePvc i) w = set_draft (\<lambda>d. d\<lparr>dr_pvcs := removeRow vr_id i (dr_pvcs d)\<rparr>) w"
| "on_event ftext (SetRunAsRoot b) w = set_draft (\<lambda>d. d\<lparr>dr_runAsRoot := b\<rparr>) w"
| "on_event ftext (SetRuntimeUser s) w = set_draft (\<lambda>d. d\<lparr>dr_runtimeUser := s\<rparr>) w"
| "on_event ftext (SetRunAsUser s) w = set_draft (\<lambda>d. d\<lparr>dr_runAsUser := s\<rparr>) w"
| "on_event ftext (SetRunAsGroup s) w = set_draft (\<lambda>d. d\<lparr>dr_runAsGroup := s\<rparr>) w"
| "on_event ftext (SetSudo b) w = set_draft (\<lambda>d. d\<lparr>dr_sudo := b\<rparr>) w"
| "on_event ftext AddEnv w = addRow (\<lambda>i d. d\<lparr>dr_envs := dr_envs d @ [\<lparr>er_id = i, er_name = [], er_value = []\<rparr>]\<rparr>) w"
| "on_event ftext (PatchEnvName i s) w =
     set_draft (\<lambda>d. d\<lparr>dr_envs := patchRow er_id i (\<lambda>r. r\<lparr>er_name := s\<rparr>) (dr_envs d)\<rparr>) w"
| "on_event ftext (PatchEnvValue i s) w =
     set_draft (\<lambda>d. d\<lparr>dr_envs := patchRow er_id i (\<lambda>r. r\<lparr>er_value := s\<rparr>) (dr_envs d)\<rparr>) w"
| "on_event ftext (RemoveEnv i) w = set_draft (\<lambda>d. d\<lparr>dr_envs := removeRow er_id i (dr_envs d)\<rparr>) w"
| "on_event ftext (SetArgs s) w = set_draft (\<lambda>d. d\<lparr>dr_args := s\<rparr>) w"
| "on_event ftext (SetCommand s) w = set_draft (\<lambda>d. d\<lparr>dr_command := s\<rparr>) w"
| "on_event ftext AddPort w =
     addRow (\<lambda>i d. d\<lparr>dr_ports := dr_ports d @ [\<lparr>qr_id = i, qr_name = [], qr_port = [], qr_type = Http\<rparr>]\<rparr>) w"
| "on_event ftext (PatchPortName i s) w =
     set_draft (\<lambda>d. d\<lparr>dr_ports := patchRow qr_id i (\<lambda>r. r\<lparr>qr_name := s\<rparr>) (dr_ports d)\<rparr>) w"
| "on_event ftext (PatchPortNumber i s) w =
     set_draft (\<lambda>d. d\<lparr>dr_ports := patchRow qr_id i (\<lambda>r. r\<lparr>qr_port := s\<rparr>) (dr_ports d)\<rparr>) w"
| "on_event ftext (PatchPortType i ty) w =
     set_draft (\<lambda>d. d\<lparr>dr_ports := patchRow qr_id i (\<lambda>r. r\<lparr>qr_type := ty\<rparr>) (dr_ports d)\<rparr>) w"
| "on_event ftext (RemovePort i) w = set_draft (\<lambda>d. d\<lparr>dr_ports := removeRow qr_id i (dr_ports d)\<rparr>) w"
| "on_event ftext (SetRdmaEnabled b) w = set_draft (\<lambda>d. d\<lparr>dr_rdmaEnabled := b\<rparr>) w"
| "on_event ftext (SetRdmaType f) w = set_draft (\<lambda>d. d\<lparr>dr_rdmaType := f\<rparr>) w"
| "on_event ftext (SetEgress b) w = set_draft (\<lambda>d. d\<lparr>dr_egressUnrestricted := b\<rparr>) w"
| "on_event ftext (SetNodeName s) w = set_draft (\<lambda>d. d\<lparr>dr_nodeName := s\<rparr>) w"
| "on_event ftext (ToggleSsh b) w = set_draft (toggleSsh b) w"
| "on_event ftext (SetSshKeys s) w = set_draft (\<lambda>d. d\<lparr>dr_sshKeys := s\<rparr>) w"

inductive wizard_reachable :: "(rat \<Rightarrow> string) \<Rightarrow> wizard \<Rightarrow> bool" for ftext where
  opened: "wizard_reachable ftext initial_wizard"
| event: "wizard_reachable ftext w \<Longrightarrow> offered w e \<Longrightarrow> wizard_reachable ftext (on_event ftext e w)"

section \<open>What the form keeps\<close>

text \<open>The selects hold one of their choices, and what depends on another field goes with it.\<close>

definition choices_ok :: "wizard \<Rightarrow> bool" where
  "choices_ok w \<longleftrightarrow>
     (let d = wz_draft w
      in dr_type d \<in> set WIZARD_TYPES \<and> dr_cpu d \<in> set CPU_OPTIONS \<and> dr_memory d \<in> set (memoryOptions (dr_cpu d)) \<and>
         dr_idle d \<in> set IDLE_PRESETS \<and> dr_gpuModel d \<in> set ([] # models_offered (wz_options w) (dr_accelerator d)) \<and>
         dr_nodeName d \<in> set ([] # nodes_offered (wz_options w)) \<and> (dr_sshEnabled d \<or> dr_sshKeys d = []))"

definition ids_ok :: "nat \<Rightarrow> nat list \<Rightarrow> bool" where
  "ids_ok n ids \<longleftrightarrow> distinct ids \<and> list_all (\<lambda>i. i \<le> n) ids"

definition rows_ok :: "wizard \<Rightarrow> bool" where
  "rows_ok w \<longleftrightarrow>
     (let d = wz_draft w; ok = ids_ok (wz_rowSeq w)
      in ok (map vr_id (dr_pvcs d)) \<and> ok (map er_id (dr_envs d)) \<and> ok (map qr_id (dr_ports d)))"

text \<open>A step is entered only with the rules of those before it, and they stay kept.\<close>

definition passed1 :: "wizard \<Rightarrow> bool" where
  "passed1 w \<longleftrightarrow> wz_options w \<noteq> None \<and> nameValid (wz_draft w) \<and> effectiveNamespace w \<noteq> [] \<and> newNamespaceValid w \<and>
     dr_image (wz_draft w) \<noteq> []"

definition steps_ok :: "wizard \<Rightarrow> bool" where
  "steps_ok w \<longleftrightarrow>
     1 \<le> wz_step w \<and> wz_step w \<le> 4 \<and> (wz_options w \<noteq> None \<or> wz_step w = 1 \<and> dr_image (wz_draft w) = []) \<and>
     (2 \<le> wz_step w \<longrightarrow> passed1 w) \<and> (3 \<le> wz_step w \<longrightarrow> step2Valid (wz_draft w)) \<and> (4 \<le> wz_step w \<longrightarrow> step3Valid (wz_draft w)) \<and>
     (wz_busy w \<longrightarrow> wz_step w = 4)"

lemma map_patchRow: "(\<And>r. ident (patch r) = ident r) \<Longrightarrow> map ident (patchRow ident i patch rows) = map ident rows"
  by (simp add: patchRow_def)

lemma map_removeRow: "map ident (removeRow ident i rows) = filter (\<lambda>j. j \<noteq> i) (map ident rows)"
  by (simp add: removeRow_def filter_map comp_def)

lemma setCpu_memory: "dr_memory (setCpu c d) \<in> set (memoryOptions c)"
proof -
  have "nullish (find p MEM_TIER) 2 \<in> set MEM_TIER" for p
    by (cases "find p MEM_TIER") (auto simp: MEM_TIER_def split: if_splits)
  then show ?thesis by (auto simp: setCpu_def memoryOptions_def Let_def)
qed

lemma ids_ok_later [simp]: "ids_ok n ids \<Longrightarrow> ids_ok (Suc n) ids"
  by (auto simp: ids_ok_def list_all_iff)

lemma ids_ok_add [simp]: "ids_ok n ids \<Longrightarrow> ids_ok (Suc n) (ids @ [Suc n])"
  by (auto simp: ids_ok_def list_all_iff)

lemma ids_ok_remove [simp]: "ids_ok n ids \<Longrightarrow> ids_ok n (filter p ids)"
  by (auto simp: ids_ok_def list_all_iff)

lemma initial_choices: "choices_ok initial_wizard"
proof -
  have "''4Gi'' \<in> set (memoryOptions ''2'')" by code_simp
  then show ?thesis by (simp add: choices_ok_def initial_wizard_def initial_draft_def WIZARD_TYPES_def CPU_OPTIONS_def IDLE_PRESETS_def)
qed

lemma mark_simps [simp]:
  "wz_draft (mark fs w) = wz_draft w" "wz_options (mark fs w) = wz_options w" "wz_step (mark fs w) = wz_step w"
  "wz_rowSeq (mark fs w) = wz_rowSeq w" "wz_busy (mark fs w) = wz_busy w" "wz_newNamespace (mark fs w) = wz_newNamespace w"
  "wz_newNamespaceName (mark fs w) = wz_newNamespaceName w"
  by (simp_all add: mark_def)

lemma next_create_simps [simp]:
  "wz_draft (wizard_next es w) = wz_draft w" "wz_options (wizard_next es w) = wz_options w" "wz_rowSeq (wizard_next es w) = wz_rowSeq w"
  "wz_busy (wizard_next es w) = wz_busy w"
  "wz_draft (wizard_create es w) = wz_draft w" "wz_options (wizard_create es w) = wz_options w" "wz_rowSeq (wizard_create es w) = wz_rowSeq w"
  "wz_step (wizard_create es w) = wz_step w"
  by (simp_all add: wizard_next_def wizard_create_def advance_def Let_def)

lemma switchType_draft:
  "wz_draft (switchType ftext tp w) = wz_draft w\<lparr>dr_type := tp\<rparr> \<or>
   (\<exists>i. wz_draft (switchType ftext tp w) = identityOf ftext (Some i) (wz_draft w\<lparr>dr_type := tp, dr_image := im_tag i\<rparr>))"
  by (auto simp: switchType_def set_draft_def Let_def split: option.splits)

lemma switchType_simps [simp]:
  "wz_step (switchType ftext tp w) = wz_step w" "wz_options (switchType ftext tp w) = wz_options w"
  "wz_busy (switchType ftext tp w) = wz_busy w" "wz_rowSeq (switchType ftext tp w) = wz_rowSeq w"
  by (simp_all add: switchType_def set_draft_def)

lemmas wizard_handlers = loaded_def changeNamespace_def toggleSsh_def next_id_def addRow_def setAccelerator_def
  setImageTag_def select_idle_def create_failed_with_def set_draft_def identityOf_def Let_def

lemma rows_step: "rows_ok w \<Longrightarrow> rows_ok (on_event ftext e w)"
proof (cases e)
  case (SwitchType tp)
  moreover assume "rows_ok w"
  ultimately show ?thesis using switchType_draft [of ftext tp w] by (auto simp: rows_ok_def identityOf_def Let_def)
qed (simp_all add: rows_ok_def wizard_handlers map_patchRow map_removeRow setCpu_def split: option.splits)

lemma setCpu_simps [simp]:
  "dr_type (setCpu c d) = dr_type d" "dr_cpu (setCpu c d) = c" "dr_idle (setCpu c d) = dr_idle d"
  "dr_gpuModel (setCpu c d) = dr_gpuModel d" "dr_accelerator (setCpu c d) = dr_accelerator d"
  "dr_nodeName (setCpu c d) = dr_nodeName d" "dr_sshEnabled (setCpu c d) = dr_sshEnabled d" "dr_sshKeys (setCpu c d) = dr_sshKeys d"
  by (simp_all add: setCpu_def Let_def)

lemma models_offered_None [simp]: "models_offered None a = []" "models_offered opts None = []"
  by (simp_all add: models_offered_def split: option.splits)

lemma choices_step: "choices_ok w \<Longrightarrow> offered w e \<Longrightarrow> choices_ok (on_event ftext e w)"
proof (cases e)
  case (Loaded opts)
  moreover assume "choices_ok w" "offered w e"
  ultimately show ?thesis by (simp add: choices_ok_def offered_def wizard_handlers nodes_offered_def)
next
  case (SwitchType tp)
  moreover assume "choices_ok w" "offered w e"
  ultimately show ?thesis
    using switchType_draft [of ftext tp w] by (auto simp: choices_ok_def offered_def identityOf_def Let_def)
next
  case (SetAccelerator a)
  moreover assume "choices_ok w"
  ultimately show ?thesis by (auto simp: choices_ok_def set_draft_def setAccelerator_def Let_def)
next
  case (SelectIdle v)
  moreover assume "choices_ok w" "offered w e"
  ultimately show ?thesis by (cases v) (auto simp: choices_ok_def offered_def set_draft_def select_idle_def Let_def)
qed (simp_all add: choices_ok_def offered_def wizard_handlers setCpu_memory split: option.splits)

text \<open>An event of a step leaves the step, the options and what the earlier steps ask for.\<close>

lemma event_frame:
  assumes "event_step e = Some s"
  shows "wz_step (on_event ftext e w) = wz_step w" and "wz_options (on_event ftext e w) = wz_options w"
    and "wz_busy (on_event ftext e w) = wz_busy w"
  using assms by (cases e; simp add: event_step_def wizard_handlers)+

lemma event_passed1:
  assumes "event_step e = Some s" and "2 \<le> s"
  shows "passed1 (on_event ftext e w) = passed1 w"
  using assms
  by (cases e; simp add: event_step_def wizard_handlers setCpu_def passed1_def nameValid_def effectiveNamespace_def newNamespaceValid_def split: option.splits)

lemma event_step2Valid:
  assumes "event_step e = Some 3"
  shows "step2Valid (wz_draft (on_event ftext e w)) = step2Valid (wz_draft w)"
  using assms
  by (cases e; simp add: event_step_def wizard_handlers step2Valid_def gpuValid_def gpuRequested_def storageValid_def idleValid_def idleCustomValid_def)

lemma step1Valid_passed: "step1Valid es w \<Longrightarrow> wz_options w \<noteq> None \<Longrightarrow> passed1 w"
  by (simp add: step1Valid_def passed1_def)

lemma next_passed1: "passed1 (wizard_next es w) = passed1 w"
  by (simp add: passed1_def effectiveNamespace_def newNamespaceValid_def wizard_next_def advance_def Let_def)

lemma next_step:
  "wz_step (wizard_next es w) = wz_step w \<or>
   wz_step (wizard_next es w) = min 4 (wz_step w + 1) \<and> (wz_step w = 1 \<longrightarrow> step1Valid es w) \<and>
   (wz_step w = 2 \<longrightarrow> step2Valid (wz_draft w)) \<and> (wz_step w = 3 \<longrightarrow> step3Valid (wz_draft w))"
  by (simp add: wizard_next_def advance_def Let_def)

lemma steps_next:
  assumes "steps_ok w"
  shows "steps_ok (wizard_next es w)"
proof (cases "wz_step (wizard_next es w) = wz_step w")
  case True
  with assms show ?thesis by (simp add: steps_ok_def next_passed1)
next
  case False
  with next_step [of es w]
  have up: "wz_step (wizard_next es w) = min 4 (wz_step w + 1)" "wz_step w = 1 \<Longrightarrow> step1Valid es w"
      "wz_step w = 2 \<Longrightarrow> step2Valid (wz_draft w)" "wz_step w = 3 \<Longrightarrow> step3Valid (wz_draft w)" by auto
  from False assms up(1) have "wz_step w < 4" by (auto simp: steps_ok_def)
  then have "wz_step w \<in> {1, 2, 3}" using assms by (auto simp: steps_ok_def)
  moreover have "passed1 w"
    using assms up(2) step1Valid_passed [of es w] calculation by (auto simp: steps_ok_def step1Valid_def)
  moreover from this have "wz_options w \<noteq> None" by (simp add: passed1_def)
  ultimately show ?thesis using assms up by (auto simp: steps_ok_def next_passed1)
qed

lemma create_passed1: "passed1 (wizard_create es w) = passed1 w"
  by (simp add: passed1_def effectiveNamespace_def newNamespaceValid_def wizard_create_def Let_def)

lemma back_passed1 [simp]: "passed1 (w\<lparr>wz_step := k\<rparr>) = passed1 w" "passed1 (w\<lparr>wz_error := m, wz_busy := b\<rparr>) = passed1 w"
  by (simp_all add: passed1_def effectiveNamespace_def newNamespaceValid_def)

lemma steps_step:
  assumes w: "steps_ok w" and e: "offered w e"
  shows "steps_ok (on_event ftext e w)"
proof (cases "event_step e")
  case (Some s)
  with e have s: "wz_step w = s" "wz_options w \<noteq> None" by (auto simp: offered_def)
  have "s \<le> 3" using Some by (cases e) (auto simp: event_step_def)
  with w s Some event_frame [OF Some] event_passed1 [OF Some] event_step2Valid [of e] show ?thesis
    by (auto simp: steps_ok_def)
next
  case None
  then consider (load) opts where "e = Loaded opts" | (move) es where "e = Next es" | (previous) "e = Back"
    | (create) es where "e = Create es" | (fail) m where "e = CreateFailed m"
    by (cases e) (auto simp: event_step_def)
  then show ?thesis
  proof cases
    case load
    with w e show ?thesis by (auto simp: steps_ok_def offered_def loaded_def set_draft_def Let_def)
  next
    case move
    with steps_next [OF w] show ?thesis by simp
  next
    case previous
    with w e show ?thesis by (auto simp: steps_ok_def offered_def)
  next
    case create
    with w e show ?thesis by (auto simp: steps_ok_def offered_def create_passed1)
  next
    case fail
    with w e show ?thesis by (auto simp: steps_ok_def offered_def create_failed_with_def)
  qed
qed

lemma wizard_invariant: "wizard_reachable ftext w \<Longrightarrow> choices_ok w \<and> rows_ok w \<and> steps_ok w"
proof (induction rule: wizard_reachable.induct)
  case opened
  show ?case using initial_choices
    by (simp add: rows_ok_def steps_ok_def initial_wizard_def initial_draft_def ids_ok_def)
next
  case (event w e)
  then show ?case using choices_step rows_step steps_step by blast
qed

section \<open>What the server makes of the request\<close>

lemma set_size: "card (set xs) = length xs \<longleftrightarrow> distinct xs"
  by (metis card_distinct distinct_card)

lemma text_field_trim [simp]: "text_field (Some (trim s)) = trim s"
  by (simp add: text_field_def)

lemma fresh_tail:
  assumes "distinct (map f (r # rows))" and "\<forall>x\<in>set (r # rows). f x \<notin> set used"
  shows "\<forall>x\<in>set rows. f x \<notin> set (f r # used)"
proof
  fix x
  assume "x \<in> set rows"
  moreover from this assms(1) have "f x \<noteq> f r" by (auto simp: image_iff)
  ultimately show "f x \<notin> set (f r # used)" using assms(2) by simp
qed

lemma volumes_accepted:
  assumes "\<forall>r\<in>set rows. trim (vr_pvcName r) \<noteq> [] \<and> mountable (trim (vr_mountPath r))"
    and "distinct (map (\<lambda>r. trim (vr_mountPath r)) rows)" and "\<forall>r\<in>set rows. trim (vr_mountPath r) \<notin> set paths"
  shows "\<exists>out. volumes_loop (map (\<lambda>r. (Some (trim (vr_pvcName r)), Some (trim (vr_mountPath r)))) rows) names paths vs = Inr out"
  using assms
proof (induction rows arbitrary: names paths vs)
  case (Cons r rows)
  then have "trim (vr_mountPath r) \<noteq> []" by (auto simp: mountable_def)
  with Cons.prems show ?case using Cons.IH [OF _ _ fresh_tail [OF Cons.prems(2,3)]] by (simp add: Let_def)
qed simp

lemma envs_accepted:
  assumes "\<forall>r\<in>set rows. rx_match ENV_NAME_RE (trim (er_name r)) \<and> (trim (er_name r) \<noteq> ''HOME'' \<or> startsWith (er_value r) ''/'')"
    and "distinct (map (\<lambda>r. trim (er_name r)) rows)" and "\<forall>r\<in>set rows. trim (er_name r) \<notin> set names"
  shows "\<exists>out. env_loop (map (\<lambda>r. (Some (trim (er_name r)), Some (er_value r))) rows) names es = Inr out"
  using assms
proof (induction rows arbitrary: names es)
  case (Cons r rows)
  then have "trim (er_name r) \<noteq> []" by (auto simp: ENV_NAME_RE_def rx_match_lang)
  moreover have "rx_match ENV_NAME_RE (trim (er_name r))" "trim (er_name r) \<notin> set names"
      "\<not> (trim (er_name r) = ''HOME'' \<and> \<not> startsWith (er_value r) ''/'')" using Cons.prems by simp_all
  ultimately show ?case using Cons.prems Cons.IH [OF _ _ fresh_tail [OF Cons.prems(2,3)]] by (simp add: Let_def)
qed simp

abbreviation port_number :: "port_row \<Rightarrow> rat" where
  "port_number r \<equiv> of_nat (string_to_nat (trim (qr_port r)))"

lemma port_types [simp]:
  "text_field (Some (port_type_text ty)) = port_type_text ty" "port_type_text ty \<noteq> []" "port_type_text ty \<in> set PORT_TYPES"
  "port_type_text ty = ''http'' \<longleftrightarrow> ty = Http"
  by (cases ty; simp add: text_field_def PORT_TYPES_def trim_no_space js_space_def)+

lemma is_integer_of_nat [simp]: "is_integer (of_nat n)"
  by (simp add: is_integer_def)

abbreviation port_sent :: "port_row \<Rightarrow> string option \<times> rat option \<times> string option" where
  "port_sent r \<equiv> (Some (trim (qr_name r)), Some (port_number r), Some (port_type_text (qr_type r)))"

lemma ports_accepted_iff:
  assumes "\<forall>r\<in>set rows. trim (qr_name r) \<noteq> [] \<and> 1 \<le> string_to_nat (trim (qr_port r)) \<and> string_to_nat (trim (qr_port r)) \<le> 65535"
    and "distinct (map (\<lambda>r. trim (qr_name r)) rows)" and "\<forall>r\<in>set rows. trim (qr_name r) \<notin> set names"
  shows "(\<exists>out. ports_loop (map port_sent rows) names l4 ps = Inr out) \<longleftrightarrow>
    distinct (map port_number (filter (\<lambda>r. qr_type r \<noteq> Http) rows)) \<and>
    set (map port_number (filter (\<lambda>r. qr_type r \<noteq> Http) rows)) \<inter> set l4 = {}"
  using assms
proof (induction rows arbitrary: names l4 ps)
  case (Cons r rows)
  let ?ns = "map port_number (filter (\<lambda>r. qr_type r \<noteq> Http) rows)"
  have IH: "(\<exists>out. ports_loop (map port_sent rows) (trim (qr_name r) # names) l4' ps' = Inr out) \<longleftrightarrow> distinct ?ns \<and> set ?ns \<inter> set l4' = {}" for l4' ps'
    using Cons.prems by (intro Cons.IH fresh_tail) auto
  have "\<not> port_bad (Some (port_number r))" "trim (qr_name r) \<noteq> []" "trim (qr_name r) \<notin> set names"
    using Cons.prems by (auto simp: port_bad_def)
  then have eq: "ports_loop (map port_sent (r # rows)) names l4 ps =
      (if qr_type r \<noteq> Http \<and> port_number r \<in> set l4 then Inl (PortInUse (port_number r))
       else ports_loop (map port_sent rows) (trim (qr_name r) # names) (if qr_type r \<noteq> Http then port_number r # l4 else l4)
         (ps @ [\<lparr>np_name = trim (qr_name r), np_type = port_type_text (qr_type r), np_containerPort = port_number r\<rparr>]))"
    by (simp add: Let_def)
  show ?case
  proof (cases "qr_type r \<noteq> Http \<and> port_number r \<in> set l4")
    case True
    then show ?thesis unfolding eq by simp
  next
    case False
    then show ?thesis unfolding eq by (cases "qr_type r = Http") (simp_all add: IH, blast)
  qed
qed simp

lemma and_then_Inr_iff: "(\<exists>y. and_then r k = Inr y) \<longleftrightarrow> (\<exists>x. r = Inr x \<and> (\<exists>y. k x = Inr y))"
  by (cases r) (auto simp: and_then_def)

lemma first_error_Inr_iff: "(\<exists>y. first_error e k = Inr y) \<longleftrightarrow> e = None \<and> (\<exists>y. k = Inr y)"
  by (cases e) (auto simp: first_error_def)

lemma parse_request_accepts_iff:
  "(\<exists>p. parse_request b = Inr p) \<longleftrightarrow>
     basics_error b = None \<and> identity_error b = None \<and> storage_error b = None \<and> (\<exists>vs. request_volumes b = Inr vs) \<and>
     (\<exists>es. request_env b = Inr es) \<and> (\<exists>c. request_argv CommandUnbalanced (cb_command b) = Inr c) \<and>
     (\<exists>a. request_argv ArgsUnbalanced (cb_args b) = Inr a) \<and> (\<exists>ps. request_ports b = Inr ps) \<and> network_error b = None \<and>
     (\<exists>ks. request_keys b = Inr ks)"
  unfolding parse_request_def first_error_Inr_iff and_then_Inr_iff by blast

text \<open>What the node labels give: a model is a label value, so it needs no check in the form.\<close>

definition models_ok :: "dev_options \<Rightarrow> bool" where
  "models_ok opts \<longleftrightarrow>
     (\<forall>v. list_all (\<lambda>m. rx_match GPU_MODEL_RE m \<and> length m \<le> GPU_MODEL_MAX) (do_models opts v))"

text \<open>The rules of the route that the wizard does not have.\<close>

definition server_rules :: "wizard \<Rightarrow> bool" where
  "server_rules w \<longleftrightarrow>
     (let d = wz_draft w; keys = key_lines (Some (trim (dr_sshKeys d)))
      in trim (dr_image d) \<noteq> [] \<and>
         (dr_runAsRoot d \<or> effectiveUser d \<noteq> ''root'' \<or> string_to_nat (effectiveUid d) = 0) \<and>
         splitArgs (trim (dr_command d)) \<noteq> None \<and> splitArgs (trim (dr_args d)) \<noteq> None \<and>
         distinct (map port_number (l4Ports d)) \<and>
         (\<not> dr_sshEnabled d \<or> keys = [] \<or>
            length keys \<le> 50 \<and> list_all (rx_match OPENSSH_PUB_KEY_RE) keys \<and> length (trim (dr_name d)) \<le> 49))"

lemma body_simps [simp]:
  "cb_namespace (wizard_body w) = Some (effectiveNamespace w)" "cb_name (wizard_body w) = Some (trim (dr_name (wz_draft w)))"
  "cb_type (wizard_body w) = Some (type_text (dr_type (wz_draft w)))" "cb_image (wizard_body w) = Some (trim (dr_image (wz_draft w)))"
  "cb_storageGi (wizard_body w) = finite_of (dr_storageGi (wz_draft w))"
  by (simp_all add: wizard_body_def Let_def)

lemma model_trimmed: "rx_match GPU_MODEL_RE m \<Longrightarrow> trim m = m"
  unfolding GPU_MODEL_RE_def
  by (subst (asm) label_rx_match)
    (auto intro!: trim_id simp: name_word_def js_space_def lower_alpha_def upper_alpha_def digit_def between_def)

lemma node_trimmed: "rx_match NODE_NAME_RE m \<Longrightarrow> trim m = m"
  unfolding NODE_NAME_RE_def by (subst (asm) label_rx_match) (auto intro!: trim_id dest: lower_alnum_not_space)

lemma models_offeredD: "m \<in> set (models_offered opts a) \<Longrightarrow> \<exists>os v. opts = Some os \<and> m \<in> set (do_models os v)"
  by (cases opts; cases a) (auto simp: models_offered_def)

lemma preset_bounds: "n \<in> set IDLE_PRESETS \<Longrightarrow> of_nat n \<le> IDLE_TIMEOUT_MAX"
  by (auto simp: IDLE_PRESETS_def IDLE_TIMEOUT_MAX_def)

lemma basics_iff:
  assumes "choices_ok w" and "step1Valid es w" and "step2Valid (wz_draft w)" and "\<forall>opts. wz_options w = Some opts \<longrightarrow> models_ok opts"
  shows "basics_error (wizard_body w) = None \<longleftrightarrow> trim (dr_image (wz_draft w)) \<noteq> []"
proof -
  let ?d = "wz_draft w" and ?b = "wizard_body w"
  have name: "truthy (cb_name ?b)" "rx_match DNS_LABEL_RE (the (cb_name ?b))" "truthy (cb_namespace ?b)"
    using assms(2) by (auto simp: step1Valid_def nameValid_def truthy_def)
  have ty: "truthy (cb_type ?b)" "the (cb_type ?b) \<in> set DEVENV_TYPES"
    by (cases "dr_type ?d"; simp add: truthy_def DEVENV_TYPES_def)+
  have acc: "accelerator ?b = accelerator_text (dr_accelerator ?d)" by (simp add: accelerator_def wizard_body_def Let_def)
  then have "accelerator ?b \<in> set ACCELERATORS" and gpu: "gpuEnabled ?b \<longleftrightarrow> gpuRequested ?d"
    by (cases "dr_accelerator ?d" rule: accelerator_text.cases; simp add: ACCELERATORS_def gpuEnabled_def gpuRequested_def)+
  moreover have "\<not> (gpuEnabled ?b \<and> (\<not> is_integer (gpuCount ?b) \<or> gpuCount ?b < 1 \<or> 16 < gpuCount ?b))"
    using assms(3) unfolding gpu
    by (cases "dr_gpuCount ?d") (auto simp: step2Valid_def gpuValid_def integer_within_def gpuCount_def wizard_body_def Let_def)
  moreover have "text_field (cb_gpuModel ?b) = [] \<or>
      length (text_field (cb_gpuModel ?b)) \<le> GPU_MODEL_MAX \<and> rx_match GPU_MODEL_RE (text_field (cb_gpuModel ?b))"
  proof (cases "gpuRequested ?d \<and> dr_gpuModel ?d \<noteq> []")
    case True
    with assms(1) obtain v opts where "wz_options w = Some opts" "dr_gpuModel ?d \<in> set (do_models opts v)"
      by (auto simp: choices_ok_def Let_def dest: models_offeredD)
    with assms(4) have m: "rx_match GPU_MODEL_RE (dr_gpuModel ?d)" "length (dr_gpuModel ?d) \<le> GPU_MODEL_MAX"
      by (auto simp: models_ok_def list_all_iff)
    with True show ?thesis by (simp add: text_field_def wizard_body_def sent_if_def Let_def model_trimmed)
  qed (auto simp: text_field_def wizard_body_def sent_if_def Let_def)
  moreover have "\<not> (cb_storageGi ?b \<noteq> None \<and> (the (cb_storageGi ?b) < 20 \<or> 800 < the (cb_storageGi ?b)))"
    using assms(3) by (cases "dr_storageGi ?d") (auto simp: step2Valid_def storageValid_def integer_within_def)
  moreover have "idleTimeout ?b = of_nat (idleTimeoutSeconds ?d)" by (simp add: idleTimeout_def wizard_body_def Let_def)
  moreover have "of_nat (idleTimeoutSeconds ?d) \<le> IDLE_TIMEOUT_MAX"
    using assms(1,3) preset_bounds [of "dr_idle ?d"]
    by (auto simp: step2Valid_def idleValid_def idleCustomValid_def idleTimeoutSeconds_def choices_ok_def Let_def)
  ultimately show ?thesis using name ty unfolding basics_error_def by (auto simp: not_le)
qed

lemma identity_iff:
  assumes "step3Valid (wz_draft w)"
  shows "identity_error (wizard_body w) = None \<longleftrightarrow>
    dr_runAsRoot (wz_draft w) \<or> effectiveUser (wz_draft w) \<noteq> ''root'' \<or> string_to_nat (effectiveUid (wz_draft w)) = 0"
proof -
  let ?d = "wz_draft w" and ?b = "wizard_body w"
  have "cb_runtimeUser ?b = (if dr_runAsRoot ?d then None else Some (effectiveUser ?d))"
      "cb_runAsUser ?b = Some (if dr_runAsRoot ?d then 0 else of_nat (string_to_nat (effectiveUid ?d)))"
      "cb_runAsGroup ?b = Some (if dr_runAsRoot ?d then 0 else of_nat (string_to_nat (effectiveGid ?d)))"
    by (simp_all add: wizard_body_def sent_if_def Let_def)
  moreover have "\<not> run_as_bad (Some (0::rat))" by (simp add: run_as_bad_def is_integer_def RUN_AS_ID_MAX_def)
  ultimately show ?thesis using assms
    by (cases "dr_runAsRoot ?d")
      (auto simp: identity_error_def step3Valid_def accountValid_def uidGidValid_def idValid_def run_as_bad_def truthy_def not_le)
qed

lemma mount_sent: "workspacePath (wizard_body w) = trim (dr_mountPath (wz_draft w))"
  by (simp add: workspacePath_def text_field_def wizard_body_def sent_if_def Let_def)

lemma storage_accepted:
  assumes "step2Valid (wz_draft w)" and "step3Valid (wz_draft w)"
  shows "storage_error (wizard_body w) = None"
proof -
  have "finite_of (dr_storageGi (wz_draft w)) \<noteq> None"
    using assms(1) by (cases "dr_storageGi (wz_draft w)") (auto simp: step2Valid_def storageValid_def integer_within_def)
  moreover have "pvcRetention (wizard_body w) \<in> set PVC_RETENTIONS"
    by (simp add: pvcRetention_def PVC_RETENTIONS_def wizard_body_def sent_if_def Let_def)
  ultimately show ?thesis using assms(2)
    by (auto simp: storage_error_def mount_sent step3Valid_def mountPathValid_def pathOk_def mountable_def)
qed

lemma request_volumes_accepted:
  assumes "step3Valid (wz_draft w)"
  shows "\<exists>vs. request_volumes (wizard_body w) = Inr vs"
proof -
  let ?d = "wz_draft w" and ?m = "trim (dr_mountPath (wz_draft w))" and ?path = "\<lambda>r. trim (vr_mountPath r)"
  have rows: "nullish (cb_volumes (wizard_body w)) [] = map (\<lambda>r. (Some (trim (vr_pvcName r)), Some (?path r))) (filledPvcs ?d)"
    by (simp add: wizard_body_def sent_if_def Let_def)
  have valid: "pvcRowsValid ?d" using assms by (simp add: step3Valid_def)
  then have "distinct ((if ?m \<noteq> [] then [?m] else []) @ map ?path (filledPvcs ?d))"
    by (simp add: pvcRowsValid_def Let_def flip: set_size split: if_splits)
  then have "distinct (map ?path (filledPvcs ?d))" "\<forall>r\<in>set (filledPvcs ?d). ?path r \<notin> set (if ?m \<noteq> [] then [?m] else [])"
    by (auto split: if_splits) (metis imageI)
  moreover have "\<forall>r\<in>set (filledPvcs ?d). trim (vr_pvcName r) \<noteq> [] \<and> mountable (?path r)"
    using valid by (auto simp: pvcRowsValid_def pathOk_def mountable_def list_all_iff)
  ultimately show ?thesis unfolding request_volumes_def rows mount_sent by (intro volumes_accepted)
qed

lemma request_env_accepted:
  assumes "step3Valid (wz_draft w)"
  shows "\<exists>es. request_env (wizard_body w) = Inr es"
proof -
  have "nullish (cb_env (wizard_body w)) [] = map (\<lambda>r. (Some (trim (er_name r)), Some (er_value r))) (filledEnvs (wz_draft w))"
    by (simp add: wizard_body_def sent_if_def Let_def)
  moreover have "envRowsValid (wz_draft w)" using assms by (simp add: step3Valid_def)
  then have "distinct (map (\<lambda>r. trim (er_name r)) (filledEnvs (wz_draft w)))"
      "\<forall>r\<in>set (filledEnvs (wz_draft w)). rx_match ENV_NAME_RE (trim (er_name r)) \<and> (trim (er_name r) \<noteq> ''HOME'' \<or> startsWith (er_value r) ''/'')"
    by (auto simp: envRowsValid_def list_all_iff simp flip: set_size)
  ultimately show ?thesis unfolding request_env_def by (simp add: envs_accepted)
qed

lemma request_ports_iff:
  assumes "step3Valid (wz_draft w)"
  shows "(\<exists>ps. request_ports (wizard_body w) = Inr ps) \<longleftrightarrow> distinct (map port_number (l4Ports (wz_draft w)))"
proof -
  have rows: "nullish (cb_ports (wizard_body w)) [] = map port_sent (filledPorts (wz_draft w))"
    by (simp add: wizard_body_def sent_if_def Let_def)
  have "portRowsValid (wz_draft w)" using assms by (simp add: step3Valid_def)
  then have "distinct (map (\<lambda>r. trim (qr_name r)) (filledPorts (wz_draft w)))"
      "\<forall>r\<in>set (filledPorts (wz_draft w)). trim (qr_name r) \<noteq> [] \<and> 1 \<le> string_to_nat (trim (qr_port r)) \<and> string_to_nat (trim (qr_port r)) \<le> 65535"
    by (auto simp: portRowsValid_def list_all_iff simp flip: set_size)
  from ports_accepted_iff [OF this(2,1), of "[]" "[]" "[]"] show ?thesis unfolding request_ports_def rows by (simp add: l4Ports_def)
qed

lemma argv_iff: "(\<exists>a. request_argv err (sent_if (trim s \<noteq> []) (trim s)) = Inr a) \<longleftrightarrow> splitArgs (trim s) \<noteq> None"
  by (auto simp: request_argv_def sent_if_def text_field_def splitArgs_def split: option.splits)

lemma network_accepted:
  assumes "step3Valid (wz_draft w)"
  shows "network_error (wizard_body w) = None"
proof -
  let ?d = "wz_draft w"
  have "rdmaType (wizard_body w) \<in> set RDMA_TYPES"
    by (cases "dr_rdmaType ?d") (simp_all add: rdmaType_def RDMA_TYPES_def wizard_body_def sent_if_def Let_def)
  moreover have "nodeNameValid ?d" using assms by (simp add: step3Valid_def)
  then have "text_field (cb_nodeName (wizard_body w)) = [] \<or>
      length (text_field (cb_nodeName (wizard_body w))) \<le> NODE_NAME_MAX \<and> rx_match NODE_NAME_RE (text_field (cb_nodeName (wizard_body w)))"
    by (auto simp: nodeNameValid_def text_field_def wizard_body_def sent_if_def Let_def node_trimmed)
  ultimately show ?thesis by (auto simp: network_error_def not_le)
qed

lemma keys_iff:
  "(\<exists>ks. request_keys (wizard_body w) = Inr ks) \<longleftrightarrow>
    (let d = wz_draft w; keys = key_lines (Some (trim (dr_sshKeys d)))
     in \<not> dr_sshEnabled d \<or> keys = [] \<or>
        length keys \<le> 50 \<and> list_all (rx_match OPENSSH_PUB_KEY_RE) keys \<and> length (trim (dr_name d)) \<le> 49)"
proof -
  let ?d = "wz_draft w"
  have "cb_sshEnabled (wizard_body w) = Some True \<longleftrightarrow> dr_sshEnabled ?d" by (simp add: wizard_body_def sent_if_def Let_def)
  moreover have "key_lines (cb_sshKeys (wizard_body w)) = key_lines (Some (trim (dr_sshKeys ?d)))" if "dr_sshEnabled ?d"
    using that by (auto simp: wizard_body_def sent_if_def Let_def key_lines_def)
  ultimately show ?thesis
    by (auto simp: request_keys_def SSH_KEYS_MAX_def SSH_KEYS_SECRET_SUFFIX_def list_all_iff Let_def not_less)
qed

lemma wizard_body_accepted_iff:
  assumes "choices_ok w" and "may_create es w" and "\<forall>opts. wz_options w = Some opts \<longrightarrow> models_ok opts"
  shows "(\<exists>p. parse_request (wizard_body w) = Inr p) \<longleftrightarrow> server_rules w"
proof -
  have v: "step1Valid es w" "step2Valid (wz_draft w)" "step3Valid (wz_draft w)" using assms(2) by (auto simp: may_create_def)
  have argv: "cb_command (wizard_body w) = sent_if (trim (dr_command (wz_draft w)) \<noteq> []) (trim (dr_command (wz_draft w)))"
      "cb_args (wizard_body w) = sent_if (trim (dr_args (wz_draft w)) \<noteq> []) (trim (dr_args (wz_draft w)))"
    by (simp_all add: wizard_body_def Let_def)
  show ?thesis
    unfolding parse_request_accepts_iff argv argv_iff basics_iff [OF assms(1) v(1,2) assms(3)] identity_iff [OF v(3)]
      request_ports_iff [OF v(3)] keys_iff server_rules_def Let_def
    using storage_accepted [OF v(2,3)] request_volumes_accepted [OF v(3)] request_env_accepted [OF v(3)] network_accepted [OF v(3)]
    by simp
qed

lemma dev_POST_400:
  assumes "parse_request b = Inr p" and "res_status (fst (dev_POST ftext env api (Some b))) = Status 400"
  shows "(\<exists>nss. d_namespaces api = Inr nss \<and> Some (nullish (cb_namespace b) []) \<notin> set nss) \<or>
    (\<exists>es. d_list api = Inr es \<and> list_ex (named (nullish (cb_namespace b) []) (nullish (cb_name b) [])) es)"
  using assms
  by (auto simp: dev_POST_def write_env_def create_failed_def answer_def Let_def split: sum.splits if_splits option.splits)

text \<open>A form filled in with a name and nothing else, on each of its steps.\<close>

definition sample_dev_options :: dev_options where
  "sample_dev_options = \<lparr>do_namespaces = [''default''], do_defaultNamespace = Some ''default'',
     do_images = [\<lparr>im_tag = ''cpu'', im_label = ''CPU'', im_user = ''ubuntu'', im_runAsGroup = None, im_interface = Jupyter, im_vendor = Cpu_Image\<rparr>],
     do_models = (\<lambda>_. []), do_nodes = []\<rparr>"

definition sample_form :: "nat \<Rightarrow> wizard" where
  "sample_form k =
     initial_wizard\<lparr>wz_step := k, wz_options := Some sample_dev_options,
       wz_draft := initial_draft\<lparr>dr_name := ''nb'', dr_namespace := ''default'', dr_image := ''cpu'', dr_runtimeUser := ''ubuntu'',
         dr_runAsUser := ''1000'', dr_runAsGroup := ''1000''\<rparr>\<rparr>"

lemma sample_texts:
  "trim ''nb'' = ''nb''" "trim ''cpu'' = ''cpu''" "trim ''ubuntu'' = ''ubuntu''" "trim ''1000'' = ''1000''" "nat_to_string 1000 = ''1000''"
  "string_to_nat ''1000'' = 1000" "rx_match DNS_LABEL_RE ''nb''" "rx_match RUNTIME_USER_RE ''ubuntu''" "digit_text ''1000''"
  by code_simp+

lemmas sample_defs = sample_form_def initial_wizard_def initial_draft_def sample_texts

lemma sample_step1: "step1Valid [] (sample_form k)"
  by (simp add: sample_defs step1Valid_def nameValid_def nameTaken_def effectiveNamespace_def newNamespaceValid_def del: rx_match.simps)

lemma sample_step2: "step2Valid (wz_draft (sample_form k))"
  by (simp add: sample_defs step2Valid_def gpuValid_def gpuRequested_def storageValid_def idleValid_def integer_within_def is_integer_def)

lemma sample_step3: "step3Valid (wz_draft (sample_form k))"
  by (simp add: sample_defs step3Valid_def accountValid_def uidGidValid_def idValid_def effectiveUser_def effectiveUid_def effectiveGid_def
      mountPathValid_def pvcRowsValid_def filledPvcs_def envRowsValid_def filledEnvs_def portRowsValid_def filledPorts_def l4Ports_def
      nodeNameValid_def RUNTIME_USER_MAX_def RUN_AS_ID_MAX_def del: rx_match.simps)

lemma sample_next: "k \<in> {1, 2, 3} \<Longrightarrow> wizard_next [] (sample_form k) = sample_form (Suc k)"
  using sample_step1 [of k] sample_step2 [of k] sample_step3 [of k] unfolding wizard_next_def Let_def
  by (auto simp: mark_def advance_def step2_flags_def step3_flags_def step2Valid_def step3Valid_def) (auto simp: sample_form_def initial_wizard_def)

lemma sample_reachable: "wizard_reachable ftext (sample_form 4)"
proof -
  have "on_event ftext (SetName ''nb'') (on_event ftext (Loaded sample_dev_options) initial_wizard) = sample_form 1"
    by (simp add: sample_defs loaded_def set_draft_def identityOf_def sample_dev_options_def PLATFORM_UID_def PLATFORM_GID_def)
  moreover have "offered initial_wizard (Loaded sample_dev_options)" by (simp add: offered_def event_step_def initial_wizard_def)
  moreover have "offered (on_event ftext (Loaded sample_dev_options) initial_wizard) (SetName ''nb'')"
    by (simp add: offered_def event_step_def initial_wizard_def loaded_def set_draft_def Let_def)
  ultimately have one: "wizard_reachable ftext (sample_form 1)"
    using wizard_reachable.opened wizard_reachable.event by metis
  have up: "wizard_reachable ftext (sample_form (Suc k))" if "wizard_reachable ftext (sample_form k)" "k \<in> {1, 2, 3}" for k
  proof -
    have "offered (sample_form k) (Next [])" using that(2) by (auto simp: offered_def event_step_def sample_form_def)
    with wizard_reachable.event [OF that(1) this] show ?thesis using sample_next [OF that(2)] by simp
  qed
  from up [OF up [OF up [OF one]]] show ?thesis by (simp add: eval_nat_numeral)
qed

text \<open>C11. What the wizard keeps while it is filled in, whatever is done in it and in whatever order: the memory is
  one of those the chosen CPU has, a GPU model is one the cluster offers for the chosen vendor, a node is an
  offered one, keys are there only with SSH on, rows have ids of their own, and a step is shown only when the
  rules of those before it hold. So on the last step nothing is left that could stop the creation but a name
  taken in the meantime.\<close>

theorem wizard_keeps_rules:
  assumes "wizard_reachable ftext w"
  shows "dr_memory (wz_draft w) \<in> set (memoryOptions (dr_cpu (wz_draft w))) \<and>
    dr_gpuModel (wz_draft w) \<in> set ([] # models_offered (wz_options w) (dr_accelerator (wz_draft w))) \<and>
    dr_nodeName (wz_draft w) \<in> set ([] # nodes_offered (wz_options w)) \<and>
    (dr_sshEnabled (wz_draft w) \<or> dr_sshKeys (wz_draft w) = []) \<and>
    distinct (map vr_id (dr_pvcs (wz_draft w))) \<and> distinct (map er_id (dr_envs (wz_draft w))) \<and> distinct (map qr_id (dr_ports (wz_draft w))) \<and>
    wz_step w \<in> {1..4} \<and> (wz_step w \<ge> 3 \<longrightarrow> step2Valid (wz_draft w)) \<and>
    (wz_step w = 4 \<longrightarrow> (may_create environments w \<longleftrightarrow> \<not> nameTaken environments w))"
  using wizard_invariant [OF assms]
  by (auto simp: choices_ok_def rows_ok_def ids_ok_def steps_ok_def passed1_def may_create_def step1Valid_def Let_def)

theorem wizard_keeps_rules_witness:
  "wz_step (sample_form 4) = 4 \<and> dr_memory (wz_draft (sample_form 4)) \<in> set (memoryOptions ''2'') \<and> may_create [] (sample_form 4)"
  using wizard_keeps_rules [OF sample_reachable, of "[]"] by (simp add: sample_form_def initial_draft_def nameTaken_def)

text \<open>C12. A request the wizard sends is one the create route accepts, exactly if it also keeps the rules the wizard
  does not have: an image that is not blank, no account \<open>root\<close> with another user id, balanced quotes in the two
  command lines, different numbers (not only different texts) for the ports of the shared pool, and valid
  keys. Then only a missing namespace or a name taken can make the route refuse it, and the route of namespaces
  does not refuse the name of a new namespace.\<close>

theorem wizard_request_accepted:
  assumes "wizard_reachable ftext w" and "create_request environments w = Some (namespace, b)"
    and "\<forall>opts. wz_options w = Some opts \<longrightarrow> models_ok opts"
  shows "((\<exists>p. parse_request b = Inr p) \<longleftrightarrow> server_rules w) \<and>
    (server_rules w \<and> res_status (fst (dev_POST ftext env api (Some b))) = Status 400 \<longrightarrow>
      (\<exists>nss. d_namespaces api = Inr nss \<and> Some (effectiveNamespace w) \<notin> set nss) \<or>
      (\<exists>es. d_list api = Inr es \<and> list_ex (named (effectiveNamespace w) (trim (dr_name (wz_draft w)))) es)) \<and>
    (namespace \<noteq> None \<longrightarrow> res_status (namespaces_POST napi namespace) \<noteq> Status 400)"
proof -
  have may: "may_create environments w" and b: "b = wizard_body w" and ns: "namespace = sent_if (wz_newNamespace w) (effectiveNamespace w)"
    using assms(2) by (auto simp: create_request_def sent_if_def split: if_splits)
  have iff: "(\<exists>p. parse_request b = Inr p) \<longleftrightarrow> server_rules w"
    unfolding b using wizard_invariant [OF assms(1)] by (intro wizard_body_accepted_iff [OF _ may assms(3)]) simp
  moreover have "res_status (namespaces_POST napi namespace) \<noteq> Status 400" if "namespace \<noteq> None"
  proof -
    from that may have "namespace = Some (trim (wz_newNamespaceName w))" "rx_match NAMESPACE_RE (trim (wz_newNamespaceName w))"
      by (auto simp: ns sent_if_def effectiveNamespace_def may_create_def step1Valid_def newNamespaceValid_def split: if_splits)
    then show ?thesis by (auto simp: namespaces_POST_def answer_def Let_def split: sum.splits option.splits)
  qed
  ultimately show ?thesis using dev_POST_400 [of b _ ftext env api] by (auto simp: b)
qed

theorem wizard_request_accepted_witness:
  "\<exists>p. create_request [] (sample_form 4) = Some (None, wizard_body (sample_form 4)) \<and> parse_request (wizard_body (sample_form 4)) = Inr p"
proof -
  have "may_create [] (sample_form 4)" using sample_step1 sample_step2 sample_step3 by (simp add: may_create_def)
  then have req: "create_request [] (sample_form 4) = Some (None, wizard_body (sample_form 4))"
    by (simp add: create_request_def sent_if_def sample_form_def initial_wizard_def)
  have "\<forall>opts. wz_options (sample_form 4) = Some opts \<longrightarrow> models_ok opts"
    by (simp add: sample_form_def sample_dev_options_def models_ok_def)
  moreover have "server_rules (sample_form 4)"
    by (simp add: server_rules_def sample_defs effectiveUser_def l4Ports_def filledPorts_def splitArgs_def Let_def)
  ultimately show ?thesis using wizard_request_accepted [OF sample_reachable req] req by blast
qed

end
