(* ===== verification/Deploy.thy ===== *)
theory Deploy
  imports Dev_Wizard
begin

text \<open>
  The forms of inference services (\<open>app/inference-services/page.tsx\<close>): the scale panel of a service, the pickers
  of RDMA fabrics and nodes, and the deployment wizard with the values it derives from the profile and the nodes.
  The theorems compare what the forms send with what the routes accept (\<open>Inference\<close>, \<open>Inference_Api\<close>). The names of
  overrides are not those of the properties every object inherits.
\<close>

section \<open>Scaling\<close>

definition splitList :: "string \<Rightarrow> string list" where
  "splitList v = filter (\<lambda>s. s \<noteq> []) (map trim (split_char CHR '','' v))"

definition enum_allows :: "(rat + string) list option \<Rightarrow> override_value \<Rightarrow> bool" where
  "enum_allows enum v = (case enum of None \<Rightarrow> True | Some as \<Rightarrow> list_ex (enum_same v) as)"

definition scaleValueValid :: "knob \<Rightarrow> override_value option \<Rightarrow> bool" where
  "scaleValueValid k v =
     (case v of
        None \<Rightarrow> False
      | Some v \<Rightarrow>
          (case kn_type k of
             BooleanKnob \<Rightarrow> (case v of OBool _ \<Rightarrow> True | _ \<Rightarrow> False)
           | ListKnob \<Rightarrow> (case v of OList es \<Rightarrow> list_all (\<lambda>e. enum_allows (kn_enum k) (OStr e)) es | _ \<Rightarrow> False)
           | StringKnob \<Rightarrow>
               (case v of
                  OStr s \<Rightarrow> (if trim s = [] then kn_default k = Some (OStr []) else enum_allows (kn_enum k) v)
                | _ \<Rightarrow> False)
           | IntegerKnob \<Rightarrow>
               (case v of
                  ONum n \<Rightarrow>
                    is_integer n \<and> enum_allows (kn_enum k) v \<and>
                    (case kn_min k of None \<Rightarrow> True | Some m \<Rightarrow> \<not> n < m) \<and> (case kn_max k of None \<Rightarrow> True | Some m \<Rightarrow> \<not> m < n)
                | _ \<Rightarrow> False)))"

definition first_enum :: "(rat + string) list option \<Rightarrow> override_value option" where
  "first_enum enum = (case enum of Some (a # _) \<Rightarrow> Some (enum_value a) | _ \<Rightarrow> None)"

definition scaleInitial :: "knob \<Rightarrow> override_value" where
  "scaleInitial k =
     (case kn_current k of
        Some v \<Rightarrow> v
      | None \<Rightarrow>
          (if kn_type k = ListKnob then OList []
           else case first_enum (kn_enum k) of
               Some v \<Rightarrow> v
             | None \<Rightarrow>
                 (case kn_type k of BooleanKnob \<Rightarrow> OBool True | StringKnob \<Rightarrow> OStr [] | _ \<Rightarrow> ONum (nullish (kn_min k) 1))))"

definition scale_value :: "overrides \<Rightarrow> knob \<Rightarrow> override_value" where
  "scale_value values k = nullish (map_of values (kn_name k)) (scaleInitial k)"

definition scale_effective :: "knob list \<Rightarrow> overrides \<Rightarrow> overrides" where
  "scale_effective ks values = foldl (\<lambda>es k. obj_set es (kn_name k) (scale_value values k)) [] ks"

definition scale_invalid :: "knob list \<Rightarrow> overrides \<Rightarrow> bool" where
  "scale_invalid ks values \<longleftrightarrow>
     list_ex (\<lambda>k. \<not> scaleValueValid k (map_of (scale_effective ks values) (kn_name k))) ks"

definition scale_unchanged :: "knob list \<Rightarrow> overrides \<Rightarrow> bool" where
  "scale_unchanged ks values \<longleftrightarrow>
     map (\<lambda>k. (kn_name k, map_of (scale_effective ks values) (kn_name k))) ks = map (\<lambda>k. (kn_name k, Some (scaleInitial k))) ks"

text \<open>What the button of the panel sends, if it is enabled.\<close>

definition scale_request :: "bool \<Rightarrow> knob list \<Rightarrow> overrides \<Rightarrow> overrides option" where
  "scale_request busy ks values =
     (if busy \<or> scale_invalid ks values \<or> scale_unchanged ks values \<or> ks = [] then None else Some (scale_effective ks values))"

section \<open>Fabrics and nodes\<close>

definition RDMA_FABRICS :: "(fabric \<times> string) list" where
  "RDMA_FABRICS = [(Infiniband, ''rdma/ib_shared_devices''), (Roce, ''rdma/roce_shared_devices'')]"

record rdma_fabric =
  rf_id :: fabric
  rf_resource :: string
  rf_value :: int

definition text_type :: "string \<Rightarrow> bool" where
  "text_type ty \<longleftrightarrow> ty = ''string'' \<or> ty = ''stringList''"

definition isExtendedResourcesOverride :: "string \<Rightarrow> string \<Rightarrow> bool" where
  "isExtendedResourcesOverride name ty \<longleftrightarrow>
     text_type ty \<and> (name = ''extendedResources'' \<or> endsWith name ''_extendedResources'')"

definition fabric_of_pair :: "string \<Rightarrow> fabric option option" where
  "fabric_of_pair raw =
     (let pair = trim raw
      in if pair = [] then Some None
         else if CHR '','' \<in> set pair then None
         else case find_index ((=) CHR ''='') pair of
             None \<Rightarrow> None
           | Some eq \<Rightarrow> map_option (\<lambda>f. Some (fst f)) (find (\<lambda>f. snd f = trim (take eq pair)) RDMA_FABRICS))"

text \<open>\<^const>\<open>None\<close> when the picker cannot represent the value, \<open>Some None\<close> when it names no fabric.\<close>

definition rdmaFabricOf :: "override_value \<Rightarrow> fabric option option" where
  "rdmaFabricOf v =
     (case v of
        OList [] \<Rightarrow> Some None
      | OList [e] \<Rightarrow> fabric_of_pair e
      | OStr s \<Rightarrow> fabric_of_pair s
      | _ \<Rightarrow> None)"

definition fabricOverrideValue :: "string \<Rightarrow> rdma_fabric \<Rightarrow> override_value" where
  "fabricOverrideValue ty f =
     (let pair = rf_resource f @ ''='' @ nat_to_string (nat (rf_value f)) in if ty = ''stringList'' then OList [pair] else OStr pair)"

definition NODE_SELECTOR_KEY :: string where
  "NODE_SELECTOR_KEY = ''kubernetes.io/hostname''"

definition isNodeSelectorOverride :: "string \<Rightarrow> string \<Rightarrow> bool" where
  "isNodeSelectorOverride name ty \<longleftrightarrow> text_type ty \<and> (name = ''nodeSelector'' \<or> endsWith name ''_nodeSelector'')"

text \<open>Of the text of the value.\<close>

definition pinnedNode :: "string \<Rightarrow> string option" where
  "pinnedNode v =
     (if v = [] then Some []
      else if CHR '','' \<in> set v then None
      else case find_index ((=) CHR ''='') v of
          None \<Rightarrow> None
        | Some eq \<Rightarrow> (if take eq v = NODE_SELECTOR_KEY then Some (drop (eq + 1) v) else None))"

definition pinnedNodes :: "override_value \<Rightarrow> string list option" where
  "pinnedNodes v =
     (case v of
        OList es \<Rightarrow>
          (let key = NODE_SELECTOR_KEY @ ''=''
           in if list_all (\<lambda>e. startsWith e key) es then Some (map (drop (length key)) es) else None)
      | _ \<Rightarrow> None)"

text \<open>What a choice in the two node pickers writes.\<close>

definition pick_node :: "string \<Rightarrow> override_value" where
  "pick_node name = OStr (if name \<noteq> [] then NODE_SELECTOR_KEY @ ''='' @ name else [])"

definition pick_nodes :: "string list \<Rightarrow> override_value" where
  "pick_nodes names = OList (map (\<lambda>name. NODE_SELECTOR_KEY @ ''='' @ name) names)"

section \<open>The wizard: what it derives\<close>

record deploy_draft =
  dd_name :: string
  dd_namespace :: string
  dd_profileRef :: string
  dd_modelRef :: string
  dd_overrides :: overrides
  dd_router :: string
  dd_modelName :: string
  dd_paths :: "string list"

definition selected_profile :: "create_options option \<Rightarrow> deploy_draft \<Rightarrow> profile_option option" where
  "selected_profile opts d =
     (case opts of None \<Rightarrow> None | Some os \<Rightarrow> find (\<lambda>p. po_name p = dd_profileRef d) (co_profiles os))"

definition role_named :: "profile_option \<Rightarrow> string \<Rightarrow> role_option option" where
  "role_named p name = find (\<lambda>r. rp_name r = name) (po_roles p)"

definition roleVendor :: "profile_option \<Rightarrow> string \<Rightarrow> string option" where
  "roleVendor p name =
     (case (case role_named p name of None \<Rightarrow> None | Some r \<Rightarrow> rp_vendor r) of Some v \<Rightarrow> Some v | None \<Rightarrow> po_vendor p)"

definition roleModels :: "profile_option \<Rightarrow> string \<Rightarrow> string list" where
  "roleModels p name = (case role_named p name of None \<Rightarrow> po_models p | Some r \<Rightarrow> rp_models r)"

definition listed_in :: "string list \<Rightarrow> string option \<Rightarrow> bool" where
  "listed_in req v \<longleftrightarrow> req = [] \<or> truthy v \<and> the v \<in> set req"

definition compatibleModels :: "create_options option \<Rightarrow> profile_option option \<Rightarrow> version_option list" where
  "compatibleModels opts prof =
     filter (\<lambda>m. case prof of None \<Rightarrow> True
         | Some p \<Rightarrow> listed_in (po_architectures p) (vo_architecture m) \<and> listed_in (po_quantizations p) (vo_quantization m))
       (case opts of None \<Rightarrow> [] | Some os \<Rightarrow> co_versions os)"

definition declaredOverrideValue :: "deploy_draft \<Rightarrow> override_option \<Rightarrow> override_value" where
  "declaredOverrideValue d k =
     (case map_of (dd_overrides d) (oo_name k) of
        Some v \<Rightarrow> v
      | None \<Rightarrow>
          (case oo_default k of
             Some v \<Rightarrow> v
           | None \<Rightarrow>
               (if oo_type k = ''stringList'' then OList []
                else case first_enum (oo_enum k) of
                    Some v \<Rightarrow> v
                  | None \<Rightarrow>
                      (if oo_type k = ''boolean'' then OBool True
                       else if oo_type k = ''integer'' then ONum (nullish (oo_min k) 1) else OStr []))))"

text \<open>The first value that is a text out of a list of models.\<close>

definition model_among :: "string list \<Rightarrow> override_value list \<Rightarrow> string option" where
  "model_among models vs =
     (case find (\<lambda>v. case v of OStr s \<Rightarrow> s \<in> set models | _ \<Rightarrow> False) vs of Some (OStr s) \<Rightarrow> Some s | _ \<Rightarrow> None)"

definition selectedGpuModel :: "deploy_draft \<Rightarrow> profile_option \<Rightarrow> string option" where
  "selectedGpuModel d p = model_among (po_models p) (map (declaredOverrideValue d) (po_overrides p))"

definition selectedRoleGpuModel :: "deploy_draft \<Rightarrow> profile_option \<Rightarrow> string \<Rightarrow> string option" where
  "selectedRoleGpuModel d p name =
     (case model_among (roleModels p name) (map (declaredOverrideValue d)
         (filter (\<lambda>k. startsWith (oo_name k) (name @ ''_'') \<and> endsWith (oo_name k) ''_model'') (po_overrides p))) of
        Some m \<Rightarrow> Some m
      | None \<Rightarrow>
          (case selectedGpuModel d p of
             Some m \<Rightarrow> (if m \<noteq> [] \<and> m \<in> set (roleModels p name) then Some m else None)
           | None \<Rightarrow> None))"

definition vendor_key :: "string \<Rightarrow> gpu_vendor option" where
  "vendor_key v = (if v = ''metax'' then Some Metax else if v = ''nvidia'' then Some Nvidia else None)"

definition node_model :: "node_option \<Rightarrow> string \<Rightarrow> string option" where
  "node_model n v = (case vendor_key v of None \<Rightarrow> None | Some k \<Rightarrow> map_of (no_gpuModels n) k)"

text \<open>A node can run the model chosen for a vendor, when both are there.\<close>

definition node_fits :: "node_option \<Rightarrow> string option \<Rightarrow> string option \<Rightarrow> bool" where
  "node_fits n model vendor \<longleftrightarrow> \<not> truthy model \<or> \<not> truthy vendor \<or> node_model n (the vendor) = model"

definition roleNodeMatches :: "deploy_draft \<Rightarrow> profile_option \<Rightarrow> string \<Rightarrow> node_option \<Rightarrow> bool" where
  "roleNodeMatches d p name n = node_fits n (selectedRoleGpuModel d p name) (roleVendor p name)"

definition scope_of :: "string \<Rightarrow> string \<Rightarrow> string option" where
  "scope_of knob name = (if endsWith name knob then Some (take (length name - length knob) name) else None)"

definition nodeMatchesSelectedModel :: "deploy_draft \<Rightarrow> profile_option \<Rightarrow> override_option \<Rightarrow> node_option \<Rightarrow> bool" where
  "nodeMatchesSelectedModel d p k n =
     (let scoped = scope_of ''_nodeSelector'' (oo_name k);
          roles = (if truthy scoped then [the scoped] else map rp_name (po_roles p))
      in if roles = [] then node_fits n (selectedGpuModel d p) (po_vendor p)
         else list_all (\<lambda>name. roleNodeMatches d p name n) roles)"

definition rdma_count :: "fabric \<Rightarrow> node_option \<Rightarrow> rat" where
  "rdma_count f n = (case f of Roce \<Rightarrow> no_roce n | Infiniband \<Rightarrow> no_infiniband n)"

definition gpu_count :: "string \<Rightarrow> node_option \<Rightarrow> rat" where
  "gpu_count vendor n = (case vendor_key vendor of None \<Rightarrow> 0 | Some v \<Rightarrow> nullish (map_of (no_gpu n) v) 0)"

definition fabric_share :: "string \<Rightarrow> rat \<Rightarrow> node_option list \<Rightarrow> fabric \<times> string \<Rightarrow> rdma_fabric list" where
  "fabric_share vendor perPod eligible f =
     (let nodes = filter (\<lambda>n. 0 < rdma_count (fst f) n) eligible;
          rdma = sum_list (map (rdma_count (fst f)) nodes); gpu = sum_list (map (gpu_count vendor) nodes);
          v = \<lfloor>rdma * perPod / gpu\<rfloor>
      in if nodes = [] \<or> gpu \<le> 0 then [] else if 0 < v then [\<lparr>rf_id = fst f, rf_resource = snd f, rf_value = v\<rparr>] else [])"

text \<open>\<open>to_number\<close> is the comparison with zero of a count that is a text.\<close>

definition gpu_role_count :: "(string \<Rightarrow> js_number) \<Rightarrow> count_field option \<Rightarrow> bool" where
  "gpu_role_count to_number c = positive_number (count_number to_number c)"

definition fed_roles :: "(string \<Rightarrow> js_number) \<Rightarrow> profile_option \<Rightarrow> override_option \<Rightarrow> role_option list" where
  "fed_roles to_number p k =
     (let scoped = scope_of ''_extendedResources'' (oo_name k)
      in filter (\<lambda>r. if truthy scoped then rp_name r = the scoped else gpu_role_count to_number (rp_gpuPerPod r)) (po_roles p))"

definition rdmaFabrics ::
    "(string \<Rightarrow> js_number) \<Rightarrow> node_option list \<Rightarrow> deploy_draft \<Rightarrow> profile_option \<Rightarrow> override_option \<Rightarrow> rdma_fabric list option" where
  "rdmaFabrics to_number allNodes d p k =
     (if \<not> isExtendedResourcesOverride (oo_name k) (oo_type k) then None
      else
        (let roles = fed_roles to_number p k
         in case (remdups (map (\<lambda>r. roleVendor p (rp_name r)) roles), remdups (map rp_gpuPerPod roles)) of
              ([Some vendor], [Some (CNum perPod)]) \<Rightarrow>
                (if perPod \<le> 0 then None
                 else Some (concat (map (fabric_share vendor perPod
                   (filter (\<lambda>n. list_all (\<lambda>r. roleNodeMatches d p (rp_name r) n) roles) allNodes)) RDMA_FABRICS)))
            | _ \<Rightarrow> None))"

definition has_default :: "override_option \<Rightarrow> bool" where
  "has_default k \<longleftrightarrow> oo_default k \<notin> {None, Some (OStr []), Some (OList [])}"

definition preferred_fabric :: "rdma_fabric list \<Rightarrow> rdma_fabric option" where
  "preferred_fabric fs =
     (case find (\<lambda>f. rf_id f = Infiniband) fs of Some f \<Rightarrow> Some f | None \<Rightarrow> (case fs of [f] \<Rightarrow> Some f | _ \<Rightarrow> None))"

definition autoOverrideValue ::
    "(string \<Rightarrow> js_number) \<Rightarrow> node_option list \<Rightarrow> deploy_draft \<Rightarrow> profile_option \<Rightarrow> override_option \<Rightarrow> override_value option" where
  "autoOverrideValue to_number allNodes d p k =
     (if map_of (dd_overrides d) (oo_name k) \<noteq> None \<or> has_default k then None
      else case rdmaFabrics to_number allNodes d p k of
          None \<Rightarrow> None
        | Some fs \<Rightarrow> map_option (fabricOverrideValue (oo_type k)) (preferred_fabric fs))"

definition overrideValue ::
    "(string \<Rightarrow> js_number) \<Rightarrow> node_option list \<Rightarrow> deploy_draft \<Rightarrow> profile_option \<Rightarrow> override_option \<Rightarrow> override_value" where
  "overrideValue to_number allNodes d p k = nullish (autoOverrideValue to_number allNodes d p k) (declaredOverrideValue d k)"

definition selectedNodeFabric ::
    "(string \<Rightarrow> js_number) \<Rightarrow> node_option list \<Rightarrow> deploy_draft \<Rightarrow> profile_option \<Rightarrow> override_option \<Rightarrow> fabric option" where
  "selectedNodeFabric to_number allNodes d p k =
     (if \<not> isNodeSelectorOverride (oo_name k) (oo_type k) then None
      else
        (let scoped = scope_of ''_nodeSelector'' (oo_name k); named = (\<lambda>n. find (\<lambda>o'. oo_name o' = n) (po_overrides p));
             own = (if truthy scoped then named (the scoped @ ''_extendedResources'') else None)
         in case (case own of Some e \<Rightarrow> Some e | None \<Rightarrow> named ''extendedResources'') of
              None \<Rightarrow> None
            | Some ext \<Rightarrow> (case rdmaFabricOf (overrideValue to_number allNodes d p ext) of Some (Some f) \<Rightarrow> Some f | _ \<Rightarrow> None)))"

definition picker_nodes ::
    "(string \<Rightarrow> js_number) \<Rightarrow> node_option list \<Rightarrow> deploy_draft \<Rightarrow> profile_option \<Rightarrow> override_option \<Rightarrow> node_option list" where
  "picker_nodes to_number allNodes d p k =
     filter (\<lambda>n. nodeMatchesSelectedModel d p k n \<and>
         (case selectedNodeFabric to_number allNodes d p k of None \<Rightarrow> True | Some f \<Rightarrow> 0 < rdma_count f n)) allNodes"

section \<open>The wizard: the grid of overrides\<close>

definition override_owner :: "string list \<Rightarrow> override_option \<Rightarrow> string option" where
  "override_owner roles k = find (\<lambda>name. startsWith (oo_name k) (name @ ''_'')) roles"

definition knob_suffix :: "string \<Rightarrow> override_option \<Rightarrow> string" where
  "knob_suffix role k = drop (length role + 1) (oo_name k)"

definition grid_roles :: "profile_option \<Rightarrow> string list" where
  "grid_roles p =
     filter (\<lambda>name. list_ex (\<lambda>k. startsWith (oo_name k) (name @ ''_'')) (po_overrides p)) (map rp_name (po_roles p))"

definition add_suffix :: "string list \<Rightarrow> string list \<Rightarrow> override_option \<Rightarrow> string list" where
  "add_suffix roles acc k =
     (case override_owner roles k of
        None \<Rightarrow> acc
      | Some role \<Rightarrow> (if role = [] \<or> knob_suffix role k \<in> set acc then acc else acc @ [knob_suffix role k]))"

definition grid_suffixes :: "string list \<Rightarrow> override_option list \<Rightarrow> string list" where
  "grid_suffixes roles ks = foldl (add_suffix roles) [] ks"

text \<open>The cell of a role and a suffix is the last override put there.\<close>

definition grid_cell :: "string list \<Rightarrow> override_option list \<Rightarrow> string \<Rightarrow> string \<Rightarrow> override_option option" where
  "grid_cell roles ks sfx role =
     find (\<lambda>k. role \<noteq> [] \<and> override_owner roles k = Some role \<and> knob_suffix role k = sfx) (rev ks)"

record override_grid =
  gd_roles :: "string list"
  gd_rows :: "override_option option list list"
  gd_rest :: "override_option list"

definition roleOverrides :: "profile_option \<Rightarrow> override_grid option" where
  "roleOverrides p =
     (let roles = grid_roles p; ks = po_overrides p
      in if length roles < 2 then None
         else Some \<lparr>gd_roles = roles, gd_rows = map (\<lambda>s. map (grid_cell roles ks s) roles) (grid_suffixes roles ks),
           gd_rest = filter (\<lambda>k. override_owner roles k = None) ks\<rparr>)"

section \<open>The wizard: the form and its request\<close>

record deploy =
  dw_step :: nat
  dw_options :: "create_options option"
  dw_draft :: deploy_draft
  dw_newNamespace :: bool
  dw_newNamespaceName :: string
  dw_busy :: bool
  dw_error :: "string option"

definition initial_deploy :: deploy where
  "initial_deploy =
     \<lparr>dw_step = 1, dw_options = None,
      dw_draft = \<lparr>dd_name = [], dd_namespace = [], dd_profileRef = [], dd_modelRef = [], dd_overrides = [],
        dd_router = AIGATEWAY_ROUTER_PRIVATE, dd_modelName = [], dd_paths = CATALOG_PATHS\<rparr>,
      dw_newNamespace = False, dw_newNamespaceName = [], dw_busy = False, dw_error = None\<rparr>"

definition dw_namespace :: "deploy \<Rightarrow> string" where
  "dw_namespace w = (if dw_newNamespace w then trim (dw_newNamespaceName w) else dd_namespace (dw_draft w))"

definition dw_step1Valid :: "isvc_summary list \<Rightarrow> deploy \<Rightarrow> bool" where
  "dw_step1Valid services w \<longleftrightarrow>
     rx_match ISVC_NAME_RE (trim (dd_name (dw_draft w))) \<and>
     \<not> list_ex (\<lambda>s. iv_namespace s = dw_namespace w \<and> iv_name s = trim (dd_name (dw_draft w))) services \<and>
     trim (dd_name (dw_draft w)) \<noteq> [] \<and> dw_namespace w \<noteq> [] \<and>
     (\<not> dw_newNamespace w \<or> rx_match ISVC_NAME_RE (trim (dw_newNamespaceName w))) \<and> dd_profileRef (dw_draft w) \<noteq> []"

definition dw_step2Valid :: "deploy \<Rightarrow> bool" where
  "dw_step2Valid w \<longleftrightarrow> dd_modelRef (dw_draft w) \<noteq> []"

definition dw_profile :: "deploy \<Rightarrow> profile_option option" where
  "dw_profile w = selected_profile (dw_options w) (dw_draft w)"

definition dw_models :: "deploy \<Rightarrow> string list" where
  "dw_models w = map vo_name (compatibleModels (dw_options w) (dw_profile w))"

definition dw_loaded :: "create_options \<Rightarrow> deploy \<Rightarrow> deploy" where
  "dw_loaded os w =
     w\<lparr>dw_options := Some os,
       dw_draft := (dw_draft w)\<lparr>
         dd_namespace := (case co_defaultNamespace os of Some n \<Rightarrow> n | None \<Rightarrow> (case co_namespaces os of [] \<Rightarrow> [] | n # _ \<Rightarrow> n)),
         dd_profileRef := (case co_profiles os of [] \<Rightarrow> [] | p # _ \<Rightarrow> po_name p), dd_modelRef := []\<rparr>\<rparr>"

definition set_name :: "string \<Rightarrow> deploy_draft \<Rightarrow> deploy_draft" where
  "set_name name d =
     d\<lparr>dd_name := name, dd_modelName := (if dd_modelName d = [] \<or> dd_modelName d = dd_name d then name else dd_modelName d)\<rparr>"

definition choose_profile :: "string \<Rightarrow> deploy_draft \<Rightarrow> deploy_draft" where
  "choose_profile ref d = d\<lparr>dd_profileRef := ref, dd_modelRef := [], dd_overrides := []\<rparr>"

definition choose_paths :: "string list \<Rightarrow> deploy_draft \<Rightarrow> deploy_draft" where
  "choose_paths ps d = (if ps \<noteq> [] then d\<lparr>dd_paths := ps\<rparr> else d)"

definition dw_next :: "isvc_summary list \<Rightarrow> deploy \<Rightarrow> deploy" where
  "dw_next services w =
     (if dw_step w = 1 \<and> \<not> dw_step1Valid services w then w
      else if dw_step w = 2 \<and> \<not> dw_step2Valid w then w
      else w\<lparr>dw_step := min 3 (dw_step w + 1)\<rparr>)"

text \<open>The choices of the user, with the fabrics the wizard selected itself.\<close>

definition sent_overrides :: "(string \<Rightarrow> js_number) \<Rightarrow> deploy \<Rightarrow> overrides" where
  "sent_overrides to_number w =
     (case dw_profile w of
        None \<Rightarrow> dd_overrides (dw_draft w)
      | Some p \<Rightarrow>
          foldl (\<lambda>es k. case autoOverrideValue to_number (case dw_options w of None \<Rightarrow> [] | Some os \<Rightarrow> co_nodes os) (dw_draft w) p k of
              None \<Rightarrow> es | Some v \<Rightarrow> obj_set es (oo_name k) v) (dd_overrides (dw_draft w)) (po_overrides p))"

definition deploy_body :: "(string \<Rightarrow> js_number) \<Rightarrow> deploy \<Rightarrow> isvc_body" where
  "deploy_body to_number w =
     (let d = dw_draft w
      in \<lparr>ib_namespace = Some (dw_namespace w), ib_name = Some (trim (dd_name d)), ib_profileRef = Some (dd_profileRef d),
          ib_modelRef = Some (dd_modelRef d), ib_overrides = Some (sent_overrides to_number w),
          ib_route = Some \<lparr>rq_router = Some (Some (dd_router d)), rq_modelName = Some (trim (dd_modelName d)),
            rq_paths = Some (map Some (dd_paths d))\<rparr>\<rparr>)"

definition deploy_request :: "(string \<Rightarrow> js_number) \<Rightarrow> isvc_summary list \<Rightarrow> deploy \<Rightarrow> (string option \<times> isvc_body) option" where
  "deploy_request to_number services w =
     sent_if (dw_step1Valid services w) (sent_if (dw_newNamespace w) (dw_namespace w), deploy_body to_number w)"

definition dw_create :: "isvc_summary list \<Rightarrow> deploy \<Rightarrow> deploy" where
  "dw_create services w = (if dw_step1Valid services w then w\<lparr>dw_busy := True, dw_error := None\<rparr> else w)"

definition dw_changeNamespace :: "string \<Rightarrow> deploy \<Rightarrow> deploy" where
  "dw_changeNamespace n w =
     (if n = NEW_NAMESPACE then w\<lparr>dw_newNamespace := True\<rparr>
      else w\<lparr>dw_newNamespace := False, dw_draft := (dw_draft w)\<lparr>dd_namespace := n\<rparr>\<rparr>)"

text \<open>One rule for each control of the page; each step has its own. The marks of invalid fields are left out.\<close>

inductive deploy_step :: "deploy \<Rightarrow> deploy \<Rightarrow> bool" where
  load: "dw_options w = None \<Longrightarrow> deploy_step w (dw_loaded os w)"
| forward: "dw_step w < 3 \<Longrightarrow> deploy_step w (dw_next services w)"
| backward: "1 < dw_step w \<Longrightarrow> \<not> dw_busy w \<Longrightarrow> deploy_step w (w\<lparr>dw_step := dw_step w - 1\<rparr>)"
| create: "dw_step w = 3 \<Longrightarrow> \<not> dw_busy w \<Longrightarrow> deploy_step w (dw_create services w)"
| failed: "dw_busy w \<Longrightarrow> deploy_step w (w\<lparr>dw_error := Some message, dw_busy := False\<rparr>)"
| name: "dw_step w = 1 \<Longrightarrow> dw_options w \<noteq> None \<Longrightarrow> deploy_step w (w\<lparr>dw_draft := set_name s (dw_draft w)\<rparr>)"
| namespace: "dw_step w = 1 \<Longrightarrow> dw_options w = Some os \<Longrightarrow> n \<in> set (NEW_NAMESPACE # co_namespaces os) \<Longrightarrow> deploy_step w (dw_changeNamespace n w)"
| namespace_name: "dw_step w = 1 \<Longrightarrow> dw_newNamespace w \<Longrightarrow> deploy_step w (w\<lparr>dw_newNamespaceName := s\<rparr>)"
| profile: "dw_step w = 1 \<Longrightarrow> dw_options w = Some os \<Longrightarrow> p \<in> set (co_profiles os) \<Longrightarrow>
    deploy_step w (w\<lparr>dw_draft := choose_profile (po_name p) (dw_draft w)\<rparr>)"
| model: "dw_step w = 2 \<Longrightarrow> m \<in> set (dw_models w) \<Longrightarrow> deploy_step w (w\<lparr>dw_draft := (dw_draft w)\<lparr>dd_modelRef := m\<rparr>\<rparr>)"
| override: "dw_step w = 2 \<Longrightarrow> dw_profile w = Some p \<Longrightarrow> k \<in> set (po_overrides p) \<Longrightarrow>
    deploy_step w (w\<lparr>dw_draft := (dw_draft w)\<lparr>dd_overrides := obj_set (dd_overrides (dw_draft w)) (oo_name k) v\<rparr>\<rparr>)"
| model_name: "dw_step w = 2 \<Longrightarrow> deploy_step w (w\<lparr>dw_draft := (dw_draft w)\<lparr>dd_modelName := s\<rparr>\<rparr>)"
| router: "dw_step w = 2 \<Longrightarrow> r \<in> {AIGATEWAY_ROUTER_PRIVATE, AIGATEWAY_ROUTER_PUBLIC} \<Longrightarrow>
    deploy_step w (w\<lparr>dw_draft := (dw_draft w)\<lparr>dd_router := r\<rparr>\<rparr>)"
| paths: "dw_step w = 2 \<Longrightarrow> set ps \<subseteq> set CATALOG_PATHS \<Longrightarrow> deploy_step w (w\<lparr>dw_draft := choose_paths ps (dw_draft w)\<rparr>)"

inductive_cases deploy_stepE: "deploy_step w w'"

inductive deploy_reachable :: "deploy \<Rightarrow> bool" where
  opened: "deploy_reachable initial_deploy"
| stepped: "deploy_reachable w \<Longrightarrow> deploy_step w w' \<Longrightarrow> deploy_reachable w'"

section \<open>What the scale panel sends\<close>

lemma map_of_scale_effective:
  assumes "distinct (map kn_name ks)" and "k \<in> set ks"
  shows "map_of (scale_effective ks values) (kn_name k) = Some (scale_value values k)"
proof -
  have "map_of (foldl (\<lambda>es k. obj_set es (kn_name k) (scale_value values k)) es ks) (kn_name k) = Some (scale_value values k)" for es
    using assms
  proof (induction ks arbitrary: es)
    case (Cons k' ks)
    have other: "map_of (foldl (\<lambda>es k. obj_set es (kn_name k) (scale_value values k)) es ks) n = map_of es n"
      if "n \<notin> kn_name ` set ks" for es n using that by (induction ks arbitrary: es) (auto simp: map_of_obj_set)
    from Cons show ?case by (cases "k = k'") (auto simp: other map_of_obj_set)
  qed simp
  then show ?thesis by (simp add: scale_effective_def)
qed

lemma set_scale_effective: "set (scale_effective ks values) \<subseteq> (\<lambda>k. (kn_name k, scale_value values k)) ` set ks"
proof -
  have "set (foldl (\<lambda>es k. obj_set es (kn_name k) (scale_value values k)) es ks) \<subseteq> set es \<union> (\<lambda>k. (kn_name k, scale_value values k)) ` set ks" for es
    by (induction ks arbitrary: es) (auto dest!: subsetD [OF set_obj_set] subsetD)
  from this [of "[]"] show ?thesis by (simp add: scale_effective_def)
qed

text \<open>The types a profile can declare.\<close>

definition known_type :: "profile_override \<Rightarrow> bool" where
  "known_type o' \<longleftrightarrow> nullish (ov_type o') ''integer'' \<in> set [''integer'', ''string'', ''stringList'', ''boolean'']"

definition comma_free :: "override_value \<Rightarrow> bool" where
  "comma_free v = (case v of OList es \<Rightarrow> list_all (\<lambda>e. CHR '','' \<notin> set e) es | _ \<Rightarrow> True)"

lemma splitList_comma_free: "comma_free (OList (splitList s))"
  by (auto simp: comma_free_def splitList_def list_all_iff dest!: subsetD [OF set_trim] split_char_parts)

lemma integer_kind_known:
  "known_type o' \<Longrightarrow> integer_kind o' \<longleftrightarrow> knob_type_of (ov_type o') \<noteq> StringKnob \<and> knob_type_of (ov_type o') \<noteq> BooleanKnob"
  by (cases "ov_type o'") (auto simp: known_type_def integer_kind_def knob_type_of_def INHERITED_PROPERTIES_def)

lemma enum_allows_iff: "enum_allows enum v \<longleftrightarrow> (\<forall>as. enum = Some as \<longrightarrow> v \<in> enum_value ` set as)"
  by (cases enum) (auto simp: enum_allows_def list_ex_iff enum_same_iff)

lemma enum_text [simp]: "OStr e \<in> enum_value ` set as \<longleftrightarrow> Inr e \<in> set as"
proof
  assume "OStr e \<in> enum_value ` set as"
  then obtain a where "a \<in> set as" "OStr e = enum_value a" by blast
  then show "Inr e \<in> set as" unfolding enum_value_def by (auto split: sum.splits)
qed (force simp: enum_value_def)

text \<open>What the panel does not look at: commas in the entries of a list, and the enumeration of a boolean or of a blank
  text.\<close>

definition unchecked_ok :: "knob \<Rightarrow> override_value \<Rightarrow> bool" where
  "unchecked_ok k v \<longleftrightarrow>
     comma_free v \<and> ((\<exists>b. v = OBool b) \<or> (\<exists>s. v = OStr s \<and> trim s = []) \<longrightarrow> enum_allows (kn_enum k) v)"

lemma valid_value_ok_iff:
  assumes "known_type o'" and "scaleValueValid (knob_of spec o') (Some v)"
  shows "override_ok o' v \<longleftrightarrow> unchecked_ok (knob_of spec o') v"
proof (cases "knob_type_of (ov_type o')")
  case ListKnob
  then have "ov_type o' = Some ''stringList''" by (auto simp: knob_type_of_def split: if_splits)
  moreover obtain es where "v = OList es" "\<forall>e\<in>set es. enum_allows (ov_enum o') (OStr e)"
    using assms(2) ListKnob by (auto simp: scaleValueValid_def knob_of_def Let_def list_all_iff split: override_value.splits)
  ultimately show ?thesis
    by (auto simp: override_ok_def unchecked_ok_def comma_free_def list_all_iff enum_allows_iff)
next
  case IntegerKnob
  then have "ov_type o' \<noteq> Some ''stringList''" "integer_kind o'" using integer_kind_known [OF assms(1)] by (auto simp: knob_type_of_def split: if_splits)
  moreover obtain n where "v = ONum n" "is_integer n" "enum_allows (ov_enum o') v" "in_bounds o' n"
    using assms(2) IntegerKnob
    by (auto simp: scaleValueValid_def knob_of_def Let_def in_bounds_def split: override_value.splits option.splits)
  ultimately show ?thesis by (auto simp: override_ok_def unchecked_ok_def comma_free_def enum_allows_iff)
next
  case StringKnob
  then have "ov_type o' \<noteq> Some ''stringList''" "\<not> integer_kind o'" using integer_kind_known [OF assms(1)] by (auto simp: knob_type_of_def split: if_splits)
  moreover obtain s where "v = OStr s" "trim s = [] \<or> enum_allows (ov_enum o') v"
    using assms(2) StringKnob by (auto simp: scaleValueValid_def knob_of_def Let_def split: override_value.splits if_splits)
  ultimately show ?thesis by (auto simp: override_ok_def unchecked_ok_def comma_free_def knob_of_def Let_def enum_allows_iff)
next
  case BooleanKnob
  then have "ov_type o' \<noteq> Some ''stringList''" "\<not> integer_kind o'" using integer_kind_known [OF assms(1)] by (auto simp: knob_type_of_def split: if_splits)
  moreover obtain b where "v = OBool b"
    using assms(2) BooleanKnob by (auto simp: scaleValueValid_def knob_of_def Let_def split: override_value.splits)
  ultimately show ?thesis by (auto simp: override_ok_def unchecked_ok_def comma_free_def knob_of_def Let_def enum_allows_iff)
qed

lemma knob_name: "kn_name (knob_of spec o') = nullish (ov_name o') []"
  by (simp add: knob_of_def Let_def)

lemma declared_distinct:
  assumes "distinct (map (\<lambda>o'. nullish (ov_name o') []) os)" and "o' \<in> set os"
  shows "declared os (nullish (ov_name o') []) = Some o'"
proof -
  have "distinct (map (\<lambda>o'. nullish (ov_name o') []) (rev os))" using assms(1) by (simp flip: rev_map)
  from find_distinct_key [OF this] assms(2) show ?thesis by (simp add: declared_def)
qed



definition sample_scale :: "knob list" where
  "sample_scale = map (knob_of [(''tp'', ONum 2)]) [sample_knob ''tp'']"

lemma sample_scale_request: "scale_request False sample_scale [(''tp'', ONum 4)] = Some [(''tp'', ONum 4)]"
  by (simp add: scale_request_def sample_scale_def sample_knob_def knob_of_def scale_invalid_def scale_unchanged_def
      scale_effective_def scale_value_def scaleInitial_def scaleValueValid_def enum_allows_def is_integer_def
      knob_type_of_def isPrim_def Let_def)


section \<open>The grid shows every override\<close>

lemma owner_name:
  assumes "override_owner roles k = Some role"
  shows "role \<in> set roles" and "oo_name k = role @ ''_'' @ knob_suffix role k"
proof -
  from assms have *: "role \<in> set roles" "startsWith (oo_name k) (role @ ''_'')"
    by (auto simp: override_owner_def find_Some_iff)
  then show "role \<in> set roles" by simp
  from *(2) show "oo_name k = role @ ''_'' @ knob_suffix role k"
    by (auto simp: knob_suffix_def prefix_def)
qed

lemma add_suffixes:
  "distinct acc \<Longrightarrow> distinct (foldl (add_suffix roles) acc ks) \<and>
     set (foldl (add_suffix roles) acc ks) =
       set acc \<union> {knob_suffix role k | role k. k \<in> set ks \<and> role \<noteq> [] \<and> override_owner roles k = Some role}"
proof (induction ks arbitrary: acc)
  case (Cons k ks)
  then have "distinct (add_suffix roles acc k)" by (auto simp: add_suffix_def split: option.splits)
  from Cons.IH [OF this] show ?case by (auto simp: add_suffix_def split: option.splits)
qed simp

lemma distinct_suffixes: "distinct (grid_suffixes roles ks)"
  and set_suffixes:
    "set (grid_suffixes roles ks) = {knob_suffix role k | role k. k \<in> set ks \<and> role \<noteq> [] \<and> override_owner roles k = Some role}"
  using add_suffixes [of "[]" roles ks] by (simp_all add: grid_suffixes_def)

lemma grid_cell_Some:
  assumes "grid_cell roles ks sfx role = Some k"
  shows "k \<in> set ks" and "role \<noteq> []" and "override_owner roles k = Some role" and "oo_name k = role @ ''_'' @ sfx"
    and "knob_suffix role k = sfx"
  using find_SomeD [OF assms [unfolded grid_cell_def]] owner_name(2) [of roles k role] by auto

lemma grid_cell_owned:
  assumes "distinct (map oo_name ks)" and "k \<in> set ks" and "override_owner roles k = Some role" and "role \<noteq> []"
  shows "grid_cell roles ks (knob_suffix role k) role = Some k"
proof (cases "grid_cell roles ks (knob_suffix role k) role")
  case None
  with assms show ?thesis by (auto simp: grid_cell_def find_None_iff)
next
  case (Some k')
  with grid_cell_Some [OF Some] owner_name(2) [OF assms(3)] have "oo_name k' = oo_name k" "k' \<in> set ks" by auto
  with assms(1,2) Some show ?thesis by (auto simp: distinct_map dest: inj_onD)
qed

text \<open>The overrides of a grid, in the order they are shown.\<close>

primrec somes :: "'a option list \<Rightarrow> 'a list" where
  "somes [] = []"
| "somes (x # xs) = (case x of None \<Rightarrow> somes xs | Some y \<Rightarrow> y # somes xs)"

definition shown_overrides :: "override_grid \<Rightarrow> override_option list" where
  "shown_overrides g = gd_rest g @ somes (concat (gd_rows g))"

lemma set_somes: "set (somes xs) = {x. Some x \<in> set xs}"
  by (induction xs) (auto split: option.splits)

lemma somes_append: "somes (xs @ ys) = somes xs @ somes ys"
  by (induction xs) (auto split: option.splits)

lemma grid_cell_inject:
  assumes "grid_cell roles ks s r = Some k" and "grid_cell roles ks s' r' = Some k"
  shows "s = s' \<and> r = r'"
  using grid_cell_Some(3,5) [OF assms(1)] grid_cell_Some(3,5) [OF assms(2)] by simp

lemma distinct_row: "distinct rs \<Longrightarrow> distinct (somes (map (grid_cell roles ks s) rs))"
proof (induction rs)
  case (Cons r rs)
  have "k \<notin> set (somes (map (grid_cell roles ks s) rs))" if k: "grid_cell roles ks s r = Some k" for k
  proof
    assume "k \<in> set (somes (map (grid_cell roles ks s) rs))"
    then obtain r' where "r' \<in> set rs" "grid_cell roles ks s r' = Some k" by (auto simp: set_somes)
    with grid_cell_inject [OF k] Cons.prems show False by auto
  qed
  with Cons show ?case by (auto split: option.splits)
qed simp

lemma distinct_cells:
  assumes "distinct roles"
  shows "distinct sfxs \<Longrightarrow> distinct (somes (concat (map (\<lambda>s. map (grid_cell roles ks s) roles) sfxs)))"
proof (induction sfxs)
  case (Cons s sfxs)
  have "k \<notin> set (somes (concat (map (\<lambda>s. map (grid_cell roles ks s) roles) sfxs)))"
    if "k \<in> set (somes (map (grid_cell roles ks s) roles))" for k
  proof
    assume "k \<in> set (somes (concat (map (\<lambda>s. map (grid_cell roles ks s) roles) sfxs)))"
    then obtain s' r' where "s' \<in> set sfxs" "grid_cell roles ks s' r' = Some k" by (auto simp: set_somes)
    moreover from that obtain r where "grid_cell roles ks s r = Some k" by (auto simp: set_somes)
    ultimately show False using grid_cell_inject [of roles ks s r k s' r'] Cons.prems by auto
  qed
  then have "set (somes (map (grid_cell roles ks s) roles)) \<inter> set (somes (concat (map (\<lambda>s. map (grid_cell roles ks s) roles) sfxs))) = {}"
    by blast
  with Cons distinct_row [OF assms] show ?case by (simp add: somes_append)
qed simp

text \<open>C27. The parameters of a profile are all on the form, each once: the grid with one column for each role, and the
  list of the others beside it, together hold exactly the declared overrides. A row has one place for each
  role, a place is empty or holds the role's own override, all of a row with the same name behind the role's,
  and no row is empty.\<close>

theorem override_grid_complete:
  assumes "roleOverrides p = Some g" and "distinct (map oo_name (po_overrides p))"
    and "distinct (map rp_name (po_roles p))" and "[] \<notin> rp_name ` set (po_roles p)"
  shows "mset (shown_overrides g) = mset (po_overrides p) \<and>
    list_all (\<lambda>row. (\<exists>sfx. list_all2 (\<lambda>role cell. case cell of None \<Rightarrow> True | Some k \<Rightarrow> oo_name k = role @ ''_'' @ sfx) (gd_roles g) row) \<and>
      somes row \<noteq> []) (gd_rows g)"
proof -
  let ?ks = "po_overrides p" and ?roles = "grid_roles p" and ?sfxs = "grid_suffixes (grid_roles p) (po_overrides p)"
  have g: "gd_roles g = ?roles" "gd_rows g = map (\<lambda>s. map (grid_cell ?roles ?ks s) ?roles) ?sfxs"
    "gd_rest g = filter (\<lambda>k. override_owner ?roles k = None) ?ks"
    using assms(1) by (auto simp: roleOverrides_def Let_def split: if_splits)
  have roles: "distinct ?roles" "[] \<notin> set ?roles" using assms(3,4) by (auto simp: grid_roles_def)
  have cells: "{k. Some k \<in> set (concat (gd_rows g))} = {k \<in> set ?ks. \<exists>y. override_owner ?roles k = Some y}"
  proof safe
    fix k assume "Some k \<in> set (concat (gd_rows g))"
    then obtain s r where "grid_cell ?roles ?ks s r = Some k" by (auto simp: g)
    from grid_cell_Some [OF this] show "k \<in> set ?ks" "\<exists>y. override_owner ?roles k = Some y" by auto
  next
    fix k role assume k: "k \<in> set ?ks" and "override_owner ?roles k = Some role"
    moreover from this owner_name(1) roles(2) have "role \<noteq> []" "role \<in> set ?roles" by metis+
    ultimately have "knob_suffix role k \<in> set ?sfxs" "grid_cell ?roles ?ks (knob_suffix role k) role = Some k" "role \<in> set ?roles"
      using grid_cell_owned [OF assms(2)] by (auto simp: set_suffixes)
    then show "Some k \<in> set (concat (gd_rows g))" by (force simp: g image_iff)
  qed
  have "distinct ?ks" using assms(2) by (simp add: distinct_map)
  then have "distinct (shown_overrides g) \<and> set (shown_overrides g) = set ?ks"
    using distinct_cells [OF roles(1) distinct_suffixes, of ?ks] cells
    by (auto simp: shown_overrides_def set_somes g simp del: set_concat)
  moreover have "(\<exists>sfx. list_all2 (\<lambda>role cell. case cell of None \<Rightarrow> True | Some k \<Rightarrow> oo_name k = role @ ''_'' @ sfx) ?roles row) \<and>
      somes row \<noteq> []" if "row \<in> set (gd_rows g)" for row
  proof -
    from that obtain s where s: "s \<in> set ?sfxs" "row = map (grid_cell ?roles ?ks s) ?roles" by (auto simp: g)
    then obtain role k where "k \<in> set ?ks" "role \<noteq> []" "override_owner ?roles k = Some role" "s = knob_suffix role k"
      by (auto simp: set_suffixes)
    with s have "Some k \<in> set row" using grid_cell_owned [OF assms(2)] owner_name(1) by (metis image_eqI list.set_map)
    then have "somes row \<noteq> []" using set_somes [of row] by auto
    moreover have "list_all2 (\<lambda>role cell. case cell of None \<Rightarrow> True | Some k \<Rightarrow> oo_name k = role @ ''_'' @ s) ?roles row"
      using s grid_cell_Some(4) by (auto simp: list_all2_conv_all_nth split: option.splits)
    ultimately show ?thesis by blast
  qed
  moreover from calculation \<open>distinct ?ks\<close> have "mset (shown_overrides g) = mset ?ks"
    using set_eq_iff_mset_eq_distinct by blast
  ultimately show ?thesis unfolding list_all_iff g(1) by blast
qed

definition sample_override :: "string \<Rightarrow> override_option" where
  "sample_override n =
     \<lparr>oo_name = n, oo_type = ''string'', oo_min = None, oo_max = None, oo_enum = None, oo_default = None, oo_description = None\<rparr>"

definition sample_role :: "string \<Rightarrow> role_option" where
  "sample_role n = \<lparr>rp_name = n, rp_vendor = Some ''nvidia'', rp_models = [''H20''], rp_gpuPerPod = Some (CNum 4)\<rparr>"

definition sample_pd :: profile_option where
  "sample_pd =
     \<lparr>po_name = ''p'', po_engine = None, po_engineVersion = None, po_vendor = Some ''nvidia'', po_models = [''H20''],
      po_architectures = [], po_quantizations = [], po_servingMode = Some ''pd-separation'', po_gpuPerPod = 4,
      po_roles = map sample_role [''prefill'', ''decode''],
      po_overrides = map sample_override [''extendedResources'', ''prefill_nodeSelector'', ''decode_image'', ''decode_nodeSelector'']\<rparr>"

theorem override_grid_complete_witness:
  "\<exists>g. roleOverrides sample_pd = Some g \<and> length (gd_rows g) = 2 \<and> mset (shown_overrides g) = mset (po_overrides sample_pd)"
proof -
  have names: "distinct (map oo_name (po_overrides sample_pd))" "distinct (map rp_name (po_roles sample_pd))"
    "[] \<notin> rp_name ` set (po_roles sample_pd)"
    by (simp_all add: sample_pd_def sample_override_def sample_role_def)
  obtain g where g: "roleOverrides sample_pd = Some g" "length (gd_rows g) = 2"
    by (simp add: roleOverrides_def grid_roles_def grid_suffixes_def add_suffix_def override_owner_def knob_suffix_def
        sample_pd_def sample_override_def sample_role_def Let_def)
  with override_grid_complete [OF g(1) names] show ?thesis by blast
qed

section \<open>The fabric the wizard injects\<close>

text \<open>The nodes a share is taken of, and whether each has as many devices for a GPU as the others.\<close>

definition fabric_nodes :: "(string \<Rightarrow> js_number) \<Rightarrow> node_option list \<Rightarrow> deploy_draft \<Rightarrow> profile_option \<Rightarrow> override_option \<Rightarrow> fabric \<Rightarrow> node_option list" where
  "fabric_nodes to_number allNodes d p k f =
     filter (\<lambda>n. 0 < rdma_count f n)
       (filter (\<lambda>n. list_all (\<lambda>r. roleNodeMatches d p (rp_name r) n) (fed_roles to_number p k)) allNodes)"

definition uniform_nodes :: "string \<Rightarrow> fabric \<Rightarrow> node_option list \<Rightarrow> bool" where
  "uniform_nodes vendor f ns \<longleftrightarrow>
     list_all (\<lambda>n. list_all (\<lambda>m. rdma_count f n * gpu_count vendor m = rdma_count f m * gpu_count vendor n) ns) ns"

lemma sum_list_uniform:
  assumes "uniform_nodes vendor f ns" and "n \<in> set ns"
  shows "sum_list (map (rdma_count f) ns) * gpu_count vendor n = rdma_count f n * sum_list (map (gpu_count vendor) ns)"
proof -
  have "sum_list (map (rdma_count f) ms) * gpu_count vendor n = rdma_count f n * sum_list (map (gpu_count vendor) ms)"
    if "set ms \<subseteq> set ns" for ms
    using that
  proof (induction ms)
    case (Cons m ms)
    then have "rdma_count f m * gpu_count vendor n = rdma_count f n * gpu_count vendor m"
      using assms by (auto simp: uniform_nodes_def list_all_iff)
    with Cons show ?case by (simp add: algebra_simps)
  qed simp
  then show ?thesis by blast
qed

lemma rdmaFabricsE:
  assumes "rdmaFabrics to_number allNodes d p k = Some fs" and "f \<in> set fs"
  obtains vendor perPod where "\<forall>r\<in>set (fed_roles to_number p k). roleVendor p (rp_name r) = Some vendor \<and> rp_gpuPerPod r = Some (CNum perPod)"
    and "0 < perPod" and "0 < sum_list (map (gpu_count vendor) (fabric_nodes to_number allNodes d p k (rf_id f)))"
    and "rf_value f = \<lfloor>sum_list (map (rdma_count (rf_id f)) (fabric_nodes to_number allNodes d p k (rf_id f))) * perPod /
      sum_list (map (gpu_count vendor) (fabric_nodes to_number allNodes d p k (rf_id f)))\<rfloor>"
    and "0 < rf_value f" and "(rf_id f, rf_resource f) \<in> set RDMA_FABRICS"
proof -
  let ?roles = "fed_roles to_number p k"
  have once: "remdups xs = [x] \<Longrightarrow> set xs = {x}" for xs :: "'b list" and x by (metis empty_set list.simps(15) set_remdups)
  obtain vendor perPod where vp: "remdups (map (\<lambda>r. roleVendor p (rp_name r)) ?roles) = [Some vendor]"
      "remdups (map rp_gpuPerPod ?roles) = [Some (CNum perPod)]" "0 < perPod"
    and fs: "fs = concat (map (fabric_share vendor perPod (filter (\<lambda>n. list_all (\<lambda>r. roleNodeMatches d p (rp_name r) n) ?roles) allNodes)) RDMA_FABRICS)"
    using assms(1) by (auto simp: rdmaFabrics_def Let_def split: if_splits list.splits option.splits count_field.splits)
  from once [OF vp(1)] once [OF vp(2)]
  have "\<forall>r\<in>set ?roles. roleVendor p (rp_name r) = Some vendor \<and> rp_gpuPerPod r = Some (CNum perPod)"
    by (auto simp: set_eq_iff)
  moreover from assms(2) fs obtain res where "res \<in> set RDMA_FABRICS"
    "f \<in> set (fabric_share vendor perPod (filter (\<lambda>n. list_all (\<lambda>r. roleNodeMatches d p (rp_name r) n) ?roles) allNodes) res)" by auto
  ultimately show thesis using vp(3)
    by (intro that) (auto simp: fabric_share_def fabric_nodes_def Let_def split: if_splits)
qed

lemma fabric_pair:
  assumes "(id', res) \<in> set RDMA_FABRICS"
  shows "CHR '','' \<notin> set (res @ ''='' @ nat_to_string n)" and "fabric_of_pair (res @ ''='' @ nat_to_string n) = Some (Some id')"
proof -
  have digits: "c \<noteq> CHR '','' \<and> \<not> js_space c" if "c \<in> set (nat_to_string n)" for c
    using nat_to_string_digits [OF that] by (auto simp: digit_def between_def js_space_def)
  have res: "\<forall>c\<in>set res. c \<noteq> CHR '','' \<and> c \<noteq> CHR ''='' \<and> \<not> js_space c"
    using assms by (auto simp: RDMA_FABRICS_def js_space_def)
  then show free: "CHR '','' \<notin> set (res @ ''='' @ nat_to_string n)" using digits by auto
  have "\<not> js_space CHR ''=''" by (simp add: js_space_def)
  then have "\<forall>c\<in>set (res @ ''='' @ nat_to_string n). \<not> js_space c" using res digits by auto
  then have trims: "trim (res @ ''='' @ nat_to_string n) = res @ ''='' @ nat_to_string n" "trim res = res"
    using trim_no_space by auto
  have "find_index ((=) CHR ''='') res = None" using res by (auto simp: find_index_None)
  then have "find_index ((=) CHR ''='') (res @ ''='' @ nat_to_string n) = Some (length res)" by (simp add: find_index_append)
  moreover have "find (\<lambda>f. snd f = res) RDMA_FABRICS = Some (id', res)" using assms by (auto simp: RDMA_FABRICS_def)
  ultimately show "fabric_of_pair (res @ ''='' @ nat_to_string n) = Some (Some id')"
    using free unfolding fabric_of_pair_def Let_def trims(1) by (simp add: trims(2) del: append_Cons append_Nil)
qed

lemma fabric_value_read_back:
  assumes "(rf_id f, rf_resource f) \<in> set RDMA_FABRICS"
  shows "rdmaFabricOf (fabricOverrideValue ty f) = Some (Some (rf_id f))"
  using fabric_pair(2) [OF assms] by (simp add: rdmaFabricOf_def fabricOverrideValue_def Let_def)

lemma fabric_value_ok:
  assumes "(rf_id f, rf_resource f) \<in> set RDMA_FABRICS" and "text_type ty" and "ov_type o' = Some ty" and "ov_enum o' = None"
  shows "override_ok o' (fabricOverrideValue ty f)"
  using fabric_pair(1) [OF assms(1)] assms(2-)
  by (auto simp: override_ok_def fabricOverrideValue_def text_type_def integer_kind_def INHERITED_PROPERTIES_def Let_def)

text \<open>Reading back what the node pickers write.\<close>

lemma pinnedNode_pick_node:
  assumes "CHR '','' \<notin> set name" and "pick_node name = OStr v"
  shows "pinnedNode v = Some name"
proof -
  have "find_index ((=) CHR ''='') NODE_SELECTOR_KEY = None" "CHR '','' \<notin> set NODE_SELECTOR_KEY"
    by (auto simp: NODE_SELECTOR_KEY_def)
  with assms show ?thesis by (auto simp: pick_node_def pinnedNode_def find_index_append split: if_splits)
qed

lemma pinnedNodes_pick_nodes: "pinnedNodes (pick_nodes names) = Some names"
  by (simp add: pinnedNodes_def pick_nodes_def Let_def list_all_iff comp_def)

text \<open>C26. The fabric the wizard adds by itself is a fair share the cluster can give. It adds one only to a parameter
  for devices that has neither a value nor a default: InfiniBand if that can be had. Picker and node list
  read the value back as that fabric, and the route accepts it for a parameter without an enumeration. Its
  count is positive and the whole part of the Pod's share: devices times GPUs of the Pod over GPUs of the
  nodes with the fabric that can run the roles. If those nodes have as many devices for a GPU as each other,
  a node with GPUs enough for the Pod has devices enough.\<close>

theorem injected_fabric:
  assumes "autoOverrideValue to_number allNodes d p k = Some v"
  shows "map_of (dd_overrides d) (oo_name k) = None \<and> \<not> has_default k \<and>
    (\<exists>f fs vendor perPod.
       rdmaFabrics to_number allNodes d p k = Some fs \<and> f \<in> set fs \<and> v = fabricOverrideValue (oo_type k) f \<and>
       (Infiniband \<in> rf_id ` set fs \<longrightarrow> rf_id f = Infiniband) \<and> rdmaFabricOf v = Some (Some (rf_id f)) \<and>
       (\<forall>o'. ov_type o' = Some (oo_type k) \<and> ov_enum o' = None \<longrightarrow> override_ok o' v) \<and>
       (\<forall>r\<in>set (fed_roles to_number p k). roleVendor p (rp_name r) = Some vendor \<and> rp_gpuPerPod r = Some (CNum perPod)) \<and>
       (let ns = fabric_nodes to_number allNodes d p k (rf_id f);
            rdma = sum_list (map (rdma_count (rf_id f)) ns); gpu = sum_list (map (gpu_count vendor) ns)
        in 0 < rf_value f \<and> of_int (rf_value f) * gpu \<le> rdma * perPod \<and> rdma * perPod < (of_int (rf_value f) + 1) * gpu \<and>
           (uniform_nodes vendor (rf_id f) ns \<longrightarrow>
             (\<forall>n\<in>set ns. perPod \<le> gpu_count vendor n \<longrightarrow> of_int (rf_value f) \<le> rdma_count (rf_id f) n))))"
proof -
  obtain fs f where unset: "map_of (dd_overrides d) (oo_name k) = None" "\<not> has_default k"
    and fs: "rdmaFabrics to_number allNodes d p k = Some fs" and f: "preferred_fabric fs = Some f" "v = fabricOverrideValue (oo_type k) f"
    using assms by (auto simp: autoOverrideValue_def split: if_splits option.splits)
  have "f \<in> set fs" "Infiniband \<in> rf_id ` set fs \<longrightarrow> rf_id f = Infiniband"
    using f(1) by (auto simp: preferred_fabric_def find_None_iff dest: find_SomeD split: option.splits list.splits)
  moreover have "text_type (oo_type k)"
    using fs by (auto simp: rdmaFabrics_def isExtendedResourcesOverride_def split: if_splits)
  ultimately obtain vendor perPod where share:
    "\<forall>r\<in>set (fed_roles to_number p k). roleVendor p (rp_name r) = Some vendor \<and> rp_gpuPerPod r = Some (CNum perPod)" "0 < perPod"
    "0 < sum_list (map (gpu_count vendor) (fabric_nodes to_number allNodes d p k (rf_id f)))"
    "rf_value f = \<lfloor>sum_list (map (rdma_count (rf_id f)) (fabric_nodes to_number allNodes d p k (rf_id f))) * perPod /
      sum_list (map (gpu_count vendor) (fabric_nodes to_number allNodes d p k (rf_id f)))\<rfloor>"
    "0 < rf_value f" "(rf_id f, rf_resource f) \<in> set RDMA_FABRICS"
    using rdmaFabricsE [OF fs] by metis
  define ns where "ns = fabric_nodes to_number allNodes d p k (rf_id f)"
  define rdma gpu where "rdma = sum_list (map (rdma_count (rf_id f)) ns)" and "gpu = sum_list (map (gpu_count vendor) ns)"
  have "of_int (rf_value f) \<le> rdma * perPod / gpu" "rdma * perPod / gpu < of_int (rf_value f) + 1" "0 < gpu"
    using share(3) unfolding share(4) ns_def rdma_def gpu_def by linarith+
  then have bounds: "of_int (rf_value f) * gpu \<le> rdma * perPod" "rdma * perPod < (of_int (rf_value f) + 1) * gpu"
    by (simp_all add: field_simps)
  have "of_int (rf_value f) \<le> rdma_count (rf_id f) n"
    if "uniform_nodes vendor (rf_id f) ns" "n \<in> set ns" "perPod \<le> gpu_count vendor n" for n
  proof -
    have "0 < rdma_count (rf_id f) m" if "m \<in> set ns" for m using that by (auto simp: ns_def fabric_nodes_def)
    then have "0 \<le> rdma" unfolding rdma_def by (intro sum_list_nonneg) (auto intro: less_imp_le)
    then have "rdma * perPod \<le> rdma * gpu_count vendor n" using that(3) by (rule mult_left_mono [rotated])
    also have "\<dots> = rdma_count (rf_id f) n * gpu"
      using sum_list_uniform [OF that(1,2)] by (simp add: rdma_def gpu_def)
    finally show ?thesis using bounds(1) \<open>0 < gpu\<close> by (meson mult_le_cancel_right_pos order_trans)
  qed
  moreover have "override_ok o' v" if "ov_type o' = Some (oo_type k)" "ov_enum o' = None" for o'
    using fabric_value_ok [OF share(6) \<open>text_type (oo_type k)\<close> that] f(2) by simp
  moreover have "rdmaFabricOf v = Some (Some (rf_id f))" using fabric_value_read_back [OF share(6)] f(2) by simp
  ultimately show ?thesis
    using bounds share(1,5) unset fs f(2) \<open>f \<in> set fs\<close> \<open>Infiniband \<in> rf_id ` set fs \<longrightarrow> rf_id f = Infiniband\<close>
    unfolding Let_def ns_def [symmetric] by (intro conjI exI [of _ f] exI [of _ fs] exI [of _ vendor] exI [of _ perPod])
      (simp_all add: rdma_def gpu_def ns_def)
qed

definition sample_fabric_node :: node_option where
  "sample_fabric_node =
     \<lparr>no_name = ''n1'', no_gpuModels = [(Nvidia, ''H20'')], no_gpu = [(Nvidia, 8)], no_roce = 0, no_infiniband = 8\<rparr>"

lemma sample_injected:
  "autoOverrideValue sample_number [sample_fabric_node] (dw_draft initial_deploy) sample_pd (sample_override ''extendedResources'') =
     Some (OStr ''rdma/ib_shared_devices=4'')"
  by (simp add: autoOverrideValue_def rdmaFabrics_def isExtendedResourcesOverride_def has_default_def preferred_fabric_def
      fabricOverrideValue_def fed_roles_def scope_of_def gpu_role_count_def count_number_def roleVendor_def role_named_def
      roleNodeMatches_def node_fits_def selectedRoleGpuModel_def selectedGpuModel_def model_among_def declaredOverrideValue_def
      roleModels_def first_enum_def fabric_share_def RDMA_FABRICS_def rdma_count_def gpu_count_def vendor_key_def text_type_def
      sample_fabric_node_def sample_pd_def sample_override_def sample_role_def initial_deploy_def nat_to_string.simps digit_char_def
      suffix_def char_of_def bit_simps Let_def)

theorem injected_fabric_witness:
  "autoOverrideValue sample_number [sample_fabric_node] (dw_draft initial_deploy) sample_pd (sample_override ''extendedResources'') =
     Some (OStr ''rdma/ib_shared_devices=4'') \<and>
   (\<exists>f. fabricOverrideValue ''string'' f = OStr ''rdma/ib_shared_devices=4'' \<and> 0 < rf_value f \<and>
     rdmaFabricOf (OStr ''rdma/ib_shared_devices=4'') = Some (Some (rf_id f)))"
proof -
  have "oo_type (sample_override ''extendedResources'') = ''string''" by (simp add: sample_override_def)
  then show ?thesis using injected_fabric [OF sample_injected] sample_injected unfolding Let_def by metis
qed

section \<open>What the wizard asks for\<close>

text \<open>What every state of the form keeps: the choices are among those offered, and a step is shown only with what
  the earlier ones require.\<close>

definition offered_overrides :: "profile_option option \<Rightarrow> string set" where
  "offered_overrides prof = (case prof of None \<Rightarrow> {} | Some p \<Rightarrow> oo_name ` set (po_overrides p))"

definition offered_refs :: "create_options option \<Rightarrow> string set" where
  "offered_refs opts = (case opts of None \<Rightarrow> {} | Some os \<Rightarrow> po_name ` set (co_profiles os))"

definition offered_places :: "create_options option \<Rightarrow> string set" where
  "offered_places opts = (case opts of None \<Rightarrow> {} | Some os \<Rightarrow> set_option (co_defaultNamespace os) \<union> set (co_namespaces os))"

definition refs_inv :: "deploy \<Rightarrow> bool" where
  "refs_inv w \<longleftrightarrow>
     dd_profileRef (dw_draft w) \<in> insert [] (offered_refs (dw_options w)) \<and>
     dd_namespace (dw_draft w) \<in> insert [] (offered_places (dw_options w)) \<and>
     dd_modelRef (dw_draft w) \<in> insert [] (set (dw_models w))"

definition overrides_inv :: "deploy \<Rightarrow> bool" where
  "overrides_inv w \<longleftrightarrow>
     fst ` set (dd_overrides (dw_draft w)) \<subseteq> offered_overrides (dw_profile w) \<and> (dw_options w = None \<longrightarrow> dw_step w = 1)"

definition route_inv :: "deploy_draft \<Rightarrow> bool" where
  "route_inv d \<longleftrightarrow>
     dd_router d \<in> {AIGATEWAY_ROUTER_PRIVATE, AIGATEWAY_ROUTER_PUBLIC} \<and> dd_paths d \<noteq> [] \<and> set (dd_paths d) \<subseteq> set CATALOG_PATHS"

definition step_inv :: "deploy \<Rightarrow> bool" where
  "step_inv w \<longleftrightarrow>
     dw_step w \<le> 3 \<and> (1 < dw_step w \<longrightarrow> dd_profileRef (dw_draft w) \<noteq> []) \<and> (dw_step w = 3 \<longrightarrow> dd_modelRef (dw_draft w) \<noteq> [])"

definition profile_for :: "create_options option \<Rightarrow> string \<Rightarrow> profile_option option" where
  "profile_for opts ref = (case opts of None \<Rightarrow> None | Some os \<Rightarrow> find (\<lambda>p. po_name p = ref) (co_profiles os))"

lemma dw_profile_for: "dw_profile w = profile_for (dw_options w) (dd_profileRef (dw_draft w))"
  by (cases "dw_options w") (simp_all add: dw_profile_def selected_profile_def profile_for_def)

lemma dw_models_for:
  "dw_models w = map vo_name (compatibleModels (dw_options w) (profile_for (dw_options w) (dd_profileRef (dw_draft w))))"
  by (simp add: dw_models_def dw_profile_for)

lemmas form_simps = dw_models_for dw_profile_for dw_create_def dw_changeNamespace_def set_name_def choose_profile_def choose_paths_def

lemma dw_next_cases:
  obtains "dw_next services w = w"
  | "dw_next services w = w\<lparr>dw_step := min 3 (dw_step w + 1)\<rparr>" and "dw_step w = 1 \<longrightarrow> dd_profileRef (dw_draft w) \<noteq> []"
    and "dw_step w = 2 \<longrightarrow> dd_modelRef (dw_draft w) \<noteq> []"
proof (cases "dw_step w = 1 \<and> \<not> dw_step1Valid services w \<or> dw_step w = 2 \<and> \<not> dw_step2Valid w")
  case True
  then have "dw_next services w = w" by (auto simp: dw_next_def)
  then show thesis by (rule that(1))
next
  case False
  then show thesis by (intro that(2)) (auto simp: dw_next_def dw_step1Valid_def dw_step2Valid_def)
qed

lemma route_inv_step: "deploy_step w w' \<Longrightarrow> route_inv (dw_draft w) \<Longrightarrow> route_inv (dw_draft w')"
  by (induction rule: deploy_step.induct) (auto simp: route_inv_def dw_loaded_def dw_next_def form_simps)

lemma refs_inv_step: "deploy_step w w' \<Longrightarrow> refs_inv w \<Longrightarrow> refs_inv w'"
proof (induction rule: deploy_step.induct)
  case (load w os)
  then show ?case
    by (cases "co_profiles os"; cases "co_namespaces os"; cases "co_defaultNamespace os")
      (auto simp: refs_inv_def dw_loaded_def offered_refs_def offered_places_def)
next
  case (forward w services)
  then show ?case by (cases rule: dw_next_cases [of services w]) (simp_all add: refs_inv_def form_simps)
qed (auto simp: refs_inv_def form_simps offered_refs_def offered_places_def)

lemma obj_set_keys: "fst ` set (obj_set es k v) \<subseteq> insert k (fst ` set es)"
  by (induction es k v rule: obj_set.induct) auto

lemma overrides_inv_next:
  assumes "overrides_inv w" and "refs_inv w"
  shows "overrides_inv (dw_next services w)"
proof (cases rule: dw_next_cases [of services w])
  case 2
  then have "dw_options w \<noteq> None" if "dw_step w = 1" using assms(2) that by (auto simp: refs_inv_def offered_refs_def split: option.splits)
  then have "dw_options w \<noteq> None" using assms(1) by (auto simp: overrides_inv_def)
  with 2 assms(1) show ?thesis by (auto simp: overrides_inv_def dw_profile_for)
qed (use assms in simp)

lemma overrides_inv_step:
  "deploy_step w w' \<Longrightarrow> refs_inv w \<Longrightarrow> overrides_inv w \<Longrightarrow> overrides_inv w'"
proof (induction rule: deploy_step.induct)
  case (load w os)
  then show ?case by (simp add: overrides_inv_def dw_loaded_def dw_profile_for profile_for_def offered_overrides_def)
next
  case (forward w services)
  then show ?case using overrides_inv_next by blast
next
  case (override w p k v)
  have "fst ` set (obj_set (dd_overrides (dw_draft w)) (oo_name k) v) \<subseteq> insert (oo_name k) (fst ` set (dd_overrides (dw_draft w)))"
    by (rule obj_set_keys)
  also have "\<dots> \<subseteq> offered_overrides (Some p)" using override by (simp add: overrides_inv_def offered_overrides_def)
  finally show ?case using override by (simp add: overrides_inv_def dw_profile_for)
qed (auto simp: overrides_inv_def form_simps)

lemma step_inv_step: "deploy_step w w' \<Longrightarrow> overrides_inv w \<Longrightarrow> step_inv w \<Longrightarrow> step_inv w'"
proof (induction rule: deploy_step.induct)
  case (load w os)
  then show ?case by (simp add: step_inv_def dw_loaded_def overrides_inv_def)
next
  case (forward w services)
  then show ?case by (cases rule: dw_next_cases [of services w]) (auto simp: step_inv_def)
qed (auto simp: step_inv_def form_simps)

lemma form_inv_reachable: "deploy_reachable w \<Longrightarrow> refs_inv w \<and> overrides_inv w \<and> route_inv (dw_draft w) \<and> step_inv w"
proof (induction rule: deploy_reachable.induct)
  case opened
  then show ?case by (simp add: refs_inv_def overrides_inv_def route_inv_def step_inv_def initial_deploy_def CATALOG_PATHS_def)
next
  case (stepped w w')
  then show ?case using refs_inv_step overrides_inv_step route_inv_step step_inv_step by blast
qed

lemma find_unique_name:
  assumes "distinct (map name xs)" and "x \<in> set xs" and "name x = Some r"
  shows "find (\<lambda>y. name y = Some r) xs = Some x"
  using find_distinct_key [OF assms(1,2)] by (simp add: assms(3))

lemma options_profiles:
  assumes "res_body (isvc_options_GET to_number compare env oapi) = Some os"
  shows "co_profiles os = map (profile_option_of to_number) (the (oa_profiles oapi))" and "co_versions os = map version_option_of (the (oa_versions oapi))"
    and "set_option (co_defaultNamespace os) \<union> set (co_namespaces os) \<subseteq> {n. Some n \<in> set (the (oa_namespaces oapi))}"
proof -
  obtain nss ps vs where *: "oa_namespaces oapi = Some nss" "oa_profiles oapi = Some ps" "oa_versions oapi = Some vs"
    using assms by (auto simp: isvc_options_GET_def answer_def split: option.splits)
  with assms show "co_profiles os = map (profile_option_of to_number) (the (oa_profiles oapi))" "co_versions os = map version_option_of (the (oa_versions oapi))"
    by (auto simp: isvc_options_GET_def answer_def Let_def)
  have "co_namespaces os = offeredNamespaces env (namespace_names nss)" "co_defaultNamespace os = defaultNamespaceOf env (offeredNamespaces env (namespace_names nss))"
    using assms * by (auto simp: isvc_options_GET_def answer_def Let_def)
  moreover from calculation have "set_option (co_defaultNamespace os) \<subseteq> set (co_namespaces os)"
    using defaultNamespaceOf_offered by (cases "co_defaultNamespace os") auto
  moreover have "set (offeredNamespaces env (namespace_names nss)) \<subseteq> {n. Some n \<in> set nss}"
    by (auto simp: offeredNamespaces_set namespace_names_def elim: truthyE)
  ultimately show "set_option (co_defaultNamespace os) \<union> set (co_namespaces os) \<subseteq> {n. Some n \<in> set (the (oa_namespaces oapi))}"
    by (auto simp: *)
qed

text \<open>A version as the create route reads it.\<close>

definition model_of :: "listed_version \<Rightarrow> model_version" where
  "model_of v = \<lparr>mv_name = lv_name v, mv_architecture = lv_architecture v, mv_quantization = lv_quantization v\<rparr>"

lemma listed_in_excluded: "listed_in (nullish req []) v \<Longrightarrow> \<not> excluded req v"
  by (auto simp: listed_in_def excluded_def elim: truthyE)

lemma compatible_accepted:
  assumes "listed_in (po_architectures (profile_option_of to_number p)) (lv_architecture v)"
    and "listed_in (po_quantizations (profile_option_of to_number p)) (lv_quantization v)"
  shows "\<not> incompatible (profile.truncate p) (model_of v)"
proof (cases "pf_requirements p")
  case (Some r)
  then have "listed_in (nullish (fst r) []) (lv_architecture v)" "listed_in (nullish (snd r) []) (lv_quantization v)"
    using assms by (simp_all add: profile_option_of_def)
  then show ?thesis using Some by (cases r) (simp add: incompatible_def model_of_def profile.defs listed_in_excluded)
qed (simp add: incompatible_def profile.defs)

lemma nullish_name: "nullish n d = r \<Longrightarrow> truthy n \<Longrightarrow> n = Some r"
  by (auto elim: truthyE)

lemma distinct_nullish:
  assumes "distinct (map f xs)" and "list_all (\<lambda>x. truthy (f x)) xs"
  shows "distinct (map (\<lambda>x. nullish (f x) d) xs)"
proof -
  have "f x = f y" if "x \<in> set xs" "y \<in> set xs" "nullish (f x) d = nullish (f y) d" for x y
    using that assms(2) nullish_name by (metis list_all_iff)
  with assms(1) show ?thesis unfolding distinct_map inj_on_def by metis
qed

lemma pf_name_truncate: "pf_name (profile.truncate p) = pf_name p"
  by (simp add: profile.defs)

lemma mv_name_of: "mv_name (model_of v) = lv_name v"
  by (simp add: model_of_def)

lemma chosen_objects:
  assumes "refs_inv w" and "dw_options w = Some os" and "dd_profileRef (dw_draft w) \<noteq> []" and "dd_modelRef (dw_draft w) \<noteq> []"
    and "co_profiles os = map (profile_option_of to_number) ps" and "co_versions os = map version_option_of vs"
    and "list_all (\<lambda>p. truthy (pf_name p)) ps" and "distinct (map pf_name ps)"
    and "list_all (\<lambda>v. truthy (lv_name v)) vs" and "distinct (map lv_name vs)"
  obtains p v where "p \<in> set ps" and "profile_named (map profile.truncate ps) (dd_profileRef (dw_draft w)) = Some (profile.truncate p)"
    and "dw_profile w = Some (profile_option_of to_number p)"
    and "find (\<lambda>m. mv_name m = Some (dd_modelRef (dw_draft w))) (map model_of vs) = Some (model_of v)"
    and "\<not> incompatible (profile.truncate p) (model_of v)"
proof -
  let ?ref = "dd_profileRef (dw_draft w)" and ?model = "dd_modelRef (dw_draft w)"
  from assms(1-3,5) obtain p where p: "p \<in> set ps" "po_name (profile_option_of to_number p) = ?ref"
    by (auto simp: refs_inv_def offered_refs_def)
  then have name: "pf_name p = Some ?ref" using assms(7) by (intro nullish_name) (auto simp: profile_option_of_def list_all_iff)
  have "distinct (map po_name (co_profiles os))" using assms(5,7,8) distinct_nullish [of pf_name ps]
    by (simp add: profile_option_of_def comp_def)
  from find_distinct_key [OF this, of "profile_option_of to_number p"] p have prof: "dw_profile w = Some (profile_option_of to_number p)"
    by (simp add: dw_profile_for profile_for_def assms(2,5))
  with assms(1,2,4) obtain m where "m \<in> set (co_versions os)" "vo_name m = ?model"
    and fits: "listed_in (po_architectures (profile_option_of to_number p)) (vo_architecture m)"
      "listed_in (po_quantizations (profile_option_of to_number p)) (vo_quantization m)"
    by (auto simp: refs_inv_def dw_models_def compatibleModels_def)
  with assms(6) obtain v where v: "v \<in> set vs" "m = version_option_of v" "nullish (lv_name v) ''?'' = ?model"
    by (auto simp: version_option_of_def)
  then have vname: "lv_name v = Some ?model" using assms(9) by (intro nullish_name) (auto simp: list_all_iff)
  have "profile_named (map profile.truncate ps) ?ref = Some (profile.truncate p)"
    unfolding profile_named_def using p(1) assms(8) name
    by (intro find_unique_name) (simp_all add: comp_def pf_name_truncate)
  moreover have "find (\<lambda>m. mv_name m = Some ?model) (map model_of vs) = Some (model_of v)"
    using v(1) assms(10) vname by (intro find_unique_name) (simp_all add: comp_def mv_name_of)
  moreover have "\<not> incompatible (profile.truncate p) (model_of v)"
    using compatible_accepted [of to_number p v] fits v(2) by (simp add: version_option_of_def)
  ultimately show thesis using that p(1) prof by blast
qed

lemma added_keys:
  "fst ` set (foldl (\<lambda>es k. case new k of None \<Rightarrow> es | Some v \<Rightarrow> obj_set es (oo_name k) v) es ks) \<subseteq> fst ` set es \<union> oo_name ` set ks"
proof (induction ks arbitrary: es)
  case (Cons k ks)
  have "fst ` set (case new k of None \<Rightarrow> es | Some v \<Rightarrow> obj_set es (oo_name k) v) \<subseteq> insert (oo_name k) (fst ` set es)"
    using obj_set_keys [of es "oo_name k"] by (auto split: option.splits)
  with Cons.IH [of "case new k of None \<Rightarrow> es | Some v \<Rightarrow> obj_set es (oo_name k) v"]
  show ?case unfolding foldl_Cons list.set image_insert by blast
qed simp

lemma sent_overrides_declared:
  assumes "overrides_inv w" and "dw_profile w = Some p"
  shows "fst ` set (sent_overrides to_number w) \<subseteq> oo_name ` set (po_overrides p)"
proof -
  have "fst ` set (dd_overrides (dw_draft w)) \<subseteq> oo_name ` set (po_overrides p)"
    using assms by (simp add: overrides_inv_def offered_overrides_def)
  then have "fst ` set (dd_overrides (dw_draft w)) \<union> oo_name ` set (po_overrides p) \<subseteq> oo_name ` set (po_overrides p)" by simp
  then show ?thesis unfolding sent_overrides_def assms(2) option.case by (rule order_trans [OF added_keys])
qed

lemma unknown_override: "override_loop os ovs = Some (OverrideUnknown k) \<Longrightarrow> declared os k = None \<and> k \<in> fst ` set ovs"
  by (induction os ovs rule: override_loop.induct) (auto simp: value_error_def split: option.splits if_splits override_value.splits)

lemma sent_overrides_known:
  assumes "overrides_inv w" and "dw_profile w = Some (profile_option_of to_number p)"
  shows "overrideError (sent_overrides tn w) (Some (profile.truncate p)) \<noteq> Some (OverrideUnknown k)"
proof
  assume "overrideError (sent_overrides tn w) (Some (profile.truncate p)) = Some (OverrideUnknown k)"
  then have k: "declared (nullish (pf_overrides p) []) k = None" "k \<in> fst ` set (sent_overrides tn w)"
    using unknown_override by (force simp: overrideError_def profile.defs)+
  then have "k \<in> oo_name ` set (po_overrides (profile_option_of to_number p))" using sent_overrides_declared [OF assms] by blast
  then obtain o' where "o' \<in> set (nullish (pf_overrides p) [])" "k = nullish (ov_name o') []"
    by (auto simp: profile_option_of_def override_option_of_def dest: set_zip_leftD)
  with k(1) show False by (auto simp: declared_def find_None_iff)
qed

lemma accepted_route:
  assumes "route_inv d"
  shows "request_route (Some \<lparr>rq_router = Some (Some (dd_router d)), rq_modelName = Some n, rq_paths = Some (map Some (dd_paths d))\<rparr>) =
    (if n = [] \<or> \<not> rx_match MODEL_NAME_RE n then Inl IsvcModelNameInvalid
     else Inr (Some \<lparr>ir_router = Some (dd_router d), ir_modelName = Some n,
       ir_paths = Some (filter (\<lambda>q. q \<in> set (dd_paths d)) CATALOG_PATHS), ir_timeout = None, ir_idleTimeout = None\<rparr>))"
proof -
  have "list_all isCatalogPath (map Some (dd_paths d))" "dd_paths d \<noteq> []" "dd_router d \<noteq> []" "isAIGatewayRouter (Some (dd_router d))"
    using assms by (auto simp: route_inv_def list_all_iff isCatalogPath_def isAIGatewayRouter_def AIGATEWAY_ROUTER_PRIVATE_def AIGATEWAY_ROUTER_PUBLIC_def)
  then show ?thesis by (simp add: request_route_def truthy_def comp_def image_iff)
qed

text \<open>The verdict of the create route on the request of the form, as the form could know it.\<close>

definition deploy_verdict :: "(string \<Rightarrow> js_number) \<Rightarrow> string option list \<Rightarrow> isvc list \<Rightarrow> profile \<Rightarrow> deploy \<Rightarrow> isvc_error option" where
  "deploy_verdict to_number nss svcs p w =
     (let ns = dw_namespace w; name = trim (dd_name (dw_draft w)); n = trim (dd_modelName (dw_draft w))
      in if Some ns \<notin> set nss then Some (IsvcNamespaceMissing ns)
         else if list_ex (service_named ns name) svcs then Some (IsvcNameTaken name)
         else case overrideError (sent_overrides to_number w) (Some p) of
             Some e \<Rightarrow> Some (IsvcOverride e)
           | None \<Rightarrow> (if n = [] \<or> \<not> rx_match MODEL_NAME_RE n then Some IsvcModelNameInvalid else None))"

lemma deploy_check:
  assumes "route_inv (dw_draft w)" and "profile_named ps (dd_profileRef (dw_draft w)) = Some p"
    and "find (\<lambda>m. mv_name m = Some (dd_modelRef (dw_draft w))) ms = Some m" and "\<not> incompatible p m"
  shows "check_isvc (deploy_body to_number w) nss ps ms svcs =
    (case deploy_verdict to_number nss svcs p w of
       Some e \<Rightarrow> Inl e
     | None \<Rightarrow> Inr (new_isvc (deploy_body to_number w) (Some \<lparr>ir_router = Some (dd_router (dw_draft w)), ir_modelName = Some (trim (dd_modelName (dw_draft w))),
         ir_paths = Some (filter (\<lambda>q. q \<in> set (dd_paths (dw_draft w))) CATALOG_PATHS), ir_timeout = None, ir_idleTimeout = None\<rparr>)))"
  using assms(2-4)
  by (simp add: check_isvc_def deploy_verdict_def deploy_body_def Let_def accepted_route [OF assms(1)] split: option.split)


definition sample_catalog :: isvc_options_api where
  "sample_catalog =
     \<lparr>oa_namespaces = Some [Some ''default''], oa_nodes = Some [sample_node],
      oa_profiles = Some [profile.extend sample_profile \<lparr>pf_labels = [], pf_descriptions = [None]\<rparr>],
      oa_versions = Some [\<lparr>lv_name = Some ''m'', lv_model = None, lv_version = None, lv_architecture = None, lv_quantization = None\<rparr>]\<rparr>"

definition sample_create_options :: create_options where
  "sample_create_options = the (res_body (isvc_options_GET sample_number (\<lambda>_ _. 0) (\<lambda>_. None) sample_catalog))"

definition sample_cluster :: isvc_api where
  "sample_cluster = (sample_isvc_api [])\<lparr>i_namespaces := Inr [Some ''default'']\<rparr>"

lemma sample_options_given: "res_body (isvc_options_GET sample_number (\<lambda>_ _. 0) (\<lambda>_. None) sample_catalog) = Some sample_create_options"
  by (simp add: sample_create_options_def isvc_options_GET_def sample_catalog_def answer_def Let_def)

lemma sample_options_fields:
  "co_namespaces sample_create_options = [''default'']" "co_defaultNamespace sample_create_options = Some ''default''"
  "co_profiles sample_create_options = [profile_option_of sample_number (profile.extend sample_profile \<lparr>pf_labels = [], pf_descriptions = [None]\<rparr>)]"
  "co_versions sample_create_options = [\<lparr>vo_name = ''m'', vo_model = None, vo_version = None, vo_architecture = None, vo_quantization = None\<rparr>]"
  by (simp_all add: sample_create_options_def isvc_options_GET_def sample_catalog_def answer_def Let_def version_option_of_def
      offeredNamespaces_def defaultNamespaceOf_def namespace_names_def configured_namespace_def DEFAULT_NAMESPACE_def truthy_def nth_opt_def)

text \<open>The form after each click: the name, forward, the model, forward.\<close>

definition sample_draft :: "string \<Rightarrow> deploy_draft" where
  "sample_draft model =
     \<lparr>dd_name = ''llm'', dd_namespace = ''default'', dd_profileRef = ''p'', dd_modelRef = model, dd_overrides = [],
      dd_router = AIGATEWAY_ROUTER_PRIVATE, dd_modelName = ''llm'', dd_paths = CATALOG_PATHS\<rparr>"

definition sample_form :: "nat \<Rightarrow> string \<Rightarrow> deploy" where
  "sample_form n model =
     \<lparr>dw_step = n, dw_options = Some sample_create_options, dw_draft = sample_draft model, dw_newNamespace = False,
      dw_newNamespaceName = [], dw_busy = False, dw_error = None\<rparr>"

lemma sample_name: "rx_match ISVC_NAME_RE ''llm''"
  unfolding ISVC_NAME_RE_def by code_simp

lemma sample_model_name: "rx_match MODEL_NAME_RE ''llm''"
  unfolding MODEL_NAME_RE_def by code_simp

lemma sample_trim: "trim ''llm'' = ''llm''"
  by code_simp

lemma sample_valid: "dw_step1Valid [] (sample_form n model)"
  by (simp add: dw_step1Valid_def sample_form_def sample_draft_def sample_name sample_trim dw_namespace_def del: rx_match.simps)

lemma sample_profile_chosen:
  "dw_profile (sample_form n model) = Some (profile_option_of sample_number (profile.extend sample_profile \<lparr>pf_labels = [], pf_descriptions = [None]\<rparr>))"
  by (simp add: dw_profile_def selected_profile_def sample_form_def sample_draft_def sample_options_fields profile_option_of_def profile.defs sample_profile_def)

lemma sample_walk: "deploy_reachable (sample_form 3 ''m'')"
proof -
  let ?w = "dw_loaded sample_create_options initial_deploy"
  have name: "po_name (profile_option_of sample_number (profile.extend sample_profile \<lparr>pf_labels = [], pf_descriptions = [None]\<rparr>)) = ''p''"
    by (simp add: profile_option_of_def profile.defs sample_profile_def)
  have "deploy_reachable ?w"
    by (rule deploy_reachable.stepped [OF deploy_reachable.opened deploy_step.load]) (simp add: initial_deploy_def)
  then have "deploy_reachable (?w\<lparr>dw_draft := set_name ''llm'' (dw_draft ?w)\<rparr>)"
    by (rule deploy_reachable.stepped [OF _ deploy_step.name]) (simp_all add: initial_deploy_def dw_loaded_def)
  moreover have "?w\<lparr>dw_draft := set_name ''llm'' (dw_draft ?w)\<rparr> = sample_form 1 []"
    by (simp add: dw_loaded_def initial_deploy_def set_name_def sample_form_def sample_draft_def sample_options_fields name)
  ultimately have "deploy_reachable (sample_form 1 [])" by simp
  then have "deploy_reachable (dw_next [] (sample_form 1 []))"
    by (rule deploy_reachable.stepped [OF _ deploy_step.forward]) (simp add: sample_form_def)
  moreover have "dw_next [] (sample_form 1 []) = sample_form 2 []"
    using sample_valid [of 1 "[]"] by (simp add: dw_next_def) (simp add: sample_form_def)
  moreover have "''m'' \<in> set (dw_models (sample_form 2 []))"
    unfolding dw_models_def sample_profile_chosen
    by (simp add: compatibleModels_def sample_form_def sample_options_fields listed_in_def profile_option_of_def profile.defs sample_profile_def)
  ultimately have "deploy_reachable (sample_form 2 [])" "dw_step (sample_form 2 []) = 2" "''m'' \<in> set (dw_models (sample_form 2 []))"
    by (simp_all add: sample_form_def)
  then have "deploy_reachable (sample_form 2 [] \<lparr>dw_draft := (dw_draft (sample_form 2 []))\<lparr>dd_modelRef := ''m''\<rparr>\<rparr>)"
    using deploy_reachable.stepped deploy_step.model by metis
  moreover have "sample_form 2 [] \<lparr>dw_draft := (dw_draft (sample_form 2 []))\<lparr>dd_modelRef := ''m''\<rparr>\<rparr> = sample_form 2 ''m''"
    by (simp add: sample_form_def sample_draft_def)
  ultimately have "deploy_reachable (sample_form 2 ''m'')" by simp
  then have "deploy_reachable (dw_next [] (sample_form 2 ''m''))"
    by (rule deploy_reachable.stepped [OF _ deploy_step.forward]) (simp add: sample_form_def)
  moreover have "dw_next [] (sample_form 2 ''m'') = sample_form 3 ''m''"
    by (simp add: dw_next_def dw_step2Valid_def sample_form_def sample_draft_def)
  ultimately show ?thesis by simp
qed


end
