(* ===== verification/Deploy_Inputs.thy ===== *)
theory Deploy_Inputs
  imports Deploy
begin

text \<open>
  The inputs of a parameter (\<open>ScaleInput\<close> and \<open>OverrideInput\<close> of \<open>app/inference-services/page.tsx\<close>): which control is
  shown for the declaration and the value held, what it shows, and the values it can write. The theorems say
  that a control does not lose the value held and that what it writes is allowed. \<open>ftext\<close> is the text of a
  number that is not a natural one.
\<close>

section \<open>The controls\<close>

text \<open>A menu has the texts of its entries; a select of an enumeration writes the entry itself.\<close>

datatype control =
    Toggle bool
  | FabricSelect "fabric option" "rdma_fabric list"
  | NodesSelect "string list" "string list"
  | NodeSelect string "string list"
  | EntriesSelect "string list" "string list"
  | EntrySelect override_value "(rat + string) list"
  | ListBox string
  | TextBox override_value
  | NumberBox override_value

definition list_of :: "override_value \<Rightarrow> string list" where
  "list_of v = (case v of OList es \<Rightarrow> es | _ \<Rightarrow> [])"

definition entry_text :: "(rat \<Rightarrow> string) \<Rightarrow> rat + string \<Rightarrow> string" where
  "entry_text ftext a = (case a of Inl q \<Rightarrow> num_text ftext q | Inr s \<Rightarrow> s)"

definition has_entries :: "(rat + string) list option \<Rightarrow> bool" where
  "has_entries enum \<longleftrightarrow> nullish enum [] \<noteq> []"

definition js_true :: "override_value \<Rightarrow> bool" where
  "js_true v = (case v of OBool b \<Rightarrow> b | ONum q \<Rightarrow> q \<noteq> 0 | OStr s \<Rightarrow> s \<noteq> [] | _ \<Rightarrow> True)"

text \<open>\<open>pinnedNode\<close> of the text of a value; the text of a number, a boolean or an object has no equals sign.\<close>

definition pinned_value :: "override_value \<Rightarrow> string option" where
  "pinned_value v = (case v of OStr s \<Rightarrow> pinnedNode s | OList es \<Rightarrow> pinnedNode (join '','' es) | _ \<Rightarrow> None)"

definition menu_of :: "string list \<Rightarrow> string list \<Rightarrow> string list" where
  "menu_of pinned names = filter (\<lambda>n. n \<notin> set names) pinned @ names"

text \<open>The controls of a list, which the two inputs share.\<close>

definition list_input :: "(rat \<Rightarrow> string) \<Rightarrow> string \<Rightarrow> (rat + string) list option \<Rightarrow> override_value \<Rightarrow> string list \<Rightarrow> bool \<Rightarrow> control" where
  "list_input ftext name enum v nodes anyNodes =
     (case (if isNodeSelectorOverride name ''stringList'' \<and> anyNodes then pinnedNodes v else None) of
        Some pinned \<Rightarrow> NodesSelect pinned (menu_of pinned nodes)
      | None \<Rightarrow>
          (if has_entries enum then EntriesSelect (list_of v) (map (entry_text ftext) (the enum))
           else ListBox (join '','' (list_of v))))"

definition ScaleInput :: "(rat \<Rightarrow> string) \<Rightarrow> knob \<Rightarrow> override_value \<Rightarrow> string list \<Rightarrow> control" where
  "ScaleInput ftext o' v nodes =
     (if kn_type o' = BooleanKnob then Toggle (v = OBool True)
      else if kn_type o' = ListKnob then list_input ftext (kn_name o') (kn_enum o') v nodes (nodes \<noteq> [])
      else if has_entries (kn_enum o') then EntrySelect v (the (kn_enum o'))
      else if kn_type o' = StringKnob then TextBox (case v of OStr s \<Rightarrow> v | _ \<Rightarrow> OStr [])
      else NumberBox (case v of ONum n \<Rightarrow> v | _ \<Rightarrow> ONum (nullish (kn_min o') 1)))"

definition fabric_choice :: "override_value \<Rightarrow> rdma_fabric list option \<Rightarrow> fabric option option" where
  "fabric_choice v fabrics =
     (case (if nullish fabrics [] \<noteq> [] then rdmaFabricOf v else None) of
        Some (Some f) \<Rightarrow> (if list_ex (\<lambda>g. rf_id g = f) (the fabrics) then Some (Some f) else None)
      | c \<Rightarrow> c)"

definition scalar_input :: "override_option \<Rightarrow> override_value \<Rightarrow> string list \<Rightarrow> bool \<Rightarrow> control" where
  "scalar_input decl v nodes anyNodes =
     (case (if isNodeSelectorOverride (oo_name decl) (oo_type decl) \<and> anyNodes then pinned_value v else None) of
        Some name \<Rightarrow> NodeSelect name (if name \<noteq> [] \<and> name \<notin> set nodes then name # nodes else nodes)
      | None \<Rightarrow>
          (if has_entries (oo_enum decl) then EntrySelect v (the (oo_enum decl))
           else if oo_type decl = ''integer'' then NumberBox v else TextBox v))"

definition OverrideInput ::
    "(rat \<Rightarrow> string) \<Rightarrow> override_option \<Rightarrow> override_value \<Rightarrow> string list \<Rightarrow> bool \<Rightarrow> rdma_fabric list option \<Rightarrow> control" where
  "OverrideInput ftext decl v nodes anyNodes fabrics =
     (if oo_type decl = ''boolean'' then Toggle (js_true v)
      else case fabric_choice v fabrics of
          Some f \<Rightarrow> FabricSelect f (the fabrics)
        | None \<Rightarrow>
            (if oo_type decl = ''stringList'' then list_input ftext (oo_name decl) (oo_enum decl) v nodes anyNodes
             else scalar_input decl v nodes anyNodes))"

text \<open>What a control can write; \<open>ty\<close> is the declared type. A select of several keeps held values that are not in
  its menu, and an emptied box of a number writes zero.\<close>

fun writes :: "string \<Rightarrow> control \<Rightarrow> override_value \<Rightarrow> bool" where
  "writes ty (Toggle _) v \<longleftrightarrow> (\<exists>b. v = OBool b)"
| "writes ty (FabricSelect _ fs) v \<longleftrightarrow> v \<in> fabricOverrideValue ty ` set fs"
| "writes ty (NodesSelect _ menu) v \<longleftrightarrow> (\<exists>names. set names \<subseteq> set menu \<and> v = pick_nodes names)"
| "writes ty (NodeSelect _ menu) v \<longleftrightarrow> v \<in> pick_node ` set ([] # menu)"
| "writes ty (EntriesSelect held menu) v \<longleftrightarrow> (\<exists>names. set names \<subseteq> set held \<union> set menu \<and> v = OList names)"
| "writes ty (EntrySelect _ menu) v \<longleftrightarrow> v \<in> enum_value ` set menu"
| "writes ty (ListBox _) v \<longleftrightarrow> (\<exists>s. v = OList (splitList s))"
| "writes ty (TextBox _) v \<longleftrightarrow> (\<exists>s. v = OStr s)"
| "writes ty (NumberBox _) v \<longleftrightarrow> (\<exists>n. v = ONum n)"

section \<open>What the controls write\<close>

text \<open>Declarations whose enumeration makes sense: some entry, each allowed by the rest of the declaration, and none
  for a switch or a picker.\<close>

definition enum_well :: "profile_override \<Rightarrow> bool" where
  "enum_well o' \<longleftrightarrow>
     (case ov_enum o' of
        None \<Rightarrow> True
      | Some as \<Rightarrow>
          as \<noteq> [] \<and> ov_type o' \<noteq> Some ''boolean'' \<and> \<not> isNodeSelectorOverride (nullish (ov_name o') []) (nullish (ov_type o') ''integer'') \<and>
          \<not> isExtendedResourcesOverride (nullish (ov_name o') []) (nullish (ov_type o') ''integer'') \<and>
          list_all (\<lambda>a. if ov_type o' = Some ''stringList'' then override_ok o' (OList [entry_text (\<lambda>_. []) a]) \<and> a \<in> range Inr
            else override_ok o' (enum_value a)) as)"

definition fabrics_well :: "override_option \<Rightarrow> rdma_fabric list option \<Rightarrow> bool" where
  "fabrics_well decl fabrics \<longleftrightarrow>
     list_all (\<lambda>f. (rf_id f, rf_resource f) \<in> set RDMA_FABRICS \<and> isExtendedResourcesOverride (oo_name decl) (oo_type decl)) (nullish fabrics [])"

lemma rdmaFabrics_well: "fabrics_well k (rdmaFabrics to_number allNodes d p k)"
proof (cases "rdmaFabrics to_number allNodes d p k")
  case (Some fs)
  then have "isExtendedResourcesOverride (oo_name k) (oo_type k)" by (auto simp: rdmaFabrics_def split: if_splits)
  with Some show ?thesis using rdmaFabricsE [OF Some] by (simp add: fabrics_well_def list_all_iff) metis
qed (simp add: fabrics_well_def)

text \<open>What a control writes, but for the numbers out of bounds.\<close>

definition number_ok :: "profile_override \<Rightarrow> control \<Rightarrow> override_value \<Rightarrow> bool" where
  "number_ok o' c v = (case (c, v) of (NumberBox _, ONum n) \<Rightarrow> is_integer n \<and> in_bounds o' n | _ \<Rightarrow> True)"

lemma known_cases:
  assumes "known_type o'"
  obtains "nullish (ov_type o') ''integer'' = ''integer''" and "integer_kind o'" and "knob_type_of (ov_type o') = IntegerKnob"
  | "ov_type o' = Some ''string''" and "\<not> integer_kind o'" and "knob_type_of (ov_type o') = StringKnob"
  | "ov_type o' = Some ''stringList''" and "knob_type_of (ov_type o') = ListKnob"
  | "ov_type o' = Some ''boolean''" and "\<not> integer_kind o'" and "knob_type_of (ov_type o') = BooleanKnob"
  using assms
  by (cases "ov_type o'") (auto simp: known_type_def integer_kind_def knob_type_of_def INHERITED_PROPERTIES_def)

lemma list_ok: "ov_type o' = Some ''stringList'' \<Longrightarrow> override_ok o' (OList es) \<longleftrightarrow> (\<forall>e\<in>set es. override_ok o' (OList [e]))"
  by (auto simp: override_ok_def)

lemma picked_nodes_ok:
  assumes "ov_type o' = Some ''stringList''" and "ov_enum o' = None" and "\<forall>n\<in>set names. CHR '','' \<notin> set n"
  shows "override_ok o' (pick_nodes names)"
  using assms by (auto simp: override_ok_def pick_nodes_def NODE_SELECTOR_KEY_def)

lemma pinned_nodes_value:
  assumes "pinnedNodes v = Some names"
  shows "pick_nodes names = v"
proof -
  from assms obtain es where v: "v = OList es" "list_all (\<lambda>e. startsWith e (NODE_SELECTOR_KEY @ ''='')) es"
    and names: "names = map (drop (length (NODE_SELECTOR_KEY @ ''=''))) es"
    by (auto simp: pinnedNodes_def Let_def split: override_value.splits if_splits)
  have "NODE_SELECTOR_KEY @ ''='' @ drop (length (NODE_SELECTOR_KEY @ ''='')) e = e" if "e \<in> set es" for e
    using that v(2) by (auto simp: list_all_iff prefix_def)
  then have "map (\<lambda>e. NODE_SELECTOR_KEY @ ''='' @ drop (length (NODE_SELECTOR_KEY @ ''='')) e) es = es" by (intro map_idI)
  then show ?thesis by (simp add: v(1) names pick_nodes_def comp_def)
qed

lemma pinned_node_value:
  assumes "pinnedNode s = Some name" and "name \<noteq> []"
  shows "pick_node name = OStr s"
proof -
  from assms obtain i where i: "find_index ((=) CHR ''='') s = Some i" "take i s = NODE_SELECTOR_KEY" "name = drop (i + 1) s"
    by (auto simp: pinnedNode_def split: if_splits option.splits)
  have "s = take i s @ s ! i # drop (Suc i) s" using find_index_SomeD(1) [OF i(1)] by (rule id_take_nth_drop)
  with find_index_SomeD(2) [OF i(1)] have "s = NODE_SELECTOR_KEY @ CHR ''='' # name" using i(2,3) by simp
  then show ?thesis using assms(2) by (simp add: pick_node_def)
qed

lemma set_menu_of: "set (menu_of pinned names) = set pinned \<union> set names"
  by (auto simp: menu_of_def)

text \<open>What a control shows of the value held: an entry of its menu, which when chosen again writes the value held.\<close>

definition shows_held :: "control \<Rightarrow> override_value \<Rightarrow> bool" where
  "shows_held c v =
     (case c of
        NodesSelect names menu \<Rightarrow> set names \<subseteq> set menu \<and> pick_nodes names = v
      | NodeSelect name menu \<Rightarrow> name \<in> set ([] # menu) \<and> (\<forall>s. v = OStr s \<and> name \<noteq> [] \<longrightarrow> pick_node name = v)
      | FabricSelect f fs \<Rightarrow> rdmaFabricOf v = Some f \<and> set_option f \<subseteq> rf_id ` set fs
      | _ \<Rightarrow> True)"

lemma list_input_shows: "shows_held (list_input ftext name enum v nodes anyNodes) v"
  by (simp add: shows_held_def list_input_def set_menu_of pinned_nodes_value split: option.split)

lemma scalar_input_shows: "shows_held (scalar_input decl v nodes anyNodes) v"
  by (auto simp: shows_held_def scalar_input_def pinned_value_def pinned_node_value split: option.split)

lemma fabric_choice_shows: "fabric_choice v fabrics = Some f \<Longrightarrow> shows_held (FabricSelect f (the fabrics)) v"
  by (auto simp: shows_held_def fabric_choice_def list_ex_iff split: option.splits if_splits)

lemma override_input_shows: "shows_held (OverrideInput ftext decl v nodes anyNodes fabrics) v"
  by (auto simp: OverrideInput_def list_input_shows scalar_input_shows fabric_choice_shows shows_held_def [of "Toggle _"] split: option.split)

lemma scale_input_shows: "shows_held (ScaleInput ftext o' v nodes) v"
  by (simp add: ScaleInput_def list_input_shows) (simp add: shows_held_def)

lemma list_input_writes:
  assumes "ov_type o' = Some ''stringList''" and "enum_well o'" and "override_ok o' v" and "\<forall>n\<in>set nodes. CHR '','' \<notin> set n"
    and "writes ty (list_input ftext (nullish (ov_name o') []) (ov_enum o') v nodes anyNodes) v'"
  shows "override_ok o' v'"
proof (cases "if isNodeSelectorOverride (nullish (ov_name o') []) ''stringList'' \<and> anyNodes then pinnedNodes v else None")
  case (Some pinned)
  then have enum: "ov_enum o' = None" and "pinnedNodes v = Some pinned" using assms(1,2) by (auto simp: enum_well_def split: if_splits option.splits)
  from pinned_nodes_value [OF this(2)] have v: "v = pick_nodes pinned" by simp
  have "\<forall>n\<in>set pinned. CHR '','' \<notin> set n" using assms(1,3) by (auto simp: v override_ok_def pick_nodes_def)
  moreover from assms(5) Some obtain names where "set names \<subseteq> set pinned \<union> set nodes" "v' = pick_nodes names"
    by (auto simp: list_input_def set_menu_of)
  moreover from calculation assms(4) have "\<forall>n\<in>set names. CHR '','' \<notin> set n" by blast
  ultimately show ?thesis using picked_nodes_ok [OF assms(1) enum] by simp
next
  case None
  note control = this
  show ?thesis
  proof (cases "ov_enum o'")
    case None
    with control assms(5) obtain s where "v' = OList (splitList s)" by (auto simp: list_input_def has_entries_def)
    with splitList_comma_free [of s] show ?thesis using None assms(1) by (auto simp: override_ok_def comma_free_def list_all_iff)
  next
    case (Some as)
    then have as: "as \<noteq> []" "\<forall>a\<in>set as. override_ok o' (OList [entry_text (\<lambda>_. []) a]) \<and> a \<in> range Inr"
      using assms(1,2) by (auto simp: enum_well_def list_all_iff)
    from Some control assms(5) as(1) obtain names where names: "set names \<subseteq> set (list_of v) \<union> entry_text ftext ` set as" "v' = OList names"
      by (auto simp: list_input_def has_entries_def)
    have "override_ok o' (OList [n])" if "n \<in> set names" for n
    proof (cases "n \<in> set (list_of v)")
      case True
      then have "v = OList (list_of v)" by (auto simp: list_of_def split: override_value.splits)
      with True assms(3) show ?thesis using list_ok [OF assms(1), of "list_of v"] by metis
    next
      case False
      with names(1) that obtain a where "a \<in> set as" "n = entry_text ftext a" by blast
      moreover from this(1) as(2) obtain e where "a = Inr e" "override_ok o' (OList [entry_text (\<lambda>_. []) a])" by blast
      ultimately show ?thesis by (simp add: entry_text_def)
    qed
    then show ?thesis using list_ok [OF assms(1), of names] names(2) by blast
  qed
qed

lemma entry_writes:
  assumes "enum_well o'" and "ov_type o' \<noteq> Some ''stringList''" and "has_entries (ov_enum o')" and "v' \<in> enum_value ` set (the (ov_enum o'))"
  shows "override_ok o' v'"
  using assms by (cases "ov_enum o'") (auto simp: enum_well_def has_entries_def list_all_iff)

lemma free_writes:
  assumes "enum_well o'" and "\<not> has_entries (ov_enum o')" and "ov_type o' \<noteq> Some ''stringList''"
  shows "\<not> integer_kind o' \<Longrightarrow> override_ok o' v'" and "integer_kind o' \<Longrightarrow> override_ok o' (ONum n) \<longleftrightarrow> is_integer n \<and> in_bounds o' n"
proof -
  have "ov_enum o' = None" using assms(1,2) by (cases "ov_enum o'") (simp_all add: enum_well_def has_entries_def)
  then show "\<not> integer_kind o' \<Longrightarrow> override_ok o' v'" "integer_kind o' \<Longrightarrow> override_ok o' (ONum n) \<longleftrightarrow> is_integer n \<and> in_bounds o' n"
    using assms(3) by (auto simp: override_ok_def)
qed

lemma scalar_input_writes:
  assumes "known_type o'" and "enum_well o'" and "ov_type o' \<noteq> Some ''stringList''" and "ov_type o' \<noteq> Some ''boolean''"
    and "decl = override_option_of (o', description)"
    and "writes ty (scalar_input decl v nodes anyNodes) v'"
  shows "override_ok o' v' \<longleftrightarrow> number_ok o' (scalar_input decl v nodes anyNodes) v'"
proof -
  have decl: "oo_name decl = nullish (ov_name o') []" "oo_type decl = nullish (ov_type o') ''integer''" "oo_enum decl = ov_enum o'"
    by (simp_all add: assms(5) override_option_of_def)
  let ?pinned = "if isNodeSelectorOverride (oo_name decl) (oo_type decl) \<and> anyNodes then pinned_value v else None"
  show ?thesis
  proof (cases ?pinned)
    case (Some name)
    then have "isNodeSelectorOverride (oo_name decl) (oo_type decl)" by (meson option.distinct(1))
    then have "ov_type o' = Some ''string''" "ov_enum o' = None" using assms(2,3)
      by (auto simp: decl isNodeSelectorOverride_def text_type_def enum_well_def nullish_def split: option.splits)
    moreover from this(1) have "\<not> integer_kind o'" by (simp add: integer_kind_def INHERITED_PROPERTIES_def)
    moreover have "number_ok o' (scalar_input decl v nodes anyNodes) v'" unfolding scalar_input_def Some by (simp add: number_ok_def)
    ultimately show ?thesis by (simp add: override_ok_def)
  next
    case None
    then have control: "scalar_input decl v nodes anyNodes =
        (if has_entries (ov_enum o') then EntrySelect v (the (ov_enum o')) else if oo_type decl = ''integer'' then NumberBox v else TextBox v)"
      unfolding scalar_input_def decl(3) by simp
    have kind: "integer_kind o' \<longleftrightarrow> oo_type decl = ''integer''"
      using assms(1) by (cases rule: known_cases) (use decl(2) assms(3,4) in simp_all)
    show ?thesis
    proof (cases "has_entries (ov_enum o')")
      case True
      then show ?thesis using assms(6) entry_writes [OF assms(2,3) True] by (simp add: control number_ok_def)
    next
      case False
      note free = free_writes [OF assms(2) False assms(3)]
      show ?thesis
      proof (cases "oo_type decl = ''integer''")
        case True
        with assms(6) False obtain n where "v' = ONum n" by (auto simp: control)
        then show ?thesis using free(2) [of n] True False kind by (simp add: control number_ok_def)
      next
        case other: False
        then show ?thesis using free(1) False kind by (simp add: control number_ok_def)
      qed
    qed
  qed
qed

lemma override_input_writes:
  assumes "known_type o'" and "enum_well o'" and "override_ok o' v" and "\<forall>n\<in>set nodes. CHR '','' \<notin> set n"
    and "decl = override_option_of (o', description)" and "fabrics_well decl fabrics"
    and "writes (oo_type decl) (OverrideInput ftext decl v nodes anyNodes fabrics) v'"
  shows "override_ok o' v' \<longleftrightarrow> number_ok o' (OverrideInput ftext decl v nodes anyNodes fabrics) v'"
proof -
  have decl: "oo_name decl = nullish (ov_name o') []" "oo_type decl = nullish (ov_type o') ''integer''" "oo_enum decl = ov_enum o'"
    by (simp_all add: assms(5) override_option_of_def)
  show ?thesis
  proof (cases "ov_type o' = Some ''boolean''")
    case True
    then have "ov_enum o' = None" using assms(2) by (simp add: enum_well_def split: option.splits)
    with True show ?thesis using decl(2) by (simp add: OverrideInput_def number_ok_def override_ok_def integer_kind_def INHERITED_PROPERTIES_def)
  next
    case False
    then have bool: "oo_type decl \<noteq> ''boolean''" by (cases "ov_type o'") (auto simp: decl)
    show ?thesis
    proof (cases "fabric_choice v fabrics")
      case (Some f)
      then have control: "OverrideInput ftext decl v nodes anyNodes fabrics = FabricSelect f (the fabrics)" "fabrics \<noteq> None"
        using bool by (simp add: OverrideInput_def) (use Some in \<open>cases fabrics; simp add: fabric_choice_def\<close>)
      then obtain g where g: "g \<in> set (the fabrics)" "v' = fabricOverrideValue (oo_type decl) g" using assms(7) by auto
      then have ext: "isExtendedResourcesOverride (oo_name decl) (oo_type decl)" "(rf_id g, rf_resource g) \<in> set RDMA_FABRICS"
        using assms(6) control(2) by (auto simp: fabrics_well_def list_all_iff)
      then have ty: "text_type (oo_type decl)" by (simp add: isExtendedResourcesOverride_def)
      then have "ov_type o' = Some (oo_type decl)" by (cases "ov_type o'") (simp_all add: decl text_type_def)
      moreover have "ov_enum o' = None" using ext(1) assms(2) by (auto simp: enum_well_def decl split: option.splits)
      ultimately have "override_ok o' v'" unfolding g(2) by (rule fabric_value_ok [OF ext(2) ty])
      then show ?thesis by (simp add: control(1) number_ok_def)
    next
      case None
      show ?thesis
      proof (cases "ov_type o' = Some ''stringList''")
        case True
        with None bool have control: "OverrideInput ftext decl v nodes anyNodes fabrics = list_input ftext (nullish (ov_name o') []) (ov_enum o') v nodes anyNodes"
          by (simp add: OverrideInput_def decl)
        moreover have "number_ok o' (list_input ftext n e v nodes anyNodes) v'" for n e
          by (simp add: number_ok_def list_input_def split: option.split)
        ultimately show ?thesis using list_input_writes [OF True assms(2-4)] assms(7) by simp
      next
        case list: False
        then have "oo_type decl \<noteq> ''stringList''" by (cases "ov_type o'") (auto simp: decl)
        with None bool have "OverrideInput ftext decl v nodes anyNodes fabrics = scalar_input decl v nodes anyNodes" by (simp add: OverrideInput_def)
        then show ?thesis using scalar_input_writes [OF assms(1,2) list False assms(5)] assms(7) by simp
      qed
    qed
  qed
qed

lemma scale_input_writes:
  assumes "known_type o'" and "enum_well o'" and "override_ok o' v" and "\<forall>n\<in>set nodes. CHR '','' \<notin> set n"
    and "writes ty (ScaleInput ftext (knob_of spec o') v nodes) v'"
  shows "override_ok o' v' \<longleftrightarrow> number_ok o' (ScaleInput ftext (knob_of spec o') v nodes) v'"
proof -
  have knob: "kn_name (knob_of spec o') = nullish (ov_name o') []" "kn_type (knob_of spec o') = knob_type_of (ov_type o')" "kn_enum (knob_of spec o') = ov_enum o'"
    by (simp_all add: knob_of_def Let_def)
  from assms(1) show ?thesis
  proof (cases rule: known_cases)
    case 3
    then have "ScaleInput ftext (knob_of spec o') v nodes = list_input ftext (nullish (ov_name o') []) (ov_enum o') v nodes (nodes \<noteq> [])"
      by (simp add: ScaleInput_def knob)
    moreover have "number_ok o' (list_input ftext n e v nodes (nodes \<noteq> [])) v'" for n e
      by (simp add: number_ok_def list_input_def split: option.split)
    ultimately show ?thesis using list_input_writes [OF 3(1) assms(2-4)] assms(5) by simp
  next
    case 4
    then have "ov_enum o' = None" using assms(2) by (simp add: enum_well_def split: option.splits)
    with 4 show ?thesis by (simp add: ScaleInput_def knob number_ok_def override_ok_def)
  next
    case 1
    then have list: "ov_type o' \<noteq> Some ''stringList''" by auto
    have control: "ScaleInput ftext (knob_of spec o') v nodes =
        (if has_entries (ov_enum o') then EntrySelect v (the (ov_enum o'))
         else NumberBox (case v of ONum n \<Rightarrow> v | _ \<Rightarrow> ONum (nullish (kn_min (knob_of spec o')) 1)))"
      by (simp add: ScaleInput_def knob 1(3))
    show ?thesis
    proof (cases "has_entries (ov_enum o')")
      case True
      then show ?thesis using assms(5) entry_writes [OF assms(2) list True] by (simp add: control number_ok_def)
    next
      case False
      with assms(5) obtain n where "v' = ONum n" unfolding control by auto
      then show ?thesis using free_writes(2) [OF assms(2) False list 1(2), of n] False by (simp add: control number_ok_def)
    qed
  next
    case 2
    then have list: "ov_type o' \<noteq> Some ''stringList''" by auto
    have control: "ScaleInput ftext (knob_of spec o') v nodes =
        (if has_entries (ov_enum o') then EntrySelect v (the (ov_enum o')) else TextBox (case v of OStr s \<Rightarrow> v | _ \<Rightarrow> OStr []))"
      by (simp add: ScaleInput_def knob 2(3))
    show ?thesis
    proof (cases "has_entries (ov_enum o')")
      case True
      then show ?thesis using assms(5) entry_writes [OF assms(2) list True] by (simp add: control number_ok_def)
    next
      case False
      then show ?thesis using free_writes(1) [OF assms(2) False list 2(2)] by (simp add: control number_ok_def)
    qed
  qed
qed


definition sample_selector :: profile_override where
  "sample_selector = \<lparr>ov_name = Some ''decode_nodeSelector'', ov_type = Some ''stringList'', ov_min = None, ov_max = None, ov_enum = None,
     ov_default = None\<rparr>"


end
