(* ===== verification/Panels.thy ===== *)
theory Panels
  imports Cluster "HOL-Library.Char_ord" "HOL-Library.List_Lexorder"
begin

text \<open>
  The panels of a dashboard that are shown or not (\<open>components/perses/conditional-panels.ts\<close> and
  \<open>DashboardConditionalPanels.tsx\<close>): the markers in the descriptions of panels, the panels they hide for the
  values of the variables, and the repacking of the grids that lose some. The theorems say that exactly the
  marked panels go, and that the grids stay well laid out. Grid units are integers; \<open>all_value\<close> is the value of
  a variable that stands for all, a constant of the charting library.
\<close>

section \<open>Dashboards\<close>

record grid_item =
  gi_x :: int
  gi_y :: int
  gi_width :: int
  gi_height :: int
  gi_ref :: string

text \<open>Of a layout of another kind nothing is looked at.\<close>

datatype layout = Grid "grid_item list" | OtherLayout string

text \<open>The panels with their descriptions, in the order of \<open>Object.entries\<close>.\<close>

record dashboard =
  db_panels :: "(string \<times> string option) list"
  db_layouts :: "layout list"

definition PANEL_REF_PREFIX :: string where
  "PANEL_REF_PREFIX = ''#/spec/panels/''"

definition COLUMNS_FALLBACK :: int where
  "COLUMNS_FALLBACK = 24"

definition HIDE_TAG :: string where
  "HIDE_TAG = ''@hide-when-specific:''"

definition ident_start :: "char \<Rightarrow> bool" where
  "ident_start c \<longleftrightarrow> between CHR ''A'' CHR ''Z'' c \<or> between CHR ''a'' CHR ''z'' c \<or> c = CHR ''_''"

definition ident_char :: "char \<Rightarrow> bool" where
  "ident_char c \<longleftrightarrow> ident_start c \<or> digit c"

text \<open>The variable the first marker in a text names.\<close>

fun hide_marker :: "string \<Rightarrow> string option" where
  "hide_marker [] = None"
| "hide_marker (c # cs) =
     (let rest = drop (length HIDE_TAG) (c # cs)
      in if startsWith (c # cs) HIDE_TAG \<and> rest \<noteq> [] \<and> ident_start (hd rest) then Some (takeWhile ident_char rest) else hide_marker cs)"

definition panel_marker :: "string option \<Rightarrow> string option" where
  "panel_marker description = hide_marker (nullish description [])"

definition add_rule :: "(string \<times> string list) list \<Rightarrow> string \<times> string option \<Rightarrow> (string \<times> string list) list" where
  "add_rule rules p =
     (case panel_marker (snd p) of
        None \<Rightarrow> rules
      | Some v \<Rightarrow> obj_set rules v (nullish (map_of rules v) [] @ [fst p]))"

definition extractHideRules :: "dashboard \<Rightarrow> (string \<times> string list) list" where
  "extractHideRules d = foldl add_rule [] (db_panels d)"

section \<open>Repacking\<close>

definition reads_before :: "grid_item \<Rightarrow> grid_item \<Rightarrow> bool" where
  "reads_before a b \<longleftrightarrow> gi_y a < gi_y b \<or> gi_y a = gi_y b \<and> gi_x a < gi_x b"

definition in_order :: "grid_item list \<Rightarrow> grid_item list" where
  "in_order items = foldr (insert_by reads_before) items []"

fun pack :: "int \<Rightarrow> int \<Rightarrow> int \<Rightarrow> int \<Rightarrow> grid_item list \<Rightarrow> grid_item list" where
  "pack columns x y rowHeight [] = []"
| "pack columns x y rowHeight (i # is) =
     (if columns < x + gi_width i
      then i\<lparr>gi_x := 0, gi_y := y + rowHeight\<rparr> # pack columns (gi_width i) (y + rowHeight) (max 0 (gi_height i)) is
      else i\<lparr>gi_x := x, gi_y := y\<rparr> # pack columns (x + gi_width i) y (max rowHeight (gi_height i)) is)"

definition packItems :: "grid_item list \<Rightarrow> int \<Rightarrow> grid_item list" where
  "packItems items columns = pack columns 0 0 0 (in_order items)"

definition refers_to :: "grid_item \<Rightarrow> string" where
  "refers_to i = drop (length PANEL_REF_PREFIX) (gi_ref i)"

definition grid_columns :: "grid_item list \<Rightarrow> int" where
  "grid_columns items = foldl max COLUMNS_FALLBACK (map (\<lambda>i. gi_x i + gi_width i) items)"

definition filter_layout :: "string set \<Rightarrow> layout \<Rightarrow> layout" where
  "filter_layout keysToDrop l =
     (case l of
        OtherLayout _ \<Rightarrow> l
      | Grid items \<Rightarrow>
          (let kept = filter (\<lambda>i. refers_to i \<notin> keysToDrop) items
           in if length kept = length items then l else Grid (packItems kept (grid_columns items))))"

definition buildFilteredResource :: "dashboard \<Rightarrow> string set \<Rightarrow> dashboard" where
  "buildFilteredResource d keysToDrop =
     (if keysToDrop = {} then d
      else d\<lparr>db_panels := filter (\<lambda>p. fst p \<notin> keysToDrop) (db_panels d), db_layouts := map (filter_layout keysToDrop) (db_layouts d)\<rparr>)"

section \<open>Which panels are hidden\<close>

text \<open>The state of a variable: whether it is loading, and its value if that is a text.\<close>

record variable_state =
  va_loading :: bool
  va_value :: "string option"

definition isSpecificValue :: "string \<Rightarrow> string option \<Rightarrow> bool" where
  "isSpecificValue all_value v \<longleftrightarrow> truthy v \<and> v \<noteq> Some all_value"

definition ruleActive :: "string \<Rightarrow> string option \<Rightarrow> (string \<times> variable_state) list \<Rightarrow> string \<Rightarrow> bool" where
  "ruleActive all_value scope states v \<longleftrightarrow>
     scope = Some v \<or>
     (case map_of states v of None \<Rightarrow> False | Some s \<Rightarrow> \<not> va_loading s \<and> isSpecificValue all_value (va_value s))"

definition drop_keys :: "string \<Rightarrow> dashboard \<Rightarrow> string option \<Rightarrow> (string \<times> variable_state) list \<Rightarrow> string list" where
  "drop_keys all_value d scope states =
     remdups (concat (map snd (filter (\<lambda>(v, _). ruleActive all_value scope states v) (extractHideRules d))))"

definition hiddenSignature :: "string \<Rightarrow> dashboard \<Rightarrow> string option \<Rightarrow> (string \<times> variable_state) list \<Rightarrow> string" where
  "hiddenSignature all_value d scope states = join '','' (sort (drop_keys all_value d scope states))"

text \<open>The signature last applied, and what the store of the dashboard holds.\<close>

record panel_store =
  ps_applied :: string
  ps_dashboard :: dashboard

definition mounted :: "dashboard \<Rightarrow> panel_store" where
  "mounted d = \<lparr>ps_applied = [], ps_dashboard = d\<rparr>"

definition apply_signature :: "dashboard \<Rightarrow> string \<Rightarrow> panel_store \<Rightarrow> panel_store" where
  "apply_signature d signature s =
     (if ps_applied s = signature then s
      else \<lparr>ps_applied = signature,
        ps_dashboard = (if signature = [] then d else buildFilteredResource d (set (split_char CHR '','' signature)))\<rparr>)"

definition render :: "string \<Rightarrow> dashboard \<Rightarrow> panel_store \<Rightarrow> string option \<times> (string \<times> variable_state) list \<Rightarrow> panel_store" where
  "render all_value d s r = apply_signature d (hiddenSignature all_value d (fst r) (snd r)) s"

section \<open>The grid after repacking\<close>

text \<open>Two items overlap, and the item covers a line.\<close>

definition overlap :: "grid_item \<Rightarrow> grid_item \<Rightarrow> bool" where
  "overlap a b \<longleftrightarrow>
     gi_x a < gi_x b + gi_width b \<and> gi_x b < gi_x a + gi_width a \<and> gi_y a < gi_y b + gi_height b \<and> gi_y b < gi_y a + gi_height a"

definition covers_line :: "int \<Rightarrow> grid_item \<Rightarrow> bool" where
  "covers_line t i \<longleftrightarrow> gi_y i \<le> t \<and> t < gi_y i + gi_height i"

definition unplaced :: "grid_item \<Rightarrow> int \<times> int \<times> string" where
  "unplaced i = (gi_width i, gi_height i, gi_ref i)"

definition sized :: "int \<Rightarrow> grid_item \<Rightarrow> bool" where
  "sized columns i \<longleftrightarrow> 0 < gi_width i \<and> gi_width i \<le> columns \<and> 0 < gi_height i"

lemma mset_in_order: "mset (in_order items) = mset items"
  by (induction items) (simp_all add: in_order_def)

lemma in_order_sorted: "sorted_wrt (\<lambda>a b. \<not> reads_before b a) (in_order items)"
proof -
  have "sorted_wrt (\<lambda>a b. \<not> reads_before b a) (insert_by reads_before i is)" if "sorted_wrt (\<lambda>a b. \<not> reads_before b a) is" for i "is"
    using that by (induction "is") (auto simp: set_insert_by reads_before_def)
  then show ?thesis by (induction items) (simp_all add: in_order_def)
qed

lemma pack_unplaced: "map unplaced (pack columns x y h is) = map unplaced is"
  by (induction columns x y h "is" rule: pack.induct) (simp_all add: unplaced_def)

lemma pack_refers: "map refers_to (pack columns x y h is) = map refers_to is"
  by (induction columns x y h "is" rule: pack.induct) (simp_all add: refers_to_def)

lemma pack_bounds:
  assumes "\<forall>i\<in>set is. sized columns i" and "0 \<le> x" and "0 \<le> h" and "j \<in> set (pack columns x y h is)"
  shows "0 \<le> gi_x j \<and> gi_x j + gi_width j \<le> columns \<and> (gi_y j = y \<and> x \<le> gi_x j \<or> y + h \<le> gi_y j)"
  using assms
proof (induction columns x y h "is" rule: pack.induct)
  case (2 columns x y h i "is")
  then have "0 < gi_width i" "gi_width i \<le> columns" "0 < gi_height i" by (auto simp: sized_def)
  show ?case
  proof (cases "columns < x + gi_width i")
    case True
    with 2 \<open>0 < gi_width i\<close> \<open>gi_width i \<le> columns\<close> \<open>0 < gi_height i\<close> show ?thesis by fastforce
  next
    case False
    with 2 \<open>0 < gi_width i\<close> \<open>gi_width i \<le> columns\<close> \<open>0 < gi_height i\<close> show ?thesis by fastforce
  qed
qed simp

lemma pack_disjoint:
  assumes "\<forall>i\<in>set is. sized columns i" and "0 \<le> x" and "0 \<le> h"
  shows "sorted_wrt (\<lambda>a b. \<not> overlap a b) (pack columns x y h is)"
  using assms
proof (induction columns x y h "is" rule: pack.induct)
  case (2 columns x y h i "is")
  then have i: "0 < gi_width i" "0 < gi_height i" and rest: "\<forall>i\<in>set is. sized columns i" by (auto simp: sized_def)
  show ?case
  proof (cases "columns < x + gi_width i")
    case True
    have "\<not> overlap (i\<lparr>gi_x := 0, gi_y := y + h\<rparr>) j" if "j \<in> set (pack columns (gi_width i) (y + h) (max 0 (gi_height i)) is)" for j
      using pack_bounds [OF rest _ _ that] i by (auto simp: overlap_def)
    with True 2 i show ?thesis by simp
  next
    case False
    have "\<not> overlap (i\<lparr>gi_x := x, gi_y := y\<rparr>) j" if "j \<in> set (pack columns (x + gi_width i) y (max h (gi_height i)) is)" for j
    proof -
      have "0 \<le> x + gi_width i" "0 \<le> max h (gi_height i)" using i "2.prems" by auto
      from pack_bounds [OF rest this that] i show ?thesis by (auto simp: overlap_def)
    qed
    with False 2 i show ?thesis by simp
  qed
qed simp

lemma pack_covers:
  assumes "\<forall>i\<in>set is. sized columns i" and "0 \<le> h" and "j \<in> set (pack columns x y h is)" and "y + h \<le> t" and "t < gi_y j + gi_height j"
  shows "\<exists>k\<in>set (pack columns x y h is). covers_line t k"
  using assms
proof (induction columns x y h "is" rule: pack.induct)
  case (2 columns x y h i "is")
  then have i: "0 < gi_height i" and rest: "\<forall>i\<in>set is. sized columns i" by (auto simp: sized_def)
  show ?case
  proof (cases "columns < x + gi_width i")
    case True
    show ?thesis
    proof (cases "t < y + h + gi_height i")
      case True
      with \<open>columns < x + gi_width i\<close> "2.prems"(4) show ?thesis by (auto simp: covers_line_def)
    next
      case False
      with True "2.prems"(3,5) have "j \<in> set (pack columns (gi_width i) (y + h) (max 0 (gi_height i)) is)" by auto
      from "2.IH"(1) [OF True rest _ this] False i "2.prems"(5) True show ?thesis by auto
    qed
  next
    case False
    show ?thesis
    proof (cases "t < y + gi_height i")
      case True
      with False "2.prems"(2,4) show ?thesis by (auto simp: covers_line_def)
    next
      case below: False
      with False "2.prems"(3,5) have "j \<in> set (pack columns (x + gi_width i) y (max h (gi_height i)) is)" by auto
      from "2.IH"(2) [OF False rest _ this] below "2.prems"(2,4,5) False show ?thesis by auto
    qed
  qed
qed simp

lemma grid_columns_upper: "i \<in> set items \<Longrightarrow> gi_x i + gi_width i \<le> grid_columns items"
proof -
  have mono: "m \<le> foldl max m xs" for m and xs :: "int list" by (induction xs arbitrary: m) (auto intro: order_trans [OF max.cobounded1])
  have "x \<in> set xs \<Longrightarrow> x \<le> foldl max m xs" for x m and xs :: "int list"
    by (induction xs arbitrary: m) (auto intro: order_trans [OF max.cobounded2 mono])
  then show "i \<in> set items \<Longrightarrow> gi_x i + gi_width i \<le> grid_columns items" by (simp add: grid_columns_def)
qed

definition well_placed :: "grid_item \<Rightarrow> bool" where
  "well_placed i \<longleftrightarrow> 0 \<le> gi_x i \<and> 0 < gi_width i \<and> 0 < gi_height i"

text \<open>C37. A grid that loses panels is laid out again: the items left are those of panels that stay, with their sizes,
  in the reading order they had; they lie within the columns of the grid, no two overlap, and between the
  top and the end of the last item there is no line without an item. A grid that loses none stays as it is.\<close>

theorem repacked_grid:
  assumes "filter_layout keys (Grid items) = Grid items'" and "list_all well_placed items"
  shows "mset (map unplaced items') = mset (map unplaced (filter (\<lambda>i. refers_to i \<notin> keys) items)) \<and>
    (if list_all (\<lambda>i. refers_to i \<notin> keys) items then items' = items
     else (\<exists>ordered. map unplaced items' = map unplaced ordered \<and> mset ordered = mset (filter (\<lambda>i. refers_to i \<notin> keys) items) \<and>
         sorted_wrt (\<lambda>a b. \<not> reads_before b a) ordered) \<and>
       list_all (\<lambda>i. 0 \<le> gi_x i \<and> gi_x i + gi_width i \<le> grid_columns items) items' \<and>
       sorted_wrt (\<lambda>a b. \<not> overlap a b) items' \<and>
       (\<forall>t j. 0 \<le> t \<and> j \<in> set items' \<and> t < gi_y j + gi_height j \<longrightarrow> list_ex (covers_line t) items'))"
proof (cases "list_all (\<lambda>i. refers_to i \<notin> keys) items")
  case True
  then have "filter (\<lambda>i. refers_to i \<notin> keys) items = items" by (simp add: list_all_iff filter_id_conv)
  with True assms(1) show ?thesis by (simp add: filter_layout_def)
next
  case False
  let ?kept = "filter (\<lambda>i. refers_to i \<notin> keys) items" and ?c = "grid_columns items"
  have "length ?kept \<noteq> length items" using False filter_id_conv [of "\<lambda>i. refers_to i \<notin> keys" items]
    by (metis length_filter_less less_irrefl list_all_iff)
  then have items': "items' = pack ?c 0 0 0 (in_order ?kept)" using assms(1) by (simp add: filter_layout_def packItems_def)
  have same: "mset (in_order ?kept) = mset ?kept" by (rule mset_in_order)
  have "sized ?c i" if "i \<in> set items" for i
    using assms(2) grid_columns_upper [OF that] that by (auto simp: list_all_iff well_placed_def sized_def)
  moreover have "set (in_order ?kept) \<subseteq> set items" using mset_eq_setD [OF same] by auto
  ultimately have sized: "\<forall>i\<in>set (in_order ?kept). sized ?c i" by blast
  have "mset (map unplaced items') = mset (map unplaced ?kept)" unfolding items' pack_unplaced by (simp add: same)
  moreover have "map unplaced items' = map unplaced (in_order ?kept)" unfolding items' by (rule pack_unplaced)
  moreover have "list_all (\<lambda>i. 0 \<le> gi_x i \<and> gi_x i + gi_width i \<le> ?c) items'"
    unfolding items' list_all_iff using pack_bounds [OF sized, of 0 0] by blast
  moreover have "sorted_wrt (\<lambda>a b. \<not> overlap a b) items'" unfolding items' using pack_disjoint [OF sized, of 0 0] by simp
  moreover have "list_ex (covers_line t) items'" if "0 \<le> t" "j \<in> set items'" "t < gi_y j + gi_height j" for t j
    using pack_covers [OF sized, of 0 j 0 0 t] that by (simp add: items' list_ex_iff)
  moreover have "\<exists>ordered. map unplaced items' = map unplaced ordered \<and> mset ordered = mset ?kept \<and> sorted_wrt (\<lambda>a b. \<not> reads_before b a) ordered"
    using calculation(2) same in_order_sorted by blast
  ultimately show ?thesis unfolding if_not_P [OF False] by blast
qed

definition sample_item :: "int \<Rightarrow> int \<Rightarrow> string \<Rightarrow> grid_item" where
  "sample_item x y k = \<lparr>gi_x = x, gi_y = y, gi_width = 12, gi_height = 4, gi_ref = PANEL_REF_PREFIX @ k\<rparr>"

definition sample_grid :: "grid_item list" where
  "sample_grid = [sample_item 0 0 ''a'', sample_item 12 0 ''b'', sample_item 0 4 ''c'']"

theorem repacked_grid_witness:
  "filter_layout {''a''} (Grid sample_grid) = Grid [sample_item 0 0 ''b'', sample_item 12 0 ''c''] \<and>
   sorted_wrt (\<lambda>a b. \<not> overlap a b) [sample_item 0 0 ''b'', sample_item 12 0 ''c'']"
proof -
  have packed: "filter_layout {''a''} (Grid sample_grid) = Grid [sample_item 0 0 ''b'', sample_item 12 0 ''c'']"
    by (simp add: filter_layout_def sample_grid_def sample_item_def refers_to_def packItems_def in_order_def reads_before_def grid_columns_def
        COLUMNS_FALLBACK_def Let_def)
  moreover have "list_all well_placed sample_grid" "\<not> list_all (\<lambda>i. refers_to i \<notin> {''a''}) sample_grid"
    by (simp_all add: sample_grid_def sample_item_def well_placed_def refers_to_def)
  ultimately show ?thesis using repacked_grid [OF packed] by simp
qed

section \<open>The panels that are hidden\<close>

lemma map_of_add_rule:
  "k \<in> set (nullish (map_of (foldl add_rule rules ps) v) []) \<longleftrightarrow>
     k \<in> set (nullish (map_of rules v) []) \<or> (\<exists>description. (k, description) \<in> set ps \<and> panel_marker description = Some v)"
proof (induction ps arbitrary: rules)
  case (Cons p ps)
  show ?case unfolding foldl_Cons Cons.IH by (cases p) (auto simp: add_rule_def map_of_obj_set split: option.splits)
qed simp

lemma distinct_obj_set: "distinct (map fst es) \<Longrightarrow> distinct (map fst (obj_set es k v))"
proof (induction es k v rule: obj_set.induct)
  case (2 k' v' es k v)
  moreover have "fst ` set (obj_set es k v) = insert k (fst ` set es)" by (induction es k v rule: obj_set.induct) auto
  ultimately show ?case by auto
qed simp

lemma distinct_rules: "distinct (map fst (extractHideRules d))"
proof -
  have "distinct (map fst rules) \<Longrightarrow> distinct (map fst (foldl add_rule rules ps))" for rules ps
    by (induction ps arbitrary: rules) (auto simp: add_rule_def distinct_obj_set split: option.splits)
  then show ?thesis by (simp add: extractHideRules_def)
qed

lemma set_drop_keys:
  "set (drop_keys all_value d scope states) =
     {k. \<exists>description v. (k, description) \<in> set (db_panels d) \<and> panel_marker description = Some v \<and> ruleActive all_value scope states v}"
proof -
  have "k \<in> set (drop_keys all_value d scope states) \<longleftrightarrow>
      (\<exists>v. ruleActive all_value scope states v \<and> k \<in> set (nullish (map_of (extractHideRules d) v) []))" for k
  proof -
    have "(v, ks) \<in> set (extractHideRules d) \<longleftrightarrow> map_of (extractHideRules d) v = Some ks" for v ks
      using distinct_rules by (simp add: map_of_eq_Some_iff)
    then show ?thesis by (force simp: drop_keys_def nullish_def split: option.splits)
  qed
  then show ?thesis using map_of_add_rule [of _ "[]" "db_panels d"] unfolding extractHideRules_def by fastforce
qed

definition keys_well :: "dashboard \<Rightarrow> bool" where
  "keys_well d = list_all (\<lambda>p. fst p \<noteq> [] \<and> CHR '','' \<notin> set (fst p)) (db_panels d)"

definition hidden_view :: "dashboard \<Rightarrow> string \<Rightarrow> dashboard" where
  "hidden_view d signature = (if signature = [] then d else buildFilteredResource d (set (split_char CHR '','' signature)))"

lemma join_Nil_iff: "\<forall>k\<in>set ks. k \<noteq> [] \<Longrightarrow> join '','' ks = [] \<longleftrightarrow> ks = []"
  by (cases ks rule: list.exhaust; cases "tl ks") auto

lemma view_signature:
  assumes "keys_well d"
  shows "hidden_view d (hiddenSignature all_value d scope states) = buildFilteredResource d (set (drop_keys all_value d scope states))"
proof -
  let ?ks = "sort (drop_keys all_value d scope states)"
  have ks: "\<forall>k\<in>set ?ks. k \<noteq> [] \<and> CHR '','' \<notin> set k"
    using assms by (auto simp: set_drop_keys keys_well_def list_all_iff)
  show ?thesis
  proof (cases "?ks = []")
    case True
    then have "set (drop_keys all_value d scope states) = {}" by (metis set_empty set_sort)
    moreover from True have "hiddenSignature all_value d scope states = []" by (simp add: hiddenSignature_def)
    ultimately show ?thesis by (simp add: hidden_view_def buildFilteredResource_def)
  next
    case False
    then have "join '','' ?ks \<noteq> []" using ks join_Nil_iff by blast
    moreover have "split_char CHR '','' (join '','' ?ks) = ?ks" using split_char_join [OF False, of "CHR '',''"] ks by blast
    ultimately show ?thesis by (simp add: hidden_view_def hiddenSignature_def)
  qed
qed

lemma rendered:
  "rs \<noteq> [] \<Longrightarrow> ps_dashboard s = hidden_view d (ps_applied s) \<Longrightarrow>
     ps_dashboard (foldl (render all_value d) s rs) = hidden_view d (hiddenSignature all_value d (fst (last rs)) (snd (last rs)))"
proof (induction rs arbitrary: s)
  case (Cons r rs)
  have step: "ps_applied (render all_value d s r) = hiddenSignature all_value d (fst r) (snd r)"
    "ps_dashboard (render all_value d s r) = hidden_view d (hiddenSignature all_value d (fst r) (snd r))"
    using Cons.prems(2) by (auto simp: render_def apply_signature_def hidden_view_def)
  show ?case
  proof (cases "rs = []")
    case True
    with step show ?thesis by simp
  next
    case False
    from Cons.IH [OF this, of "render all_value d s r"] step False show ?thesis by simp
  qed
qed simp

lemma ruleActive_iff:
  "ruleActive all_value scope states v \<longleftrightarrow>
     scope = Some v \<or> (\<exists>s value. map_of states v = Some s \<and> \<not> va_loading s \<and> va_value s = Some value \<and> value \<notin> {[], all_value})"
proof (cases "map_of states v")
  case (Some s)
  then show ?thesis by (cases "va_value s") (auto simp: ruleActive_def isSpecificValue_def truthy_def)
qed (simp add: ruleActive_def)

lemma packed_refers: "refers_to ` set (packItems items c) = refers_to ` set items"
proof -
  have "map refers_to (packItems items c) = map refers_to (in_order items)" by (simp add: packItems_def pack_refers)
  then have "refers_to ` set (packItems items c) = refers_to ` set (in_order items)" by (metis list.set_map)
  then show ?thesis by (simp add: mset_eq_setD [OF mset_in_order])
qed

lemma kept_all: "length (filter P xs) = length xs \<Longrightarrow> list_all P xs"
proof (induction xs)
  case (Cons x xs)
  then show ?case using length_filter_le [of P xs] by (cases "P x") simp_all
qed simp

lemma filtered_grid: "case filter_layout keys l of Grid items \<Rightarrow> list_all (\<lambda>i. refers_to i \<notin> keys) items | _ \<Rightarrow> True"
proof (cases l)
  case (Grid items)
  let ?kept = "filter (\<lambda>i. refers_to i \<notin> keys) items"
  have "list_all (\<lambda>i. refers_to i \<notin> keys) (packItems ?kept c)" for c
    unfolding list_all_iff
  proof
    fix i assume "i \<in> set (packItems ?kept c)"
    then have "refers_to i \<in> refers_to ` set ?kept" unfolding packed_refers [of ?kept c, symmetric] by (rule imageI)
    then show "refers_to i \<notin> keys" by auto
  qed
  then show ?thesis using kept_all [of "\<lambda>i. refers_to i \<notin> keys" items] by (simp add: Grid filter_layout_def Let_def)
qed (simp add: filter_layout_def)

text \<open>C36. Whatever was shown before, after a change of the variables or of the scope the page shows the dashboard without
  exactly the panels that carry the marker of a variable which is in scope, or set to one value and loaded;
  no grid refers to a hidden panel. Without such a panel it shows the dashboard as it is.\<close>

theorem hidden_panels:
  assumes "rs \<noteq> []" and "last rs = (scope, states)" and "keys_well d"
  shows "let hidden = {k. \<exists>description v. (k, description) \<in> set (db_panels d) \<and> panel_marker description = Some v \<and>
        (scope = Some v \<or> (\<exists>s value. map_of states v = Some s \<and> \<not> va_loading s \<and> va_value s = Some value \<and> value \<notin> {[], all_value}))};
      shown = ps_dashboard (foldl (render all_value d) (mounted d) rs)
    in shown = buildFilteredResource d hidden \<and> db_panels shown = filter (\<lambda>p. fst p \<notin> hidden) (db_panels d) \<and>
       (hidden = {} \<longrightarrow> shown = d) \<and> list_all (\<lambda>l. case l of Grid items \<Rightarrow> list_all (\<lambda>i. refers_to i \<notin> hidden) items | _ \<Rightarrow> True) (db_layouts shown)"
proof -
  let ?hidden = "set (drop_keys all_value d scope states)" and ?shown = "ps_dashboard (foldl (render all_value d) (mounted d) rs)"
  have hidden: "?hidden = {k. \<exists>description v. (k, description) \<in> set (db_panels d) \<and> panel_marker description = Some v \<and>
      (scope = Some v \<or> (\<exists>s value. map_of states v = Some s \<and> \<not> va_loading s \<and> va_value s = Some value \<and> value \<notin> {[], all_value}))}"
    unfolding set_drop_keys ruleActive_iff ..
  have shown: "?shown = buildFilteredResource d ?hidden"
    using rendered [OF assms(1), of "mounted d" d all_value] view_signature [OF assms(3)] assms(2)
    by (simp add: mounted_def hidden_view_def)
  have layouts: "list_all (\<lambda>l. case l of Grid items \<Rightarrow> list_all (\<lambda>i. refers_to i \<notin> ?hidden) items | _ \<Rightarrow> True) (db_layouts ?shown)"
  proof (cases "?hidden = {}")
    case True
    then show ?thesis by (simp add: shown list_all_iff split: layout.split)
  next
    case False
    then have "db_layouts ?shown = map (filter_layout ?hidden) (db_layouts d)" by (simp add: shown buildFilteredResource_def)
    then show ?thesis using filtered_grid by (simp add: list_all_iff)
  qed
  have "db_panels ?shown = filter (\<lambda>p. fst p \<notin> ?hidden) (db_panels d)" "?hidden = {} \<longrightarrow> ?shown = d"
    by (simp_all add: shown buildFilteredResource_def)
  then show ?thesis unfolding Let_def hidden [symmetric] using shown layouts by blast
qed

definition sample_dashboard :: dashboard where
  "sample_dashboard =
     \<lparr>db_panels = [(''a'', Some ''@hide-when-specific:gpu''), (''b'', None), (''c'', Some ''GPU'')], db_layouts = [Grid sample_grid]\<rparr>"

lemma sample_marker:
  "panel_marker (Some ''@hide-when-specific:gpu'') = Some ''gpu''" "panel_marker (Some ''GPU'') = None" "panel_marker None = None"
proof -
  show "panel_marker (Some ''@hide-when-specific:gpu'') = Some ''gpu''"
    unfolding panel_marker_def nullish_simps hide_marker.simps(2) by (simp add: HIDE_TAG_def ident_start_def ident_char_def between_def digit_def Let_def)
  show "panel_marker (Some ''GPU'') = None" "panel_marker None = None"
    by (simp_all add: panel_marker_def HIDE_TAG_def)
qed

theorem hidden_panels_witness:
  "db_panels (ps_dashboard (foldl (render ''$__all'' sample_dashboard) (mounted sample_dashboard)
     [(None, []), (None, [(''gpu'', \<lparr>va_loading = False, va_value = Some ''gpu0''\<rparr>)])])) = [(''b'', None), (''c'', Some ''GPU'')]"
proof -
  let ?states = "[(''gpu'', \<lparr>va_loading = False, va_value = Some ''gpu0''\<rparr>)]" and ?d = sample_dashboard
  have "keys_well ?d" by (simp add: keys_well_def sample_dashboard_def)
  have hidden: "{k. \<exists>description v. (k, description) \<in> set (db_panels ?d) \<and> panel_marker description = Some v \<and>
      (None = Some v \<or> (\<exists>s value. map_of ?states v = Some s \<and> \<not> va_loading s \<and> va_value s = Some value \<and> value \<notin> {[], ''$__all''}))} = {''a''}"
    by (auto simp: sample_dashboard_def sample_marker)
  have "[(None, []), (None, ?states)] \<noteq> []" "last [(None, []), (None, ?states)] = (None, ?states)" by simp_all
  note shown = hidden_panels [OF this \<open>keys_well ?d\<close>, of "''$__all''", unfolded Let_def hidden]
  have "db_panels (ps_dashboard (foldl (render ''$__all'' ?d) (mounted ?d) [(None, []), (None, ?states)])) =
      filter (\<lambda>p. fst p \<notin> {''a''}) (db_panels ?d)"
    using shown by (elim conjE)
  also have "\<dots> = [(''b'', None), (''c'', Some ''GPU'')]" by (simp add: sample_dashboard_def)
  finally show ?thesis .
qed

end
