(* ===== verification/Proxies.thy ===== *)
theory Proxies
  imports Gateway Pilot_Path Task_Crd Dev_Env
begin

text \<open>
  The routes that forward a request: to the agent API (\<open>lib/cubepilot/pilotapi.ts\<close>,
  \<open>app/api/cubepilot/pilot/[...path]/route.ts\<close>), to the Perses server (\<open>app/api/perses/[...path]/route.ts\<close>) and to
  the model gateways (the playground's \<open>chat/route.ts\<close> and \<open>services/route.ts\<close>). A route is a function to its
  response and the requests it sends. \<open>send\<close> is the answer of the other side, none when it cannot be
  reached; of the texts of exceptions the answers keep the fixed part. The theorems say for whom, where to and
  with what a request is sent.
\<close>

section \<open>The agent API\<close>

record upstream_request =
  ur_method :: string
  ur_url :: string
  ur_headers :: "(string \<times> string) list"
  ur_body :: "string option"

record upstream_answer =
  ua_status :: nat
  ua_type :: "string option"
  ua_body :: string

datatype proxy_body = ProxyError string | Forwarded string string

definition PILOT_SERVICE_NAME :: string where
  "PILOT_SERVICE_NAME = ''cubepilot-api''"

definition PILOT_PORT :: nat where
  "PILOT_PORT = 8080"

definition defaultPilotBase :: "env \<Rightarrow> string" where
  "defaultPilotBase env = ''http://'' @ PILOT_SERVICE_NAME @ ''.'' @ tasksNamespace env @ ''.svc:'' @ nat_to_string PILOT_PORT"

definition resolvePilotBase :: "env \<Rightarrow> string option" where
  "resolvePilotBase env =
     (let configured = trim (nullish (env ''CUBESTACK_PILOT_URL'') [])
      in if configured \<noteq> [] then Some (strip_trailing CHR ''/'' configured)
         else if inCluster env then Some (defaultPilotBase env) else None)"

text \<open>An address of slashes only is resolved to the empty text, which the callers take for none.\<close>

definition pilot_base :: "env \<Rightarrow> string option" where
  "pilot_base env = (if truthy (resolvePilotBase env) then resolvePilotBase env else None)"

definition pilotFetch :: "env \<Rightarrow> string \<Rightarrow> string \<Rightarrow> string \<Rightarrow> string option \<Rightarrow> upstream_request option" where
  "pilotFetch env path user method body =
     (case pilot_base env of
        None \<Rightarrow> None
      | Some base \<Rightarrow> Some
          \<lparr>ur_method = method, ur_url = base @ path,
           ur_headers = (''X-CubePilot-User'', user) # (if body \<noteq> None then [(''Content-Type'', ''application/json'')] else []),
           ur_body = body\<rparr>)"

definition event_stream :: "upstream_answer \<Rightarrow> bool" where
  "event_stream a \<longleftrightarrow> sublist ''text/event-stream'' (nullish (ua_type a) [])"

definition pilot_forward :: "upstream_answer \<Rightarrow> proxy_body response" where
  "pilot_forward a =
     answer (ua_status a)
       (Forwarded (if event_stream a then ''text/event-stream'' else nullish (ua_type a) ''application/json'') (ua_body a))"

definition pilot_proxy ::
    "env \<Rightarrow> (upstream_request \<Rightarrow> upstream_answer option) \<Rightarrow> string \<Rightarrow> string \<Rightarrow> string \<Rightarrow> string \<Rightarrow>
     proxy_body response \<times> upstream_request list" where
  "pilot_proxy env send method text user path =
     (case pilotFetch env path user method (if method = ''POST'' then Some text else None) of
        None \<Rightarrow> (answer 503 (ProxyError ''CubePilot agent API not found: set CUBESTACK_PILOT_URL (or run the portal in-cluster)''), [])
      | Some r \<Rightarrow> ((case send r of None \<Rightarrow> answer 502 (ProxyError ''agent API unreachable'') | Some a \<Rightarrow> pilot_forward a), [r]))"

text \<open>The three methods of the route; \<open>text\<close> is the body of the request.\<close>

definition pilot_route ::
    "(session_key, string) verifier \<Rightarrow> env \<Rightarrow> int \<Rightarrow> (upstream_request \<Rightarrow> upstream_answer option) \<Rightarrow> string list \<Rightarrow> string \<Rightarrow> request \<Rightarrow>
     proxy_body response \<times> upstream_request list" where
  "pilot_route verify env now send segments text =
     withAuth verify env now (ProxyError ''unauthorized'') (\<lambda>req session.
       case upstreamPath (r_method req) segments of
         None \<Rightarrow> (answer 404 (ProxyError ''not found''), [])
       | Some path \<Rightarrow> pilot_proxy env send (r_method req) text (s_user session) path)"

section \<open>The Perses server\<close>

definition PERSES_SERVER_URL :: "env \<Rightarrow> string" where
  "PERSES_SERVER_URL env = nullish (env ''PERSES_SERVER_URL'') ''http://localhost:8080''"

definition resolveProjectPath :: "string option \<Rightarrow> string list \<Rightarrow> string list" where
  "resolveProjectPath prj path =
     (if \<not> truthy prj then path
      else if 3 < length path \<and> take 3 path = [''api'', ''v1'', ''projects''] then take 3 path @ [the prj] @ drop 4 path
      else if 2 < length path \<and> take 2 path = [''proxy'', ''projects''] then take 2 path @ [the prj] @ drop 3 path
      else path)"

definition isDatasourceQuery :: "string list \<Rightarrow> bool" where
  "isDatasourceQuery path \<longleftrightarrow> nth_opt path 0 = Some ''proxy''"

definition passed_headers :: "(string \<Rightarrow> string option) \<Rightarrow> (string \<times> string) list" where
  "passed_headers headers =
     concat (map (\<lambda>n. if truthy (headers n) then [(n, the (headers n))] else []) [''accept'', ''content-type''])"

definition perses_proxy ::
    "env \<Rightarrow> (upstream_request \<Rightarrow> upstream_answer option) \<Rightarrow> string list \<Rightarrow> string \<Rightarrow> request \<Rightarrow>
     proxy_body response \<times> upstream_request list" where
  "perses_proxy env send path text req =
     (if r_method req = ''POST'' \<and> \<not> isDatasourceQuery path then (answer 405 (ProxyError ''Method not allowed''), [])
      else
        (let r = \<lparr>ur_method = r_method req,
              ur_url = PERSES_SERVER_URL env @ ''/'' @ join ''/'' (resolveProjectPath (env ''PERSES_PROJECT'') path) @ r_search req,
              ur_headers = passed_headers (r_headers req), ur_body = (if r_method req \<in> {''GET'', ''HEAD''} then None else Some text)\<rparr>
         in ((case send r of
                None \<Rightarrow> answer 502 (ProxyError ''Failed to reach the Perses server'')
              | Some a \<Rightarrow> answer (ua_status a) (Forwarded (nullish (ua_type a) ''application/json'') (ua_body a))), [r])))"

definition perses_route ::
    "(session_key, string) verifier \<Rightarrow> env \<Rightarrow> int \<Rightarrow> (upstream_request \<Rightarrow> upstream_answer option) \<Rightarrow> string list \<Rightarrow> string \<Rightarrow> request \<Rightarrow> proxy_body response \<times> upstream_request list" where
  "perses_route verify env now send path text =
     withAuth verify env now (ProxyError ''unauthorized'') (\<lambda>req _. perses_proxy env send path text req)"

section \<open>The playground\<close>

text \<open>The fields of the body: a model that is a text, is absent, or is something else; messages with role and
  content if those are texts; numbers if they are numbers.\<close>

datatype text_field = NoText | Text string | OtherValue

record chat_message =
  cm_role :: string
  cm_content :: string

record chat_body =
  pc_model :: text_field
  pc_messages :: "(string option \<times> string option) option list option"
  pc_temperature :: "rat option"
  pc_topP :: "rat option"
  pc_maxTokens :: "rat option"

record chat_payload =
  cp_model :: string
  cp_messages :: "chat_message list"
  cp_temperature :: "rat option"
  cp_top_p :: "rat option"
  cp_max_tokens :: "rat option"

definition valid_message :: "(string option \<times> string option) option \<Rightarrow> chat_message list" where
  "valid_message m =
     (case m of
        Some (Some role, Some content) \<Rightarrow>
          (if (role = ''user'' \<or> role = ''assistant'') \<and> trim content \<noteq> [] then [\<lparr>cm_role = role, cm_content = content\<rparr>] else [])
      | _ \<Rightarrow> [])"

definition parse_chat :: "chat_body option \<Rightarrow> string + chat_payload" where
  "parse_chat body =
     (case body of
        None \<Rightarrow> Inl ''invalid JSON body''
      | Some b \<Rightarrow>
          (case pc_model b of
             OtherValue \<Rightarrow> Inl ''invalid JSON body''
           | f \<Rightarrow>
               (let model = trim (case f of Text s \<Rightarrow> s | _ \<Rightarrow> []); messages = concat (map valid_message (nullish (pc_messages b) []))
                in if model = [] then Inl ''model is required''
                   else if messages = [] then Inl ''messages is required''
                   else Inr \<lparr>cp_model = model, cp_messages = messages, cp_temperature = pc_temperature b, cp_top_p = pc_topP b,
                     cp_max_tokens = (case pc_maxTokens b of Some n \<Rightarrow> (if is_integer n \<and> 0 < n then Some n else None) | None \<Rightarrow> None)\<rparr>)))"

datatype chat_answer = ChatError string | ChatStream string

definition chat_POST ::
    "env \<Rightarrow> (outgoing \<Rightarrow> models_answer) \<Rightarrow> gateway_base list \<Rightarrow> int \<Rightarrow> gateway_state \<Rightarrow> (outgoing \<Rightarrow> chat_payload \<Rightarrow> upstream_answer option) \<Rightarrow>
     chat_body option \<Rightarrow> chat_answer response \<times> (outgoing \<times> chat_payload) list" where
  "chat_POST env reply discovered now st send body =
     (case parse_chat body of
        Inl e \<Rightarrow> (answer 400 (ChatError e), [])
      | Inr payload \<Rightarrow>
          (case fst (gatewayFetchForModel env reply discovered now st (cp_model payload) ''/v1/chat/completions''
               [(''Content-Type'', ''application/json'')]) of
             None \<Rightarrow> (answer 502 (ChatError ''no gateway''), [])
           | Some (Inl _) \<Rightarrow> (answer 502 (ChatError ''refused''), [])
           | Some (Inr r) \<Rightarrow>
               ((case send r payload of
                   None \<Rightarrow> answer 502 (ChatError ''unreachable'')
                 | Some a \<Rightarrow>
                     (if ua_status a < 200 \<or> 299 < ua_status a
                      then answer 502 (ChatError (''gateway returned HTTP '' @ nat_to_string (ua_status a) @
                        (let detail = take 300 (ua_body a) in if detail \<noteq> [] then '': '' @ detail else [])))
                      else answer 200 (ChatStream (ua_body a)))), [(r, payload)])))"

record services_answer =
  sa_models :: "gateway_model list"
  sa_endpoint :: "string option"
  sa_error :: "string option"

definition NO_CATALOG :: string where
  "NO_CATALOG = ''model catalog unavailable''"

definition services_GET ::
    "env \<Rightarrow> (outgoing \<Rightarrow> models_answer) \<Rightarrow> gateway_base list \<Rightarrow> int \<Rightarrow> gateway_state \<Rightarrow> services_answer response" where
  "services_GET env reply discovered now st =
     (case resolveGatewayBase env discovered now st of
        None \<Rightarrow> answer 503 \<lparr>sa_models = [], sa_endpoint = None, sa_error = Some NO_CATALOG\<rparr>
      | Some base \<Rightarrow>
          (case fst (gatewayCatalog env reply discovered now st) of
             None \<Rightarrow> answer 502 \<lparr>sa_models = [], sa_endpoint = None, sa_error = Some NO_CATALOG\<rparr>
           | Some models \<Rightarrow> answer 200
               \<lparr>sa_models = models, sa_endpoint = (if gw_via base = Direct then Some (gw_url base) else None), sa_error = None\<rparr>))"

section \<open>For whom and where to\<close>

lemma withAuth_effects:
  assumes "x \<in> set (snd (withAuth verify env now unauthorized handler req))"
  obtains token session where "r_cookies req (sessionCookieName env) = Some token"
    and "verifySession verify env now token = Inr (Some session)" and "x \<in> set (snd (handler req session))"
  using assms by (auto simp: withAuth_def split: option.splits if_splits sum.splits)

text \<open>C18. A request reaches the agent API only for the user of a valid session, under that user's name: the
  identity is the session's and the only one sent, nothing of the caller's headers is, the address is that
  of the agent API followed by the path the request names, which is one of the allowed ones, and the body
  is sent with POST only. At most one request is sent.\<close>

theorem pilot_identity:
  assumes "r \<in> set (snd (pilot_route verify env now send segments text req))"
  shows "\<exists>token session base path.
    r_cookies req (sessionCookieName env) = Some token \<and> verifySession verify env now token = Inr (Some session) \<and>
    filter (\<lambda>h. fst h = ''X-CubePilot-User'') (ur_headers r) = [(''X-CubePilot-User'', s_user session)] \<and>
    fst ` set (ur_headers r) \<subseteq> {''X-CubePilot-User'', ''Content-Type''} \<and>
    resolvePilotBase env = Some base \<and> base \<noteq> [] \<and> upstreamPath (r_method req) segments = Some path \<and> ur_url r = base @ path \<and>
    ur_method r = r_method req \<and> (ur_body r = (if r_method req = ''POST'' then Some text else None)) \<and>
    snd (pilot_route verify env now send segments text req) = [r]"
proof -
  obtain token session where s: "r_cookies req (sessionCookieName env) = Some token" "verifySession verify env now token = Inr (Some session)"
    and r: "r \<in> set (snd (case upstreamPath (r_method req) segments of
         None \<Rightarrow> (answer 404 (ProxyError ''not found''), [])
       | Some path \<Rightarrow> pilot_proxy env send (r_method req) text (s_user session) path))"
    using assms unfolding pilot_route_def by (rule withAuth_effects)
  from r obtain path where p: "upstreamPath (r_method req) segments = Some path"
    "r \<in> set (snd (pilot_proxy env send (r_method req) text (s_user session) path))" by (auto split: option.splits)
  then obtain base where base: "pilot_base env = Some base" by (auto simp: pilot_proxy_def pilotFetch_def split: option.splits)
  then have "resolvePilotBase env = Some base" "base \<noteq> []" by (auto simp: pilot_base_def truthy_def split: if_splits option.splits)
  moreover have "token \<noteq> []" using assms s(1) by (auto simp: pilot_route_def withAuth_def split: if_splits)
  then have "snd (pilot_route verify env now send segments text req) = snd (pilot_proxy env send (r_method req) text (s_user session) path)"
    using s p(1) by (simp add: pilot_route_def withAuth_def)
  ultimately show ?thesis using s p base by (auto simp: pilot_proxy_def pilotFetch_def)
qed

text \<open>What a URL parser makes of the segments of a path: a dot is dropped, two dots take back the segment before.\<close>

definition walk :: "string list \<Rightarrow> string \<Rightarrow> string list" where
  "walk acc s = (if s = ''.'' then acc else if s = ''..'' then butlast acc else acc @ [s])"

definition reached :: "string list \<Rightarrow> string list" where
  "reached path = foldl walk [] (split_char CHR ''/'' (join ''/'' path))"

definition plain_segment :: "string \<Rightarrow> bool" where
  "plain_segment s \<longleftrightarrow> CHR ''/'' \<notin> set s \<and> \<not> dot_segment s"

lemma reached_plain:
  assumes "path \<noteq> []" and "list_all plain_segment path"
  shows "reached path = path"
proof -
  have "split_char CHR ''/'' (join ''/'' path) = path" using assms by (intro split_char_join) (auto simp: list_all_iff plain_segment_def)
  moreover have "foldl walk acc path = acc @ path" for acc using assms(2)
    by (induction path arbitrary: acc) (auto simp: walk_def plain_segment_def dot_segment_def)
  ultimately show ?thesis by (simp add: reached_def)
qed

lemma resolveProjectPath_cases:
  obtains "resolveProjectPath prj path = path"
  | i where "truthy prj" and "resolveProjectPath prj path = path[i := the prj]" and "i = 2 \<or> i = 3"
proof (cases "resolveProjectPath prj path = path")
  case False
  then have "truthy prj" by (auto simp: resolveProjectPath_def split: if_splits)
  moreover have "resolveProjectPath prj path = path[3 := the prj] \<or> resolveProjectPath prj path = path[2 := the prj]"
    using False by (auto simp: resolveProjectPath_def upd_conv_take_nth_drop eval_nat_numeral split: if_splits)
  ultimately show thesis using that(2) by blast
qed (use that in simp)

lemma resolveProjectPath_shape:
  shows "length (resolveProjectPath prj path) = length path" and "nth_opt (resolveProjectPath prj path) 0 = nth_opt path 0"
    and "i < length path \<Longrightarrow> resolveProjectPath prj path ! i = path ! i \<or> (i = 2 \<or> i = 3) \<and> prj = Some (resolveProjectPath prj path ! i)"
proof -
  consider "resolveProjectPath prj path = path" | j p where "prj = Some p" "resolveProjectPath prj path = path[j := p]" "j = 2 \<or> j = 3"
    by (rule resolveProjectPath_cases [of prj path]) (auto elim: truthyE)
  then have "length (resolveProjectPath prj path) = length path \<and> nth_opt (resolveProjectPath prj path) 0 = nth_opt path 0 \<and>
    (i < length path \<longrightarrow> resolveProjectPath prj path ! i = path ! i \<or> (i = 2 \<or> i = 3) \<and> prj = Some (resolveProjectPath prj path ! i))"
  proof cases
    case (2 j p)
    then show ?thesis by (cases "i = j") (auto simp: nth_opt_def)
  qed simp
  then show "length (resolveProjectPath prj path) = length path" "nth_opt (resolveProjectPath prj path) 0 = nth_opt path 0"
    "i < length path \<Longrightarrow> resolveProjectPath prj path ! i = path ! i \<or> (i = 2 \<or> i = 3) \<and> prj = Some (resolveProjectPath prj path ! i)" by blast+
qed


text \<open>A segment with a slash, which a percent-encoded one decodes to, takes a POST out of \<open>proxy\<close>.\<close>

lemma perses_post_escapes:
  "isDatasourceQuery [''proxy'', ''../api/v1/projects''] \<and> reached [''proxy'', ''../api/v1/projects''] = [''api'', ''v1'', ''projects'']"
  by (simp add: isDatasourceQuery_def nth_opt_def reached_def walk_def)

text \<open>The playground asks a gateway only for a chat that makes sense, and passes on only what a gateway answered with
  success: what is sent has a model that is not blank, and exactly the messages of the request, in their
  order, that are the user's or the assistant's and not blank, of which there is one; a limit of tokens is
  a positive integer. A request refused as malformed sends nothing, and none sends two.\<close>

theorem chat_request_checked:
  assumes "chat_POST env reply discovered now st send body = (res, sent)"
  shows "length sent \<le> 1 \<and> (res_status res = Status 400 \<longleftrightarrow> (\<exists>e. parse_chat body = Inl e)) \<and> (res_status res = Status 400 \<longrightarrow> sent = []) \<and>
    (\<forall>r p. (r, p) \<in> set sent \<longrightarrow>
       endsWith (og_url r) ''/v1/chat/completions'' \<and> cp_model p \<noteq> [] \<and> trim (cp_model p) = cp_model p \<and> cp_messages p \<noteq> [] \<and>
       (\<exists>b. body = Some b \<and> pc_model b \<noteq> OtherValue \<and> subseq (map (\<lambda>m. Some (Some (cm_role m), Some (cm_content m))) (cp_messages p)) (nullish (pc_messages b) [])) \<and>
       list_all (\<lambda>m. cm_role m \<in> {''user'', ''assistant''} \<and> trim (cm_content m) \<noteq> []) (cp_messages p) \<and>
       (\<forall>n. cp_max_tokens p = Some n \<longrightarrow> is_integer n \<and> 0 < n)) \<and>
    (\<forall>text. res_body res = ChatStream text \<longrightarrow>
       (\<exists>r p a. sent = [(r, p)] \<and> send r p = Some a \<and> 200 \<le> ua_status a \<and> ua_status a \<le> 299 \<and> text = ua_body a))"
proof (cases "parse_chat body")
  case (Inl e)
  then show ?thesis using assms by (auto simp: chat_POST_def answer_def)
next
  case (Inr payload)
  let ?fetched = "fst (gatewayFetchForModel env reply discovered now st (cp_model payload) ''/v1/chat/completions''
    [(''Content-Type'', ''application/json'')])"
  obtain b where b: "body = Some b" "pc_model b \<noteq> OtherValue" using Inr by (auto simp: parse_chat_def split: option.splits text_field.splits)
  then have p: "payload = \<lparr>cp_model = trim (case pc_model b of Text s \<Rightarrow> s | _ \<Rightarrow> []), cp_messages = concat (map valid_message (nullish (pc_messages b) [])),
      cp_temperature = pc_temperature b, cp_top_p = pc_topP b,
      cp_max_tokens = (case pc_maxTokens b of Some n \<Rightarrow> (if is_integer n \<and> 0 < n then Some n else None) | None \<Rightarrow> None)\<rparr>"
    "cp_model payload \<noteq> []" "cp_messages payload \<noteq> []"
    using Inr by (cases "pc_model b"; auto simp: parse_chat_def Let_def split: if_splits)+
  have messages: "subseq (map (\<lambda>m. Some (Some (cm_role m), Some (cm_content m))) (concat (map valid_message ms))) ms \<and>
      list_all (\<lambda>m. cm_role m \<in> {''user'', ''assistant''} \<and> trim (cm_content m) \<noteq> []) (concat (map valid_message ms))" for ms
    by (induction ms) (auto simp: valid_message_def split: option.splits)
  have "\<forall>n. cp_max_tokens payload = Some n \<longrightarrow> is_integer n \<and> 0 < n" by (auto simp: p(1) split: option.splits if_splits)
  moreover have "trim (cp_model payload) = cp_model payload" by (simp add: p(1))
  moreover have "endsWith (og_url r) path" if "fst (gatewayFetchForModel env reply discovered now st m path hs) = Some (Inr r)" for r m path hs
    using that by (auto simp: gatewayFetchForModel_def fetchAtBase_def suffix_def split: prod.splits option.splits if_splits)
  ultimately have good: "endsWith (og_url r) ''/v1/chat/completions'' \<and> cp_model payload \<noteq> [] \<and> trim (cp_model payload) = cp_model payload \<and> cp_messages payload \<noteq> [] \<and>
      (\<exists>b. body = Some b \<and> pc_model b \<noteq> OtherValue \<and> subseq (map (\<lambda>m. Some (Some (cm_role m), Some (cm_content m))) (cp_messages payload)) (nullish (pc_messages b) [])) \<and>
      list_all (\<lambda>m. cm_role m \<in> {''user'', ''assistant''} \<and> trim (cm_content m) \<noteq> []) (cp_messages payload) \<and>
      (\<forall>n. cp_max_tokens payload = Some n \<longrightarrow> is_integer n \<and> 0 < n)"
    if "?fetched = Some (Inr r)" for r
    using that b p(2,3) messages [of "nullish (pc_messages b) []"] by (simp add: p(1))
  consider (none) "sent = []" "res_status res = Status 502" "\<exists>e. res_body res = ChatError e"
    | (sent) r where "?fetched = Some (Inr r)" "sent = [(r, payload)]"
        "res = (case send r payload of None \<Rightarrow> answer 502 (ChatError ''unreachable'')
          | Some a \<Rightarrow> (if ua_status a < 200 \<or> 299 < ua_status a
              then answer 502 (ChatError (''gateway returned HTTP '' @ nat_to_string (ua_status a) @
                (let detail = take 300 (ua_body a) in if detail \<noteq> [] then '': '' @ detail else [])))
              else answer 200 (ChatStream (ua_body a))))"
    using assms Inr by (cases ?fetched; cases "the ?fetched") (auto simp: chat_POST_def answer_def)
  then show ?thesis
  proof cases
    case none
    then show ?thesis using Inr by auto
  next
    case sent
    then have "res_status res \<noteq> Status 400" by (auto simp: answer_def split: option.splits)
    moreover have "\<exists>a. send r payload = Some a \<and> 200 \<le> ua_status a \<and> ua_status a \<le> 299 \<and> body_text = ua_body a" if "res_body res = ChatStream body_text" for body_text
      using that sent(3) by (auto simp: answer_def split: option.splits if_splits)
    ultimately show ?thesis using good [OF sent(1)] sent(2) Inr by simp
  qed
qed

definition sample_proxy_env :: env where
  "sample_proxy_env k = (if k = ''CUBESTACK_PILOT_URL'' then Some ''http://p/'' else if k = ''PERSES_PROJECT'' then Some ''prod'' else None)"

definition open_verify :: "(session_key, string) verifier" where
  "open_verify key token now = Some \<lparr>sub = Some ''ann'', iat = Some 0, expires = Some 10\<rparr>"

definition sample_forward :: "string \<Rightarrow> request" where
  "sample_forward m = (sample_request [''cubestack-session'' \<mapsto> ''t''])\<lparr>r_method := m, r_search := []\<rparr>"

lemma sample_session: "withAuth open_verify sample_proxy_env 0 u h (sample_forward m) = h (sample_forward m) \<lparr>s_user = ''ann'', s_iat = 0, s_exp = 10000\<rparr>"
  by (simp add: withAuth_def verifySession_def open_verify_def sample_forward_def sample_request_def sessionCookieName_def sessionSecret_def sample_proxy_env_def)

definition sample_pilot :: upstream_request where
  "sample_pilot =
     \<lparr>ur_method = ''POST'', ur_url = ''http://p/api/v1/sessions/k/abort'',
      ur_headers = [(''X-CubePilot-User'', ''ann''), (''Content-Type'', ''application/json'')], ur_body = Some ''{}''\<rparr>"

theorem pilot_identity_witness:
  "snd (pilot_route open_verify sample_proxy_env 0 (\<lambda>_. None) [''api'', ''v1'', ''sessions'', ''k'', ''abort''] ''{}'' (sample_forward ''POST'')) = [sample_pilot] \<and>
   filter (\<lambda>h. fst h = ''X-CubePilot-User'') (ur_headers sample_pilot) = [(''X-CubePilot-User'', ''ann'')]"
proof -
  let ?out = "snd (pilot_route open_verify sample_proxy_env 0 (\<lambda>_. None) [''api'', ''v1'', ''sessions'', ''k'', ''abort''] ''{}'' (sample_forward ''POST''))"
  have path: "upstreamPath ''POST'' [''api'', ''v1'', ''sessions'', ''k'', ''abort''] = Some ''/api/v1/sessions/k/abort''" by code_simp
  have base: "pilot_base sample_proxy_env = Some ''http://p''" unfolding sample_proxy_env_def pilot_base_def by code_simp
  have out: "?out = [sample_pilot]"
    by (simp add: pilot_route_def sample_session) (simp add: sample_forward_def path pilot_proxy_def pilotFetch_def base sample_pilot_def)
  then have "sample_pilot \<in> set ?out" by simp
  from pilot_identity [OF this] out show ?thesis
    by (auto simp: verifySession_def open_verify_def sample_forward_def sessionSecret_def sample_proxy_env_def)
qed


definition sample_chat :: chat_body where
  "sample_chat =
     \<lparr>pc_model = Text '' m '', pc_messages = Some [Some (Some ''user'', Some ''hi''), Some (Some ''system'', Some ''x''), None],
      pc_temperature = None, pc_topP = None, pc_maxTokens = Some 0\<rparr>"

theorem chat_request_checked_witness:
  "\<exists>r p. snd (chat_POST (\<lambda>_. None) (\<lambda>_. None) [sample_base ''http://a''] 0 clearGatewayCaches (\<lambda>_ _. None) (Some sample_chat)) = [(r, p)] \<and>
     cp_messages p = [\<lparr>cm_role = ''user'', cm_content = ''hi''\<rparr>] \<and> endsWith (og_url r) ''/v1/chat/completions''"
proof -
  let ?post = "chat_POST (\<lambda>_. None) (\<lambda>_. None) [sample_base ''http://a''] 0 clearGatewayCaches (\<lambda>_ _. None) (Some sample_chat)"
  let ?p = "\<lparr>cp_model = ''m'', cp_messages = [\<lparr>cm_role = ''user'', cm_content = ''hi''\<rparr>], cp_temperature = None, cp_top_p = None, cp_max_tokens = None\<rparr>"
  have trims: "trim '' m '' = ''m''" "trim ''hi'' = ''hi''" by code_simp+
  have parsed: "parse_chat (Some sample_chat) = Inr ?p"
    by (simp add: parse_chat_def sample_chat_def valid_message_def trims)
  have "\<exists>r. fst (gatewayFetchForModel (\<lambda>_. None) (\<lambda>_. None) [sample_base ''http://a''] 0 clearGatewayCaches ''m'' ''/v1/chat/completions''
      [(''Content-Type'', ''application/json'')]) = Some (Inr r)"
    unfolding clearGatewayCaches_def sample_base_def by (rule exI) code_simp
  then obtain r where "snd ?post = [(r, ?p)]" by (auto simp: chat_POST_def parsed)
  then show ?thesis using chat_request_checked [of "\<lambda>_. None" "\<lambda>_. None" "[sample_base ''http://a'']" 0 clearGatewayCaches "\<lambda>_ _. None" "Some sample_chat" "fst ?post" "snd ?post"]
    by (simp add: prod_eq_iff) 
qed

end
