(* ===== verification/Spec2Isabelle.thy ===== *)
theory Spec2Isabelle
  imports Agent_Cards Cron Llm Allowlist Pilot_Path Task_Crd Dev_Env_Api Gateway Inference_Api Agent_Api Agent_Models Overview Instance_Poll Deploy_Inputs Panels Proxies
begin

text \<open>
  Verification of the CubeStack portal: the logic of the web application under \<open>src/web\<close> that runs on
  its server, the model of an assistant conversation that its chat pages share, and the forms of its pages
  that create and change what the server writes.

  \<^bold>\<open>The program.\<close> The portal is a set of HTTP handlers (\<open>app/api/**/route.ts\<close>) over libraries
  (\<open>lib\<close>). Every handler but login and logout runs behind a guard that reads a signed session cookie.
  A handler checks its request, reads and writes custom resources through the Kubernetes API, and
  answers JSON. The assistant's service is reached through a proxy that keeps a caller inside the paths
  of its own user; what that service streams is folded, event by event, into the messages a chat page
  shows. The two wizards of the pages ask a route what can be chosen, keep a draft through their steps, and
  send it to the route that creates the resource.

  \<^bold>\<open>Theories and sources.\<close>
  \<^item> \<open>Prelude\<close>, \<open>Regex\<close>, \<open>Cache\<close>, \<open>Cluster\<close>, \<open>Calls\<close>: the shared vocabulary. \<open>Prelude\<close> has JavaScript's strings and
    absent values and the interface \<open>first_wins\<close> of every merge in which the first entry of a key
    stays; \<open>Regex\<close> regular expressions with a matcher proved against their languages; \<open>Cache\<close> the
    interface \<open>memoized\<close> of every answer kept for a time; \<open>Cluster\<close> the errors of the Kubernetes client,
    JSON pointers and the newest-first order. \<open>Calls\<close> has the actions of the handlers that read back what
    they write, the faults their calls may meet, rules for what holds afterwards, and the interface
    \<open>server\<close> of a set of requests that keep an invariant.
  \<^item> \<open>Json\<close>, \<open>Agent_Thread\<close>, \<open>Agent_Turn\<close>, \<open>Agent_Cards\<close>: \<open>lib/cubepilot/agentThread.ts\<close> and the types it
    uses. The messages and cards of a conversation, the fold over the events of a turn, the reload of a
    conversation with its open cards, and the display of tool arguments without their secrets.
  \<^item> \<open>Calendar\<close>, \<open>Cron\<close>: \<open>lib/cubepilot/cron.ts\<close>, the parsing, description and next run of a schedule, over
    civil dates.
  \<^item> \<open>Llm\<close>: \<open>lib/cubepilot/llm.ts\<close> and \<open>provider-names.ts\<close>, the names, endpoints and models of providers.
  \<^item> \<open>Allowlist\<close>: \<open>lib/cubepilot/allowlist.ts\<close> and \<open>instructions.ts\<close>, the commands an assistant may run
    without asking.
  \<^item> \<open>Pilot_Path\<close>: \<open>lib/cubepilot/pilotpath.ts\<close>, the boundary of the assistant proxy. \<open>Proxies\<close>: the routes that
    forward, to the agent API (\<open>lib/cubepilot/pilotapi.ts\<close>), the Perses server and, for the playground, the gateways.
  \<^item> \<open>Auth\<close>: \<open>lib/auth\<close>, the routes under \<open>app/api/auth\<close> and \<open>proxy.ts\<close>.
  \<^item> \<open>Task_Crd\<close>: \<open>lib/cubepilot/taskcrd.ts\<close> and the routes of tasks and task templates.
  \<^item> \<open>Dev_Env\<close>, \<open>Dev_Env_Api\<close>: \<open>lib/devenvironments/images.ts\<close> and the routes of development environments.
  \<^item> \<open>Gateway\<close>: \<open>lib/cubepilot/gateway.ts\<close>, the client of the model gateways.
  \<^item> \<open>Inference\<close>, \<open>Inference_Metrics\<close>, \<open>Inference_Api\<close>: \<open>app/api/inferenceservices/route.ts\<close> and
    \<open>lib/inference-routes.ts\<close>.
  \<^item> \<open>Agent_Crd\<close>: \<open>lib/cubepilot/agentcrd.ts\<close>, the assistant's resources and every read and write of them.
    \<open>Agent_Llms\<close>: \<open>agent/llms/route.ts\<close> and \<open>llms/[name]/route.ts\<close> (under \<open>app/api/cubepilot\<close>), external
    providers and their keys. \<open>Agent_Config\<close>: \<open>agent/config/route.ts\<close>, the caller's model. \<open>Agent_Skills\<close>:
    the routes of skills, status and confirmation. \<open>Agent_Models\<close>: \<open>agent/llm-models/route.ts\<close>. \<open>Agent_Api\<close>
    serves the requests of all but the last one over one store.
  \<^item> \<open>Options\<close>: \<open>lib/namespaces.ts\<close> and the routes of namespaces and of the options of the two wizards.
    \<open>Overview\<close>: \<open>app/api/overview/route.ts\<close>, the numbers of the first page. \<open>Instance_Poll\<close>:
    \<open>components/cubepilot/useInstancePoll.ts\<close>, the timer that watches an instance.
  \<^item> \<open>Dev_Wizard\<close>: the creation wizard of \<open>app/dev-environments/page.tsx\<close> as a machine of its events.
    \<open>Deploy\<close>, \<open>Deploy_Inputs\<close>: \<open>app/inference-services/page.tsx\<close>, the scale panel, the deployment wizard as a
    step relation, the values it derives from profile and nodes, and the inputs of a parameter. \<open>Panels\<close>:
    \<open>components/perses/conditional-panels.ts\<close> and \<open>DashboardConditionalPanels.tsx\<close>, the panels a dashboard shows.

  \<^bold>\<open>How code is represented.\<close> An object is a record, a tagged union a datatype, an absent field an option,
  an error thrown or answered the left part of a sum. A handler is a function from the answers of the
  outside world to its response and the list of the calls it makes, in the order of the source; so a
  property about writes is one about that list. State that outlives a request (the caches, the resources
  in the cluster) is passed explicitly, and histories of it are lists of accesses or an inductive
  predicate. The handlers of the assistant's configuration undo their own writes, so they are actions over
  a store (\<open>Calls\<close>): each call is applied, refused, or applied with its answer lost. The definitions
  compute.

  \<^bold>\<open>What the theorems show.\<close>
  \<^item> Who may do what: a guarded handler runs only for a signed, unexpired session, a login that succeeds
    opens one, a removed password stops working within thirty seconds, a task is read and changed only
    by its owner, the proxy never leaves the caller's paths and names the session's user alone, a credential route reads only the Secret of
    the named environment, and the gateway token is never sent in the clear to a configured address.
  \<^item> What is written is well-formed: every environment created, every inference service in the store
    after any sequence of requests with any failures, every rule and name derived. A creation of an
    environment, and the addition or edit of an external provider with its key, is all or nothing when a
    call fails; a patch changes exactly the keys it is meant to.
  \<^item> What is shared stays consistent: whatever requests to the assistant's configuration, and whatever
    faults, every selected external model is one the template lists, and no user's instance is written
    by another's request; a model saved is one the template lists, a policy saved is the one in effect,
    and a skill switched is the only one switched.
  \<^item> What is shown is what happened: the invariant of the message stream and the settling of its cards,
    the reload that loses no open card, the listings that show each resource once, and without secrets, and
    the dashboard without exactly the panels that are marked to go, its grids laid out again.
  \<^item> Forms and routes agree: for each wizard, what every reachable state keeps, and the exact reasons for
    which the route still refuses its request; for the scale panel, what the route accepts of what it sends;
    for the inputs, that what they write is allowed; for the values the wizard fills in, their bounds.
  \<^item> Reference equivalences and round trips: the next run of a schedule is the least matching minute, the
    argument parser inverts quoting, the validation of overrides decides its declarative description.
    The read of a foreign endpoint's answer returns although the answer may have no end.

  \<^bold>\<open>Parameters and bounds.\<close> What is not under \<open>src\<close> is an argument: the signing of tokens and the comparison
  of password hashes, base64, \<open>localeCompare\<close>, \<open>Number\<close> of a text, the Kubernetes API, Prometheus and the
  gateways. A hypothesis on one of them (a verified token was signed, a comparison is an order) is named
  in the theorem that needs it. The search for the next run of a schedule looks 366 days ahead, as the
  source does. Numbers are exact; the strings are sequences of 8-bit units. Concurrent calls of one
  handler are taken in the order of the source, and two requests do not interleave.

  \<^bold>\<open>Not modelled.\<close> Of the pages and components (\<open>.tsx\<close>) what only lays out, and their effects and stores in the
  browser; the dictionaries and locales: data; the operator (Go), charts and images: another language; the
  themes of the Perses panels, logging, and the construction of the Kubernetes client: calls of libraries;
  the tests. A stream that is forwarded is a text.
\<close>

end
